(* ===== verification/BFS_Prelude.thy ===== *)
theory BFS_Prelude
  imports Main "HOL-Library.Word" "HOL-Library.AList" "HOL-Library.Monad_Syntax"
begin

unbundle bit_operations_syntax

text \<open>
  The prelude of the BlockFS development: the names of the C++ integer types, the error
  numbers and open flags of the platform, the association lists that stand for
  \<open>std::unordered_map\<close>, little-endian byte strings, and the generic lemmas the
  component theories share. Collections declared here carry the component proofs:
  \<open>layout_simps\<close> (sizes and round trips of the packed structs) and \<open>amap_simps\<close>
  (lookups in updated maps).
\<close>

named_theorems layout_simps "sizes and round trips of packed structs"
named_theorems amap_simps "lookup laws of the unordered maps"

section \<open>Machine types\<close>

type_synonym u8 = "8 word"
type_synonym u32 = "32 word"
type_synonym u64 = "64 word"

text \<open>
  \<open>int32_t\<close> values are kept as \<^typ>\<open>u32\<close> where the code stores them in a packed
  struct; \<open>s32\<close> reads them as signed.
\<close>

abbreviation s32 :: "u32 \<Rightarrow> int" where
  "s32 \<equiv> sint"

abbreviation NUL :: char where
  "NUL \<equiv> CHR 0x00"

section \<open>Platform constants (errno.h, fcntl.h on x86-64 Linux)\<close>

abbreviation EPERM :: int where "EPERM \<equiv> 1"
abbreviation ENOENT :: int where "ENOENT \<equiv> 2"
abbreviation EINTR :: int where "EINTR \<equiv> 4"
abbreviation EIO :: int where "EIO \<equiv> 5"
abbreviation EBADF :: int where "EBADF \<equiv> 9"
abbreviation EACCES :: int where "EACCES \<equiv> 13"
abbreviation ENOTBLK :: int where "ENOTBLK \<equiv> 15"
abbreviation EBUSY :: int where "EBUSY \<equiv> 16"
abbreviation EEXIST :: int where "EEXIST \<equiv> 17"
abbreviation ENOTDIR :: int where "ENOTDIR \<equiv> 20"
abbreviation EISDIR :: int where "EISDIR \<equiv> 21"
abbreviation EINVAL :: int where "EINVAL \<equiv> 22"
abbreviation ENFILE :: int where "ENFILE \<equiv> 23"
abbreviation EMFILE :: int where "EMFILE \<equiv> 24"
abbreviation ENAMETOOLONG :: int where "ENAMETOOLONG \<equiv> 36"
abbreviation ENOLCK :: int where "ENOLCK \<equiv> 37"
abbreviation ENOTEMPTY :: int where "ENOTEMPTY \<equiv> 39"

abbreviation O_WRONLY :: u32 where "O_WRONLY \<equiv> 1"
abbreviation O_RDWR :: u32 where "O_RDWR \<equiv> 2"
abbreviation O_CREAT :: u32 where "O_CREAT \<equiv> 0x40"
abbreviation O_EXCL :: u32 where "O_EXCL \<equiv> 0x80"
abbreviation O_TRUNC :: u32 where "O_TRUNC \<equiv> 0x200"
abbreviation O_APPEND :: u32 where "O_APPEND \<equiv> 0x400"
abbreviation O_DIRECTORY :: u32 where "O_DIRECTORY \<equiv> 0x10000"
abbreviation O_TMPFILE :: u32 where "O_TMPFILE \<equiv> 0x410000"

section \<open>Unordered maps\<close>

text \<open>
  An \<open>std::unordered_map\<close> is an association list with distinct keys, listed in the
  container's iteration order. The C++ standard does not fix that order; no statement of
  the development depends on it. \<open>m[k] = v\<close> is \<open>AList.update\<close>, \<open>erase\<close> is
  \<open>AList.delete\<close>, \<open>find\<close> is \<open>map_of\<close>.
\<close>

type_synonym ('k, 'v) amap = "('k \<times> 'v) list"

abbreviation amap_put :: "'k \<Rightarrow> 'v \<Rightarrow> ('k, 'v) amap \<Rightarrow> ('k, 'v) amap" where
  "amap_put \<equiv> AList.update"

abbreviation amap_del :: "'k \<Rightarrow> ('k, 'v) amap \<Rightarrow> ('k, 'v) amap" where
  "amap_del \<equiv> AList.delete"

abbreviation amap_contains :: "'k \<Rightarrow> ('k, 'v) amap \<Rightarrow> bool" where
  "amap_contains k m \<equiv> map_of m k \<noteq> None"

declare update_conv' [amap_simps] delete_conv' [amap_simps]

lemma amap_put_lookup [simp]: "map_of (amap_put k v m) k' = (if k' = k then Some v else map_of m k')"
  by (simp add: amap_simps)

lemma amap_del_lookup [simp]: "map_of (amap_del k m) k' = (if k' = k then None else map_of m k')"
  by (simp add: amap_simps)

lemma amap_put_distinct [simp, intro]:
  "distinct (map fst m) \<Longrightarrow> distinct (map fst (amap_put k v m))"
  by (rule distinct_update)

lemma amap_del_distinct [simp, intro]:
  "distinct (map fst m) \<Longrightarrow> distinct (map fst (amap_del k m))"
  by (rule distinct_delete)

lemma amap_put_set:
  "distinct (map fst m) \<Longrightarrow>
     set (amap_put k v m) = insert (k, v) {e \<in> set m. fst e \<noteq> k}"
  by (induction m) (auto simp: image_iff)

lemma amap_del_set: "set (amap_del k m) = {e \<in> set m. fst e \<noteq> k}"
  by (auto simp: AList.delete_eq)

lemma amap_contains_iff: "amap_contains k m \<longleftrightarrow> k \<in> fst ` set m"
  by (simp add: map_of_eq_None_iff)

section \<open>Decimal numbers\<close>

text \<open>\<open>std::to_string\<close> of a number.\<close>

fun to_string :: "nat \<Rightarrow> string" where
  "to_string n = (if n < 10 then [char_of (48 + n)] else to_string (n div 10) @ [char_of (48 + n mod 10)])"

declare to_string.simps [simp del]

section \<open>Little-endian byte strings\<close>

text \<open>
  \<open>le n x\<close> is the \<open>n\<close>-byte little-endian image of \<open>x\<close>, the way an x86-64 machine
  stores an unsigned field of a packed struct; \<open>unle\<close> reads it back.
\<close>

primrec le :: "nat \<Rightarrow> nat \<Rightarrow> u8 list" where
  "le 0 x = []"
| "le (Suc n) x = word_of_nat x # le n (x div 256)"

primrec unle :: "u8 list \<Rightarrow> nat" where
  "unle [] = 0"
| "unle (b # bs) = unat b + 256 * unle bs"

lemma length_le [simp, layout_simps]: "length (le n x) = n"
  by (induction n arbitrary: x) auto

lemma unle_le [layout_simps]: "unle (le n x) = x mod 256 ^ n"
proof (induction n arbitrary: x)
  case 0
  then show ?case by simp
next
  case (Suc n)
  have "unat (word_of_nat x :: u8) = x mod 256"
    by (simp add: unat_of_nat)
  then have "unle (le (Suc n) x) = x mod 256 + 256 * (x div 256 mod 256 ^ n)"
    by (simp add: Suc.IH)
  also have "\<dots> = x mod (256 * 256 ^ n)"
    by (simp add: mod_mult2_eq)
  finally show ?case by simp
qed

text \<open>The characters of a \<open>char[]\<close> field as bytes.\<close>

definition byte_of_char :: "char \<Rightarrow> u8" where
  "byte_of_char c = word_of_nat (of_char c)"

definition char_of_byte :: "u8 \<Rightarrow> char" where
  "char_of_byte b = char_of (unat b)"

lemma char_of_byte_of_char [simp, layout_simps]: "char_of_byte (byte_of_char c) = c"
proof -
  have "(of_char c :: nat) < 256"
    using of_char_mod_256 [of c, where 'a = nat] mod_less_divisor [of 256 "of_char c"] by simp
  then show ?thesis
    by (simp add: char_of_byte_def byte_of_char_def unat_of_nat)
qed

text \<open>\<open>fit n z xs\<close> is an array field of exactly \<open>n\<close> elements.\<close>

definition fit :: "nat \<Rightarrow> 'a \<Rightarrow> 'a list \<Rightarrow> 'a list" where
  "fit n z xs = take n xs @ replicate (n - length xs) z"

lemma length_fit [simp, layout_simps]: "length (fit n z xs) = n"
  by (simp add: fit_def)

lemma fit_id [simp, layout_simps]: "length xs = n \<Longrightarrow> fit n z xs = xs"
  by (simp add: fit_def)

section \<open>C strings\<close>

text \<open>
  \<open>std::string(buf)\<close> on a \<open>char[]\<close> reads up to the first NUL; \<open>memcpy(dst, s.c_str(), n)\<close>
  with \<open>n\<close> beyond the string copies the terminator and whatever bytes lie behind it.
\<close>

definition cstr :: "string \<Rightarrow> string" where
  "cstr xs = takeWhile (\<lambda>c. c \<noteq> NUL) xs"

definition memcpy_cstr :: "nat \<Rightarrow> string \<Rightarrow> string \<Rightarrow> string" where
  "memcpy_cstr n s behind = fit n NUL (s @ NUL # behind)"

lemma length_memcpy_cstr [simp, layout_simps]: "length (memcpy_cstr n s behind) = n"
  by (simp add: memcpy_cstr_def)

lemma cstr_memcpy_cstr:
  assumes "length s < n" and "NUL \<notin> set s"
  shows "cstr (memcpy_cstr n s behind) = s"
proof -
  have "memcpy_cstr n s behind
      = s @ NUL # (take (n - Suc (length s)) behind @ replicate (n - length (s @ NUL # behind)) NUL)"
    using assms(1) by (simp add: memcpy_cstr_def fit_def take_Cons' Suc_diff_Suc)
  moreover have "takeWhile (\<lambda>c. c \<noteq> NUL) (s @ NUL # zs) = s" for zs
    using assms(2) by (subst takeWhile_append2) auto
  ultimately show ?thesis by (simp add: cstr_def)
qed

section \<open>Lists\<close>

lemma set_take_drop_disjoint:
  "distinct xs \<Longrightarrow> set (take n xs) \<inter> set (drop n xs) = {}"
  by (metis append_take_drop_id distinct_append)

lemma set_take_drop_union: "set (take n xs) \<union> set (drop n xs) = set xs"
  by (metis append_take_drop_id set_append)

end
