(* ===== verification/Meta_Defines.thy ===== *)
theory Meta_Defines
  imports BFS_Prelude
begin

text \<open>
  The on-disk metadata of BlockFS (\<open>lib/meta_defines.h\<close>): the layout constants, the four
  packed structs and the byte image each has on an x86-64 machine. The unions of the source
  overlay a struct with a \<open>reserved_\<close> array that fixes the record size; the bytes
  behind the last named field are kept in a \<open>pad\<close> field, since the checksum covers
  them. The program has no such
  functions: it writes and reads the memory of the structs, whose bytes \<open>enc_\<dots>\<close> lists field by field in
  the order of the declaration. The image functions \<open>enc_\<dots>\<close> always yield the size the \<open>static_assert\<close>s
  demand, and \<open>dec_\<dots>\<close> inverts them on well-formed records.
\<close>

section \<open>Layout constants\<close>

definition K :: u64 where "K = 1024"
definition M :: u64 where "M = 1024 * K"
definition G :: u64 where "G = 1024 * M"
definition T :: u64 where "T = 1024 * G"

definition kBlockFsMagic :: u32 where "kBlockFsMagic = 0xA5201314"
definition kBlockFsPageSize :: u64 where "kBlockFsPageSize = 4 * K"
definition kSuperBlockSize :: u64 where "kSuperBlockSize = kBlockFsPageSize"
definition kSuperBlockOffset :: u64 where "kSuperBlockOffset = 0"
definition kDirMetaOffset :: u64 where "kDirMetaOffset = kSuperBlockOffset + kSuperBlockSize"
definition kMaxFileNum :: u64 where "kMaxFileNum = 100000"
definition kBlockFsMaxUDiskSize :: u64 where "kBlockFsMaxUDiskSize = 128 * T"
definition kBlockSize :: u64 where "kBlockSize = 4 * M"
definition kBlockFsMaxDirNameLen :: u64 where "kBlockFsMaxDirNameLen = 768"
definition kBlockFsMaxFileNameLen :: u64 where "kBlockFsMaxFileNameLen = 64"
definition kBlockFsDirMetaSize :: u64 where "kBlockFsDirMetaSize = 1 * K"
definition kBlockFsFileMetaSize :: u64 where "kBlockFsFileMetaSize = 256"
definition kFileBlockCapacity :: u64 where "kFileBlockCapacity = 1000"
definition kBlockFsFileBlockMetaSize :: u64 where "kBlockFsFileBlockMetaSize = kBlockFsPageSize"

lemmas size_consts = K_def M_def G_def T_def

lemmas layout_consts = size_consts kBlockFsMagic_def kBlockFsPageSize_def kSuperBlockSize_def
  kSuperBlockOffset_def kDirMetaOffset_def kMaxFileNum_def kBlockFsMaxUDiskSize_def
  kBlockSize_def kBlockFsMaxDirNameLen_def kBlockFsMaxFileNameLen_def kBlockFsDirMetaSize_def
  kBlockFsFileMetaSize_def kFileBlockCapacity_def kBlockFsFileBlockMetaSize_def

section \<open>The packed structs\<close>

record SuperBlockMeta =
  sb_crc :: u32
  sb_uuid :: string
  sb_magic :: u32
  sb_max_file_num :: u64
  sb_max_support_udisk_size :: u64
  sb_max_file_block_num :: u64
  sb_max_support_block_num :: u64
  sb_block_size :: u64
  sb_max_dir_name_len :: u64
  sb_max_file_name_len :: u64
  sb_dir_meta_size :: u64
  sb_file_meta_size :: u64
  sb_file_block_meta_size :: u64
  sb_super_block_size :: u64
  sb_dir_meta_total_size :: u64
  sb_file_meta_total_size :: u64
  sb_file_block_meta_total_size :: u64
  sb_super_block_offset :: u64
  sb_dir_meta_offset :: u64
  sb_file_meta_offset :: u64
  sb_file_block_meta_offset :: u64
  sb_block_data_start_offset :: u64
  sb_device_size :: u64
  sb_curr_block_num :: u64
  sb_pad :: "u8 list"

record DirMeta =
  dm_crc :: u32
  dm_dh :: u64
  dm_size :: u64
  dm_mode :: u32
  dm_uid :: u32
  dm_gid :: u32
  dm_atime :: u64
  dm_mtime :: u64
  dm_ctime :: u64
  dm_used :: bool
  dm_dir_name :: string
  dm_pad :: "u8 list"

record FileMeta =
  fm_crc :: u32
  fm_fh :: u64
  fm_size :: u64
  fm_nlink :: u32
  fm_mode :: u32
  fm_uid :: u32
  fm_gid :: u32
  fm_atime :: u64
  fm_mtime :: u64
  fm_ctime :: u64
  fm_dh :: u64
  fm_child_fh :: u32
  fm_parent_fh :: u32
  fm_parent_size :: u64
  fm_used :: bool
  fm_is_temp :: bool
  fm_file_name :: string
  fm_pad :: "u8 list"

record FileBlockMeta =
  fb_crc :: u32
  fb_index :: u32
  fb_fh :: u32
  fb_file_cut :: u32
  fb_used_block_num :: u32
  fb_used :: bool
  fb_is_temp :: bool
  fb_block_id :: "u32 list"
  fb_pad :: "u8 list"

text \<open>An array field has exactly its declared number of elements.\<close>

definition wf_SuperBlockMeta :: "SuperBlockMeta \<Rightarrow> bool" where
  "wf_SuperBlockMeta m \<longleftrightarrow> length (sb_uuid m) = 64 \<and> length (sb_pad m) = 3856"

definition wf_DirMeta :: "DirMeta \<Rightarrow> bool" where
  "wf_DirMeta m \<longleftrightarrow> length (dm_dir_name m) = 768 \<and> length (dm_pad m) = 199"

definition wf_FileMeta :: "FileMeta \<Rightarrow> bool" where
  "wf_FileMeta m \<longleftrightarrow> length (fm_file_name m) = 64 \<and> length (fm_pad m) = 106"

definition wf_FileBlockMeta :: "FileBlockMeta \<Rightarrow> bool" where
  "wf_FileBlockMeta m \<longleftrightarrow> length (fb_block_id m) = 1000 \<and> length (fb_pad m) = 74"

section \<open>Field images\<close>

definition enc32 :: "u32 \<Rightarrow> u8 list" where "enc32 w = le 4 (unat w)"
definition enc64 :: "u64 \<Rightarrow> u8 list" where "enc64 w = le 8 (unat w)"
definition encb :: "bool \<Rightarrow> u8 list" where "encb b = [if b then 1 else 0]"
definition encs :: "nat \<Rightarrow> string \<Rightarrow> u8 list" where "encs n s = map byte_of_char (fit n NUL s)"
definition encpad :: "nat \<Rightarrow> u8 list \<Rightarrow> u8 list" where "encpad n p = fit n 0 p"

definition get32 :: "u8 list \<Rightarrow> u32 \<times> u8 list" where
  "get32 bs = (word_of_nat (unle (take 4 bs)), drop 4 bs)"
definition get64 :: "u8 list \<Rightarrow> u64 \<times> u8 list" where
  "get64 bs = (word_of_nat (unle (take 8 bs)), drop 8 bs)"
definition getb :: "u8 list \<Rightarrow> bool \<times> u8 list" where
  "getb bs = (unle (take 1 bs) \<noteq> 0, drop 1 bs)"
definition gets :: "nat \<Rightarrow> u8 list \<Rightarrow> string \<times> u8 list" where
  "gets n bs = (map char_of_byte (take n bs), drop n bs)"

lemma length_enc_fields [simp, layout_simps]:
  "length (enc32 w) = 4" "length (enc64 x) = 8" "length (encb b) = 1"
  "length (encs n s) = n" "length (encpad n p) = n"
  by (simp_all add: enc32_def enc64_def encb_def encs_def encpad_def)

lemma get32_enc32 [simp, layout_simps]: "get32 (enc32 w @ r) = (w, r)"
proof -
  have "unat w mod 256 ^ 4 = unat w"
    using unsigned_less [of w, where 'a = nat] by simp
  then show ?thesis by (simp add: get32_def enc32_def unle_le)
qed

lemma get64_enc64 [simp, layout_simps]: "get64 (enc64 w @ r) = (w, r)"
proof -
  have "unat w mod 256 ^ 8 = unat w"
    using unsigned_less [of w, where 'a = nat] by simp
  then show ?thesis by (simp add: get64_def enc64_def unle_le)
qed

lemma getb_encb [simp, layout_simps]: "getb (encb b @ r) = (b, r)"
  by (simp add: getb_def encb_def)

lemma gets_encs [simp, layout_simps]: "length s = n \<Longrightarrow> gets n (encs n s @ r) = (s, r)"
  by (simp add: gets_def encs_def comp_def)

text \<open>The \<open>uint32_t block_id_[kFileBlockCapacity]\<close> array.\<close>

definition enc_ids :: "u32 list \<Rightarrow> u8 list" where
  "enc_ids ids = concat (map enc32 (fit 1000 0 ids))"

fun get_ids :: "nat \<Rightarrow> u8 list \<Rightarrow> u32 list \<times> u8 list" where
  "get_ids 0 bs = ([], bs)"
| "get_ids (Suc n) bs =
     (let (w, bs1) = get32 bs; (ws, bs2) = get_ids n bs1 in (w # ws, bs2))"

lemma length_concat_enc32: "length (concat (map enc32 ws)) = 4 * length ws"
  by (induction ws) auto

lemma length_enc_ids [simp, layout_simps]: "length (enc_ids ids) = 4000"
  by (simp add: enc_ids_def length_concat_enc32)

lemma get_ids_concat: "get_ids (length ws) (concat (map enc32 ws) @ r) = (ws, r)"
  by (induction ws) auto

lemma get_ids_enc_ids [simp, layout_simps]:
  "length ids = 1000 \<Longrightarrow> get_ids 1000 (enc_ids ids @ r) = (ids, r)"
  using get_ids_concat [of ids r] by (simp add: enc_ids_def)

section \<open>Struct images\<close>

text \<open>
  The image of a struct without its first four bytes is what \<open>Crc32\<close> is applied to;
  the image itself is the checksum field in front of it.
\<close>

definition body_SuperBlockMeta :: "SuperBlockMeta \<Rightarrow> u8 list" where
  "body_SuperBlockMeta m =
     encs 64 (sb_uuid m) @ enc32 (sb_magic m) @
     enc64 (sb_max_file_num m) @ enc64 (sb_max_support_udisk_size m) @
     enc64 (sb_max_file_block_num m) @ enc64 (sb_max_support_block_num m) @
     enc64 (sb_block_size m) @ enc64 (sb_max_dir_name_len m) @
     enc64 (sb_max_file_name_len m) @ enc64 (sb_dir_meta_size m) @
     enc64 (sb_file_meta_size m) @ enc64 (sb_file_block_meta_size m) @
     enc64 (sb_super_block_size m) @ enc64 (sb_dir_meta_total_size m) @
     enc64 (sb_file_meta_total_size m) @ enc64 (sb_file_block_meta_total_size m) @
     enc64 (sb_super_block_offset m) @ enc64 (sb_dir_meta_offset m) @
     enc64 (sb_file_meta_offset m) @ enc64 (sb_file_block_meta_offset m) @
     enc64 (sb_block_data_start_offset m) @ enc64 (sb_device_size m) @
     enc64 (sb_curr_block_num m) @ encpad 3856 (sb_pad m)"

definition enc_SuperBlockMeta :: "SuperBlockMeta \<Rightarrow> u8 list" where
  "enc_SuperBlockMeta m = enc32 (sb_crc m) @ body_SuperBlockMeta m"

definition dec_SuperBlockMeta :: "u8 list \<Rightarrow> SuperBlockMeta" where
  "dec_SuperBlockMeta bs0 =
    (let (crc, bs1) = get32 bs0; (uuid, bs2) = gets 64 bs1; (magic, bs3) = get32 bs2;
         (mfn, bs4) = get64 bs3; (mus, bs5) = get64 bs4; (mfb, bs6) = get64 bs5;
         (msb, bs7) = get64 bs6; (bsz, bs8) = get64 bs7; (mdl, bs9) = get64 bs8;
         (mfl, bs10) = get64 bs9; (dms, bs11) = get64 bs10; (fms, bs12) = get64 bs11;
         (fbs, bs13) = get64 bs12; (sbs, bs14) = get64 bs13; (dmt, bs15) = get64 bs14;
         (fmt, bs16) = get64 bs15; (fbt, bs17) = get64 bs16; (sbo, bs18) = get64 bs17;
         (dmo, bs19) = get64 bs18; (fmo, bs20) = get64 bs19; (fbo, bs21) = get64 bs20;
         (bds, bs22) = get64 bs21; (dsz, bs23) = get64 bs22; (cbn, bs24) = get64 bs23
     in \<lparr>sb_crc = crc, sb_uuid = uuid, sb_magic = magic, sb_max_file_num = mfn,
          sb_max_support_udisk_size = mus, sb_max_file_block_num = mfb,
          sb_max_support_block_num = msb, sb_block_size = bsz, sb_max_dir_name_len = mdl,
          sb_max_file_name_len = mfl, sb_dir_meta_size = dms, sb_file_meta_size = fms,
          sb_file_block_meta_size = fbs, sb_super_block_size = sbs,
          sb_dir_meta_total_size = dmt, sb_file_meta_total_size = fmt,
          sb_file_block_meta_total_size = fbt, sb_super_block_offset = sbo,
          sb_dir_meta_offset = dmo, sb_file_meta_offset = fmo,
          sb_file_block_meta_offset = fbo, sb_block_data_start_offset = bds,
          sb_device_size = dsz, sb_curr_block_num = cbn, sb_pad = take 3856 bs24\<rparr>)"

definition body_DirMeta :: "DirMeta \<Rightarrow> u8 list" where
  "body_DirMeta m =
     enc64 (dm_dh m) @ enc64 (dm_size m) @ enc32 (dm_mode m) @ enc32 (dm_uid m) @
     enc32 (dm_gid m) @ enc64 (dm_atime m) @ enc64 (dm_mtime m) @ enc64 (dm_ctime m) @
     encb (dm_used m) @ encs 768 (dm_dir_name m) @ encpad 199 (dm_pad m)"

definition enc_DirMeta :: "DirMeta \<Rightarrow> u8 list" where
  "enc_DirMeta m = enc32 (dm_crc m) @ body_DirMeta m"

definition dec_DirMeta :: "u8 list \<Rightarrow> DirMeta" where
  "dec_DirMeta bs0 =
    (let (crc, bs1) = get32 bs0; (dh, bs2) = get64 bs1; (sz, bs3) = get64 bs2;
         (mode, bs4) = get32 bs3; (uid, bs5) = get32 bs4; (gid, bs6) = get32 bs5;
         (at, bs7) = get64 bs6; (mt, bs8) = get64 bs7; (ct, bs9) = get64 bs8;
         (used, bs10) = getb bs9; (name, bs11) = gets 768 bs10
     in \<lparr>dm_crc = crc, dm_dh = dh, dm_size = sz, dm_mode = mode, dm_uid = uid, dm_gid = gid,
          dm_atime = at, dm_mtime = mt, dm_ctime = ct, dm_used = used, dm_dir_name = name,
          dm_pad = take 199 bs11\<rparr>)"

definition body_FileMeta :: "FileMeta \<Rightarrow> u8 list" where
  "body_FileMeta m =
     enc64 (fm_fh m) @ enc64 (fm_size m) @ enc32 (fm_nlink m) @ enc32 (fm_mode m) @
     enc32 (fm_uid m) @ enc32 (fm_gid m) @ enc64 (fm_atime m) @ enc64 (fm_mtime m) @
     enc64 (fm_ctime m) @ enc64 (fm_dh m) @ enc32 (fm_child_fh m) @ enc32 (fm_parent_fh m) @
     enc64 (fm_parent_size m) @ encb (fm_used m) @ encb (fm_is_temp m) @
     encs 64 (fm_file_name m) @ encpad 106 (fm_pad m)"

definition enc_FileMeta :: "FileMeta \<Rightarrow> u8 list" where
  "enc_FileMeta m = enc32 (fm_crc m) @ body_FileMeta m"

definition dec_FileMeta :: "u8 list \<Rightarrow> FileMeta" where
  "dec_FileMeta bs0 =
    (let (crc, bs1) = get32 bs0; (fh, bs2) = get64 bs1; (sz, bs3) = get64 bs2;
         (nl, bs4) = get32 bs3; (mode, bs5) = get32 bs4; (uid, bs6) = get32 bs5;
         (gid, bs7) = get32 bs6; (at, bs8) = get64 bs7; (mt, bs9) = get64 bs8;
         (ct, bs10) = get64 bs9; (dh, bs11) = get64 bs10; (ch, bs12) = get32 bs11;
         (ph, bs13) = get32 bs12; (ps, bs14) = get64 bs13; (used, bs15) = getb bs14;
         (tmp, bs16) = getb bs15; (name, bs17) = gets 64 bs16
     in \<lparr>fm_crc = crc, fm_fh = fh, fm_size = sz, fm_nlink = nl, fm_mode = mode, fm_uid = uid,
          fm_gid = gid, fm_atime = at, fm_mtime = mt, fm_ctime = ct, fm_dh = dh,
          fm_child_fh = ch, fm_parent_fh = ph, fm_parent_size = ps, fm_used = used,
          fm_is_temp = tmp, fm_file_name = name, fm_pad = take 106 bs17\<rparr>)"

definition body_FileBlockMeta :: "FileBlockMeta \<Rightarrow> u8 list" where
  "body_FileBlockMeta m =
     enc32 (fb_index m) @ enc32 (fb_fh m) @ enc32 (fb_file_cut m) @
     enc32 (fb_used_block_num m) @ encb (fb_used m) @ encb (fb_is_temp m) @
     enc_ids (fb_block_id m) @ encpad 74 (fb_pad m)"

definition enc_FileBlockMeta :: "FileBlockMeta \<Rightarrow> u8 list" where
  "enc_FileBlockMeta m = enc32 (fb_crc m) @ body_FileBlockMeta m"

definition dec_FileBlockMeta :: "u8 list \<Rightarrow> FileBlockMeta" where
  "dec_FileBlockMeta bs0 =
    (let (crc, bs1) = get32 bs0; (ix, bs2) = get32 bs1; (fh, bs3) = get32 bs2;
         (cut, bs4) = get32 bs3; (n, bs5) = get32 bs4; (used, bs6) = getb bs5;
         (tmp, bs7) = getb bs6; (ids, bs8) = get_ids 1000 bs7
     in \<lparr>fb_crc = crc, fb_index = ix, fb_fh = fh, fb_file_cut = cut, fb_used_block_num = n,
          fb_used = used, fb_is_temp = tmp, fb_block_id = ids, fb_pad = take 74 bs8\<rparr>)"

lemmas enc_defs = enc_SuperBlockMeta_def enc_DirMeta_def enc_FileMeta_def enc_FileBlockMeta_def
  body_SuperBlockMeta_def body_DirMeta_def body_FileMeta_def body_FileBlockMeta_def

section \<open>Sizes and round trips\<close>

text \<open>The four \<open>static_assert\<close>s, for the images.\<close>

lemma length_enc_SuperBlockMeta [simp, layout_simps]: "length (enc_SuperBlockMeta m) = 4096"
  by (simp add: enc_defs)

lemma length_enc_DirMeta [simp, layout_simps]: "length (enc_DirMeta m) = 1024"
  by (simp add: enc_defs)

lemma length_enc_FileMeta [simp, layout_simps]: "length (enc_FileMeta m) = 256"
  by (simp add: enc_defs)

lemma length_enc_FileBlockMeta [simp, layout_simps]: "length (enc_FileBlockMeta m) = 4096"
  by (simp add: enc_defs)

lemma encpad_id [simp]: "length p = n \<Longrightarrow> encpad n p = p"
  by (simp add: encpad_def)

lemma dec_enc_SuperBlockMeta [simp]:
  "wf_SuperBlockMeta m \<Longrightarrow> dec_SuperBlockMeta (enc_SuperBlockMeta m) = m"
  by (simp add: dec_SuperBlockMeta_def enc_defs wf_SuperBlockMeta_def)

lemma dec_enc_DirMeta [simp]: "wf_DirMeta m \<Longrightarrow> dec_DirMeta (enc_DirMeta m) = m"
  by (simp add: dec_DirMeta_def enc_defs wf_DirMeta_def)

lemma dec_enc_FileMeta [simp]: "wf_FileMeta m \<Longrightarrow> dec_FileMeta (enc_FileMeta m) = m"
  by (simp add: dec_FileMeta_def enc_defs wf_FileMeta_def)

lemma dec_enc_FileBlockMeta [simp]:
  "wf_FileBlockMeta m \<Longrightarrow> dec_FileBlockMeta (enc_FileBlockMeta m) = m"
  by (simp add: dec_FileBlockMeta_def enc_defs wf_FileBlockMeta_def)

end
