(* ===== verification/Pools.thy ===== *)
theory Pools
  imports Meta_Defines
begin

text \<open>
  The two resource pools that have no metadata of their own: file descriptors
  (\<open>lib/fd_handle.h\<close>) and free data blocks (\<open>lib/block_handle.h\<close>,
  \<open>lib/block_handle.cc\<close>). The locale \<open>id_pool\<close> states what a client of such a
  pool relies on; its lemmas, proved once, say that a client that only returns what it was
  given never sees an identifier twice and never loses one. The mutexes of the source make
  every operation atomic; each is one function here.
\<close>

section \<open>The interface of a pool of identifiers\<close>

datatype 'a pool_op = Alloc | Free 'a

text \<open>
  A client holds the identifiers it was given and not yet returned. It returns only
  identifiers it holds.
\<close>

fun pool_step ::
  "('h \<Rightarrow> 'a option \<times> 'h) \<Rightarrow> ('a \<Rightarrow> 'h \<Rightarrow> 'h) \<Rightarrow> 'h \<times> 'a set \<Rightarrow> 'a pool_op \<Rightarrow> 'h \<times> 'a set" where
  "pool_step alloc free (h, held) Alloc =
     (case alloc h of (None, h') \<Rightarrow> (h', held) | (Some x, h') \<Rightarrow> (h', insert x held))"
| "pool_step alloc free (h, held) (Free x) =
     (if x \<in> held then (free x h, held - {x}) else (h, held))"

fun pool_run ::
  "('h \<Rightarrow> 'a option \<times> 'h) \<Rightarrow> ('a \<Rightarrow> 'h \<Rightarrow> 'h) \<Rightarrow> 'h \<times> 'a set \<Rightarrow> 'a pool_op list \<Rightarrow> 'h \<times> 'a set" where
  "pool_run alloc free c [] = c"
| "pool_run alloc free c (x # xs) = pool_run alloc free (pool_step alloc free c x) xs"

locale id_pool =
  fixes alloc :: "'h \<Rightarrow> 'a option \<times> 'h"
    and free :: "'a \<Rightarrow> 'h \<Rightarrow> 'h"
    and content :: "'h \<Rightarrow> 'a set"
    and univ :: "'h \<Rightarrow> 'a set"
    and inv :: "'h \<Rightarrow> bool"
  assumes alloc_some: "inv h \<Longrightarrow> alloc h = (Some x, h') \<Longrightarrow>
      x \<in> content h \<and> content h' = content h - {x} \<and> inv h' \<and> univ h' = univ h"
    and alloc_none: "inv h \<Longrightarrow> alloc h = (None, h') \<Longrightarrow> h' = h \<and> content h = {}"
    and free_law: "inv h \<Longrightarrow> x \<in> univ h \<Longrightarrow> x \<notin> content h \<Longrightarrow>
      content (free x h) = insert x (content h) \<and> inv (free x h) \<and> univ (free x h) = univ h"
    and content_univ: "inv h \<Longrightarrow> content h \<subseteq> univ h"
begin

text \<open>The identifiers are split between the pool and the client.\<close>

lemma step_conserves:
  assumes "inv h" "content h \<inter> held = {}" "content h \<union> held = univ h"
    and "pool_step alloc free (h, held) op = (h', held')"
  shows "inv h' \<and> content h' \<inter> held' = {} \<and> content h' \<union> held' = univ h' \<and> univ h' = univ h"
proof (cases op)
  case Alloc
  obtain r h1 where a: "alloc h = (r, h1)" by (cases "alloc h")
  show ?thesis
  proof (cases r)
    case None
    then show ?thesis using assms Alloc a alloc_none [OF assms(1)] by auto
  next
    case (Some x)
    then show ?thesis using assms Alloc a alloc_some [OF assms(1), of x h1] by auto
  qed
next
  case (Free x)
  show ?thesis
  proof (cases "x \<in> held")
    case True
    with assms have "x \<in> univ h" "x \<notin> content h" by auto
    from free_law [OF assms(1) this] show ?thesis using assms Free True by auto
  next
    case False
    then show ?thesis using assms Free by auto
  qed
qed

lemma run_conserves:
  assumes "inv h" "content h \<inter> held = {}" "content h \<union> held = univ h"
    and "pool_run alloc free (h, held) ops = (h', held')"
  shows "inv h' \<and> content h' \<inter> held' = {} \<and> content h' \<union> held' = univ h"
  using assms
proof (induction ops arbitrary: h held)
  case Nil
  then show ?case by simp
next
  case (Cons x xs)
  obtain h1 held1 where s: "pool_step alloc free (h, held) x = (h1, held1)"
    by (cases "pool_step alloc free (h, held) x")
  from step_conserves [OF Cons.prems(1-3) s] Cons.IH [of h1 held1] Cons.prems(4) s
  show ?case by simp
qed

text \<open>An identifier that is handed out was not held by the client.\<close>

lemma alloc_fresh:
  assumes "inv h" "content h \<inter> held = {}" "alloc h = (Some x, h')"
  shows "x \<notin> held"
  using alloc_some [OF assms(1,3)] assms(2) by auto

lemma alloc_then_free:
  assumes "inv h" "alloc h = (Some x, h')"
  shows "content (free x h') = content h \<and> inv (free x h')"
proof -
  from alloc_some [OF assms]
  have "inv h'" "x \<in> content h" "content h' = content h - {x}" "univ h' = univ h" by auto
  moreover from this have "x \<in> univ h'" using content_univ [OF assms(1)] by auto
  ultimately show ?thesis using free_law [of h' x] by auto
qed

end

section \<open>FdHandle\<close>

record FdHandle =
  max_fd_num :: int
  free_fd_pool :: "int list"

definition FdHandle_new :: FdHandle where
  "FdHandle_new =
     (let max_fd = int (unat (push_bit 1 kMaxFileNum))
      in \<lparr>max_fd_num = max_fd, free_fd_pool = [0..max_fd - 1]\<rparr>)"

text \<open>\<open>Inl e\<close> is the return value \<open>-1\<close> with \<open>errno = e\<close>.\<close>

definition get_fd :: "FdHandle \<Rightarrow> (int + int) \<times> FdHandle" where
  "get_fd h = (case free_fd_pool h of
       [] \<Rightarrow> (Inl EMFILE, h)
     | fd # rest \<Rightarrow> (Inr fd, h\<lparr>free_fd_pool := rest\<rparr>))"

definition put_fd :: "int \<Rightarrow> FdHandle \<Rightarrow> FdHandle" where
  "put_fd fd h = (if fd > max_fd_num h then h
                  else h\<lparr>free_fd_pool := free_fd_pool h @ [fd]\<rparr>)"

definition fd_inv :: "FdHandle \<Rightarrow> bool" where
  "fd_inv h \<longleftrightarrow> distinct (free_fd_pool h) \<and> set (free_fd_pool h) \<subseteq> {0..<max_fd_num h}"

definition fd_alloc :: "FdHandle \<Rightarrow> int option \<times> FdHandle" where
  "fd_alloc h = (case get_fd h of (Inl e, h') \<Rightarrow> (None, h') | (Inr fd, h') \<Rightarrow> (Some fd, h'))"

interpretation fdp: id_pool fd_alloc put_fd
  "\<lambda>h. set (free_fd_pool h)" "\<lambda>h. {0..<max_fd_num h}" fd_inv
  by unfold_locales
    (auto simp: fd_alloc_def get_fd_def put_fd_def fd_inv_def split: list.splits)

lemma fd_inv_new: "fd_inv FdHandle_new"
  by (auto simp: fd_inv_def FdHandle_new_def Let_def)

lemma FdHandle_new_full: "set (free_fd_pool FdHandle_new) = {0..<max_fd_num FdHandle_new}"
  by (auto simp: FdHandle_new_def Let_def)

section \<open>BlockHandle\<close>

text \<open>
  The pool is a \<open>std::unordered_set\<close>: a list without repetitions, in iteration order.
\<close>

record BlockHandle =
  max_block_num :: u32
  block_id_pool :: "u32 list"

definition BlockHandle_new :: BlockHandle where
  "BlockHandle_new = \<lparr>max_block_num = 0, block_id_pool = []\<rparr>"

definition pool_emplace :: "u32 \<Rightarrow> u32 list \<Rightarrow> u32 list" where
  "pool_emplace i p = (if i \<in> set p then p else i # p)"

definition GetFreeBlockNum :: "BlockHandle \<Rightarrow> u64" where
  "GetFreeBlockNum h = word_of_nat (length (block_id_pool h))"

text \<open>
  \<open>block_lock\<close> indexes an array of 100000 mutexes; a larger identifier is undefined
  (\<open>None\<close>). The mutex itself makes a transfer atomic, as every step here is.
\<close>

definition block_lock :: "u32 \<Rightarrow> unit option" where
  "block_lock block_id = (if unat block_id < 100000 then Some () else None)"

definition GetSpecificBlockId :: "u32 \<Rightarrow> BlockHandle \<Rightarrow> bool \<times> BlockHandle" where
  "GetSpecificBlockId i h =
     (if i \<in> set (block_id_pool h)
      then (True, h\<lparr>block_id_pool := remove1 i (block_id_pool h)\<rparr>)
      else (False, h))"

text \<open>The \<open>for\<close> loop of \<open>GetFreeBlockIdLock\<close>: append \<open>*iter\<close>, erase it, advance.\<close>

fun grab_ids :: "nat \<Rightarrow> u32 list \<Rightarrow> u32 list \<Rightarrow> u32 list \<times> u32 list" where
  "grab_ids 0 ids p = (ids, p)"
| "grab_ids (Suc n) ids [] = (ids, [])"
| "grab_ids (Suc n) ids (i # p) = grab_ids n (ids @ [i]) p"

definition GetFreeBlockIdLock :: "u32 \<Rightarrow> BlockHandle \<Rightarrow> u32 list option \<times> BlockHandle" where
  "GetFreeBlockIdLock n h =
     (if length (block_id_pool h) < unat n then (None, h)
      else let (ids, p) = grab_ids (unat n) [] (block_id_pool h)
           in (Some ids, h\<lparr>block_id_pool := p\<rparr>))"

definition PutFreeBlockIdLock1 :: "u32 \<Rightarrow> BlockHandle \<Rightarrow> bool \<times> BlockHandle" where
  "PutFreeBlockIdLock1 i h = (True, h\<lparr>block_id_pool := pool_emplace i (block_id_pool h)\<rparr>)"

definition PutFreeBlockIdLock :: "u32 list \<Rightarrow> BlockHandle \<Rightarrow> bool \<times> BlockHandle" where
  "PutFreeBlockIdLock ids h =
     (if ids = [] then (False, h)
      else (True, h\<lparr>block_id_pool := fold pool_emplace ids (block_id_pool h)\<rparr>))"

text \<open>
  \<open>InitializeMeta\<close> also grows the pool after a resize: only the identifiers from the old
  to the new maximum are added. The 64-bit block count is truncated to \<open>uint32_t\<close>.
\<close>

definition BlockHandle_InitializeMeta :: "u64 \<Rightarrow> BlockHandle \<Rightarrow> bool \<times> BlockHandle" where
  "BlockHandle_InitializeMeta curr_block_num h =
     (let new_max = ucast curr_block_num :: u32;
          pool = fold (\<lambda>i. pool_emplace (word_of_nat i))
                   [unat (max_block_num h)..<unat new_max] (block_id_pool h)
      in (True, h\<lparr>block_id_pool := pool, max_block_num := new_max\<rparr>))"

definition block_inv :: "BlockHandle \<Rightarrow> bool" where
  "block_inv h \<longleftrightarrow> distinct (block_id_pool h) \<and> (\<forall>i \<in> set (block_id_pool h). i < max_block_num h)"

subsection \<open>Laws\<close>

lemma set_pool_emplace [simp]: "set (pool_emplace i p) = insert i (set p)"
  by (auto simp: pool_emplace_def)

lemma distinct_pool_emplace [simp]: "distinct (pool_emplace i p) = distinct p"
  by (auto simp: pool_emplace_def)

lemma set_fold_emplace [simp]: "set (fold pool_emplace ids p) = set ids \<union> set p"
  by (induction ids arbitrary: p) auto

lemma distinct_fold_emplace [simp]: "distinct (fold pool_emplace ids p) = distinct p"
  by (induction ids arbitrary: p) auto

lemma grab_ids_take_drop:
  "n \<le> length p \<Longrightarrow> grab_ids n ids p = (ids @ take n p, drop n p)"
  by (induction n ids p rule: grab_ids.induct) auto

lemma GetFreeBlockIdLock_eq:
  "GetFreeBlockIdLock n h =
     (if length (block_id_pool h) < unat n then (None, h)
      else (Some (take (unat n) (block_id_pool h)),
            h\<lparr>block_id_pool := drop (unat n) (block_id_pool h)\<rparr>))"
  by (simp add: GetFreeBlockIdLock_def grab_ids_take_drop)

definition block_alloc :: "BlockHandle \<Rightarrow> u32 option \<times> BlockHandle" where
  "block_alloc h = (case GetFreeBlockIdLock 1 h of
       (Some [i], h') \<Rightarrow> (Some i, h') | (_, h') \<Rightarrow> (None, h'))"

definition block_free :: "u32 \<Rightarrow> BlockHandle \<Rightarrow> BlockHandle" where
  "block_free i h = snd (PutFreeBlockIdLock1 i h)"

lemma block_alloc_eq:
  "block_alloc h = (case block_id_pool h of [] \<Rightarrow> (None, h)
     | i # p \<Rightarrow> (Some i, h\<lparr>block_id_pool := p\<rparr>))"
  by (cases "block_id_pool h") (auto simp: block_alloc_def GetFreeBlockIdLock_eq)

interpretation blkp: id_pool block_alloc block_free
  "\<lambda>h. set (block_id_pool h)" "\<lambda>h. {i. i < max_block_num h}" block_inv
  by unfold_locales
    (auto simp: block_alloc_eq block_free_def PutFreeBlockIdLock1_def block_inv_def
      split: list.splits)

lemma block_inv_take_drop:
  assumes "block_inv h" "GetFreeBlockIdLock n h = (Some ids, h')"
  shows "length ids = unat n" "distinct ids" "set ids \<subseteq> set (block_id_pool h)"
    "set (block_id_pool h') = set (block_id_pool h) - set ids" "block_inv h'"
    "max_block_num h' = max_block_num h"
proof -
  from assms(2) have le: "unat n \<le> length (block_id_pool h)"
    and ids: "ids = take (unat n) (block_id_pool h)"
    and h': "h' = h\<lparr>block_id_pool := drop (unat n) (block_id_pool h)\<rparr>"
    by (auto simp: GetFreeBlockIdLock_eq split: if_splits)
  have d: "distinct (block_id_pool h)" using assms(1) by (simp add: block_inv_def)
  show "length ids = unat n" using le ids by simp
  show "distinct ids" using d ids by simp
  show "set ids \<subseteq> set (block_id_pool h)" using ids by (simp add: set_take_subset)
  show "set (block_id_pool h') = set (block_id_pool h) - set ids"
    using set_take_drop_disjoint [OF d, of "unat n"] set_take_drop_union [of "unat n" "block_id_pool h"]
    by (auto simp: h' ids)
  show "block_inv h'"
    using assms(1) by (auto simp: h' block_inv_def dest: in_set_dropD)
  show "max_block_num h' = max_block_num h" by (simp add: h')
qed

lemma set_fold_emplace_nat:
  "set (fold (\<lambda>i. pool_emplace (word_of_nat i)) ns p) = word_of_nat ` set ns \<union> set p"
  by (induction ns arbitrary: p) auto

lemma distinct_fold_emplace_nat:
  "distinct (fold (\<lambda>i. pool_emplace (word_of_nat i)) ns p) = distinct p"
  by (induction ns arbitrary: p) auto

lemma word_of_nat_image_upt:
  "(word_of_nat ` {unat (a::u32)..<unat b} :: u32 set) = {i. a \<le> i \<and> i < b}"
proof (intro set_eqI iffI)
  fix i :: u32
  assume "i \<in> word_of_nat ` {unat a..<unat b}"
  then obtain n where n: "i = word_of_nat n" "unat a \<le> n" "n < unat b" by auto
  then have "n < 2 ^ 32" using unsigned_less [of b, where 'a = nat] by simp
  with n have "unat i = n" by (simp add: unat_of_nat)
  with n show "i \<in> {i. a \<le> i \<and> i < b}" by (simp add: word_le_nat_alt word_less_nat_alt)
next
  fix i :: u32
  assume "i \<in> {i. a \<le> i \<and> i < b}"
  then have "unat i \<in> {unat a..<unat b}" by (simp add: word_le_nat_alt word_less_nat_alt)
  then show "i \<in> word_of_nat ` {unat a..<unat b}"
    by (rule rev_image_eqI) simp
qed

lemma BlockHandle_InitializeMeta_pool:
  assumes "BlockHandle_InitializeMeta n h = (ok, h')"
  shows "set (block_id_pool h') =
      set (block_id_pool h) \<union> {i. max_block_num h \<le> i \<and> i < ucast n}"
    "max_block_num h' = ucast n" "ok"
  using assms
  by (auto simp: BlockHandle_InitializeMeta_def Let_def set_fold_emplace_nat
      simp flip: word_of_nat_image_upt)

lemma BlockHandle_InitializeMeta_inv:
  assumes "block_inv h" "max_block_num h \<le> ucast n"
    and "BlockHandle_InitializeMeta n h = (ok, h')"
  shows "block_inv h'"
proof -
  have "distinct (block_id_pool h')"
    using assms(1,3)
    by (auto simp: BlockHandle_InitializeMeta_def Let_def block_inv_def distinct_fold_emplace_nat)
  then show ?thesis
    using assms(1,2) BlockHandle_InitializeMeta_pool [OF assms(3)]
    by (auto simp: block_inv_def intro: order.strict_trans2)
qed

section \<open>Properties\<close>

text \<open>
  Whatever sequence of \<open>get_fd\<close> and \<open>put_fd\<close> calls a client makes that only returns
  descriptors it holds, starting from a new \<open>FdHandle\<close>: every one of the 200000 descriptors is
  either free or held by the client, none is both, and none is in the free list twice.
\<close>

theorem fd_pool_conserves:
  assumes "pool_run fd_alloc put_fd (FdHandle_new, {}) ops = (h, held)"
  shows "distinct (free_fd_pool h) \<and> set (free_fd_pool h) \<inter> held = {}
     \<and> set (free_fd_pool h) \<union> held = {0..<200000}"
proof -
  have "max_fd_num FdHandle_new = 200000" by (simp add: FdHandle_new_def Let_def layout_consts)
  then show ?thesis
    using fdp.run_conserves [OF fd_inv_new _ _ assms] FdHandle_new_full by (auto simp: fd_inv_def)
qed

theorem fd_pool_conserves_witness:
  "\<exists>h held. pool_run fd_alloc put_fd (FdHandle_new, {}) [Alloc, Alloc, Free 0] = (h, held)
     \<and> set (free_fd_pool h) \<union> held = {0..<200000}"
proof -
  obtain h held where r: "pool_run fd_alloc put_fd (FdHandle_new, {}) [Alloc, Alloc, Free 0] = (h, held)"
    by (meson surj_pair)
  from fd_pool_conserves [OF this] r show ?thesis by blast
qed

text \<open>
  C24. The same for data blocks, from the pool \<open>InitializeMeta\<close> sets up for \<open>n\<close> blocks: no
  block is ever handed out while another owner holds it, and none is lost.
\<close>

theorem block_pool_conserves:
  assumes "BlockHandle_InitializeMeta n BlockHandle_new = (ok, h0)"
    and "pool_run block_alloc block_free (h0, {}) ops = (h, held)"
  shows "distinct (block_id_pool h) \<and> set (block_id_pool h) \<inter> held = {}
     \<and> set (block_id_pool h) \<union> held = {i. i < ucast n}"
proof -
  note I = BlockHandle_InitializeMeta_pool [OF assms(1)]
  have "block_inv h0"
    by (rule BlockHandle_InitializeMeta_inv [OF _ _ assms(1)]) (simp_all add: BlockHandle_new_def block_inv_def)
  moreover have "set (block_id_pool h0) = {i. i < max_block_num h0}"
    using I(1,2) by (simp add: BlockHandle_new_def)
  ultimately show ?thesis
    using blkp.run_conserves [OF _ _ _ assms(2)] I(2) by (auto simp: block_inv_def)
qed

theorem block_pool_conserves_witness:
  "\<exists>h held. pool_run block_alloc block_free (snd (BlockHandle_InitializeMeta 3 BlockHandle_new), {})
       [Alloc, Alloc, Free 1, Alloc] = (h, held)
     \<and> set (block_id_pool h) \<union> held = {i. i < 3}"
proof -
  let ?h0 = "snd (BlockHandle_InitializeMeta 3 BlockHandle_new)"
  obtain h held where r: "pool_run block_alloc block_free (?h0, {}) [Alloc, Alloc, Free 1, Alloc] = (h, held)"
    by (meson surj_pair)
  from block_pool_conserves [OF prod.collapse [symmetric] this] r show ?thesis by auto
qed

text \<open>
  C25. \<open>GetFreeBlockIdLock\<close> is all or nothing: without enough free blocks it changes nothing;
  otherwise it hands out exactly the requested number of distinct free blocks, takes exactly these
  from the pool, and giving them back restores the pool.
\<close>

theorem GetFreeBlockIdLock_exact:
  assumes "block_inv h" and "GetFreeBlockIdLock n h = (r, h')"
  shows "(r = None \<longleftrightarrow> length (block_id_pool h) < unat n) \<and> (r = None \<longrightarrow> h' = h)
     \<and> (\<forall>ids. r = Some ids \<longrightarrow> length ids = unat n \<and> distinct ids \<and> set ids \<subseteq> set (block_id_pool h)
          \<and> set (block_id_pool h') = set (block_id_pool h) - set ids \<and> block_inv h'
          \<and> set (block_id_pool (snd (PutFreeBlockIdLock ids h'))) = set (block_id_pool h))"
proof (cases r)
  case None
  then show ?thesis using assms(2) by (auto simp: GetFreeBlockIdLock_eq split: if_splits)
next
  case (Some ids)
  note B = block_inv_take_drop [OF assms(1) assms(2) [unfolded Some]]
  have "\<not> length (block_id_pool h) < unat n"
    using assms(2) Some by (auto simp: GetFreeBlockIdLock_eq split: if_splits)
  then show ?thesis using Some B by (auto simp: PutFreeBlockIdLock_def)
qed

theorem GetFreeBlockIdLock_exact_witness:
  "\<exists>ids h'. GetFreeBlockIdLock 2 \<lparr>max_block_num = 5, block_id_pool = [4, 1, 3]\<rparr> = (Some ids, h')
     \<and> distinct ids \<and> set (block_id_pool h') = {4, 1, 3} - set ids"
proof -
  let ?h = "\<lparr>max_block_num = 5, block_id_pool = [4, 1, 3]\<rparr>"
  have "block_inv ?h" by (simp add: block_inv_def)
  moreover obtain r h' where g: "GetFreeBlockIdLock 2 ?h = (r, h')" by (meson surj_pair)
  ultimately have x: "(r = None \<longleftrightarrow> length (block_id_pool ?h) < unat (2::u32))"
    "\<forall>ids. r = Some ids \<longrightarrow> distinct ids \<and> set (block_id_pool h') = set (block_id_pool ?h) - set ids"
    using GetFreeBlockIdLock_exact [of ?h 2 r h'] by blast+
  then have "r \<noteq> None" by simp
  with x(2) g show ?thesis by auto
qed

text \<open>
  C31. \<open>BlockHandle::InitializeMeta\<close> after the device has grown: the new pool is the old one plus
  exactly the blocks between the old and the new number, so blocks in use stay in use.
\<close>

theorem InitializeMeta_grows:
  assumes "block_inv h" and "max_block_num h \<le> ucast n" and "BlockHandle_InitializeMeta n h = (ok, h')"
  shows "ok \<and> block_inv h' \<and> max_block_num h' = ucast n
     \<and> set (block_id_pool h') = set (block_id_pool h) \<union> {i. max_block_num h \<le> i \<and> i < ucast n}"
  using BlockHandle_InitializeMeta_inv [OF assms] BlockHandle_InitializeMeta_pool [OF assms(3)] by simp

theorem InitializeMeta_grows_witness:
  "set (block_id_pool (snd (BlockHandle_InitializeMeta 4 \<lparr>max_block_num = 2, block_id_pool = [1]\<rparr>)))
     = {1} \<union> {i. 2 \<le> i \<and> i < 4}"
proof -
  let ?h = "\<lparr>max_block_num = 2, block_id_pool = [1]\<rparr>"
  have "block_inv ?h" "max_block_num ?h \<le> ucast (4::u64)" by (simp_all add: block_inv_def)
  from InitializeMeta_grows [OF this prod.collapse [symmetric]] show ?thesis by simp
qed

end
