(* ===== verification/Comm_Utils.thy ===== *)
theory Comm_Utils
  imports Meta_Defines
begin

text \<open>
  \<open>lib/comm_utils.h\<close>: the rounding macros and the two path functions. Paths are
  non-empty in every caller; \<open>back()\<close> on an empty string is undefined in C++ and is
  read here as a character other than the separator.
\<close>

section \<open>Rounding\<close>

definition ALIGN_UP :: "u64 \<Rightarrow> u64 \<Rightarrow> u64" where
  "ALIGN_UP sz align = (sz + (align - 1)) div align"

definition ROUND_UP :: "u64 \<Rightarrow> u64 \<Rightarrow> u64" where
  "ROUND_UP sz align = ((sz + (align - 1)) div align) * align"

lemma unat_ALIGN_UP:
  assumes "0 < align" "unat sz + unat align \<le> 2 ^ 64"
  shows "unat (ALIGN_UP sz align) = (unat sz + unat align - 1) div unat align"
proof -
  have a: "unat (align - 1) = unat align - 1"
    using assms(1) by (simp add: unat_minus_one word_neq_0_conv)
  have pos: "0 < unat align" using assms(1) by (simp add: word_less_nat_alt)
  have "unat (sz + (align - 1)) = unat sz + (unat align - 1)"
    using assms(2) pos by (subst unat_add_lem [THEN iffD1]) (auto simp: a)
  with pos show ?thesis
    by (simp add: ALIGN_UP_def unat_div)
qed

lemma unat_ROUND_UP:
  assumes "0 < align" "unat sz + unat align \<le> 2 ^ 64"
  shows "unat (ROUND_UP sz align) = ((unat sz + unat align - 1) div unat align) * unat align"
proof -
  let ?q = "(unat sz + unat align - 1) div unat align"
  have pos: "0 < unat align" using assms(1) by (simp add: word_less_nat_alt)
  have le: "?q * unat align \<le> unat sz + unat align - 1" by simp
  then have "?q * unat align < 2 ^ 64" using assms(2) pos by linarith
  then have "unat (ALIGN_UP sz align * align) = ?q * unat align"
    using unat_ALIGN_UP [OF assms] by (simp add: unat_word_ariths)
  then show ?thesis by (simp add: ROUND_UP_def ALIGN_UP_def)
qed

lemma ceil_bounds_nat:
  fixes n a :: nat
  assumes "0 < a"
  shows "n \<le> ((n + a - 1) div a) * a" "((n + a - 1) div a) * a < n + a"
proof -
  have e: "(n + a - 1) div a * a + (n + a - 1) mod a = n + a - 1" by simp
  have m: "(n + a - 1) mod a < a" using assms by simp
  show "n \<le> ((n + a - 1) div a) * a" using e m assms by linarith
  have "((n + a - 1) div a) * a \<le> n + a - 1" by simp
  then show "((n + a - 1) div a) * a < n + a" using assms by linarith
qed

section \<open>Paths\<close>

abbreviation SLASH :: char where "SLASH \<equiv> CHR ''/''"

definition ends_with_slash :: "string \<Rightarrow> bool" where
  "ends_with_slash p \<longleftrightarrow> p \<noteq> [] \<and> last p = SLASH"

text \<open>
  \<open>std::filesystem::path::parent_path\<close>: a path without a relative part is its own parent;
  otherwise the last component and the separators in front of it are removed, and an
  absolute path keeps its root directory.
\<close>

definition fs_parent_path :: "string \<Rightarrow> string" where
  "fs_parent_path p =
     (if list_all (\<lambda>c. c = SLASH) p then p
      else let d = rev (dropWhile (\<lambda>c. c = SLASH) (dropWhile (\<lambda>c. c \<noteq> SLASH) (rev p)))
           in if d = [] \<and> hd p = SLASH then ''/'' else d)"

definition GetFileName :: "string \<Rightarrow> string" where
  "GetFileName path = rev (takeWhile (\<lambda>c. c \<noteq> SLASH) (rev path))"

definition GetDirName :: "string \<Rightarrow> string" where
  "GetDirName path =
     (if path = ''/'' then path
      else let tmp = (if ends_with_slash path then butlast path else path);
               parent_path = fs_parent_path tmp
           in if parent_path = ''/'' then parent_path else parent_path @ ''/'')"

text \<open>
  A directory name as the file system stores it: the root, or an absolute path whose last
  character is a single separator.
\<close>

definition dir_path :: "string \<Rightarrow> bool" where
  "dir_path d \<longleftrightarrow> d = ''/'' \<or>
     (\<exists>x. d = x @ ''/'' \<and> x \<noteq> [] \<and> hd x = SLASH \<and> last x \<noteq> SLASH)"

definition plain_name :: "string \<Rightarrow> bool" where
  "plain_name n \<longleftrightarrow> n \<noteq> [] \<and> SLASH \<notin> set n \<and> NUL \<notin> set n"

lemma takeWhile_rev_append:
  "SLASH \<notin> set n \<Longrightarrow> takeWhile (\<lambda>c. c \<noteq> SLASH) (rev n @ SLASH # r) = rev n"
  by (subst takeWhile_append2) auto

lemma dropWhile_rev_append:
  "SLASH \<notin> set n \<Longrightarrow> dropWhile (\<lambda>c. c \<noteq> SLASH) (rev n @ SLASH # r) = SLASH # r"
  by (subst dropWhile_append2) auto

lemma GetFileName_append:
  assumes "SLASH \<notin> set n"
  shows "GetFileName (d @ SLASH # n) = n"
  using takeWhile_rev_append [OF assms, of "rev d"] by (simp add: GetFileName_def)

lemma fs_parent_path_append:
  assumes "plain_name n" "x = [] \<or> hd x = SLASH \<and> last x \<noteq> SLASH"
  shows "fs_parent_path (x @ SLASH # n) = (if x = [] then ''/'' else x)"
proof -
  from assms(1) have n: "n \<noteq> []" "SLASH \<notin> set n" by (auto simp: plain_name_def)
  then have notall: "\<not> list_all (\<lambda>c. c = SLASH) (x @ SLASH # n)"
    by (cases n) auto
  have d: "dropWhile (\<lambda>c. c \<noteq> SLASH) (rev (x @ SLASH # n)) = SLASH # rev x"
    using dropWhile_rev_append [OF n(2), of "rev x"] by simp
  show ?thesis
  proof (cases "x = []")
    case True
    then show ?thesis using notall d by (simp add: fs_parent_path_def)
  next
    case False
    then obtain y c where x: "x = y @ [c]" by (cases x rule: rev_cases) auto
    with assms(2) have "c \<noteq> SLASH" by auto
    then show ?thesis using notall d x by (simp add: fs_parent_path_def)
  qed
qed

lemma last_plain_name: "plain_name n \<Longrightarrow> last n \<noteq> SLASH"
  by (metis last_in_set plain_name_def)

lemma dir_path_cases:
  assumes "dir_path d"
  obtains x where "d = x @ ''/''" "x = [] \<or> hd x = SLASH \<and> last x \<noteq> SLASH"
  using assms by (auto simp: dir_path_def)

lemma GetDirName_file:
  assumes "dir_path d" "plain_name n"
  shows "GetDirName (d @ n) = d" "GetFileName (d @ n) = n"
proof -
  obtain x where x: "d = x @ ''/''" "x = [] \<or> hd x = SLASH \<and> last x \<noteq> SLASH"
    using assms(1) by (rule dir_path_cases)
  have n: "n \<noteq> []" "SLASH \<notin> set n" using assms(2) by (auto simp: plain_name_def)
  have ends: "\<not> ends_with_slash (d @ n)"
    using last_plain_name [OF assms(2)] n(1) by (simp add: ends_with_slash_def)
  have "d @ n \<noteq> ''/''"
    using n x(1) by (cases x; cases n) auto
  then show "GetDirName (d @ n) = d"
    using ends fs_parent_path_append [OF assms(2) x(2)] x
    by (auto simp: GetDirName_def Let_def split: if_splits)
  show "GetFileName (d @ n) = n"
    using GetFileName_append [OF n(2), of x] x(1) by simp
qed

text \<open>The same for a directory, whose stored name carries a trailing separator.\<close>

lemma GetDirName_dir:
  assumes "dir_path d" "plain_name n"
  shows "GetDirName (d @ n @ ''/'') = d"
proof -
  have n: "n \<noteq> []" using assms(2) by (simp add: plain_name_def)
  have "d @ n @ ''/'' \<noteq> ''/''" using n by (cases d; cases n) auto
  moreover have "ends_with_slash (d @ n @ ''/'')" by (simp add: ends_with_slash_def)
  moreover have "butlast (d @ n @ ''/'') = d @ n" by (simp add: butlast_append)
  moreover have "\<not> ends_with_slash (d @ n)"
    using last_plain_name [OF assms(2)] n by (simp add: ends_with_slash_def)
  moreover have "d @ n \<noteq> ''/''"
    using n assms by (cases d; cases n) (auto simp: dir_path_def plain_name_def)
  ultimately show ?thesis
    using GetDirName_file(1) [OF assms] by (simp add: GetDirName_def)
qed

lemma dir_path_child:
  assumes "dir_path d" "plain_name n"
  shows "dir_path (d @ n @ ''/'')"
proof -
  have n: "n \<noteq> []" "last n \<noteq> SLASH"
    using assms(2) last_plain_name by (auto simp: plain_name_def)
  have "hd d = SLASH" "d \<noteq> []" using assms(1) by (auto simp: dir_path_def)
  with n show ?thesis
    by (auto simp: dir_path_def intro!: exI [of _ "d @ n"])
qed

section \<open>Property\<close>

text \<open>
  C30. Splitting a path: \<open>GetDirName\<close> and \<open>GetFileName\<close> take a file's path apart into the name
  of its directory, as the directory table stores it, and the last component; the parent of a
  directory is found from its stored name, which has a trailing separator.
\<close>

theorem path_split_join:
  assumes "dir_path d" and "plain_name n"
  shows "GetDirName (d @ n) = d \<and> GetFileName (d @ n) = n \<and> GetDirName (d @ n @ ''/'') = d
     \<and> dir_path (d @ n @ ''/'')"
  using GetDirName_file [OF assms] GetDirName_dir [OF assms] dir_path_child [OF assms] by simp

theorem path_split_join_witness:
  "GetDirName ''/ab/c'' = ''/ab/'' \<and> GetFileName ''/ab/c'' = ''c'' \<and> GetDirName ''/ab/c/'' = ''/ab/''"
proof -
  have "dir_path ''/ab/''" unfolding dir_path_def by (rule disjI2, rule exI [of _ "''/ab''"]) simp
  moreover have "plain_name ''c''" by (simp add: plain_name_def)
  ultimately show ?thesis using path_split_join [of "''/ab/''" "''c''"] by simp
qed

end
