(* ===== verification/Block_Device.thy ===== *)
theory Block_Device
  imports Meta_Defines
begin

text \<open>
  The block device (\<open>lib/device.cc\<close>) over a model of the kernel's I/O. The disk is a
  function from byte offsets to bytes. What the kernel does with each system call is read
  from a script: a call can be carried out in full, transfer fewer bytes than asked for, be
  interrupted, or fail; when the script is used up every call succeeds. Statements that
  hold for every script hold for every behaviour of the device. \<open>errno\<close> is part of the
  kernel record. The page cache and \<open>O_DIRECT\<close> descriptors see one disk content.
\<close>

section \<open>The kernel\<close>

datatype io_event = IoFull | IoShort nat | IoEintr | IoError int

record kernel =
  k_disk :: "nat \<Rightarrow> u8"
  k_script :: "io_event list"
  k_errno :: int

definition disk_write :: "(nat \<Rightarrow> u8) \<Rightarrow> nat \<Rightarrow> u8 list \<Rightarrow> nat \<Rightarrow> u8" where
  "disk_write d off bs = (\<lambda>i. if off \<le> i \<and> i < off + length bs then bs ! (i - off) else d i)"

definition disk_read :: "(nat \<Rightarrow> u8) \<Rightarrow> nat \<Rightarrow> nat \<Rightarrow> u8 list" where
  "disk_read d off n = map d [off..<off + n]"

lemma length_disk_read [simp]: "length (disk_read d off n) = n"
  by (simp add: disk_read_def)

lemma disk_read_0 [simp]: "disk_read d off 0 = []"
  by (simp add: disk_read_def)

lemma disk_write_Nil [simp]: "disk_write d off [] = d"
  by (rule ext) (auto simp: disk_write_def)

lemma disk_write_outside: "i < off \<or> off + length bs \<le> i \<Longrightarrow> disk_write d off bs i = d i"
  by (auto simp: disk_write_def)

lemma disk_read_write_same [simp]: "disk_read (disk_write d off bs) off (length bs) = bs"
  by (rule nth_equalityI) (auto simp: disk_read_def disk_write_def)

lemma disk_read_write_disjoint:
  "o1 + n \<le> off \<or> off + length bs \<le> o1 \<Longrightarrow>
     disk_read (disk_write d off bs) o1 n = disk_read d o1 n"
  by (auto simp: disk_read_def disk_write_outside)

lemma disk_read_append: "disk_read d off (m + n) = disk_read d off m @ disk_read d (off + m) n"
proof -
  have "[off..<off + (m + n)] = [off..<off + m] @ [off + m..<off + m + n]"
    by (metis add.assoc le_add1 upt_add_eq_append)
  then show ?thesis by (simp add: disk_read_def)
qed

lemma disk_read_sub: "m + n \<le> l \<Longrightarrow> take n (drop m (disk_read d off l)) = disk_read d (off + m) n"
  by (rule nth_equalityI) (auto simp: disk_read_def add.assoc)

lemma disk_write_append:
  "disk_write (disk_write d off xs) (off + length xs) ys = disk_write d off (xs @ ys)"
  by (rule ext) (auto simp: disk_write_def nth_append)

text \<open>\<open>pread\<close> and \<open>pwrite\<close>. A negative descriptor or file offset is refused.\<close>

definition k_error :: "int \<Rightarrow> kernel \<Rightarrow> kernel" where
  "k_error e k = k\<lparr>k_errno := e\<rparr>"

definition sys_xfer :: "int \<Rightarrow> nat \<Rightarrow> nat \<Rightarrow> kernel \<Rightarrow> nat option \<times> kernel" where
  "sys_xfer fd count off k =
     (if fd < 0 then (None, k_error EBADF k)
      else if 2 ^ 63 \<le> off then (None, k_error EINVAL k)
      else case k_script k of
        [] \<Rightarrow> (Some count, k)
      | IoFull # es \<Rightarrow> (Some count, k\<lparr>k_script := es\<rparr>)
      | IoShort n # es \<Rightarrow> (Some (min n count), k\<lparr>k_script := es\<rparr>)
      | IoEintr # es \<Rightarrow> (None, k_error EINTR (k\<lparr>k_script := es\<rparr>))
      | IoError e # es \<Rightarrow> (None, k_error (if e = EINTR then EIO else e) (k\<lparr>k_script := es\<rparr>)))"

definition sys_fsync :: "int \<Rightarrow> kernel \<Rightarrow> int \<times> kernel" where
  "sys_fsync fd k =
     (if fd < 0 then (-1, k_error EBADF k)
      else case k_script k of
        [] \<Rightarrow> (0, k)
      | IoEintr # es \<Rightarrow> (-1, k_error EINTR (k\<lparr>k_script := es\<rparr>))
      | IoError e # es \<Rightarrow> (-1, k_error e (k\<lparr>k_script := es\<rparr>))
      | _ # es \<Rightarrow> (0, k\<lparr>k_script := es\<rparr>))"

lemma sys_xfer_disk [simp]: "k_disk (snd (sys_xfer fd n off k)) = k_disk k"
  by (auto simp: sys_xfer_def k_error_def split: list.splits io_event.splits)

lemma sys_xfer_le: "sys_xfer fd n off k = (Some m, k') \<Longrightarrow> m \<le> n"
  by (auto simp: sys_xfer_def split: list.splits io_event.splits if_splits)

lemma sys_xfer_progress:
  assumes "sys_xfer fd n off k = (r, k')" "r = Some m \<and> m < n \<or> r = None \<and> k_errno k' = EINTR"
  shows "length (k_script k') < length (k_script k)"
  using assms
  by (auto simp: sys_xfer_def k_error_def split: list.splits io_event.splits if_splits)

section \<open>wrapFull\<close>

text \<open>
  The retry loop of \<open>wrapFull\<close>, at \<open>pwrite\<close> and at \<open>pread\<close>. A \<open>continue\<close> in the
  source's \<open>do\<close>--\<open>while\<close> re-evaluates the condition, which is false when no byte is left
  to transfer. Every repetition has used up one event of the script, so the loop ends.
\<close>

function pwriteFull :: "int \<Rightarrow> u8 list \<Rightarrow> nat \<Rightarrow> nat \<Rightarrow> kernel \<Rightarrow> int \<times> kernel" where
  "pwriteFull fd b off totalBytes k =
     (case sys_xfer fd (length b) off k of
        (None, k1) \<Rightarrow>
          if k_errno k1 = EINTR
          then (if b \<noteq> [] then pwriteFull fd b off totalBytes k1 else (int totalBytes, k1))
          else (-1, k1)
      | (Some r, k1) \<Rightarrow>
          let k2 = k1\<lparr>k_disk := disk_write (k_disk k1) off (take r b)\<rparr>
          in if r \<noteq> 0 \<and> drop r b \<noteq> [] then pwriteFull fd (drop r b) (off + r) (totalBytes + r) k2
             else (int (totalBytes + r), k2))"
  by pat_completeness auto
termination
  by (relation "measure (\<lambda>(fd, b, off, t, k). length (k_script k))")
    (auto dest!: sys_xfer_progress [OF sym])

function preadFull ::
  "int \<Rightarrow> nat \<Rightarrow> nat \<Rightarrow> u8 list \<Rightarrow> kernel \<Rightarrow> (int \<times> u8 list) \<times> kernel" where
  "preadFull fd count off got k =
     (case sys_xfer fd count off k of
        (None, k1) \<Rightarrow>
          if k_errno k1 = EINTR
          then (if count \<noteq> 0 then preadFull fd count off got k1 else ((int (length got), got), k1))
          else ((-1, got), k1)
      | (Some r, k1) \<Rightarrow>
          let got1 = got @ disk_read (k_disk k1) off r
          in if r \<noteq> 0 \<and> count - r \<noteq> 0 then preadFull fd (count - r) (off + r) got1 k1
             else ((int (length got1), got1), k1))"
  by pat_completeness auto
termination
  by (relation "measure (\<lambda>(fd, n, off, g, k). length (k_script k))")
    (auto dest!: sys_xfer_progress [OF sym])

declare pwriteFull.simps [simp del] preadFull.simps [simp del]

text \<open>
  What reaches the disk is always a prefix of the buffer, at the given offset; a
  non-negative result is exactly the number of bytes written.
\<close>

lemma pwriteFull_prefix:
  assumes "pwriteFull fd b off t k = (r, k')"
  shows "\<exists>n \<le> length b. k_disk k' = disk_write (k_disk k) off (take n b) \<and> (r = -1 \<or> r = int (t + n))"
  using assms
proof (induction fd b off t k rule: pwriteFull.induct)
  case (1 fd b off t k)
  obtain x k1 where s: "sys_xfer fd (length b) off k = (x, k1)"
    by (cases "sys_xfer fd (length b) off k")
  have dk: "k_disk k1 = k_disk k" using sys_xfer_disk [of fd "length b" off k] s by simp
  show ?case
  proof (cases x)
    case None
    show ?thesis
    proof (cases "k_errno k1 = EINTR \<and> b \<noteq> []")
      case True
      then have "pwriteFull fd b off t k1 = (r, k')"
        using "1.prems" None s by (simp add: pwriteFull.simps [of fd b off t k])
      from "1.IH"(1) [OF s [symmetric] None _ _ this] True dk show ?thesis by simp
    next
      case False
      then have "k_disk k' = k_disk k" "r = -1 \<or> r = int t"
        using "1.prems" None s dk by (auto simp: pwriteFull.simps [of fd b off t k] split: if_splits)
      then show ?thesis by (intro exI [of _ 0]) auto
    qed
  next
    case (Some m)
    have m: "m \<le> length b" using sys_xfer_le s Some by blast
    let ?k2 = "k1\<lparr>k_disk := disk_write (k_disk k1) off (take m b)\<rparr>"
    show ?thesis
    proof (cases "m \<noteq> 0 \<and> drop m b \<noteq> []")
      case True
      then have "pwriteFull fd (drop m b) (off + m) (t + m) ?k2 = (r, k')"
        using "1.prems" Some s by (simp add: pwriteFull.simps [of fd b off t k])
      from "1.IH"(2) [OF s [symmetric] Some refl _ this] True
      obtain n where n: "n \<le> length (drop m b)" "r = -1 \<or> r = int (t + m + n)"
        and d: "k_disk k' = disk_write (k_disk ?k2) (off + m) (take n (drop m b))" by auto
      have "k_disk k' = disk_write (k_disk k) off (take m b @ take n (drop m b))"
        using d dk m disk_write_append [of "k_disk k" off "take m b" "take n (drop m b)"] by simp
      also have "take m b @ take n (drop m b) = take (m + n) b" by (simp add: take_add)
      finally show ?thesis using n m by (intro exI [of _ "m + n"]) auto
    next
      case False
      then have "k_disk k' = disk_write (k_disk k) off (take m b)" "r = int (t + m)"
        using "1.prems" Some s dk by (auto simp: pwriteFull.simps [of fd b off t k] Let_def)
      then show ?thesis using m by blast
    qed
  qed
qed

lemma preadFull_prefix:
  assumes "preadFull fd c off g k = ((r, buf), k')"
  shows "k_disk k' = k_disk k \<and>
    (\<exists>n \<le> c. buf = g @ disk_read (k_disk k) off n \<and> (r = -1 \<or> r = int (length g + n)))"
  using assms
proof (induction fd c off g k rule: preadFull.induct)
  case (1 fd c off g k)
  obtain x k1 where s: "sys_xfer fd c off k = (x, k1)" by (cases "sys_xfer fd c off k")
  have dk: "k_disk k1 = k_disk k" using sys_xfer_disk [of fd c off k] s by simp
  show ?case
  proof (cases x)
    case None
    show ?thesis
    proof (cases "k_errno k1 = EINTR \<and> c \<noteq> 0")
      case True
      then have "preadFull fd c off g k1 = ((r, buf), k')"
        using "1.prems" None s by (simp add: preadFull.simps [of fd c off g k])
      from "1.IH"(1) [OF s [symmetric] None _ _ this] True dk show ?thesis by simp
    next
      case False
      then have "k_disk k' = k_disk k" "buf = g" "r = -1 \<or> r = int (length g)"
        using "1.prems" None s dk by (auto simp: preadFull.simps [of fd c off g k] split: if_splits)
      then show ?thesis by (intro conjI exI [of _ 0]) auto
    qed
  next
    case (Some m)
    have m: "m \<le> c" using sys_xfer_le s Some by blast
    let ?g = "g @ disk_read (k_disk k1) off m"
    show ?thesis
    proof (cases "m \<noteq> 0 \<and> c - m \<noteq> 0")
      case True
      then have "preadFull fd (c - m) (off + m) ?g k1 = ((r, buf), k')"
        using "1.prems" Some s by (simp add: preadFull.simps [of fd c off g k])
      from "1.IH"(2) [OF s [symmetric] Some refl _ this] True dk
      obtain n where n: "n \<le> c - m" "r = -1 \<or> r = int (length ?g + n)" "k_disk k' = k_disk k"
        and b: "buf = ?g @ disk_read (k_disk k1) (off + m) n" by auto
      have "buf = g @ disk_read (k_disk k) off (m + n)"
        using b dk by (simp add: disk_read_append)
      then show ?thesis using n m by (intro conjI exI [of _ "m + n"]) auto
    next
      case False
      then have "buf = ?g" "r = int (length ?g)" "k' = k1"
        using "1.prems" Some s by (auto simp: preadFull.simps [of fd c off g k] Let_def)
      then show ?thesis using m dk by (intro conjI exI [of _ m]) auto
    qed
  qed
qed

text \<open>
  Interruptions and short transfers alone never lose data: without an error event and
  without an end-of-file event the whole buffer is transferred.
\<close>

fun benign_event :: "io_event \<Rightarrow> bool" where
  "benign_event (IoError e) = False"
| "benign_event (IoShort n) = (n \<noteq> 0)"
| "benign_event _ = True"

definition benign :: "io_event list \<Rightarrow> bool" where
  "benign es \<longleftrightarrow> list_all benign_event es"

lemma sys_xfer_benign:
  assumes "benign (k_script k)" "0 \<le> fd" "off < 2 ^ 63" "0 < n" "sys_xfer fd n off k = (x, k1)"
  shows "benign (k_script k1)" "x = None \<Longrightarrow> k_errno k1 = EINTR" "x = Some m \<Longrightarrow> 0 < m"
  using assms
  by (auto simp: sys_xfer_def benign_def k_error_def split: list.splits io_event.splits if_splits)

lemma pwriteFull_benign:
  assumes "benign (k_script k)" "0 \<le> fd" "off + length b < 2 ^ 63" "b \<noteq> []"
  shows "\<exists>k'. pwriteFull fd b off t k = (int (t + length b), k') \<and>
     k_disk k' = disk_write (k_disk k) off b \<and> benign (k_script k')"
  using assms
proof (induction fd b off t k rule: pwriteFull.induct)
  case (1 fd b off t k)
  obtain x k1 where s: "sys_xfer fd (length b) off k = (x, k1)"
    by (cases "sys_xfer fd (length b) off k")
  have dk: "k_disk k1 = k_disk k" using sys_xfer_disk [of fd "length b" off k] s by simp
  have off: "off < 2 ^ 63" and len: "0 < length b" using "1.prems" by auto
  note ben = sys_xfer_benign [OF "1.prems"(1,2) off len s]
  show ?case
  proof (cases x)
    case None
    with ben(2) have e: "k_errno k1 = EINTR" by simp
    from "1.IH"(1) [OF s [symmetric] None e "1.prems"(4) ben(1) "1.prems"(2-4)]
    show ?thesis using e "1.prems"(4) dk s None by (simp add: pwriteFull.simps [of fd b off t k])
  next
    case (Some m)
    have m: "m \<le> length b" "0 < m" using sys_xfer_le s Some ben(3) by blast+
    let ?k2 = "k1\<lparr>k_disk := disk_write (k_disk k1) off (take m b)\<rparr>"
    show ?thesis
    proof (cases "drop m b = []")
      case True
      then have "m = length b" using m by simp
      then show ?thesis using s Some dk ben(1) "1.prems"(4)
        by (simp add: pwriteFull.simps [of fd b off t k])
    next
      case False
      have "\<exists>k'. pwriteFull fd (drop m b) (off + m) (t + m) ?k2
          = (int (t + m + length (drop m b)), k') \<and>
          k_disk k' = disk_write (k_disk ?k2) (off + m) (drop m b) \<and> benign (k_script k')"
        by (rule "1.IH"(2) [OF s [symmetric] Some refl]) (use False m ben(1) "1.prems" in auto)
      then show ?thesis
        using False m s Some dk disk_write_append [of "k_disk k" off "take m b" "drop m b"]
        by (simp add: pwriteFull.simps [of fd b off t k])
    qed
  qed
qed

lemma preadFull_benign:
  assumes "benign (k_script k)" "0 \<le> fd" "off + c < 2 ^ 63" "0 < c"
  shows "\<exists>k'. preadFull fd c off g k =
      ((int (length g + c), g @ disk_read (k_disk k) off c), k') \<and>
     k_disk k' = k_disk k \<and> benign (k_script k')"
  using assms
proof (induction fd c off g k rule: preadFull.induct)
  case (1 fd c off g k)
  obtain x k1 where s: "sys_xfer fd c off k = (x, k1)" by (cases "sys_xfer fd c off k")
  have dk: "k_disk k1 = k_disk k" using sys_xfer_disk [of fd c off k] s by simp
  have off: "off < 2 ^ 63" using "1.prems" by auto
  note ben = sys_xfer_benign [OF "1.prems"(1,2) off "1.prems"(4) s]
  show ?case
  proof (cases x)
    case None
    with ben(2) have e: "k_errno k1 = EINTR" by simp
    have "c \<noteq> 0" using "1.prems"(4) by simp
    from "1.IH"(1) [OF s [symmetric] None e this ben(1) "1.prems"(2-4)]
    show ?thesis using e "1.prems"(4) dk s None by (simp add: preadFull.simps [of fd c off g k])
  next
    case (Some m)
    have m: "m \<le> c" "0 < m" using sys_xfer_le s Some ben(3) by blast+
    let ?g = "g @ disk_read (k_disk k1) off m"
    show ?thesis
    proof (cases "c - m = 0")
      case True
      then have "m = c" using m by simp
      then show ?thesis using s Some dk ben(1)
        by (simp add: preadFull.simps [of fd c off g k])
    next
      case False
      have "\<exists>k'. preadFull fd (c - m) (off + m) ?g k1
          = ((int (length ?g + (c - m)), ?g @ disk_read (k_disk k1) (off + m) (c - m)), k') \<and>
          k_disk k' = k_disk k1 \<and> benign (k_script k')"
        by (rule "1.IH"(2) [OF s [symmetric] Some refl]) (use False m ben(1) "1.prems" in auto)
      then show ?thesis
        using False m s Some dk disk_read_append [of "k_disk k" off m "c - m"]
        by (simp add: preadFull.simps [of fd c off g k])
    qed
  qed
qed

section \<open>Device\<close>

record Device =
  dev_name :: string
  dev_fd_direct :: int
  dev_fd_cache :: int
  dev_size :: u64
  sector_size :: u32

definition Device_new :: Device where
  "Device_new = \<lparr>dev_name = [], dev_fd_direct = -1, dev_fd_cache = -1, dev_size = 0, sector_size = 0\<rparr>"

text \<open>
  The answers of \<open>stat\<close>, \<open>open\<close> and the two \<open>ioctl\<close>s, which depend on the device the descriptor was
  opened on: \<open>None\<close> is a failed call.
\<close>

record blk_env =
  be_is_blk :: "string \<Rightarrow> bool option"
  be_open_direct :: "string \<Rightarrow> int option"
  be_open_cache :: "string \<Rightarrow> int option"
  be_size :: "string \<Rightarrow> int \<Rightarrow> u64 option"
  be_sector_size :: "string \<Rightarrow> int \<Rightarrow> u32 option"

definition IsBlkDev :: "blk_env \<Rightarrow> Device \<Rightarrow> bool" where
  "IsBlkDev env d = (case be_is_blk env (dev_name d) of None \<Rightarrow> False | Some b \<Rightarrow> b)"

definition BlkDevGetSize :: "blk_env \<Rightarrow> Device \<Rightarrow> bool \<times> Device" where
  "BlkDevGetSize env d = (case be_size env (dev_name d) (dev_fd_direct d) of
       None \<Rightarrow> (False, d) | Some n \<Rightarrow> (True, d\<lparr>dev_size := n\<rparr>))"

definition BlkDevGetSectorSize :: "blk_env \<Rightarrow> Device \<Rightarrow> bool \<times> Device" where
  "BlkDevGetSectorSize env d = (case be_sector_size env (dev_name d) (dev_fd_direct d) of
       None \<Rightarrow> (False, d) | Some n \<Rightarrow> (True, d\<lparr>sector_size := n\<rparr>))"

definition Device_Open :: "blk_env \<Rightarrow> string \<Rightarrow> Device \<Rightarrow> kernel \<Rightarrow> bool \<times> Device \<times> kernel" where
  "Device_Open env name d k =
     (if name = [] \<or> name = ''/dev/sda'' \<or> name = ''/dev/vda'' \<or> name = ''/dev/.'' \<or> name = ''/dev/..''
      then (False, d, k)
      else let d = d\<lparr>dev_name := name\<rparr> in
      if \<not> IsBlkDev env d then (False, d, k_error ENOTBLK k)
      else case be_open_direct env name of
        None \<Rightarrow> (False, d\<lparr>dev_fd_direct := -1\<rparr>, k)
      | Some fd1 \<Rightarrow>
        let d = d\<lparr>dev_fd_direct := fd1\<rparr> in
        case be_open_cache env name of
          None \<Rightarrow> (False, d\<lparr>dev_fd_cache := -1\<rparr>, k)
        | Some fd2 \<Rightarrow>
          let d = d\<lparr>dev_fd_cache := fd2\<rparr>;
              (ok, d) = BlkDevGetSize env d
          in if \<not> ok then (False, d, k)
             else let (ok, d) = BlkDevGetSectorSize env d in (ok, d, k))"

definition Fsync :: "Device \<Rightarrow> kernel \<Rightarrow> int \<times> kernel" where
  "Fsync d k =
     (let (r1, k1) = (if dev_fd_direct d > 0 then sys_fsync (dev_fd_direct d) k else (0, k))
      in if r1 < 0 then (-1, k1)
         else let (r2, k2) = (if dev_fd_cache d > 0 then sys_fsync (dev_fd_cache d) k1 else (0, k1))
              in if r2 < 0 then (-1, k2) else (0, k2))"

definition Device_Close :: "Device \<Rightarrow> kernel \<Rightarrow> Device \<times> kernel" where
  "Device_Close d k =
     (let (d1, k1) = (if dev_fd_cache d > 0 then (d\<lparr>dev_fd_cache := -1\<rparr>, snd (Fsync d k)) else (d, k))
      in if dev_fd_direct d1 > 0 then (d1\<lparr>dev_fd_direct := -1\<rparr>, snd (Fsync d1 k1)) else (d1, k1))"

text \<open>The range check adds in 64 bits: \<open>off_t\<close> is converted to \<open>uint64_t\<close>.\<close>

definition Pwrite :: "int \<Rightarrow> Device \<Rightarrow> u8 list \<Rightarrow> u64 \<Rightarrow> kernel \<Rightarrow> int \<times> kernel" where
  "Pwrite fd d buf offset k =
     (if offset + word_of_nat (length buf) > dev_size d then (-1, k)
      else pwriteFull fd buf (unat offset) 0 k)"

definition Pread :: "int \<Rightarrow> Device \<Rightarrow> u64 \<Rightarrow> u64 \<Rightarrow> kernel \<Rightarrow> (int \<times> u8 list) \<times> kernel" where
  "Pread fd d len offset k =
     (if offset + len > dev_size d then ((-1, []), k)
      else preadFull fd (unat len) (unat offset) [] k)"

definition PreadCache :: "Device \<Rightarrow> u64 \<Rightarrow> u64 \<Rightarrow> kernel \<Rightarrow> (int \<times> u8 list) \<times> kernel" where
  "PreadCache d = Pread (dev_fd_cache d) d"

definition PwriteCache :: "Device \<Rightarrow> u8 list \<Rightarrow> u64 \<Rightarrow> kernel \<Rightarrow> int \<times> kernel" where
  "PwriteCache d = Pwrite (dev_fd_cache d) d"

definition PreadDirect :: "Device \<Rightarrow> u64 \<Rightarrow> u64 \<Rightarrow> kernel \<Rightarrow> (int \<times> u8 list) \<times> kernel" where
  "PreadDirect d = Pread (dev_fd_direct d) d"

definition PwriteDirect :: "Device \<Rightarrow> u8 list \<Rightarrow> u64 \<Rightarrow> kernel \<Rightarrow> int \<times> kernel" where
  "PwriteDirect d = Pwrite (dev_fd_direct d) d"

lemmas dev_io_defs = PreadCache_def PwriteCache_def PreadDirect_def PwriteDirect_def

text \<open>A device that is open and smaller than \<open>2\<^sup>6\<^sup>3\<close> bytes, over a kernel without errors.\<close>

definition dev_ok :: "Device \<Rightarrow> bool" where
  "dev_ok d \<longleftrightarrow> 0 < dev_fd_direct d \<and> 0 < dev_fd_cache d \<and> unat (dev_size d) < 2 ^ 63"

definition in_dev :: "Device \<Rightarrow> nat \<Rightarrow> nat \<Rightarrow> bool" where
  "in_dev d off n \<longleftrightarrow> off + n \<le> unat (dev_size d)"

lemma in_dev_no_wrap:
  assumes "dev_ok d" "in_dev d (unat off) (unat n)"
  shows "\<not> off + n > dev_size d"
proof -
  have "unat off + unat n < 2 ^ 64"
    using assms by (simp add: dev_ok_def in_dev_def)
  then have "unat (off + n) = unat off + unat n"
    by (simp add: unat_word_ariths)
  then show ?thesis using assms by (simp add: in_dev_def word_less_nat_alt)
qed

lemma Pwrite_ok:
  assumes "dev_ok d" "0 < fd" "benign (k_script k)" "in_dev d (unat off) (length bs)" "bs \<noteq> []"
  shows "\<exists>k'. Pwrite fd d bs off k = (int (length bs), k') \<and>
     k_disk k' = disk_write (k_disk k) (unat off) bs \<and> benign (k_script k')"
proof -
  have len: "length bs < 2 ^ 64"
    using assms(1,4) by (simp add: dev_ok_def in_dev_def)
  then have "unat (word_of_nat (length bs) :: u64) = length bs" by (simp add: unat_of_nat)
  then have "\<not> off + word_of_nat (length bs) > dev_size d"
    using in_dev_no_wrap [OF assms(1), of off "word_of_nat (length bs)"] assms(4) by simp
  moreover have "unat off + length bs < 2 ^ 63"
    using assms(1,4) by (simp add: dev_ok_def in_dev_def)
  ultimately show ?thesis
    using pwriteFull_benign [of k fd "unat off" bs 0] assms by (simp add: Pwrite_def)
qed

lemma Pread_ok:
  assumes "dev_ok d" "0 < fd" "benign (k_script k)" "in_dev d (unat off) (unat n)" "0 < unat n"
  shows "\<exists>k'. Pread fd d n off k = ((int (unat n), disk_read (k_disk k) (unat off) (unat n)), k') \<and>
     k_disk k' = k_disk k \<and> benign (k_script k')"
proof -
  have "unat off + unat n < 2 ^ 63"
    using assms(1,4) by (simp add: dev_ok_def in_dev_def)
  then show ?thesis
    using in_dev_no_wrap [OF assms(1,4)] preadFull_benign [of k fd "unat off" "unat n" "[]"] assms
    by (simp add: Pread_def)
qed

lemma Pwrite_disk:
  assumes "Pwrite fd d bs off k = (r, k')"
  shows "\<exists>n \<le> length bs. k_disk k' = disk_write (k_disk k) (unat off) (take n bs) \<and>
     (r = int (length bs) \<longrightarrow> n = length bs)"
proof (cases "off + word_of_nat (length bs) > dev_size d")
  case True
  then show ?thesis using assms by (intro exI [of _ 0]) (auto simp: Pwrite_def)
next
  case False
  with assms have "pwriteFull fd bs (unat off) 0 k = (r, k')" by (simp add: Pwrite_def)
  from pwriteFull_prefix [OF this] show ?thesis by auto
qed

text \<open>Whatever a transfer does, it only uses up events.\<close>

lemma sys_xfer_script:
  "sys_xfer fd n off k = (x, k1) \<Longrightarrow> benign (k_script k) \<Longrightarrow> benign (k_script k1)"
  by (auto simp: sys_xfer_def benign_def k_error_def split: list.splits io_event.splits if_splits)

lemma pwriteFull_script:
  assumes "pwriteFull fd b off t k = (r, k')" "benign (k_script k)"
  shows "benign (k_script k')"
  using assms
proof (induction fd b off t k rule: pwriteFull.induct)
  case (1 fd b off t k)
  obtain x k1 where s: "sys_xfer fd (length b) off k = (x, k1)"
    by (cases "sys_xfer fd (length b) off k")
  have "benign (k_script k1)" using sys_xfer_script [OF s "1.prems"(2)] .
  then show ?case
    using "1.IH"(1) [OF s [symmetric]] "1.IH"(2) [OF s [symmetric] _ refl] "1.prems"(1) s
    by (subst (asm) (3) pwriteFull.simps) (auto simp: Let_def split: option.splits if_splits)
qed

lemma Pwrite_script:
  "Pwrite fd d bs off k = (r, k') \<Longrightarrow> benign (k_script k) \<Longrightarrow> benign (k_script k')"
  by (auto simp: Pwrite_def split: if_splits intro: pwriteFull_script)

lemma preadFull_reads:
  assumes "preadFull fd c off g k = ((r, bs), k')"
  shows "k_disk k' = k_disk k \<and> (benign (k_script k) \<longrightarrow> benign (k_script k'))
     \<and> (r = - 1 \<or> (\<exists>n. bs = g @ disk_read (k_disk k) off n \<and> r = int (length g + n)))"
  using assms
proof (induction fd c off g k rule: preadFull.induct)
  case (1 fd c off g k)
  obtain x k1 where s: "sys_xfer fd c off k = (x, k1)" by (cases "sys_xfer fd c off k")
  have dk: "k_disk k1 = k_disk k" using sys_xfer_disk [of fd c off k] s by simp
  have b: "benign (k_script k) \<Longrightarrow> benign (k_script k1)" using sys_xfer_script [OF s] .
  show ?case
  proof (cases x)
    case None
    consider "k_errno k1 = EINTR" "c \<noteq> 0" | "k_errno k1 = EINTR" "c = 0" | "k_errno k1 \<noteq> EINTR" by blast
    then show ?thesis
    proof cases
      case 1
      then have "preadFull fd c off g k1 = ((r, bs), k')" using "1.prems" s None by (simp add: preadFull.simps [of fd c off g k])
      from "1.IH"(1) [OF s [symmetric] None 1 this] show ?thesis using dk b by simp
    next
      case 2
      then show ?thesis using "1.prems" s None dk b by (auto simp: preadFull.simps [of fd 0 off g k] intro!: exI [of _ 0])
    next
      case 3
      then show ?thesis using "1.prems" s None dk b by (auto simp: preadFull.simps [of fd c off g k])
    qed
  next
    case (Some m)
    let ?g = "g @ disk_read (k_disk k1) off m"
    show ?thesis
    proof (cases "m \<noteq> 0 \<and> c - m \<noteq> 0")
      case True
      then have "preadFull fd (c - m) (off + m) ?g k1 = ((r, bs), k')"
        using "1.prems" s Some by (simp add: preadFull.simps [of fd c off g k] Let_def)
      from "1.IH"(2) [OF s [symmetric] Some refl True this]
      have a: "k_disk k' = k_disk k" "benign (k_script k1) \<longrightarrow> benign (k_script k')"
        and "r = - 1 \<or> (\<exists>n. bs = ?g @ disk_read (k_disk k1) (off + m) n \<and> r = int (length ?g + n))" by (simp_all add: dk)
      then have "r = - 1 \<or> (\<exists>n. bs = g @ disk_read (k_disk k) off (m + n) \<and> r = int (length g + (m + n)))"
        by (simp add: dk disk_read_append add.assoc)
      then show ?thesis using a b by blast
    next
      case False
      then have "r = int (length ?g)" "bs = ?g" "k' = k1"
        using "1.prems" s Some by (auto simp: preadFull.simps [of fd c off g k] Let_def)
      then show ?thesis using dk b by (auto intro!: exI [of _ m])
    qed
  qed
qed

lemma PreadCache_reads:
  assumes "PreadCache d n off k = ((r, bs), k')"
  shows "k_disk k' = k_disk k" "benign (k_script k) \<Longrightarrow> benign (k_script k')"
    "r = int (unat n) \<Longrightarrow> bs = disk_read (k_disk k) (unat off) (unat n)"
proof -
  have "off + n > dev_size d \<and> r = - 1 \<and> k' = k \<or> preadFull (dev_fd_cache d) (unat n) (unat off) [] k = ((r, bs), k')"
    using assms by (auto simp: PreadCache_def Pread_def split: if_splits)
  then have a: "k_disk k' = k_disk k \<and> (benign (k_script k) \<longrightarrow> benign (k_script k'))
     \<and> (r = - 1 \<or> (\<exists>m. bs = disk_read (k_disk k) (unat off) m \<and> r = int m))"
    using preadFull_reads [of "dev_fd_cache d" "unat n" "unat off" "[]" k r bs k'] by auto
  then show "k_disk k' = k_disk k" "benign (k_script k) \<Longrightarrow> benign (k_script k')" by blast+
  assume r: "r = int (unat n)"
  moreover have "r \<noteq> - 1" unfolding r by (metis of_nat_0_le_iff neg_0_le_iff_le not_one_le_zero)
  ultimately obtain m where "bs = disk_read (k_disk k) (unat off) m" "int (unat n) = int m" using a by blast
  then show "bs = disk_read (k_disk k) (unat off) (unat n)" unfolding of_nat_eq_iff by simp
qed

text \<open>Opening and closing a device transfer no data.\<close>

lemma sys_fsync_frame:
  "sys_fsync fd k = (r, k') \<Longrightarrow> k_disk k' = k_disk k \<and> (benign (k_script k) \<longrightarrow> benign (k_script k'))"
  by (auto simp: sys_fsync_def benign_def k_error_def split: list.splits io_event.splits if_splits)

lemma Fsync_frame:
  "Fsync d k = (r, k') \<Longrightarrow> k_disk k' = k_disk k \<and> (benign (k_script k) \<longrightarrow> benign (k_script k'))"
  by (auto simp: Fsync_def Let_def split: prod.splits if_splits dest!: sys_fsync_frame)

lemma Device_Close_frame:
  assumes "Device_Close d k = (d', k')"
  shows "dev_name d' = dev_name d" "k_disk k' = k_disk k" "benign (k_script k) \<Longrightarrow> benign (k_script k')"
proof -
  obtain d1 k1 where 1: "(if dev_fd_cache d > 0 then (d\<lparr>dev_fd_cache := -1\<rparr>, snd (Fsync d k)) else (d, k)) = (d1, k1)" by fastforce
  have a: "dev_name d1 = dev_name d" "k_disk k1 = k_disk k" "benign (k_script k) \<longrightarrow> benign (k_script k1)"
    using 1 Fsync_frame [OF prod.collapse [symmetric], of d k] by (auto split: if_splits)
  have b: "dev_name d' = dev_name d1" "k_disk k' = k_disk k1" "benign (k_script k1) \<longrightarrow> benign (k_script k')"
    using assms Fsync_frame [OF prod.collapse [symmetric], of d1 k1] by (auto simp: Device_Close_def 1 split: if_splits)
  show "dev_name d' = dev_name d" "k_disk k' = k_disk k" "benign (k_script k) \<Longrightarrow> benign (k_script k')" using a b by simp_all
qed

lemma Device_Open_frame:
  assumes "Device_Open env name d k = (ok, d', k')"
  shows "k_disk k' = k_disk k" "k_script k' = k_script k" "ok \<Longrightarrow> dev_name d' = name"
  using assms
  by (auto simp: Device_Open_def BlkDevGetSize_def BlkDevGetSectorSize_def k_error_def Let_def split: if_splits option.splits prod.splits)

section \<open>Properties\<close>

text \<open>
  C27. Whatever the kernel does (interruptions, short transfers, errors), \<open>wrapFull\<close> over
  \<open>pwrite\<close> ends and leaves on the disk a prefix of the buffer at the requested offset and nothing
  else; a result other than -1 is the length of that prefix.
\<close>

theorem pwriteFull_writes_prefix:
  "\<exists>r k' n. pwriteFull fd b off 0 k = (r, k') \<and> n \<le> length b
     \<and> k_disk k' = disk_write (k_disk k) off (take n b) \<and> (r = - 1 \<or> r = int n)"
proof -
  obtain r k' where r: "pwriteFull fd b off 0 k = (r, k')" by (meson surj_pair)
  from pwriteFull_prefix [OF r] r show ?thesis by auto
qed

text \<open>
  C26. Interrupted and short transfers alone never lose data: as long as the kernel reports no
  error and makes progress, \<open>pwriteFull\<close> transfers the whole buffer and \<open>preadFull\<close> then reads it back.
\<close>

theorem transfers_complete:
  assumes "benign (k_script k)" and "0 \<le> fd" and "off + length b < 2 ^ 63" and "b \<noteq> []"
  shows "\<exists>k1 k2. pwriteFull fd b off 0 k = (int (length b), k1)
     \<and> preadFull fd (length b) off [] k1 = ((int (length b), b), k2)"
proof -
  obtain k1 where k1: "pwriteFull fd b off 0 k = (int (length b), k1)"
    "k_disk k1 = disk_write (k_disk k) off b" "benign (k_script k1)"
    using pwriteFull_benign [OF assms, of 0] by auto
  moreover have "0 < length b" using assms(4) by simp
  ultimately show ?thesis
    using preadFull_benign [OF k1(3) assms(2,3), of "[]"] by auto
qed

theorem transfers_complete_witness:
  "\<exists>k1 k2. pwriteFull 3 [7, 8, 9] 100 0
       \<lparr>k_disk = (\<lambda>_. 0), k_script = [IoShort 1, IoEintr, IoShort 1, IoFull, IoEintr, IoShort 2], k_errno = 0\<rparr> = (3, k1)
     \<and> preadFull 3 3 100 [] k1 = ((3, [7, 8, 9]), k2)"
proof -
  let ?k = "\<lparr>k_disk = (\<lambda>_. 0), k_script = [IoShort 1, IoEintr, IoShort 1, IoFull, IoEintr, IoShort 2], k_errno = 0\<rparr>"
  have b: "benign (k_script ?k)" and l: "(100::nat) + length [7, 8, 9 :: u8] < 2 ^ 63" and n: "length [7, 8, 9 :: u8] = 3"
    by (simp_all add: benign_def)
  from transfers_complete [OF b _ l] show ?thesis unfolding n by simp
qed

end
