(* ===== verification/FS_State.thy ===== *)
theory FS_State
  imports Pools Comm_Utils Block_Device
begin

text \<open>
  The state of the running file system: everything reachable from the \<open>FileSystem\<close>
  singleton (\<open>lib/file_system.h\<close>). The metadata area the \<open>ShmManager\<close> maps is three
  arrays of structs; a \<open>FileMeta *\<close>, \<open>DirMeta *\<close> or \<open>FileBlockMeta *\<close> is an index
  into one of them. Objects behind a \<open>shared_ptr\<close> (\<open>File\<close>, \<open>Directory\<close>) live in an
  object store and are named by their addresses, since several maps alias them; an
  \<open>OpenFile\<close> is only ever referenced by one map entry and is stored there, and a
  \<open>FileBlock\<close> is its index. The handle numbers (\<open>fh\<close>, \<open>dh\<close>, file block index) are
  natural numbers: they are below \<open>kMaxFileNum\<close> or \<open>max_file_block_num\<close> and cannot
  overflow, so the source's conversions between \<open>ino_t\<close>, \<open>int32_t\<close> and \<open>uint32_t\<close>
  keep their values.

  Code outside the repository is a field of the state: zlib's \<open>crc32\<close>, the clock, and the
  bytes that lie behind a string in memory (which \<open>set_file_name\<close> and \<open>set_dir_name\<close>
  copy). Every mutex section of the source is one step here.
\<close>

section \<open>Objects\<close>

record File =
  f_meta :: nat
  f_nlink :: int
  f_locked :: bool
  f_deleted :: bool
  f_items :: "(nat, nat) amap"

record Directory =
  d_meta :: nat
  d_nlink :: int
  d_items :: "(nat, nat) amap"
  d_childs :: "(nat, nat) amap"

record OpenFile =
  of_file :: nat
  of_append_pos :: u64

record ParentFile =
  pf_meta :: nat
  pf_offset :: u64
  pf_fbs :: "(nat, nat) amap"
  pf_tmp_file :: bool

definition File_new :: "nat \<Rightarrow> File" where
  "File_new m = \<lparr>f_meta = m, f_nlink = 0, f_locked = False, f_deleted = False, f_items = []\<rparr>"

definition Directory_new :: "nat \<Rightarrow> Directory" where
  "Directory_new m = \<lparr>d_meta = m, d_nlink = 0, d_items = [], d_childs = []\<rparr>"

section \<open>The FileSystem singleton\<close>

record fs =
  crc32 :: "u8 list \<Rightarrow> u32"
  now :: u64
  behind :: string
  dev :: Device
  kern :: kernel
  disks :: "string \<Rightarrow> nat \<Rightarrow> u8"
  super_meta :: SuperBlockMeta
  fd_handle :: FdHandle
  block_handle :: BlockHandle
  dmetas :: "nat \<Rightarrow> DirMeta"
  fmetas :: "nat \<Rightarrow> FileMeta"
  bmetas :: "nat \<Rightarrow> FileBlockMeta"
  free_dhs :: "nat list"
  created_dirs :: "(string, nat) amap"
  created_dhs :: "(nat, nat) amap"
  open_dirs :: "(int, nat) amap"
  free_fhs :: "nat list"
  created_files :: "(nat \<times> string, nat) amap"
  created_fhs :: "(nat, nat) amap"
  open_files :: "(int, OpenFile) amap"
  parent_files :: "(nat, ParentFile) amap"
  free_fbhs :: "nat list"
  fobj :: "nat \<Rightarrow> File"
  fobj_next :: nat
  dobj :: "nat \<Rightarrow> Directory"
  dobj_next :: nat

text \<open>
  Each block device has a content of its own. That of the device \<open>device_\<close> names is \<open>k_disk\<close> of
  the kernel, where the I/O of the descriptors goes; \<open>disks\<close> keeps the others. \<open>use_device\<close> makes
  another device the current one.
\<close>

definition disk_of :: "string \<Rightarrow> fs \<Rightarrow> nat \<Rightarrow> u8" where
  "disk_of n s = (if n = dev_name (dev s) then k_disk (kern s) else disks s n)"

definition use_device :: "Device \<Rightarrow> fs \<Rightarrow> fs" where
  "use_device d s = s\<lparr>disks := (\<lambda>n. disk_of n s), dev := d, kern := (kern s)\<lparr>k_disk := disk_of (dev_name d) s\<rparr>\<rparr>"

lemma use_device_simps [simp]:
  "dev (use_device d s) = d" "k_disk (kern (use_device d s)) = disk_of (dev_name d) s"
  "k_script (kern (use_device d s)) = k_script (kern s)" "k_errno (kern (use_device d s)) = k_errno (kern s)"
  "disk_of n (use_device d s) = disk_of n s"
  by (simp_all add: use_device_def disk_of_def)

lemma disk_of_current: "disk_of (dev_name (dev s)) s = k_disk (kern s)"
  by (simp add: disk_of_def)

lemma disk_of_cong:
  "dev_name (dev t) = dev_name (dev s) \<Longrightarrow> k_disk (kern t) = k_disk (kern s) \<Longrightarrow> disks t = disks s \<Longrightarrow> disk_of n t = disk_of n s"
  by (simp add: disk_of_def)

definition set_errno :: "int \<Rightarrow> fs \<Rightarrow> fs" where
  "set_errno e s = s\<lparr>kern := (kern s)\<lparr>k_errno := e\<rparr>\<rparr>"

abbreviation errno :: "fs \<Rightarrow> int" where
  "errno s \<equiv> k_errno (kern s)"

definition upd_dmeta :: "nat \<Rightarrow> (DirMeta \<Rightarrow> DirMeta) \<Rightarrow> fs \<Rightarrow> fs" where
  "upd_dmeta i f s = s\<lparr>dmetas := (dmetas s)(i := f (dmetas s i))\<rparr>"

definition upd_fmeta :: "nat \<Rightarrow> (FileMeta \<Rightarrow> FileMeta) \<Rightarrow> fs \<Rightarrow> fs" where
  "upd_fmeta i f s = s\<lparr>fmetas := (fmetas s)(i := f (fmetas s i))\<rparr>"

definition upd_bmeta :: "nat \<Rightarrow> (FileBlockMeta \<Rightarrow> FileBlockMeta) \<Rightarrow> fs \<Rightarrow> fs" where
  "upd_bmeta i f s = s\<lparr>bmetas := (bmetas s)(i := f (bmetas s i))\<rparr>"

definition upd_file :: "nat \<Rightarrow> (File \<Rightarrow> File) \<Rightarrow> fs \<Rightarrow> fs" where
  "upd_file p f s = s\<lparr>fobj := (fobj s)(p := f (fobj s p))\<rparr>"

definition upd_dir :: "nat \<Rightarrow> (Directory \<Rightarrow> Directory) \<Rightarrow> fs \<Rightarrow> fs" where
  "upd_dir p f s = s\<lparr>dobj := (dobj s)(p := f (dobj s p))\<rparr>"

definition new_file :: "File \<Rightarrow> fs \<Rightarrow> nat \<times> fs" where
  "new_file f s = (fobj_next s, s\<lparr>fobj := (fobj s)(fobj_next s := f), fobj_next := Suc (fobj_next s)\<rparr>)"

definition new_dir :: "Directory \<Rightarrow> fs \<Rightarrow> nat \<times> fs" where
  "new_dir d s = (dobj_next s, s\<lparr>dobj := (dobj s)(dobj_next s := d), dobj_next := Suc (dobj_next s)\<rparr>)"

lemmas fs_upd_defs = set_errno_def upd_dmeta_def upd_fmeta_def upd_bmeta_def upd_file_def
  upd_dir_def new_file_def new_dir_def

section \<open>Accessors of File and Directory\<close>

abbreviation File_meta :: "fs \<Rightarrow> nat \<Rightarrow> FileMeta" where
  "File_meta s p \<equiv> fmetas s (f_meta (fobj s p))"

abbreviation Dir_meta :: "fs \<Rightarrow> nat \<Rightarrow> DirMeta" where
  "Dir_meta s p \<equiv> dmetas s (d_meta (dobj s p))"

text \<open>
  \<open>std::string(meta_->file_name_)\<close> reads on into the bytes behind the array when the
  array holds no terminator.
\<close>

definition meta_file_name :: "FileMeta \<Rightarrow> string" where
  "meta_file_name m = cstr (fm_file_name m @ map char_of_byte (fm_pad m))"

definition meta_dir_name :: "DirMeta \<Rightarrow> string" where
  "meta_dir_name m = cstr (dm_dir_name m @ map char_of_byte (dm_pad m))"

definition File_fh :: "fs \<Rightarrow> nat \<Rightarrow> nat" where
  "File_fh s p = unat (fm_fh (File_meta s p))"

definition File_dh :: "fs \<Rightarrow> nat \<Rightarrow> nat" where
  "File_dh s p = unat (fm_dh (File_meta s p))"

definition File_file_name :: "fs \<Rightarrow> nat \<Rightarrow> string" where
  "File_file_name s p = meta_file_name (File_meta s p)"

definition File_file_size :: "fs \<Rightarrow> nat \<Rightarrow> u64" where
  "File_file_size s p = fm_size (File_meta s p)"

definition Dir_dh :: "fs \<Rightarrow> nat \<Rightarrow> nat" where
  "Dir_dh s p = unat (dm_dh (Dir_meta s p))"

definition Dir_dir_name :: "fs \<Rightarrow> nat \<Rightarrow> string" where
  "Dir_dir_name s p = meta_dir_name (Dir_meta s p)"

lemmas obj_acc_defs = File_fh_def File_dh_def File_file_name_def File_file_size_def
  Dir_dh_def Dir_dir_name_def

text \<open>A name shorter than the array is read back as it was stored.\<close>

lemma cstr_append_NUL: "NUL \<in> set xs \<Longrightarrow> cstr (xs @ ys) = cstr xs"
  unfolding cstr_def by (rule takeWhile_append1) auto

lemma NUL_in_memcpy_cstr: "length n < k \<Longrightarrow> NUL \<in> set (memcpy_cstr k n b)"
  by (auto simp: memcpy_cstr_def fit_def take_Cons')

lemma meta_file_name_memcpy:
  assumes "length n < 64" "NUL \<notin> set n"
  shows "meta_file_name (m\<lparr>fm_file_name := memcpy_cstr 64 n b\<rparr>) = n"
  using cstr_append_NUL [OF NUL_in_memcpy_cstr [OF assms(1)]] cstr_memcpy_cstr [OF assms]
  by (simp add: meta_file_name_def)

lemma meta_dir_name_memcpy:
  assumes "length n < 768" "NUL \<notin> set n"
  shows "meta_dir_name (m\<lparr>dm_dir_name := memcpy_cstr 768 n b\<rparr>) = n"
  using cstr_append_NUL [OF NUL_in_memcpy_cstr [OF assms(1)]] cstr_memcpy_cstr [OF assms]
  by (simp add: meta_dir_name_def)

section \<open>Device access through the singleton\<close>

definition fs_PwriteDirect :: "u8 list \<Rightarrow> u64 \<Rightarrow> fs \<Rightarrow> int \<times> fs" where
  "fs_PwriteDirect bs off s = (let (r, k) = PwriteDirect (dev s) bs off (kern s) in (r, s\<lparr>kern := k\<rparr>))"

definition fs_PwriteCache :: "u8 list \<Rightarrow> u64 \<Rightarrow> fs \<Rightarrow> int \<times> fs" where
  "fs_PwriteCache bs off s = (let (r, k) = PwriteCache (dev s) bs off (kern s) in (r, s\<lparr>kern := k\<rparr>))"

definition fs_PreadCache :: "u64 \<Rightarrow> u64 \<Rightarrow> fs \<Rightarrow> (int \<times> u8 list) \<times> fs" where
  "fs_PreadCache n off s = (let (r, k) = PreadCache (dev s) n off (kern s) in (r, s\<lparr>kern := k\<rparr>))"

definition fs_Fsync :: "fs \<Rightarrow> int \<times> fs" where
  "fs_Fsync s = (let (r, k) = Fsync (dev s) (kern s) in (r, s\<lparr>kern := k\<rparr>))"

lemmas fs_io_defs = fs_PwriteDirect_def fs_PwriteCache_def fs_PreadCache_def fs_Fsync_def

text \<open>Device writes touch nothing but the kernel.\<close>

lemma fs_PwriteDirect_frame:
  "fs_PwriteDirect bs off s = (r, s') \<Longrightarrow> \<exists>k. s' = s\<lparr>kern := k\<rparr>"
  by (auto simp: fs_io_defs split: prod.splits)

lemma fs_PwriteCache_frame:
  "fs_PwriteCache bs off s = (r, s') \<Longrightarrow> \<exists>k. s' = s\<lparr>kern := k\<rparr>"
  by (auto simp: fs_io_defs split: prod.splits)

lemma fs_PreadCache_frame:
  "fs_PreadCache n off s = (r, s') \<Longrightarrow> \<exists>k. s' = s\<lparr>kern := k\<rparr>"
  by (auto simp: fs_io_defs split: prod.splits)

lemma fs_Fsync_frame: "fs_Fsync s = (r, s') \<Longrightarrow> \<exists>k. s' = s\<lparr>kern := k\<rparr>"
  by (auto simp: fs_io_defs split: prod.splits)

text \<open>An open device over a kernel that reports no error.\<close>

definition io_ok :: "fs \<Rightarrow> bool" where
  "io_ok s \<longleftrightarrow> dev_ok (dev s) \<and> benign (k_script (kern s))"

lemma io_ok_set_errno [simp]: "io_ok (set_errno e s) = io_ok s"
  by (simp add: io_ok_def set_errno_def)

lemma fs_PwriteDirect_ok:
  assumes "io_ok s" "in_dev (dev s) (unat off) (length bs)" "bs \<noteq> []"
  obtains k where "fs_PwriteDirect bs off s = (int (length bs), s\<lparr>kern := k\<rparr>)"
    "k_disk k = disk_write (k_disk (kern s)) (unat off) bs" "benign (k_script k)"
  using Pwrite_ok [of "dev s" "dev_fd_direct (dev s)" "kern s" off bs] assms
  by (auto simp: io_ok_def dev_ok_def fs_io_defs dev_io_defs)

lemma fs_PwriteCache_ok:
  assumes "io_ok s" "in_dev (dev s) (unat off) (length bs)" "bs \<noteq> []"
  obtains k where "fs_PwriteCache bs off s = (int (length bs), s\<lparr>kern := k\<rparr>)"
    "k_disk k = disk_write (k_disk (kern s)) (unat off) bs" "benign (k_script k)"
  using Pwrite_ok [of "dev s" "dev_fd_cache (dev s)" "kern s" off bs] assms
  by (auto simp: io_ok_def dev_ok_def fs_io_defs dev_io_defs)

lemma fs_PreadCache_ok:
  assumes "io_ok s" "in_dev (dev s) (unat off) (unat n)" "0 < unat n"
  obtains k where
    "fs_PreadCache n off s = ((int (unat n), disk_read (k_disk (kern s)) (unat off) (unat n)), s\<lparr>kern := k\<rparr>)"
    "k_disk k = k_disk (kern s)" "benign (k_script k)"
  using Pread_ok [of "dev s" "dev_fd_cache (dev s)" "kern s" off n] assms
  by (auto simp: io_ok_def dev_ok_def fs_io_defs dev_io_defs)

end
