(* ===== verification/File_Block.thy ===== *)
theory File_Block
  imports FS_State
begin

text \<open>
  File blocks (\<open>lib/file_block.h\<close>, \<open>lib/file_block.cc\<close>) and the pool of free ones
  (\<open>FileBlockHandle\<close>, \<open>lib/file_block_handle.h\<close>, \<open>lib/file_block_handle.cc\<close>). A file block is
  a 4096-byte record with the identifiers of up to 1000 data blocks; a \<open>FileBlock\<close> object
  is its index. \<open>None\<close> is an access outside the 1000-element array, which the source
  leaves undefined (its assertions are compiled out). \<open>fb_owned\<close> is what a file block
  holds; \<open>blocks_exclusive\<close> is the safety invariant of the allocator: no data block belongs to
  two file blocks, or to a file block and the free pool.
\<close>

section \<open>FileBlock\<close>

definition FileBlock_ClearMeta :: "FileBlockMeta \<Rightarrow> FileBlockMeta" where
  "FileBlock_ClearMeta m = m\<lparr>fb_used := False, fb_is_temp := False, fb_fh := - 1,
     fb_file_cut := 0, fb_used_block_num := 0, fb_block_id := replicate 1000 0\<rparr>"

definition FileBlock_WriteMeta :: "nat \<Rightarrow> fs \<Rightarrow> bool \<times> fs" where
  "FileBlock_WriteMeta index s =
     (let file_block_meta_size = sb_file_block_meta_size (super_meta s);
          offset = file_block_meta_size * word_of_nat index;
          crc = crc32 s (body_FileBlockMeta (bmetas s index));
          s = upd_bmeta index (\<lambda>m. m\<lparr>fb_crc := crc\<rparr>) s;
          (ret, s) = fs_PwriteDirect (enc_FileBlockMeta (bmetas s index))
            (sb_file_block_meta_offset (super_meta s) + offset) s
      in (ret = int (unat file_block_meta_size), s))"

definition get_block_id :: "fs \<Rightarrow> nat \<Rightarrow> u32 \<Rightarrow> u32 option" where
  "get_block_id s fb block_index =
     (if block_index < ucast kFileBlockCapacity
      then Some (fb_block_id (bmetas s fb) ! unat block_index) else None)"

definition is_block_full :: "fs \<Rightarrow> nat \<Rightarrow> bool" where
  "is_block_full s fb = (fb_used_block_num (bmetas s fb) = ucast kFileBlockCapacity)"

definition add_block_id_at :: "u32 \<Rightarrow> u32 \<Rightarrow> nat \<Rightarrow> fs \<Rightarrow> fs" where
  "add_block_id_at block_index block_id fb s =
     (if \<not> is_block_full s fb \<and> block_index < ucast kFileBlockCapacity
      then upd_bmeta fb (\<lambda>m. m\<lparr>fb_block_id := (fb_block_id m)[unat block_index := block_id],
             fb_used_block_num := fb_used_block_num m + 1\<rparr>) s
      else s)"

definition add_block_id :: "u32 \<Rightarrow> nat \<Rightarrow> fs \<Rightarrow> fs option" where
  "add_block_id block_id fb s =
     (if is_block_full s fb then Some s
      else if ucast kFileBlockCapacity < fb_used_block_num (bmetas s fb) then None
      else Some (upd_bmeta fb (\<lambda>m. m\<lparr>fb_block_id := (fb_block_id m)[unat (fb_used_block_num m) := block_id],
             fb_used_block_num := fb_used_block_num m + 1\<rparr>) s))"

definition GetFileBlockLock :: "fs \<Rightarrow> nat option \<times> fs" where
  "GetFileBlockLock s = (case free_fbhs s of
       [] \<Rightarrow> (None, s)
     | index # rest \<Rightarrow> (Some index, s\<lparr>free_fbhs := rest\<rparr>))"

definition PutFileBlockLock :: "nat \<Rightarrow> fs \<Rightarrow> fs" where
  "PutFileBlockLock index s = s\<lparr>free_fbhs := free_fbhs s @ [index]\<rparr>"

text \<open>The block pool, reached through the singleton.\<close>

definition fs_GetFreeBlockIdLock :: "u32 \<Rightarrow> fs \<Rightarrow> u32 list option \<times> fs" where
  "fs_GetFreeBlockIdLock n s =
     (let (r, h) = GetFreeBlockIdLock n (block_handle s) in (r, s\<lparr>block_handle := h\<rparr>))"

definition fs_PutFreeBlockIdLock :: "u32 list \<Rightarrow> fs \<Rightarrow> bool \<times> fs" where
  "fs_PutFreeBlockIdLock ids s =
     (let (r, h) = PutFreeBlockIdLock ids (block_handle s) in (r, s\<lparr>block_handle := h\<rparr>))"

definition fs_PutFreeBlockIdLock1 :: "u32 \<Rightarrow> fs \<Rightarrow> bool \<times> fs" where
  "fs_PutFreeBlockIdLock1 i s =
     (let (r, h) = PutFreeBlockIdLock1 i (block_handle s) in (r, s\<lparr>block_handle := h\<rparr>))"

text \<open>The identifiers of the used slots; \<open>None\<close> when \<open>used_block_num\<close> exceeds the array.\<close>

definition used_block_ids :: "fs \<Rightarrow> nat \<Rightarrow> u32 list option" where
  "used_block_ids s fb =
     (if ucast kFileBlockCapacity < fb_used_block_num (bmetas s fb) then None
      else Some (take (unat (fb_used_block_num (bmetas s fb))) (fb_block_id (bmetas s fb))))"

definition ReleaseMyself :: "nat \<Rightarrow> fs \<Rightarrow> bool \<times> fs" where
  "ReleaseMyself fb s =
     (let s = upd_bmeta fb FileBlock_ClearMeta s;
          (ok, s) = FileBlock_WriteMeta fb s
      in if \<not> ok then (False, s) else (True, PutFileBlockLock fb s))"

definition ReleaseAll :: "nat \<Rightarrow> fs \<Rightarrow> (bool \<times> fs) option" where
  "ReleaseAll fb s = do {
     block_list \<leftarrow> used_block_ids s fb;
     let (_, s) = fs_PutFreeBlockIdLock block_list s;
     let s = upd_bmeta fb FileBlock_ClearMeta s;
     let (ok, s) = FileBlock_WriteMeta fb s;
     if \<not> ok then Some (False, s) else Some (True, PutFileBlockLock fb s)
   }"

lemmas fb_op_defs = FileBlock_WriteMeta_def get_block_id_def is_block_full_def add_block_id_def
  GetFileBlockLock_def PutFileBlockLock_def ReleaseMyself_def ReleaseAll_def used_block_ids_def
lemmas blk_op_defs = fs_GetFreeBlockIdLock_def fs_PutFreeBlockIdLock_def fs_PutFreeBlockIdLock1_def

section \<open>The pool of file blocks\<close>

definition fbh_univ :: "fs \<Rightarrow> nat set" where
  "fbh_univ s = {0..<unat (sb_max_file_block_num (super_meta s))}"

definition fbh_inv :: "fs \<Rightarrow> bool" where
  "fbh_inv s \<longleftrightarrow> distinct (free_fbhs s) \<and> set (free_fbhs s) \<subseteq> fbh_univ s"

interpretation fbp: id_pool GetFileBlockLock PutFileBlockLock
  "\<lambda>s. set (free_fbhs s)" fbh_univ fbh_inv
  by unfold_locales
    (auto simp: GetFileBlockLock_def PutFileBlockLock_def fbh_inv_def fbh_univ_def split: list.splits)

section \<open>Ownership of data blocks\<close>

definition fb_owned :: "fs \<Rightarrow> nat \<Rightarrow> u32 list" where
  "fb_owned s fb = (if fb_used (bmetas s fb)
     then take (unat (fb_used_block_num (bmetas s fb))) (fb_block_id (bmetas s fb)) else [])"

definition wf_bmetas :: "fs \<Rightarrow> bool" where
  "wf_bmetas s \<longleftrightarrow> (\<forall>i. length (fb_block_id (bmetas s i)) = 1000
      \<and> unat (fb_used_block_num (bmetas s i)) \<le> 1000)"

definition blocks_exclusive :: "fs \<Rightarrow> bool" where
  "blocks_exclusive s \<longleftrightarrow> block_inv (block_handle s) \<and> wf_bmetas s
     \<and> (\<forall>i. distinct (fb_owned s i))
     \<and> (\<forall>i j. i \<noteq> j \<longrightarrow> set (fb_owned s i) \<inter> set (fb_owned s j) = {})
     \<and> (\<forall>i. set (fb_owned s i) \<inter> set (block_id_pool (block_handle s)) = {})
     \<and> (\<forall>i. \<forall>b \<in> set (fb_owned s i). b < max_block_num (block_handle s))
     \<and> (\<forall>i \<in> set (free_fbhs s). \<not> fb_used (bmetas s i) \<and> fb_used_block_num (bmetas s i) = 0)
     \<and> distinct (free_fbhs s)"

text \<open>Nothing that matters to ownership: everything but the five fields it reads.\<close>

definition same_blocks :: "fs \<Rightarrow> fs \<Rightarrow> bool" where
  "same_blocks s t \<longleftrightarrow> block_handle t = block_handle s \<and> free_fbhs t = free_fbhs s
     \<and> (\<forall>i. fb_used (bmetas t i) = fb_used (bmetas s i)
        \<and> fb_used_block_num (bmetas t i) = fb_used_block_num (bmetas s i)
        \<and> fb_block_id (bmetas t i) = fb_block_id (bmetas s i))"

lemma same_blocks_refl [simp, intro]: "same_blocks s s"
  by (simp add: same_blocks_def)

lemma same_blocks_trans [trans]: "same_blocks s t \<Longrightarrow> same_blocks t u \<Longrightarrow> same_blocks s u"
  by (simp add: same_blocks_def)

lemma same_blocks_owned: "same_blocks s t \<Longrightarrow> fb_owned t i = fb_owned s i"
  by (simp add: same_blocks_def fb_owned_def)

lemma same_blocks_exclusive: "same_blocks s t \<Longrightarrow> blocks_exclusive t = blocks_exclusive s"
  by (simp add: blocks_exclusive_def same_blocks_owned)
    (simp add: same_blocks_def wf_bmetas_def)

lemma same_blocks_upds [simp]:
  "same_blocks s (set_errno e s)" "same_blocks s (upd_fmeta i f s)" "same_blocks s (upd_dmeta i g s)"
  "same_blocks s (upd_file p h s)" "same_blocks s (upd_dir p d s)" "same_blocks s (s\<lparr>kern := k\<rparr>)"
  by (simp_all add: same_blocks_def fs_upd_defs)

lemma FileBlock_WriteMeta_same: "same_blocks s (snd (FileBlock_WriteMeta fb s))"
  by (auto simp: FileBlock_WriteMeta_def same_blocks_def fs_io_defs fs_upd_defs Let_def
      split: prod.splits)

lemma word_capacity [simp]: "(ucast kFileBlockCapacity :: u32) = 1000"
  by (simp add: layout_consts)

subsection \<open>Operations keep blocks exclusive\<close>

lemma blocks_exclusiveI_upd:
  assumes "blocks_exclusive s"
    and other: "\<And>i. i \<noteq> fb \<Longrightarrow> bmetas t i = bmetas s i"
    and wf: "length (fb_block_id (bmetas t fb)) = 1000" "unat (fb_used_block_num (bmetas t fb)) \<le> 1000"
    and own: "distinct (fb_owned t fb)"
    and sub: "set (fb_owned t fb) \<subseteq> set (fb_owned s fb) \<union> set (block_id_pool (block_handle s))"
    and pool: "block_inv (block_handle t)"
      "set (block_id_pool (block_handle t))
         \<subseteq> (set (block_id_pool (block_handle s)) \<union> set (fb_owned s fb)) - set (fb_owned t fb)"
      "max_block_num (block_handle t) = max_block_num (block_handle s)"
    and free: "distinct (free_fbhs t)" "set (free_fbhs t) - {fb} \<subseteq> set (free_fbhs s)"
      "fb \<in> set (free_fbhs t) \<Longrightarrow> \<not> fb_used (bmetas t fb) \<and> fb_used_block_num (bmetas t fb) = 0"
  shows "blocks_exclusive t"
proof -
  note ex = assms(1) [unfolded blocks_exclusive_def]
  have o: "fb_owned t i = fb_owned s i" if "i \<noteq> fb" for i
    using other [OF that] by (simp add: fb_owned_def)
  have dj: "\<And>i j. i \<noteq> j \<Longrightarrow> set (fb_owned s i) \<inter> set (fb_owned s j) = {}"
    and dp: "\<And>i. set (fb_owned s i) \<inter> set (block_id_pool (block_handle s)) = {}"
    and mx: "\<And>i b. b \<in> set (fb_owned s i) \<Longrightarrow> b < max_block_num (block_handle s)"
    and di: "\<And>i. distinct (fb_owned s i)"
    and fr: "\<And>i. i \<in> set (free_fbhs s) \<Longrightarrow> \<not> fb_used (bmetas s i) \<and> fb_used_block_num (bmetas s i) = 0"
    and poolmax: "\<And>b. b \<in> set (block_id_pool (block_handle s)) \<Longrightarrow> b < max_block_num (block_handle s)"
    using ex by (simp_all add: block_inv_def)
  have "wf_bmetas t" using ex wf other unfolding wf_bmetas_def by metis
  moreover have "distinct (fb_owned t i)" for i using di own o by (cases "i = fb") simp_all
  moreover have "set (fb_owned t i) \<inter> set (fb_owned t j) = {}" if "i \<noteq> j" for i j
  proof -
    have *: "set (fb_owned t fb) \<inter> set (fb_owned t k) = {}" if "k \<noteq> fb" for k
      using sub dj [of k fb] dp [of k] that o [OF that] by fastforce
    consider "i = fb" | "j = fb" | "i \<noteq> fb" "j \<noteq> fb" by blast
    then show ?thesis
    proof cases
      case 1
      then show ?thesis using * [of j] that by simp
    next
      case 2
      then show ?thesis using * [of i] that by (simp add: Int_commute)
    next
      case 3
      then show ?thesis using dj [OF that] o by simp
    qed
  qed
  moreover have "set (fb_owned t i) \<inter> set (block_id_pool (block_handle t)) = {}" for i
  proof (cases "i = fb")
    case True
    then show ?thesis using pool(2) by blast
  next
    case False
    then show ?thesis using pool(2) o [OF False] dj [OF False] dp [of i] by fastforce
  qed
  moreover have "\<forall>b \<in> set (fb_owned t i). b < max_block_num (block_handle t)" for i
    using sub o [of i] poolmax mx pool(3) by (cases "i = fb") fastforce+
  moreover have "\<forall>i \<in> set (free_fbhs t). \<not> fb_used (bmetas t i) \<and> fb_used_block_num (bmetas t i) = 0"
  proof
    fix i assume i: "i \<in> set (free_fbhs t)"
    show "\<not> fb_used (bmetas t i) \<and> fb_used_block_num (bmetas t i) = 0"
    proof (cases "i = fb")
      case True
      then show ?thesis using free(3) i by simp
    next
      case False
      then show ?thesis using free(2) i fr [of i] other [of i] by auto
    qed
  qed
  ultimately show ?thesis using pool(1) free(1) by (simp add: blocks_exclusive_def)
qed

text \<open>Writing back the metadata changes no block; releasing a file block returns all of them.\<close>

lemma FileBlock_WriteMeta_frame:
  assumes "FileBlock_WriteMeta fb s = (ok, t)"
  shows "\<exists>c k. t = upd_bmeta fb (\<lambda>m. m\<lparr>fb_crc := c\<rparr>) s\<lparr>kern := k\<rparr>"
  using assms by (auto simp: FileBlock_WriteMeta_def fs_io_defs Let_def split: prod.splits)

lemma block_inv_put:
  assumes "block_inv h" "\<forall>i \<in> set ids. i < max_block_num h" "PutFreeBlockIdLock ids h = (ok, h')"
  shows "block_inv h'" "set (block_id_pool h') = set ids \<union> set (block_id_pool h)"
    "max_block_num h' = max_block_num h" "ok = (ids \<noteq> [])"
  using assms by (auto simp: PutFreeBlockIdLock_def block_inv_def split: if_splits)

lemma ReleaseAll_blocks:
  assumes ex: "blocks_exclusive s" and used: "fb_used (bmetas s fb)"
    and r: "ReleaseAll fb s = Some (ok, t)"
  shows "blocks_exclusive t" "fb_owned t fb = []" "\<And>i. i \<noteq> fb \<Longrightarrow> fb_owned t i = fb_owned s i"
    "set (block_id_pool (block_handle t)) = set (fb_owned s fb) \<union> set (block_id_pool (block_handle s))"
    "ok \<Longrightarrow> fb \<in> set (free_fbhs t)"
proof -
  let ?ids = "take (unat (fb_used_block_num (bmetas s fb))) (fb_block_id (bmetas s fb))"
  obtain b h where put: "PutFreeBlockIdLock ?ids (block_handle s) = (b, h)"
    by (cases "PutFreeBlockIdLock ?ids (block_handle s)")
  let ?s1 = "upd_bmeta fb FileBlock_ClearMeta (s\<lparr>block_handle := h\<rparr>)"
  obtain w u where w: "FileBlock_WriteMeta fb ?s1 = (w, u)" by (cases "FileBlock_WriteMeta fb ?s1")
  have t: "ok = w" "t = (if w then PutFileBlockLock fb u else u)"
    using r put w by (auto simp: ReleaseAll_def used_block_ids_def blk_op_defs Let_def split: if_splits)
  obtain c k where u: "u = upd_bmeta fb (\<lambda>m. m\<lparr>fb_crc := c\<rparr>) ?s1\<lparr>kern := k\<rparr>"
    using FileBlock_WriteMeta_frame [OF w] by blast
  have own: "fb_owned s fb = ?ids" using used by (simp add: fb_owned_def)
  have bi: "block_inv (block_handle s)" and mx: "\<forall>i \<in> set ?ids. i < max_block_num (block_handle s)"
    and nf: "fb \<notin> set (free_fbhs s)" and df: "distinct (free_fbhs s)"
    using ex used unfolding blocks_exclusive_def own [symmetric] by blast+
  note put' = block_inv_put [OF bi mx put]
  have bm: "bmetas t = (bmetas s)(fb := (FileBlock_ClearMeta (bmetas s fb))\<lparr>fb_crc := c\<rparr>)"
    and bh: "block_handle t = h"
    and ff: "free_fbhs t = (if w then free_fbhs s @ [fb] else free_fbhs s)"
    by (simp_all add: t u upd_bmeta_def PutFileBlockLock_def)
  show 2: "fb_owned t fb = []" by (simp add: fb_owned_def bm FileBlock_ClearMeta_def)
  show "\<And>i. i \<noteq> fb \<Longrightarrow> fb_owned t i = fb_owned s i" by (simp add: fb_owned_def bm)
  show 4: "set (block_id_pool (block_handle t)) = set (fb_owned s fb) \<union> set (block_id_pool (block_handle s))"
    using put' own bh by simp
  show "ok \<Longrightarrow> fb \<in> set (free_fbhs t)" using t ff by simp
  show "blocks_exclusive t"
    by (rule blocks_exclusiveI_upd [OF ex, of fb])
      (use 2 4 put' bh nf df ff in \<open>auto simp: bm FileBlock_ClearMeta_def\<close>)
qed

lemma add_block_id_owned:
  assumes "length (fb_block_id (bmetas s fb)) = 1000" "unat (fb_used_block_num (bmetas s fb)) < 1000"
  shows "\<exists>m. add_block_id i fb s = Some (s\<lparr>bmetas := (bmetas s)(fb := m)\<rparr>)
     \<and> length (fb_block_id m) = 1000
     \<and> unat (fb_used_block_num m) = Suc (unat (fb_used_block_num (bmetas s fb)))
     \<and> take (unat (fb_used_block_num m)) (fb_block_id m)
         = take (unat (fb_used_block_num (bmetas s fb))) (fb_block_id (bmetas s fb)) @ [i]
     \<and> fb_used m = fb_used (bmetas s fb) \<and> fb_file_cut m = fb_file_cut (bmetas s fb)
     \<and> fb_fh m = fb_fh (bmetas s fb) \<and> fb_is_temp m = fb_is_temp (bmetas s fb) \<and> fb_pad m = fb_pad (bmetas s fb)"
proof -
  let ?u = "fb_used_block_num (bmetas s fb)"
  have u: "unat (?u + 1) = Suc (unat ?u)" using assms(2) by (simp add: unat_word_ariths)
  have nf: "?u \<noteq> 1000" "\<not> 1000 < ?u" using assms(2) by (auto simp: word_less_nat_alt)
  show ?thesis
    using assms nf u
    by (intro exI [of _ "(bmetas s fb)\<lparr>fb_block_id := (fb_block_id (bmetas s fb))[unat ?u := i],
        fb_used_block_num := ?u + 1\<rparr>"])
      (simp add: add_block_id_def is_block_full_def upd_bmeta_def take_Suc_conv_app_nth)
qed

end
