(* ===== verification/Directory_Ops.thy ===== *)
theory Directory_Ops
  imports File_Block
begin

text \<open>
  Directories (\<open>lib/directory.h\<close>, \<open>lib/directory.cc\<close>) and the name tables of
  \<open>DirHandle\<close> (\<open>lib/dir_handle.cc\<close>): metadata write-back by 4096-byte pages, child maps,
  path normalisation, lookups, and the registration and removal of a directory in the
  tables. The path-level operations built on them are in the theory \<open>Dir_Handle\<close>.
\<close>

section \<open>Metadata pages\<close>

definition DirHandle_PageAlignIndex :: "fs \<Rightarrow> u32 \<Rightarrow> u32" where
  "DirHandle_PageAlignIndex s index =
     (let DIR_ALIGN = ucast (kBlockFsPageSize div sb_dir_meta_size (super_meta s))
      in index - index mod DIR_ALIGN)"

text \<open>The \<open>kBlockFsPageSize\<close> bytes of mapped directory metadata from index \<open>a\<close> on.\<close>

definition dir_page :: "fs \<Rightarrow> nat \<Rightarrow> u8 list" where
  "dir_page s a = concat (map (\<lambda>i. enc_DirMeta (dmetas s i))
     [a..<a + unat (kBlockFsPageSize div kBlockFsDirMetaSize)])"

definition dir_crc :: "nat \<Rightarrow> fs \<Rightarrow> fs" where
  "dir_crc i s = upd_dmeta i (\<lambda>m. m\<lparr>dm_crc := crc32 s (body_DirMeta m)\<rparr>) s"

text \<open>
  \<open>WriteMeta()\<close> checksums \<open>meta_\<close> and writes the page of \<open>dh()\<close>;
  the static \<open>WriteMeta(dh)\<close> takes both from \<open>dh\<close>.
\<close>

definition Directory_WriteMeta :: "nat \<Rightarrow> fs \<Rightarrow> bool \<times> fs" where
  "Directory_WriteMeta d s =
     (let align_index = DirHandle_PageAlignIndex s (word_of_nat (Dir_dh s d));
          offset = sb_dir_meta_size (super_meta s) * ucast align_index;
          s = dir_crc (d_meta (dobj s d)) s;
          (ret, s) = fs_PwriteDirect (dir_page s (unat align_index))
            (sb_dir_meta_offset (super_meta s) + offset) s
      in (ret = int (unat kBlockFsPageSize), s))"

definition Directory_WriteMeta_dh :: "nat \<Rightarrow> fs \<Rightarrow> bool \<times> fs" where
  "Directory_WriteMeta_dh dh s =
     (let align_index = DirHandle_PageAlignIndex s (word_of_nat dh);
          offset = sb_dir_meta_size (super_meta s) * ucast align_index;
          s = dir_crc dh s;
          (ret, s) = fs_PwriteDirect (dir_page s (unat align_index))
            (sb_dir_meta_offset (super_meta s) + offset) s
      in (ret = int (unat kBlockFsPageSize), s))"

section \<open>Directory\<close>

record stat =
  st_ino :: nat
  st_mode :: u32
  st_nlink :: int
  st_uid :: u32
  st_gid :: u32
  st_blksize :: u64
  st_blocks :: u64
  st_atime :: u64
  st_mtime :: u64
  st_ctime :: u64
  st_size :: u64

abbreviation S_IFREG :: u32 where "S_IFREG \<equiv> 0x8000"
abbreviation S_IFDIR :: u32 where "S_IFDIR \<equiv> 0x4000"

text \<open>The user and group of the process are arguments.\<close>

definition Directory_stat :: "u32 \<Rightarrow> u32 \<Rightarrow> fs \<Rightarrow> nat \<Rightarrow> stat" where
  "Directory_stat uid gid s d =
     \<lparr>st_ino = Dir_dh s d, st_mode = 0x1ED OR S_IFDIR, st_nlink = 0, st_uid = uid, st_gid = gid,
      st_blksize = kBlockSize, st_blocks = 0, st_atime = dm_atime (Dir_meta s d),
      st_mtime = dm_mtime (Dir_meta s d), st_ctime = dm_ctime (Dir_meta s d),
      st_size = dm_size (Dir_meta s d)\<rparr>"

definition Directory_UpdateTimeStamp :: "bool \<Rightarrow> bool \<Rightarrow> bool \<Rightarrow> nat \<Rightarrow> fs \<Rightarrow> fs" where
  "Directory_UpdateTimeStamp a m c d s =
     (let i = d_meta (dobj s d); t = now s;
          s = (if a then upd_dmeta i (\<lambda>x. x\<lparr>dm_atime := t\<rparr>) s else s);
          s = (if m then upd_dmeta i (\<lambda>x. x\<lparr>dm_mtime := t\<rparr>) s else s);
          s = (if c then upd_dmeta i (\<lambda>x. x\<lparr>dm_ctime := t\<rparr>) s else s)
      in dir_crc i s)"

definition Directory_ClearMeta_dh :: "nat \<Rightarrow> fs \<Rightarrow> fs" where
  "Directory_ClearMeta_dh dh s =
     dir_crc dh (upd_dmeta dh (\<lambda>m. m\<lparr>dm_used := False, dm_size := 0\<rparr>) s)"

definition Directory_ClearMeta :: "nat \<Rightarrow> fs \<Rightarrow> fs" where
  "Directory_ClearMeta d s =
     (let i = d_meta (dobj s d)
      in dir_crc i (upd_dmeta i (\<lambda>m. m\<lparr>dm_used := False, dm_size := 0\<rparr>) s))"

definition SuicideNolock :: "nat \<Rightarrow> fs \<Rightarrow> bool \<times> fs" where
  "SuicideNolock d s = Directory_WriteMeta d (Directory_ClearMeta d s)"

definition ChildCount :: "fs \<Rightarrow> nat \<Rightarrow> u32" where
  "ChildCount s d = word_of_nat (length (d_items (dobj s d)) + length (d_childs (dobj s d)))"

definition Dir_set_dir_name :: "nat \<Rightarrow> string \<Rightarrow> fs \<Rightarrow> fs" where
  "Dir_set_dir_name d name s =
     upd_dmeta (d_meta (dobj s d)) (\<lambda>m. m\<lparr>dm_dir_name := memcpy_cstr 768 name (behind s)\<rparr>) s"

definition AddChildFile :: "nat \<Rightarrow> nat \<Rightarrow> fs \<Rightarrow> bool \<times> fs" where
  "AddChildFile d f s =
     (if amap_contains (File_fh s f) (d_items (dobj s d)) then (False, s)
      else (True, upd_dir d (\<lambda>x. x\<lparr>d_items := amap_put (File_fh s f) f (d_items x)\<rparr>) s))"

definition RemoveChildFile :: "nat \<Rightarrow> nat \<Rightarrow> fs \<Rightarrow> bool \<times> fs" where
  "RemoveChildFile d f s =
     (amap_contains (File_fh s f) (d_items (dobj s d)),
      upd_dir d (\<lambda>x. x\<lparr>d_items := amap_del (File_fh s f) (d_items x)\<rparr>) s)"

definition AddChildDirectory :: "nat \<Rightarrow> nat \<Rightarrow> fs \<Rightarrow> bool \<times> fs" where
  "AddChildDirectory d child s =
     (if amap_contains (Dir_dh s child) (d_childs (dobj s d)) then (False, s)
      else (True, upd_dir d (\<lambda>x. x\<lparr>d_childs := amap_put (Dir_dh s child) child (d_childs x)\<rparr>) s))"

definition RemovChildDirectory :: "nat \<Rightarrow> nat \<Rightarrow> fs \<Rightarrow> bool \<times> fs" where
  "RemovChildDirectory d child s =
     (amap_contains (Dir_dh s child) (d_childs (dobj s d)),
      upd_dir d (\<lambda>x. x\<lparr>d_childs := amap_del (Dir_dh s child) (d_childs x)\<rparr>) s)"

datatype d_type = DT_DIR | DT_REG

record dirent =
  de_ino :: nat
  de_type :: d_type
  de_name :: string
  de_reclen :: u32
  de_time :: u64

text \<open>
  \<open>ScanDir\<close> lists the child directories, then the files. The trailing separator of a
  directory name is overwritten with a NUL before the last component is taken, so the C
  string in \<open>d_name\<close> ends there. \<open>d_name\<close> has 256 bytes; a longer directory
  component is copied beyond it (\<open>None\<close>).
\<close>

definition scan_name :: "string \<Rightarrow> string" where
  "scan_name n = GetFileName (if ends_with_slash n then butlast n @ [NUL] else n)"

definition ScanDir :: "fs \<Rightarrow> nat \<Rightarrow> dirent list option" where
  "ScanDir s d =
     (if \<forall>(_, c) \<in> set (d_childs (dobj s d)). length (scan_name (Dir_dir_name s c)) \<le> 256
      then Some (
        map (\<lambda>(_, c). \<lparr>de_ino = Dir_dh s c, de_type = DT_DIR,
              de_name = cstr (scan_name (Dir_dir_name s c)),
              de_reclen = 0, de_time = dm_atime (Dir_meta s c)\<rparr>) (d_childs (dobj s d))
      @ map (\<lambda>(_, f). \<lparr>de_ino = File_fh s f, de_type = DT_REG, de_name = File_file_name s f,
              de_reclen = ucast (File_file_size s f), de_time = fm_atime (File_meta s f)\<rparr>)
            (d_items (dobj s d)))
      else None)"

section \<open>Name tables of DirHandle\<close>

definition DirHandle_TransformPath :: "string \<Rightarrow> fs \<Rightarrow> string option \<times> fs" where
  "DirHandle_TransformPath path s =
     (let dir_name = (if ends_with_slash path then path else path @ ''/'')
      in if unat kBlockFsMaxDirNameLen \<le> length dir_name then (None, set_errno ENAMETOOLONG s)
         else (Some dir_name, s))"

definition IsMountPoint :: "string \<Rightarrow> bool" where
  "IsMountPoint dirname \<longleftrightarrow> dirname = ''/''"

definition GetCreatedDirectory_dh :: "fs \<Rightarrow> nat \<Rightarrow> nat option" where
  "GetCreatedDirectory_dh s dh = map_of (created_dhs s) dh"

definition GetCreatedDirectory :: "string \<Rightarrow> fs \<Rightarrow> nat option \<times> fs" where
  "GetCreatedDirectory dirname s =
     (case DirHandle_TransformPath dirname s of
        (None, s) \<Rightarrow> (None, s)
      | (Some dir_name, s) \<Rightarrow> (map_of (created_dirs s) dir_name, s))"

definition GetOpenDirectory :: "fs \<Rightarrow> int \<Rightarrow> nat option" where
  "GetOpenDirectory s fd = map_of (open_dirs s) fd"

definition AddDirectory2CreateNolock :: "nat \<Rightarrow> fs \<Rightarrow> bool \<times> fs" where
  "AddDirectory2CreateNolock child s =
     (if amap_contains (Dir_dir_name s child) (created_dirs s) then (False, s)
      else if amap_contains (Dir_dh s child) (created_dhs s) then (False, s)
      else (True, s\<lparr>created_dirs := amap_put (Dir_dir_name s child) child (created_dirs s),
                    created_dhs := amap_put (Dir_dh s child) child (created_dhs s)\<rparr>))"

definition RemoveDirectoryFromCreateNolock :: "nat \<Rightarrow> fs \<Rightarrow> bool \<times> fs" where
  "RemoveDirectoryFromCreateNolock child s =
     (if \<not> amap_contains (Dir_dir_name s child) (created_dirs s) then (False, s)
      else let s = s\<lparr>created_dirs := amap_del (Dir_dir_name s child) (created_dirs s)\<rparr>
           in if \<not> amap_contains (Dir_dh s child) (created_dhs s) then (False, s)
              else (True, s\<lparr>created_dhs := amap_del (Dir_dh s child) (created_dhs s)\<rparr>))"

text \<open>
  \<open>parent\<close> is a null pointer (\<open>None\<close>) exactly when the mount point is created. The
  roll-back of the source stands inside an \<open>assert\<close>, which release builds drop.
\<close>

definition AddDirectory :: "nat option \<Rightarrow> nat \<Rightarrow> fs \<Rightarrow> (bool \<times> fs) option" where
  "AddDirectory parent child s =
     (if \<not> IsMountPoint (Dir_dir_name s child)
      then (case parent of
          None \<Rightarrow> None
        | Some p \<Rightarrow> (case AddChildDirectory p child s of
              (False, s) \<Rightarrow> Some (False, s)
            | (True, s) \<Rightarrow> Some (AddDirectory2CreateNolock child s)))
      else Some (AddDirectory2CreateNolock child s))"

definition FindDirectory :: "string \<Rightarrow> fs \<Rightarrow> (nat \<times> nat) option \<times> fs" where
  "FindDirectory dirname s =
     (case map_of (created_dirs s) (GetDirName dirname) of
        None \<Rightarrow> (None, set_errno ENOENT s)
      | Some parent \<Rightarrow> (case map_of (created_dirs s) dirname of
            None \<Rightarrow> (None, set_errno ENOENT s)
          | Some d \<Rightarrow> (Some (parent, d), s)))"

definition RemoveDirectory :: "nat \<Rightarrow> nat \<Rightarrow> fs \<Rightarrow> bool \<times> fs" where
  "RemoveDirectory parent child s =
     (case RemovChildDirectory parent child s of
        (False, s) \<Rightarrow> (False, s)
      | (True, s) \<Rightarrow> RemoveDirectoryFromCreateNolock child s)"

definition NewFreeDirectoryNolock :: "string \<Rightarrow> fs \<Rightarrow> nat option \<times> fs" where
  "NewFreeDirectoryNolock dirname s =
     (case free_dhs s of
        [] \<Rightarrow> (None, set_errno ENFILE s)
      | dh # rest \<Rightarrow>
          (if dm_used (dmetas s dh) \<or> dm_dh (dmetas s dh) \<noteq> word_of_nat dh
           then (None, set_errno EINVAL s)
           else let (d, s) = new_dir (Directory_new dh) s;
                    s = upd_dmeta dh (\<lambda>m. m\<lparr>dm_used := True, dm_dh := word_of_nat dh\<rparr>) s;
                    s = Dir_set_dir_name d dirname s;
                    t = now s;
                    s = upd_dmeta dh (\<lambda>m. m\<lparr>dm_atime := t, dm_mtime := t, dm_ctime := t\<rparr>) s
                in (Some d, s\<lparr>free_dhs := rest\<rparr>)))"

definition NewDirectory :: "string \<Rightarrow> fs \<Rightarrow> (nat option \<times> nat) option \<times> fs" where
  "NewDirectory dirname s =
     (if amap_contains dirname (created_dirs s) then (None, set_errno EEXIST s)
      else if \<not> IsMountPoint dirname \<and> map_of (created_dirs s) (GetDirName dirname) = None
      then (None, set_errno ENOENT s)
      else let parent = (if IsMountPoint dirname then None
                         else map_of (created_dirs s) (GetDirName dirname))
           in case NewFreeDirectoryNolock dirname s of
                (None, s) \<Rightarrow> (None, s)
              | (Some d, s) \<Rightarrow> (Some (parent, d), s))"

end
