(* ===== verification/File_Ops.thy ===== *)
theory File_Ops
  imports Directory_Ops
begin

text \<open>
  The \<open>File\<close> and \<open>ParentFile\<close> classes (\<open>lib/file.h\<close>, \<open>lib/file.cc\<close>) with the parts
  of \<open>FileHandle\<close> they call back into (\<open>lib/file_handle.cc\<close>): metadata write-back,
  growing and shrinking a file, copying a partial block, the recycling of the metadata a shrink
  replaces. A result \<open>None\<close> is undefined behaviour of the source: a null pointer
  dereference or an access outside a file block's array.
\<close>

section \<open>Metadata pages\<close>

definition FileHandle_PageAlignIndex :: "fs \<Rightarrow> u32 \<Rightarrow> u32" where
  "FileHandle_PageAlignIndex s index =
     (let FILE_ALIGN = ucast (kBlockFsPageSize div sb_file_meta_size (super_meta s))
      in index - index mod FILE_ALIGN)"

definition file_page :: "fs \<Rightarrow> nat \<Rightarrow> u8 list" where
  "file_page s a = concat (map (\<lambda>i. enc_FileMeta (fmetas s i))
     [a..<a + unat (kBlockFsPageSize div kBlockFsFileMetaSize)])"

definition file_crc :: "nat \<Rightarrow> fs \<Rightarrow> fs" where
  "file_crc i s = upd_fmeta i (\<lambda>m. m\<lparr>fm_crc := crc32 s (body_FileMeta m)\<rparr>) s"

definition File_WriteMeta_fh :: "nat \<Rightarrow> fs \<Rightarrow> bool \<times> fs" where
  "File_WriteMeta_fh fh s =
     (let align_index = FileHandle_PageAlignIndex s (word_of_nat fh);
          offset = sb_file_meta_size (super_meta s) * ucast align_index;
          s = file_crc fh s;
          (ret, s) = fs_PwriteDirect (file_page s (unat align_index))
            (sb_file_meta_offset (super_meta s) + offset) s
      in (ret = int (unat kBlockFsPageSize), s))"

definition File_WriteMeta :: "nat \<Rightarrow> fs \<Rightarrow> bool \<times> fs" where
  "File_WriteMeta f s = File_WriteMeta_fh (File_fh s f) s"

definition File_ClearMeta :: "FileMeta \<Rightarrow> FileMeta" where
  "File_ClearMeta m = m\<lparr>fm_used := False, fm_is_temp := False, fm_size := 0, fm_mode := 0,
     fm_nlink := 0, fm_atime := 0, fm_mtime := 0, fm_ctime := 0,
     fm_child_fh := - 1, fm_parent_fh := - 1, fm_parent_size := - 1\<rparr>"

section \<open>Accessors\<close>

definition File_set_file_name :: "nat \<Rightarrow> string \<Rightarrow> fs \<Rightarrow> fs" where
  "File_set_file_name f name s =
     upd_fmeta (f_meta (fobj s f)) (\<lambda>m. m\<lparr>fm_file_name := memcpy_cstr 64 name (behind s)\<rparr>) s"

definition File_set_dh :: "nat \<Rightarrow> nat \<Rightarrow> fs \<Rightarrow> fs" where
  "File_set_dh f dh s = upd_fmeta (f_meta (fobj s f)) (\<lambda>m. m\<lparr>fm_dh := word_of_nat dh\<rparr>) s"

definition File_set_file_size :: "nat \<Rightarrow> u64 \<Rightarrow> fs \<Rightarrow> fs" where
  "File_set_file_size f n s = upd_fmeta (f_meta (fobj s f)) (\<lambda>m. m\<lparr>fm_size := n\<rparr>) s"

definition File_UpdateTimeStamp :: "nat \<Rightarrow> u64 \<Rightarrow> fs \<Rightarrow> fs" where
  "File_UpdateTimeStamp f seconds s =
     (let i = f_meta (fobj s f)
      in file_crc i (upd_fmeta i (\<lambda>m. m\<lparr>fm_mtime := seconds, fm_ctime := seconds\<rparr>) s))"

definition GetBlockNumber :: "fs \<Rightarrow> nat \<Rightarrow> u32" where
  "GetBlockNumber s f = fold (\<lambda>(_, fb) num. num + fb_used_block_num (bmetas s fb)) (f_items (fobj s f)) 0"

definition File_stat :: "u32 \<Rightarrow> u32 \<Rightarrow> fs \<Rightarrow> nat \<Rightarrow> stat" where
  "File_stat uid gid s f =
     \<lparr>st_ino = File_fh s f, st_mode = 0x1ED OR S_IFREG, st_nlink = f_nlink (fobj s f),
      st_uid = uid, st_gid = gid, st_blksize = kBlockSize,
      st_blocks = ucast (GetBlockNumber s f) * kBlockSize div 512,
      st_atime = fm_atime (File_meta s f), st_mtime = fm_mtime (File_meta s f),
      st_ctime = fm_ctime (File_meta s f), st_size = fm_size (File_meta s f)\<rparr>"

definition ReleaseNolock :: "nat \<Rightarrow> fs \<Rightarrow> bool \<times> fs" where
  "ReleaseNolock f s = File_WriteMeta f (upd_fmeta (f_meta (fobj s f)) File_ClearMeta s)"

definition AddFileBlockNoLock :: "nat \<Rightarrow> nat \<Rightarrow> fs \<Rightarrow> bool \<times> fs" where
  "AddFileBlockNoLock f fb s =
     (let cut = unat (fb_file_cut (bmetas s fb))
      in if amap_contains cut (f_items (fobj s f)) then (False, s)
         else (True, upd_file f (\<lambda>x. x\<lparr>f_items := amap_put cut fb (f_items x)\<rparr>) s))"

definition GetFileBlock :: "fs \<Rightarrow> nat \<Rightarrow> nat \<Rightarrow> nat option" where
  "GetFileBlock s f file_cut = map_of (f_items (fobj s f)) file_cut"

fun release_items :: "nat list \<Rightarrow> fs \<Rightarrow> (bool \<times> fs) option" where
  "release_items [] s = Some (True, s)"
| "release_items (fb # fbs) s = do {
     (ok, s) \<leftarrow> ReleaseAll fb s;
     if \<not> ok then Some (False, s) else release_items fbs s
   }"

definition RemoveAllFileBlock :: "nat \<Rightarrow> fs \<Rightarrow> (bool \<times> fs) option" where
  "RemoveAllFileBlock f s = do {
     (ok, s) \<leftarrow> release_items (map snd (f_items (fobj s f))) s;
     if \<not> ok then Some (False, s)
     else Some (True, upd_file f (\<lambda>x. x\<lparr>f_items := []\<rparr>) s)
   }"

section \<open>Growing a file\<close>

text \<open>The number of blocks an extension to \<open>offset\<close> has to allocate, in the source's types.\<close>

definition num_blocks_needed :: "u64 \<Rightarrow> u64 \<Rightarrow> u32" where
  "num_blocks_needed sz offset =
     (let expand_size = offset - sz;
          last_block_left = (if sz mod kBlockSize = 0 then 0 else kBlockSize - sz mod kBlockSize)
      in if expand_size \<le> last_block_left then 0
         else ucast (ALIGN_UP (expand_size - last_block_left) kBlockSize))"

text \<open>The \<open>while\<close> loop over \<open>block_ids\<close>; \<open>False\<close> is the early \<open>return -1\<close>.\<close>

fun fill_file_block :: "nat \<Rightarrow> u32 list \<Rightarrow> fs \<Rightarrow> (bool \<times> fs) option" where
  "fill_file_block fb [] s = Some (True, s)"
| "fill_file_block fb (i # ids) s =
     (if is_block_full s fb then Some (False, s)
      else do { s \<leftarrow> add_block_id i fb s; fill_file_block fb ids s })"

text \<open>
  The choice of the file block that takes the new blocks: a fresh one for an empty file, else
  the one with the largest cut, which must exist and must not be full.
\<close>

definition extend_target :: "nat \<Rightarrow> fs \<Rightarrow> nat option \<times> fs" where
  "extend_target f s =
     (if File_file_size s f = 0 then GetFileBlockLock s
      else case GetFileBlock s f (length (f_items (fobj s f)) - 1) of
             None \<Rightarrow> (None, s)
           | Some fb \<Rightarrow> (if is_block_full s fb then (None, s) else (Some fb, s)))"

definition extend_blocks :: "bool \<Rightarrow> u32 \<Rightarrow> nat \<Rightarrow> fs \<Rightarrow> u32 list option \<times> fs" where
  "extend_blocks need_new n fb s =
     (if 0 < n then
        (case fs_GetFreeBlockIdLock n s of
           (Some ids, s) \<Rightarrow> (Some ids, s)
         | (None, s) \<Rightarrow> (None, if need_new then PutFileBlockLock fb s else s))
      else (Some [], s))"

text \<open>Persisting: the file block first, if it changed, then the file with its new size.\<close>

definition extend_persist :: "nat \<Rightarrow> u64 \<Rightarrow> bool \<Rightarrow> nat \<Rightarrow> u32 list \<Rightarrow> fs \<Rightarrow> int \<times> fs" where
  "extend_persist f offset need_new fb block_ids s =
     (let (ok, s) = (if block_ids = [] then (True, s) else FileBlock_WriteMeta fb s)
      in if \<not> ok then (- 1, s)
         else let s = (if block_ids \<noteq> [] \<and> need_new then snd (AddFileBlockNoLock f fb s) else s);
                  (ok, s) = File_WriteMeta f (File_set_file_size f offset s)
              in (if ok then 0 else - 1, s))"

definition ExtendFile :: "nat \<Rightarrow> u64 \<Rightarrow> fs \<Rightarrow> (int \<times> fs) option" where
  "ExtendFile f offset s =
     (if sb_device_size (super_meta s) < offset then Some (- 1, s)
      else let n = num_blocks_needed (File_file_size s f) offset;
               need_new = (File_file_size s f = 0)
      in case extend_target f s of
           (None, s) \<Rightarrow> Some (- 1, s)
         | (Some fb, s) \<Rightarrow>
      (case extend_blocks need_new n fb s of
         (None, s) \<Rightarrow> Some (- 1, s)
       | (Some block_ids, s) \<Rightarrow>
      (let s = (if need_new
                then upd_bmeta fb (\<lambda>m. m\<lparr>fb_used := True, fb_file_cut := 0,
                       fb_fh := ucast (fm_fh (File_meta s f)), fb_is_temp := fm_is_temp (File_meta s f)\<rparr>) s
                else s)
       in do {
         (filled, s) \<leftarrow> fill_file_block fb block_ids s;
         Some (if filled then extend_persist f offset need_new fb block_ids s else (- 1, s))
       })))"

section \<open>Shrinking a file\<close>

text \<open>
  The loop of \<open>CopyData\<close> moves at most 4 MiB at a time; \<open>len\<close> strictly decreases.
\<close>

definition block_addr :: "fs \<Rightarrow> u32 \<Rightarrow> u64 \<Rightarrow> u64" where
  "block_addr s block_id off =
     sb_block_data_start_offset (super_meta s) + sb_block_size (super_meta s) * ucast block_id + off"

function copy_loop :: "u32 \<Rightarrow> u32 \<Rightarrow> u64 \<Rightarrow> u64 \<Rightarrow> fs \<Rightarrow> bool \<times> fs" where
  "copy_loop src dst offset len s =
     (if len = 0 then (True, s)
      else let data_len = min len (4 * M);
               ((ret, data), s) = fs_PreadCache data_len (block_addr s src offset) s
           in if ret \<noteq> int (unat data_len) then (False, s)
              else let (ret, s) = fs_PwriteCache data (block_addr s dst offset) s
                   in if ret \<noteq> int (unat data_len) then (False, s)
                      else copy_loop src dst (offset + data_len) (len - data_len) s)"
  by pat_completeness auto
termination
proof (relation "measure (\<lambda>(_, _, _, len, _). unat len)", goal_cases)
  case 1
  then show ?case by simp
next
  case prems: (2 src dst offset len s x)
  have "len - min len (4 * M) < len" using prems(1)
    by (auto simp: layout_consts min_def word_less_nat_alt unat_sub word_le_nat_alt unat_gt_0)
  then show ?case using prems(2) by (simp add: word_less_nat_alt)
qed

declare copy_loop.simps [simp del]

definition CopyData :: "u32 \<Rightarrow> u32 \<Rightarrow> u64 \<Rightarrow> u64 \<Rightarrow> fs \<Rightarrow> bool \<times> fs" where
  "CopyData src_block_id dst_block_id offset len s =
     (case copy_loop src_block_id dst_block_id offset len s of
        (False, s) \<Rightarrow> (False, s)
      | (True, s) \<Rightarrow> let (ret, s) = fs_Fsync s in (ret = 0, s))"

section \<open>The file tables a shrink goes through\<close>

text \<open>
  \<open>memcpy\<close> of \<open>filename.size()\<close> bytes into the 64-byte array; a longer name would
  overrun it.
\<close>

definition NewFreeFileMeta :: "nat \<Rightarrow> string \<Rightarrow> fs \<Rightarrow> (nat option \<times> fs) option" where
  "NewFreeFileMeta dh filename s =
     (case free_fhs s of
        [] \<Rightarrow> Some (None, set_errno ENFILE s)
      | fh # rest \<Rightarrow>
          (if fm_used (fmetas s fh) \<or> fm_fh (fmetas s fh) \<noteq> word_of_nat fh \<or> fm_size (fmetas s fh) \<noteq> 0
           then Some (None, set_errno EINVAL s)
           else if 64 < length filename then None
           else Some (Some fh,
             (upd_fmeta fh (\<lambda>m. m\<lparr>fm_used := True, fm_fh := word_of_nat fh, fm_dh := word_of_nat dh,
                fm_file_name := fit 64 NUL filename\<rparr>) s)\<lparr>free_fhs := rest\<rparr>)))"

definition AddFileNoLock :: "nat \<Rightarrow> fs \<Rightarrow> fs" where
  "AddFileNoLock f s =
     s\<lparr>created_fhs := amap_put (File_fh s f) f (created_fhs s),
       created_files := amap_put (File_dh s f, File_file_name s f) f (created_files s)\<rparr>"

definition AddFileToDirectory :: "nat \<Rightarrow> nat \<Rightarrow> fs \<Rightarrow> fs" where
  "AddFileToDirectory parent f s = AddFileNoLock f (snd (AddChildFile parent f s))"

definition RemoveFileNoLock :: "nat \<Rightarrow> fs \<Rightarrow> bool \<times> fs" where
  "RemoveFileNoLock f s =
     (let key = (File_dh s f, File_file_name s f)
      in if \<not> amap_contains key (created_files s) then (False, s)
         else let s = s\<lparr>created_files := amap_del key (created_files s)\<rparr>
              in if \<not> amap_contains (File_fh s f) (created_fhs s) then (False, s)
                 else (True, s\<lparr>created_fhs := amap_del (File_fh s f) (created_fhs s)\<rparr>))"

definition RemoveFileFromoDirectory :: "nat \<Rightarrow> nat \<Rightarrow> fs \<Rightarrow> bool \<times> fs" where
  "RemoveFileFromoDirectory parent f s =
     (case RemoveChildFile parent f s of
        (False, s) \<Rightarrow> (False, s)
      | (True, s) \<Rightarrow> RemoveFileNoLock f s)"

definition AddFile2FreeNolock :: "nat \<Rightarrow> fs \<Rightarrow> fs" where
  "AddFile2FreeNolock index s = s\<lparr>free_fhs := free_fhs s @ [index]\<rparr>"

section \<open>Parent files\<close>

definition ParentFile_fh :: "fs \<Rightarrow> ParentFile \<Rightarrow> nat" where
  "ParentFile_fh s p = unat (fm_fh (fmetas s (pf_meta p)))"

definition AddParentFile :: "ParentFile \<Rightarrow> fs \<Rightarrow> bool \<times> fs" where
  "AddParentFile parent s =
     (if amap_contains (ParentFile_fh s parent) (parent_files s) then (False, s)
      else (True, s\<lparr>parent_files := amap_put (ParentFile_fh s parent) parent (parent_files s)\<rparr>))"

text \<open>
  The inner loop of \<open>Recycle\<close>: the first \<open>block_num\<close> blocks, counted over all file
  blocks, now belong to the child and are kept.
\<close>

fun recycle_ids :: "u32 \<Rightarrow> u32 \<Rightarrow> u32 list \<Rightarrow> fs \<Rightarrow> u32 \<times> fs" where
  "recycle_ids block_num index [] s = (index, s)"
| "recycle_ids block_num index (i # ids) s =
     (if index < block_num then recycle_ids block_num (index + 1) ids s
      else recycle_ids block_num index ids (snd (fs_PutFreeBlockIdLock1 i s)))"

fun recycle_fbs :: "u32 \<Rightarrow> u32 \<Rightarrow> (nat, nat) amap \<Rightarrow> nat list \<Rightarrow> fs \<Rightarrow> fs option" where
  "recycle_fbs block_num index fbs [] s = Some s"
| "recycle_fbs block_num index fbs (i # is) s = do {
     fb \<leftarrow> map_of fbs i;
     ids \<leftarrow> used_block_ids s fb;
     let (index, s) = recycle_ids block_num index ids s;
     recycle_fbs block_num index fbs is (snd (ReleaseMyself fb s))
   }"

definition Recycle :: "ParentFile \<Rightarrow> fs \<Rightarrow> (bool \<times> fs) option" where
  "Recycle p s = do {
     let block_num = ucast (pf_offset p div kBlockSize);
     s \<leftarrow> recycle_fbs block_num 0 (pf_fbs p) [0..<length (pf_fbs p)] s;
     let s = upd_fmeta (pf_meta p) File_ClearMeta s;
     let (ok, s) = File_WriteMeta_fh (ParentFile_fh s p) s;
     Some (if \<not> ok then (False, s) else (True, AddFile2FreeNolock (ParentFile_fh s p) s))
   }"

definition RemoveParentFile :: "nat \<Rightarrow> fs \<Rightarrow> (bool \<times> fs) option" where
  "RemoveParentFile fh s =
     (case map_of (parent_files s) fh of
        None \<Rightarrow> Some (False, s)
      | Some parent \<Rightarrow> Recycle parent (s\<lparr>parent_files := amap_del fh (parent_files s)\<rparr>))"

definition RecycleParentFh :: "nat \<Rightarrow> nat \<Rightarrow> bool \<Rightarrow> fs \<Rightarrow> (int \<times> fs) option" where
  "RecycleParentFh f fh immediately s =
     (if \<not> immediately then Some (0, s)
      else do {
        (ok, s) \<leftarrow> RemoveParentFile fh s;
        if \<not> ok then Some (- 1, s)
        else do {
          let s = upd_fmeta (f_meta (fobj s f)) (\<lambda>m. m\<lparr>fm_parent_fh := - 1, fm_parent_size := 0\<rparr>) s;
          let (ok, s) = File_WriteMeta f s;
          Some (if ok then 0 else - 1, s)
        }
      })"

section \<open>ShrinkFile\<close>

fun inherit_ids :: "nat \<Rightarrow> nat \<Rightarrow> nat list \<Rightarrow> fs \<Rightarrow> fs option" where
  "inherit_ids old_fb new_fb [] s = Some s"
| "inherit_ids old_fb new_fb (j # js) s = do {
     s \<leftarrow> add_block_id (fb_block_id (bmetas s old_fb) ! j) new_fb s;
     inherit_ids old_fb new_fb js s
   }"

text \<open>
  The new file block of a shrink: the inherited blocks and, when the cut falls inside a block,
  a copy of its first part. \<open>Inl\<close> is an early \<open>return -1\<close>.
\<close>

definition shrink_fb :: "nat \<Rightarrow> nat \<Rightarrow> u64 \<Rightarrow> fs \<Rightarrow> ((unit + nat) \<times> fs) option" where
  "shrink_fb f new_fh offset s =
     (let block_num = ucast (offset div kBlockSize) :: u32;
          block_offset = offset mod kBlockSize;
          file_block_offset = block_num mod ucast kFileBlockCapacity
      in case GetFileBlockLock s of
           (None, s) \<Rightarrow> Some (Inl (), s)
         | (Some new_fb, s) \<Rightarrow> do {
      old_fb \<leftarrow> map_of (f_items (fobj s f)) 0;
      let s = upd_bmeta new_fb (\<lambda>m. m\<lparr>fb_used := True, fb_file_cut := fb_file_cut (bmetas s old_fb),
                fb_fh := ucast (fm_fh (fmetas s new_fh)), fb_is_temp := fm_is_temp (fmetas s new_fh)\<rparr>) s;
      s \<leftarrow> inherit_ids old_fb new_fb [0..<min (unat block_num) (unat kFileBlockCapacity)] s;
      if block_offset = 0 then Some (Inr new_fb, s)
      else (case fs_GetFreeBlockIdLock 1 s of
          (Some (new_block_id # _), s) \<Rightarrow>
            (case CopyData (fb_block_id (bmetas s old_fb) ! unat file_block_offset) new_block_id 0 block_offset s of
               (False, s) \<Rightarrow> Some (Inl (), s)
             | (True, s) \<Rightarrow> do { s \<leftarrow> add_block_id new_block_id new_fb s; Some (Inr new_fb, s) })
        | (_, s) \<Rightarrow> Some (Inl (), s))
      })"

text \<open>The second half: switch the file over to the new metadata, persist, recycle the old.\<close>

definition shrink_switch :: "nat \<Rightarrow> nat \<Rightarrow> u64 \<Rightarrow> nat option \<Rightarrow> fs \<Rightarrow> (int \<times> fs) option" where
  "shrink_switch f new_fh offset file_block s =
     (let old = f_meta (fobj s f);
          s = upd_fmeta old (\<lambda>m. m\<lparr>fm_child_fh := ucast (fm_fh (fmetas s new_fh))\<rparr>) s
      in case GetCreatedDirectory_dh s (File_dh s f) of
           None \<Rightarrow> Some (- 1, s)
         | Some dir \<Rightarrow>
      (let (_, s) = RemoveFileFromoDirectory dir f s;
           s = upd_file f (\<lambda>x. x\<lparr>f_meta := new_fh\<rparr>) s;
           s = AddFileToDirectory dir f s;
           parent = \<lparr>pf_meta = old, pf_offset = offset, pf_fbs = f_items (fobj s f), pf_tmp_file = False\<rparr>;
           s = upd_file f (\<lambda>x. x\<lparr>f_items := []\<rparr>) s
       in case AddParentFile parent s of
            (False, s) \<Rightarrow> Some (- 1, s)
          | (True, s) \<Rightarrow>
       (let s = (case file_block of None \<Rightarrow> s | Some fb \<Rightarrow> snd (AddFileBlockNoLock f fb s));
            s = File_set_file_size f offset s;
            (ok, s) = File_WriteMeta f s
        in if \<not> ok then Some (- 1, s)
           else let (ok, s) = (case file_block of None \<Rightarrow> (True, s) | Some fb \<Rightarrow> FileBlock_WriteMeta fb s)
           in if \<not> ok then Some (- 1, s)
           else let old_fh = unat (fm_fh (fmetas s old)); (ok, s) = File_WriteMeta_fh old_fh s
           in if \<not> ok then Some (- 1, s)
           else RecycleParentFh f old_fh True s)))"

definition ShrinkFile :: "nat \<Rightarrow> u64 \<Rightarrow> fs \<Rightarrow> (int \<times> fs) option" where
  "ShrinkFile f offset s = do {
     (new_meta, s) \<leftarrow> NewFreeFileMeta (File_dh s f) (File_file_name s f) s;
     case new_meta of None \<Rightarrow> Some (- 1, s)
     | Some new_fh \<Rightarrow> (
     let block_num = ucast (offset div kBlockSize) :: u32;
         old = File_meta s f;
         s = upd_fmeta new_fh (\<lambda>m. m\<lparr>fm_is_temp := fm_is_temp old, fm_parent_fh := ucast (fm_fh old),
               fm_parent_size := ucast block_num * kBlockSize, fm_size := ucast block_num * kBlockSize\<rparr>) s
     in if block_num mod ucast kFileBlockCapacity = 0 \<and> offset mod kBlockSize = 0
        then shrink_switch f new_fh offset None s
        else do {
          (r, s) \<leftarrow> shrink_fb f new_fh offset s;
          case r of Inl _ \<Rightarrow> Some (- 1, s)
          | Inr fb \<Rightarrow> shrink_switch f new_fh offset (Some fb) s
        })
   }"

definition ftruncate :: "nat \<Rightarrow> u64 \<Rightarrow> fs \<Rightarrow> (int \<times> fs) option" where
  "ftruncate f offset s =
     (if File_file_size s f < offset then ExtendFile f offset s
      else if offset < File_file_size s f then ShrinkFile f offset s
      else Some (0, s))"

definition File_fsync :: "nat \<Rightarrow> fs \<Rightarrow> int \<times> fs" where
  "File_fsync f s = fs_Fsync s"

section \<open>rename\<close>

definition File_rename :: "nat \<Rightarrow> string \<Rightarrow> fs \<Rightarrow> int \<times> fs" where
  "File_rename f to s =
     (case GetCreatedDirectory_dh s (File_dh s f) of
        None \<Rightarrow> (- 1, s)
      | Some old_dir \<Rightarrow>
     (case GetCreatedDirectory (GetDirName to) s of
        (None, s) \<Rightarrow> (- 1, s)
      | (Some to_dir, s) \<Rightarrow>
     (case RemoveChildFile old_dir f s of
        (False, s) \<Rightarrow> (- 1, s)
      | (True, s) \<Rightarrow>
     (case RemoveFileNoLock f s of
        (False, s) \<Rightarrow> (- 1, s)
      | (True, s) \<Rightarrow>
     (let s = File_set_file_name f (GetFileName to) s;
          s = File_set_dh f (Dir_dh s to_dir) s;
          s = File_UpdateTimeStamp f (now s) s;
          s = AddFileNoLock f s
      in case AddChildFile to_dir f s of
           (False, s) \<Rightarrow> (- 1, s)
         | (True, s) \<Rightarrow>
     (let (ok, s) = File_WriteMeta f s in (if ok then 0 else - 1, s)))))))"

end
