(* ===== verification/File_Extend.thy ===== *)
theory File_Extend
  imports File_Ops
begin

text \<open>
  Growing a file (\<open>File::ExtendFile\<close>, \<open>lib/file.cc\<close>): the number of blocks requested is
  exactly what the new size lacks, and whatever branch is taken no data block ever gets a second
  owner.
\<close>

section \<open>How many blocks\<close>

definition ceil_blocks :: "nat \<Rightarrow> nat" where
  "ceil_blocks n = (n + 4194303) div 4194304"

lemma ceil_blocks_diff:
  assumes "sz < off"
  shows "ceil_blocks off - ceil_blocks sz =
    (let left = (if sz mod 4194304 = 0 then 0 else 4194304 - sz mod 4194304)
     in if off - sz \<le> left then 0 else (off - sz - left + 4194303) div 4194304)"
proof (cases "sz mod 4194304 = 0")
  case True
  then obtain q where q: "sz = 4194304 * q" by (auto simp: mod_eq_0_iff_dvd dvd_def)
  have "ceil_blocks sz = q" unfolding ceil_blocks_def q by simp
  moreover have "ceil_blocks off = q + (off - sz + 4194303) div 4194304"
  proof -
    have "off + 4194303 = (off - sz + 4194303) + q * 4194304" using assms q by simp
    then show ?thesis unfolding ceil_blocks_def by (metis add.commute div_mult_self3 zero_neq_numeral)
  qed
  ultimately show ?thesis using True assms by simp
next
  case False
  define q where "q = sz div 4194304"
  define r where "r = sz mod 4194304"
  have sz: "sz = 4194304 * q + r" and r: "0 < r" "r < 4194304"
    using False by (auto simp: q_def r_def)
  have c: "ceil_blocks sz = q + 1" unfolding ceil_blocks_def sz using r by simp
  have "ceil_blocks off = (if off \<le> 4194304 * (q + 1) then q + 1
      else q + 1 + (off - 4194304 * (q + 1) + 4194303) div 4194304)"
  proof (cases "off \<le> 4194304 * (q + 1)")
    case True
    have "4194304 * (q + 1) \<le> off + 4194303" using assms sz r by (simp add: distrib_left)
    then have "(off + 4194303) div 4194304 = q + 1"
      using True by (intro div_nat_eqI) auto
    then show ?thesis using True by (simp add: ceil_blocks_def)
  next
    case False
    then have "off + 4194303 = (off - 4194304 * (q + 1) + 4194303) + (q + 1) * 4194304" by simp
    then show ?thesis using False unfolding ceil_blocks_def
      by (metis add.commute div_mult_self3 zero_neq_numeral)
  qed
  moreover have "off - sz \<le> 4194304 - r \<longleftrightarrow> off \<le> 4194304 * (q + 1)"
    using sz r assms by auto
  moreover have "off - sz - (4194304 - r) = off - 4194304 * (q + 1)" using sz r by auto
  ultimately show ?thesis using False c r_def by (simp add: Let_def)
qed

lemma unat_num_blocks_needed:
  assumes "sz < off" "off \<le> kBlockFsMaxUDiskSize"
  shows "unat (num_blocks_needed sz off) = ceil_blocks (unat off) - ceil_blocks (unat sz)"
proof -
  let ?B = "4194304 :: u64"
  let ?left = "if sz mod ?B = 0 then 0 else ?B - sz mod ?B"
  have lt: "unat sz < unat off" and mx: "unat off \<le> 140737488355328"
    using assms by (simp_all add: word_less_nat_alt word_le_nat_alt layout_consts)
  have e: "unat (off - sz) = unat off - unat sz" using assms(1) by (simp add: unat_sub order_less_imp_le)
  have m: "unat (sz mod ?B) = unat sz mod 4194304" by (simp add: unat_mod)
  have z: "(sz mod ?B = 0) = (unat sz mod 4194304 = 0)" using m unat_eq_zero [of "sz mod ?B"] by simp
  have l: "unat ?left = (if unat sz mod 4194304 = 0 then 0 else 4194304 - unat sz mod 4194304)"
  proof (cases "sz mod ?B = 0")
    case False
    have "sz mod ?B \<le> ?B" using m by (simp add: word_le_nat_alt)
    then show ?thesis using False z m by (simp add: unat_sub)
  qed (simp add: z [symmetric])
  have le: "(off - sz \<le> ?left) = (unat off - unat sz \<le> unat ?left)"
    by (simp add: word_le_nat_alt e)
  show ?thesis
  proof (cases "off - sz \<le> ?left")
    case True
    then have "num_blocks_needed sz off = 0"
      by (auto simp: num_blocks_needed_def layout_consts Let_def split: if_splits)
    moreover have "ceil_blocks (unat off) - ceil_blocks (unat sz) = 0"
      unfolding ceil_blocks_diff [OF lt] using True le l by (simp add: Let_def)
    ultimately show ?thesis by simp
  next
    case False
    have d: "unat (off - sz - ?left) = unat off - unat sz - unat ?left"
      using False le e by (subst unat_sub) (auto simp: word_le_nat_alt)
    have b: "unat off - unat sz - unat ?left + 4194304 \<le> 2 ^ 64" using mx by simp
    have "unat (ALIGN_UP (off - sz - ?left) ?B) = (unat off - unat sz - unat ?left + 4194304 - 1) div 4194304"
      using unat_ALIGN_UP [of ?B "off - sz - ?left"] d b by simp
    moreover have "num_blocks_needed sz off = ucast (ALIGN_UP (off - sz - ?left) ?B)"
      using False by (auto simp: num_blocks_needed_def layout_consts Let_def split: if_splits)
    moreover have "(unat off - unat sz - unat ?left + 4194304 - 1) div 4194304 < 2 ^ 32"
      using mx by (intro div_less_iff_less_mult [THEN iffD2]) auto
    ultimately have "unat (num_blocks_needed sz off) = (unat off - unat sz - unat ?left + 4194303) div 4194304"
      by (simp add: unsigned_ucast_eq take_bit_nat_eq_self)
    moreover have "ceil_blocks (unat off) - ceil_blocks (unat sz)
        = (unat off - unat sz - unat ?left + 4194303) div 4194304"
      unfolding ceil_blocks_diff [OF lt] using False le l by (simp add: Let_def)
    ultimately show ?thesis by simp
  qed
qed

section \<open>Filling the file block\<close>

lemma fill_file_block_spec:
  assumes "length (fb_block_id (bmetas s fb)) = 1000" "unat (fb_used_block_num (bmetas s fb)) \<le> 1000"
    and "k = min (length ids) (1000 - unat (fb_used_block_num (bmetas s fb)))"
  shows "\<exists>m. fill_file_block fb ids s = Some (k = length ids, s\<lparr>bmetas := (bmetas s)(fb := m)\<rparr>)
     \<and> length (fb_block_id m) = 1000
     \<and> unat (fb_used_block_num m) = unat (fb_used_block_num (bmetas s fb)) + k
     \<and> take (unat (fb_used_block_num m)) (fb_block_id m)
         = take (unat (fb_used_block_num (bmetas s fb))) (fb_block_id (bmetas s fb)) @ take k ids
     \<and> fb_used m = fb_used (bmetas s fb) \<and> fb_file_cut m = fb_file_cut (bmetas s fb)
     \<and> fb_fh m = fb_fh (bmetas s fb) \<and> fb_is_temp m = fb_is_temp (bmetas s fb) \<and> fb_pad m = fb_pad (bmetas s fb)"
  using assms
proof (induction ids arbitrary: s k)
  case Nil
  then show ?case by (intro exI [of _ "bmetas s fb"]) (simp add: fs.equality)
next
  case (Cons i ids)
  let ?u = "unat (fb_used_block_num (bmetas s fb))"
  show ?case
  proof (cases "?u = 1000")
    case True
    then have "fb_used_block_num (bmetas s fb) = 1000" by (simp add: word_unat_eq_iff)
    then show ?thesis using Cons.prems True
      by (intro exI [of _ "bmetas s fb"]) (simp add: is_block_full_def)
  next
    case False
    then have lt: "?u < 1000" using Cons.prems(2) by simp
    from add_block_id_owned [OF Cons.prems(1) lt, of i] obtain m where
      a: "add_block_id i fb s = Some (s\<lparr>bmetas := (bmetas s)(fb := m)\<rparr>)"
      and m: "length (fb_block_id m) = 1000" "unat (fb_used_block_num m) = Suc ?u"
        "take (unat (fb_used_block_num m)) (fb_block_id m)
           = take ?u (fb_block_id (bmetas s fb)) @ [i]"
        "fb_used m = fb_used (bmetas s fb)" "fb_file_cut m = fb_file_cut (bmetas s fb)"
        "fb_fh m = fb_fh (bmetas s fb)" "fb_is_temp m = fb_is_temp (bmetas s fb)" "fb_pad m = fb_pad (bmetas s fb)" by blast
    have nf: "\<not> is_block_full s fb" using lt by (auto simp: is_block_full_def)
    let ?s = "s\<lparr>bmetas := (bmetas s)(fb := m)\<rparr>"
    define k' where "k' = min (length ids) (1000 - Suc ?u)"
    have k: "k = Suc k'" using Cons.prems(3) lt by (auto simp: k'_def)
    have p: "length (fb_block_id (bmetas ?s fb)) = 1000" "unat (fb_used_block_num (bmetas ?s fb)) \<le> 1000"
      "k' = min (length ids) (1000 - unat (fb_used_block_num (bmetas ?s fb)))"
      using m lt by (simp_all add: k'_def)
    from Cons.IH [OF p] obtain m' where
      f: "fill_file_block fb ids ?s = Some (k' = length ids, ?s\<lparr>bmetas := (bmetas ?s)(fb := m')\<rparr>)"
      and m': "length (fb_block_id m') = 1000"
      "unat (fb_used_block_num m') = unat (fb_used_block_num (bmetas ?s fb)) + k'"
      "take (unat (fb_used_block_num m')) (fb_block_id m')
         = take (unat (fb_used_block_num (bmetas ?s fb))) (fb_block_id (bmetas ?s fb)) @ take k' ids"
      "fb_used m' = fb_used (bmetas ?s fb)" "fb_file_cut m' = fb_file_cut (bmetas ?s fb)"
      "fb_fh m' = fb_fh (bmetas ?s fb)" "fb_is_temp m' = fb_is_temp (bmetas ?s fb)" "fb_pad m' = fb_pad (bmetas ?s fb)" by blast
    have "fill_file_block fb (i # ids) s = Some (k = length (i # ids), s\<lparr>bmetas := (bmetas s)(fb := m')\<rparr>)"
      using a nf f k by simp
    moreover have "take (unat (fb_used_block_num m')) (fb_block_id m')
        = take ?u (fb_block_id (bmetas s fb)) @ take k (i # ids)"
      using m'(3) m(3) k by simp
    moreover have "unat (fb_used_block_num m') = ?u + k" "fb_used m' = fb_used (bmetas s fb)"
      "fb_file_cut m' = fb_file_cut (bmetas s fb)"
      "fb_fh m' = fb_fh (bmetas s fb)" "fb_is_temp m' = fb_is_temp (bmetas s fb)" "fb_pad m' = fb_pad (bmetas s fb)"
      using m' m k by simp_all
    ultimately show ?thesis using m'(1) by blast
  qed
qed

section \<open>No block gets a second owner\<close>

lemma same_blocks_File_WriteMeta: "same_blocks s (snd (File_WriteMeta_fh fh s))"
  by (auto simp: File_WriteMeta_fh_def file_crc_def same_blocks_def fs_io_defs fs_upd_defs Let_def
      split: prod.splits)

lemma same_blocks_tail [simp]:
  "same_blocks s (snd (File_WriteMeta f s))"
  "same_blocks s (snd (AddFileBlockNoLock f fb s))"
  "same_blocks s (File_set_file_size f n s)"
  using same_blocks_File_WriteMeta
  by (auto simp: File_WriteMeta_def AddFileBlockNoLock_def File_set_file_size_def Let_def)

text \<open>The file blocks a file refers to are in use.\<close>

definition items_used :: "fs \<Rightarrow> nat \<Rightarrow> bool" where
  "items_used s f \<longleftrightarrow> (\<forall>(i, fb) \<in> set (f_items (fobj s f)). fb_used (bmetas s fb))"

text \<open>
  The three ways to arrive at the file block to be filled: \<open>s1\<close> is the state with the file block
  taken, \<open>s2\<close> with the block identifiers taken as well.
\<close>

lemma extend_target_cases:
  assumes "blocks_exclusive s" "items_used s f" "extend_target f s = (Some fb, s1)"
  obtains rest where "File_file_size s f = 0" "free_fbhs s = fb # rest" "s1 = s\<lparr>free_fbhs := rest\<rparr>"
    "\<not> fb_used (bmetas s fb)" "fb_used_block_num (bmetas s fb) = 0" "fb \<notin> set rest"
  | "File_file_size s f \<noteq> 0" "s1 = s" "fb_used (bmetas s fb)" "fb \<notin> set (free_fbhs s)"
proof (cases "File_file_size s f = 0")
  case True
  with assms(3) obtain rest where *: "free_fbhs s = fb # rest" "s1 = s\<lparr>free_fbhs := rest\<rparr>"
    by (auto simp: extend_target_def GetFileBlockLock_def split: list.splits)
  moreover from this assms(1) have "\<not> fb_used (bmetas s fb)" "fb_used_block_num (bmetas s fb) = 0" "fb \<notin> set rest"
    by (auto simp: blocks_exclusive_def)
  ultimately show ?thesis using that(1) True by blast
next
  case False
  with assms(3) have m: "map_of (f_items (fobj s f)) (length (f_items (fobj s f)) - 1) = Some fb" "s1 = s"
    by (auto simp: extend_target_def GetFileBlock_def split: option.splits if_splits)
  with assms(2) have u: "fb_used (bmetas s fb)"
    by (auto simp: items_used_def dest: map_of_SomeD)
  with assms(1) have "fb \<notin> set (free_fbhs s)" by (auto simp: blocks_exclusive_def)
  with u m False show ?thesis using that(2) by blast
qed

lemma extend_target_none: "extend_target f s = (None, s1) \<Longrightarrow> s1 = s"
  by (auto simp: extend_target_def GetFileBlockLock_def split: list.splits option.splits if_splits)

lemma extend_blocks_some:
  assumes "blocks_exclusive s" "extend_blocks nw n fb s = (Some ids, s2)"
  shows "\<exists>h. s2 = s\<lparr>block_handle := h\<rparr> \<and> length ids = unat n \<and> distinct ids
     \<and> set ids \<subseteq> set (block_id_pool (block_handle s))
     \<and> set (block_id_pool h) = set (block_id_pool (block_handle s)) - set ids
     \<and> block_inv h \<and> max_block_num h = max_block_num (block_handle s)"
proof (cases "0 < n")
  case True
  then obtain h where h: "GetFreeBlockIdLock n (block_handle s) = (Some ids, h)" "s2 = s\<lparr>block_handle := h\<rparr>"
    using assms(2)
    by (auto simp: extend_blocks_def fs_GetFreeBlockIdLock_def split: prod.splits option.splits)
  have "block_inv (block_handle s)" using assms(1) by (simp add: blocks_exclusive_def)
  from block_inv_take_drop [OF this h(1)] h(2) show ?thesis by blast
next
  case False
  then have "ids = []" "s2 = s" "n = 0"
    using assms(2) word_gt_0 [of n] by (auto simp: extend_blocks_def)
  moreover have "block_inv (block_handle s)" using assms(1) by (simp add: blocks_exclusive_def)
  ultimately show ?thesis by (intro exI [of _ "block_handle s"]) simp
qed

lemma fb_owned_free: "fb_owned (s\<lparr>free_fbhs := x\<rparr>) i = fb_owned s i"
  by (simp add: fb_owned_def)

lemma blocks_exclusive_tl:
  "blocks_exclusive s \<Longrightarrow> free_fbhs s = fb # rest \<Longrightarrow> blocks_exclusive (s\<lparr>free_fbhs := rest\<rparr>)"
  by (simp add: blocks_exclusive_def fb_owned_free wf_bmetas_def)

text \<open>
  The central step: taking a file block and identifiers, marking the block as used and filling it.
  What the file block holds afterwards is what it held before, followed by new identifiers.
\<close>

lemma extend_fill:
  assumes ex: "blocks_exclusive s" and iu: "items_used s f"
    and t: "extend_target f s = (Some fb, s1)"
    and b: "extend_blocks nw n fb s1 = (Some ids, s2)"
    and nw: "nw = (File_file_size s f = 0)"
    and s3: "s3 = (if nw then upd_bmeta fb (\<lambda>m. m\<lparr>fb_used := True, fb_file_cut := 0, fb_fh := h, fb_is_temp := tmp\<rparr>) s2
                   else s2)"
    and r: "fill_file_block fb ids s3 = Some (ok, s4)"
  shows "blocks_exclusive s4"
    "ok \<Longrightarrow> fb_owned s4 fb = fb_owned s fb @ ids \<and> length ids = unat n"
    "\<And>i. i \<noteq> fb \<Longrightarrow> bmetas s4 i = bmetas s i" "fobj s4 = fobj s" "fmetas s4 = fmetas s"
    "super_meta s4 = super_meta s" "dev s4 = dev s" "kern s4 = kern s"
    "fb_used (bmetas s4 fb)" "nw \<Longrightarrow> fb_file_cut (bmetas s4 fb) = 0"
    "dmetas s4 = dmetas s" "crc32 s4 = crc32 s" "ids = [] \<Longrightarrow> \<not> nw \<Longrightarrow> bmetas s4 = bmetas s"
    "set (free_fbhs s4) \<subseteq> set (free_fbhs s)"
    "fb_file_cut (bmetas s4 fb) = (if nw then 0 else fb_file_cut (bmetas s fb))"
    "fb_fh (bmetas s4 fb) = (if nw then h else fb_fh (bmetas s fb))"
    "fb_is_temp (bmetas s4 fb) = (if nw then tmp else fb_is_temp (bmetas s fb))" "fb_pad (bmetas s4 fb) = fb_pad (bmetas s fb)"
    "\<exists>bm bh fr. s4 = s\<lparr>bmetas := bm, block_handle := bh, free_fbhs := fr\<rparr>"
proof -
  have df: "distinct (free_fbhs s)" using ex by (simp add: blocks_exclusive_def)
  have "blocks_exclusive s1 \<and> (\<exists>x. s1 = s\<lparr>free_fbhs := x\<rparr> \<and> set x \<subseteq> set (free_fbhs s) \<and> fb \<notin> set x \<and> distinct x)
      \<and> (nw \<longrightarrow> \<not> fb_used (bmetas s fb) \<and> fb_used_block_num (bmetas s fb) = 0) \<and> (\<not> nw \<longrightarrow> fb_used (bmetas s fb))"
    using extend_target_cases [OF ex iu t]
  proof cases
    case (1 rest)
    then show ?thesis using blocks_exclusive_tl [OF ex 1(2)] nw df
      by (auto intro!: exI [of _ rest])
  next
    case 2
    then show ?thesis using ex nw df by (auto intro!: exI [of _ "free_fbhs s"])
  qed
  then obtain x where x1: "blocks_exclusive s1" and s1: "s1 = s\<lparr>free_fbhs := x\<rparr>"
    and x: "set x \<subseteq> set (free_fbhs s)" "fb \<notin> set x" "distinct x"
    and st: "nw \<Longrightarrow> \<not> fb_used (bmetas s fb) \<and> fb_used_block_num (bmetas s fb) = 0"
      "\<not> nw \<Longrightarrow> fb_used (bmetas s fb)" by blast
  have bm1: "bmetas s1 = bmetas s" "block_handle s1 = block_handle s"
    and fr1: "set (free_fbhs s1) \<subseteq> set (free_fbhs s)" "fb \<notin> set (free_fbhs s1)" "distinct (free_fbhs s1)"
    and same1: "fobj s1 = fobj s" "fmetas s1 = fmetas s" "super_meta s1 = super_meta s" "dev s1 = dev s" "kern s1 = kern s"
      "dmetas s1 = dmetas s" "crc32 s1 = crc32 s"
    using x by (simp_all add: s1)
  from extend_blocks_some [OF x1 b] obtain h' where s2: "s2 = s1\<lparr>block_handle := h'\<rparr>"
    and ids: "length ids = unat n" "distinct ids" "set ids \<subseteq> set (block_id_pool (block_handle s))"
      "set (block_id_pool h') = set (block_id_pool (block_handle s)) - set ids" "block_inv h'"
      "max_block_num h' = max_block_num (block_handle s)"
    using bm1 by auto
  have w: "length (fb_block_id (bmetas s fb)) = 1000" "unat (fb_used_block_num (bmetas s fb)) \<le> 1000"
    using ex by (auto simp: blocks_exclusive_def wf_bmetas_def)
  have b3: "fb_block_id (bmetas s3 fb) = fb_block_id (bmetas s fb)"
    "fb_used_block_num (bmetas s3 fb) = fb_used_block_num (bmetas s fb)" "fb_used (bmetas s3 fb)"
    using s3 s2 bm1 st by (auto simp: upd_bmeta_def)
  have o3: "bmetas s3 i = bmetas s i" if "i \<noteq> fb" for i using s3 s2 bm1 that by (auto simp: upd_bmeta_def)
  have f3: "block_handle s3 = h'" "free_fbhs s3 = free_fbhs s1" "fobj s3 = fobj s" "fmetas s3 = fmetas s"
    "super_meta s3 = super_meta s" "dev s3 = dev s" "kern s3 = kern s"
    "dmetas s3 = dmetas s" "crc32 s3 = crc32 s"
    using s3 s2 same1 by (auto simp: upd_bmeta_def)
  define k where "k = min (length ids) (1000 - unat (fb_used_block_num (bmetas s3 fb)))"
  from fill_file_block_spec [of s3 fb k ids] w b3 r k_def obtain m where
    ok: "ok = (k = length ids)" and s4: "s4 = s3\<lparr>bmetas := (bmetas s3)(fb := m)\<rparr>"
    and m: "length (fb_block_id m) = 1000" "unat (fb_used_block_num m) = unat (fb_used_block_num (bmetas s fb)) + k"
      "take (unat (fb_used_block_num m)) (fb_block_id m)
         = take (unat (fb_used_block_num (bmetas s fb))) (fb_block_id (bmetas s fb)) @ take k ids"
      "fb_used m" "fb_file_cut m = fb_file_cut (bmetas s3 fb)"
      "fb_fh m = fb_fh (bmetas s3 fb)" "fb_is_temp m = fb_is_temp (bmetas s3 fb)" "fb_pad m = fb_pad (bmetas s3 fb)"
    by (metis option.inject prod.inject)
  have own: "fb_owned s fb = take (unat (fb_used_block_num (bmetas s fb))) (fb_block_id (bmetas s fb))"
    using st by (cases nw) (auto simp: fb_owned_def)
  have own4: "fb_owned s4 fb = fb_owned s fb @ take k ids"
    using m own by (simp add: fb_owned_def s4)
  show "\<And>i. i \<noteq> fb \<Longrightarrow> bmetas s4 i = bmetas s i" using o3 by (simp add: s4)
  show "fobj s4 = fobj s" "fmetas s4 = fmetas s" "super_meta s4 = super_meta s" "dev s4 = dev s"
    "kern s4 = kern s" "dmetas s4 = dmetas s" "crc32 s4 = crc32 s" using f3 by (simp_all add: s4)
  show "ids = [] \<Longrightarrow> \<not> nw \<Longrightarrow> bmetas s4 = bmetas s" using r s3 s2 bm1 by auto
  show "set (free_fbhs s4) \<subseteq> set (free_fbhs s)" using fr1(1) f3(2) by (simp add: s4)
  show "fb_used (bmetas s4 fb)" using m by (simp add: s4)
  show "nw \<Longrightarrow> fb_file_cut (bmetas s4 fb) = 0" using m s3 by (simp add: s4 upd_bmeta_def)
  show "fb_file_cut (bmetas s4 fb) = (if nw then 0 else fb_file_cut (bmetas s fb))"
    "fb_fh (bmetas s4 fb) = (if nw then h else fb_fh (bmetas s fb))"
    "fb_is_temp (bmetas s4 fb) = (if nw then tmp else fb_is_temp (bmetas s fb))" "fb_pad (bmetas s4 fb) = fb_pad (bmetas s fb)"
    using m(5-8) s3 s2 bm1(1) by (auto simp: s4 upd_bmeta_def)
  show "\<exists>bm bh fr. s4 = s\<lparr>bmetas := bm, block_handle := bh, free_fbhs := fr\<rparr>"
  proof (intro exI)
    show "s4 = s\<lparr>bmetas := bmetas s4, block_handle := block_handle s4, free_fbhs := free_fbhs s4\<rparr>"
      using s3 by (cases nw) (simp_all add: s4 s2 s1 upd_bmeta_def)
  qed
  show "ok \<Longrightarrow> fb_owned s4 fb = fb_owned s fb @ ids \<and> length ids = unat n"
    using own4 ok ids by simp
  have dis: "set (fb_owned s fb) \<inter> set (block_id_pool (block_handle s)) = {}" "distinct (fb_owned s fb)"
    using ex by (auto simp: blocks_exclusive_def)
  have tk: "set (take k ids) \<subseteq> set ids" by (rule set_take_subset)
  show "blocks_exclusive s4"
  proof (rule blocks_exclusiveI_upd [OF ex, of fb])
    show "\<And>i. i \<noteq> fb \<Longrightarrow> bmetas s4 i = bmetas s i" using o3 by (simp add: s4)
    show "length (fb_block_id (bmetas s4 fb)) = 1000" using m by (simp add: s4)
    show "unat (fb_used_block_num (bmetas s4 fb)) \<le> 1000"
      using m w b3 by (simp add: s4 k_def)
    show "distinct (fb_owned s4 fb)" using own4 ids dis tk by auto
    show "set (fb_owned s4 fb) \<subseteq> set (fb_owned s fb) \<union> set (block_id_pool (block_handle s))"
      using own4 ids tk by auto
    show "block_inv (block_handle s4)" using ids f3 by (simp add: s4)
    show "set (block_id_pool (block_handle s4))
        \<subseteq> set (block_id_pool (block_handle s)) \<union> set (fb_owned s fb) - set (fb_owned s4 fb)"
      using own4 ids tk dis f3 by (auto simp: s4)
    show "max_block_num (block_handle s4) = max_block_num (block_handle s)" using ids f3 by (simp add: s4)
    show "distinct (free_fbhs s4)" "set (free_fbhs s4) - {fb} \<subseteq> set (free_fbhs s)"
      using fr1 f3 by (auto simp: s4)
    show "fb \<in> set (free_fbhs s4) \<Longrightarrow> \<not> fb_used (bmetas s4 fb) \<and> fb_used_block_num (bmetas s4 fb) = 0"
      using fr1 f3 by (simp add: s4)
  qed
qed

section \<open>ExtendFile as a whole\<close>

text \<open>Write-back of metadata touches a checksum and the kernel only.\<close>

lemma File_WriteMeta_fh_frame:
  assumes "File_WriteMeta_fh fh s = (ok, t)"
  shows "\<exists>c k. t = upd_fmeta fh (\<lambda>m. m\<lparr>fm_crc := c\<rparr>) s\<lparr>kern := k\<rparr>"
  using assms by (auto simp: File_WriteMeta_fh_def file_crc_def fs_io_defs Let_def upd_fmeta_def split: prod.splits)

lemma extend_blocks_none:
  assumes ex: "blocks_exclusive s" and iu: "items_used s f"
    and t: "extend_target f s = (Some fb, s1)" "extend_blocks (File_file_size s f = 0) n fb s1 = (None, s2)"
  shows "blocks_exclusive s2"
  using extend_target_cases [OF ex iu t(1)]
proof cases
  case (1 rest)
  then have "s2 = s\<lparr>free_fbhs := rest @ [fb]\<rparr>"
    using t(2) by (auto simp: extend_blocks_def blk_op_defs GetFreeBlockIdLock_def PutFileBlockLock_def
        split: prod.splits if_splits)
  moreover have "blocks_exclusive (s\<lparr>free_fbhs := rest @ [fb]\<rparr>)"
    using ex 1 by (simp add: blocks_exclusive_def fb_owned_free wf_bmetas_def)
  ultimately show ?thesis by simp
next
  case 2
  then have "s2 = s"
    using t(2) by (auto simp: extend_blocks_def blk_op_defs GetFreeBlockIdLock_def
        split: prod.splits if_splits)
  then show ?thesis using ex by simp
qed

lemma extend_persist_cases:
  assumes e: "extend_persist f off nw fb ids s = (r, t)"
  obtains (fail) "r = - 1" "same_blocks s t"
  | (extended) s' where "r = 0" "same_blocks s t"
      "\<exists>c k. s' = (if ids = [] then s else upd_bmeta fb (\<lambda>m. m\<lparr>fb_crc := c\<rparr>) s\<lparr>kern := k\<rparr>)"
      "\<exists>c k. t = upd_fmeta (File_fh s f) (\<lambda>m. m\<lparr>fm_crc := c\<rparr>)
         (File_set_file_size f off (if ids \<noteq> [] \<and> nw then snd (AddFileBlockNoLock f fb s') else s'))\<lparr>kern := k\<rparr>"
proof -
  obtain ok s5 where w5: "(if ids = [] then (True, s) else FileBlock_WriteMeta fb s) = (ok, s5)"
    by fastforce
  have sm5: "same_blocks s s5"
    using w5 FileBlock_WriteMeta_same [of s fb] by (auto split: if_splits)
  have fr5: "\<exists>c k. s5 = (if ids = [] then s else upd_bmeta fb (\<lambda>m. m\<lparr>fb_crc := c\<rparr>) s\<lparr>kern := k\<rparr>)"
    using w5 FileBlock_WriteMeta_frame [of fb s ok s5] by (cases "ids = []") auto
  show ?thesis
  proof (cases ok)
    case False
    then show ?thesis using e w5 sm5 fail by (simp add: extend_persist_def)
  next
    case True
    define s6 where "s6 = File_set_file_size f off
      (if ids \<noteq> [] \<and> nw then snd (AddFileBlockNoLock f fb s5) else s5)"
    obtain ok7 where w7: "File_WriteMeta f s6 = (ok7, t)" and r: "r = (if ok7 then 0 else - 1)"
      using e w5 True by (auto simp: extend_persist_def Let_def s6_def split: prod.splits)
    have "same_blocks s5 s6"
      unfolding s6_def using same_blocks_trans [OF same_blocks_tail(2,3)] same_blocks_tail(3) by auto
    moreover have "same_blocks s6 t" using w7 same_blocks_tail(1) [of s6 f] by simp
    ultimately have sm: "same_blocks s t" using sm5 same_blocks_trans by blast
    have "File_fh s6 f = File_fh s f"
      using fr5
      by (auto simp: s6_def File_set_file_size_def AddFileBlockNoLock_def obj_acc_defs fs_upd_defs Let_def)
    then show ?thesis
      using extended [OF _ sm fr5] fail sm r File_WriteMeta_fh_frame [OF w7 [unfolded File_WriteMeta_def]]
      by (cases ok7) (auto simp: s6_def)
  qed
qed

text \<open>The outcomes of \<open>ExtendFile\<close>.\<close>

lemma ExtendFile_cases:
  assumes ex: "blocks_exclusive s" and iu: "items_used s f" and e: "ExtendFile f off s = Some (r, t)"
  obtains (fail) "r = - 1" "blocks_exclusive t"
  | (filled) fb ids s4 where "blocks_exclusive s4" "fobj s4 = fobj s" "fmetas s4 = fmetas s"
      "fb_owned s4 fb = fb_owned s fb @ ids"
      "length ids = unat (num_blocks_needed (File_file_size s f) off)"
      "\<And>i. i \<noteq> fb \<Longrightarrow> bmetas s4 i = bmetas s i"
      "File_file_size s f \<noteq> 0 \<Longrightarrow> map_of (f_items (fobj s f)) (length (f_items (fobj s f)) - 1) = Some fb"
      "File_file_size s f = 0 \<Longrightarrow> \<not> fb_used (bmetas s fb) \<and> fb_file_cut (bmetas s4 fb) = 0
          \<and> fb \<in> set (free_fbhs s)"
      "fb_used (bmetas s4 fb)"
      "extend_persist f off (File_file_size s f = 0) fb ids s4 = (r, t)"
      "kern s4 = kern s" "super_meta s4 = super_meta s" "dev s4 = dev s" "dmetas s4 = dmetas s" "crc32 s4 = crc32 s"
      "ids = [] \<Longrightarrow> File_file_size s f \<noteq> 0 \<Longrightarrow> bmetas s4 = bmetas s" "set (free_fbhs s4) \<subseteq> set (free_fbhs s)"
      "fb_file_cut (bmetas s4 fb) = (if File_file_size s f = 0 then 0 else fb_file_cut (bmetas s fb))"
      "fb_fh (bmetas s4 fb) = (if File_file_size s f = 0 then ucast (fm_fh (File_meta s f)) else fb_fh (bmetas s fb))"
      "fb_is_temp (bmetas s4 fb) = (if File_file_size s f = 0 then fm_is_temp (File_meta s f) else fb_is_temp (bmetas s fb))"
      "fb_pad (bmetas s4 fb) = fb_pad (bmetas s fb)" "\<exists>bm bh fr. s4 = s\<lparr>bmetas := bm, block_handle := bh, free_fbhs := fr\<rparr>"
proof -
  let ?n = "num_blocks_needed (File_file_size s f) off" and ?nw = "File_file_size s f = 0"
  obtain o1 s1 where t: "extend_target f s = (o1, s1)" by (cases "extend_target f s")
  show ?thesis
  proof (cases "sb_device_size (super_meta s) < off \<or> o1 = None")
    case True
    then show ?thesis using e fail ex t extend_target_none [of f s s1]
      by (auto simp: ExtendFile_def Let_def split: if_splits)
  next
    case False
    then obtain fb where dev: "\<not> sb_device_size (super_meta s) < off" and fb: "o1 = Some fb" by auto
    note t = t [unfolded fb]
    obtain o2 s2 where b: "extend_blocks ?nw ?n fb s1 = (o2, s2)" by (cases "extend_blocks ?nw ?n fb s1")
    show ?thesis
    proof (cases o2)
      case None
      then show ?thesis using e dev t b fail extend_blocks_none [OF ex iu t] by (simp add: ExtendFile_def Let_def)
    next
      case ids: (Some ids)
      note b = b [unfolded ids]
      define s3 where "s3 = (if ?nw then upd_bmeta fb (\<lambda>m. m\<lparr>fb_used := True, fb_file_cut := 0,
          fb_fh := ucast (fm_fh (File_meta s2 f)), fb_is_temp := fm_is_temp (File_meta s2 f)\<rparr>) s2 else s2)"
      have e3: "(do { (filled, s) \<leftarrow> fill_file_block fb ids s3;
          Some (if filled then extend_persist f off ?nw fb ids s else (- 1, s)) }) = Some (r, t)"
        using e dev t b by (simp add: ExtendFile_def Let_def s3_def)
      then obtain ok s4 where f4: "fill_file_block fb ids s3 = Some (ok, s4)"
        by (cases "fill_file_block fb ids s3") auto
      note F = extend_fill [OF ex iu t b refl s3_def f4]
      have tgt: "\<not> ?nw \<Longrightarrow> map_of (f_items (fobj s f)) (length (f_items (fobj s f)) - 1) = Some fb"
        "?nw \<Longrightarrow> \<not> fb_used (bmetas s fb) \<and> fb \<in> set (free_fbhs s)"
        using t ex by (auto simp: extend_target_def GetFileBlockLock_def GetFileBlock_def blocks_exclusive_def
            split: list.splits option.splits if_splits)
      show ?thesis
      proof (cases ok)
        case False
        then show ?thesis using e3 f4 F(1) fail by simp
      next
        case True
        then have "extend_persist f off ?nw fb ids s4 = (r, t)" using e3 f4 by simp
        moreover have "File_meta s2 f = File_meta s f"
          using t b by (auto simp: extend_target_def extend_blocks_def GetFileBlockLock_def blk_op_defs PutFileBlockLock_def
              split: list.splits option.splits if_splits prod.splits)
        ultimately show ?thesis by (intro filled [of s4 fb ids]) (use F True tgt in auto)
      qed
    qed
  qed
qed

lemma ExtendFile_exclusive:
  assumes "blocks_exclusive s" "items_used s f" "ExtendFile f off s = Some (r, t)"
  shows "blocks_exclusive t"
  using assms
proof (cases rule: ExtendFile_cases)
  case (filled fb ids s4)
  from filled(10) have "same_blocks s4 t" by (cases rule: extend_persist_cases) auto
  then show ?thesis using filled(1) same_blocks_exclusive by blast
qed

section \<open>The shape of a file\<close>

text \<open>
  An empty file has no file block; any other has one, at cut 0, with exactly the blocks its size
  calls for. \<open>file_ids\<close> are the blocks of a file, in order.
\<close>

definition file_wf :: "fs \<Rightarrow> nat \<Rightarrow> bool" where
  "file_wf s f \<longleftrightarrow> (case f_items (fobj s f) of
       [] \<Rightarrow> File_file_size s f = 0
     | [(i, fb)] \<Rightarrow> i = 0 \<and> File_file_size s f \<noteq> 0 \<and> fb_used (bmetas s fb)
         \<and> length (fb_owned s fb) = ceil_blocks (unat (File_file_size s f))
     | _ \<Rightarrow> False)"

definition file_ids :: "fs \<Rightarrow> nat \<Rightarrow> u32 list" where
  "file_ids s f = concat (map (\<lambda>(_, fb). fb_owned s fb) (f_items (fobj s f)))"

lemma file_wf_cases:
  assumes "file_wf s f"
  obtains (empty) "f_items (fobj s f) = []" "File_file_size s f = 0" "file_ids s f = []"
  | (one) fb where "f_items (fobj s f) = [(0, fb)]" "File_file_size s f \<noteq> 0" "fb_used (bmetas s fb)"
      "length (fb_owned s fb) = ceil_blocks (unat (File_file_size s f))" "file_ids s f = fb_owned s fb"
proof (cases "f_items (fobj s f)")
  case Nil
  then show ?thesis using assms empty by (simp add: file_wf_def file_ids_def)
next
  case (Cons p ps)
  then have "ps = []" using assms by (cases ps; cases p) (auto simp: file_wf_def)
  then show ?thesis using assms Cons one by (cases p) (auto simp: file_wf_def file_ids_def)
qed

lemma file_wf_items_used: "file_wf s f \<Longrightarrow> items_used s f"
  by (cases rule: file_wf_cases) (auto simp: items_used_def)

lemma ceil_blocks_mono: "m \<le> n \<Longrightarrow> ceil_blocks m \<le> ceil_blocks n"
  by (simp add: ceil_blocks_def div_le_mono)

lemma ceil_blocks_pos: "0 < n \<Longrightarrow> 0 < ceil_blocks n"
  by (simp add: ceil_blocks_def)

lemma ceil_blocks_0 [simp]: "ceil_blocks 0 = 0"
  by (simp add: ceil_blocks_def)

lemma ExtendFile_extends:
  assumes ex: "blocks_exclusive s" and wf: "file_wf s f"
    and lt: "File_file_size s f < off" "off \<le> kBlockFsMaxUDiskSize"
    and e: "ExtendFile f off s = Some (0, t)"
  shows "file_wf t f" "File_file_size t f = off" "take (length (file_ids s f)) (file_ids t f) = file_ids s f"
    "length (file_ids t f) = ceil_blocks (unat off)"
proof -
  let ?sz = "File_file_size s f"
  have iu: "items_used s f" using wf by (rule file_wf_items_used)
  have n0: "unat ?sz < unat off" using lt(1) by (simp add: word_less_nat_alt)
  have offpos: "off \<noteq> 0" using lt(1) by (metis not_less_zero unat_0 word_less_nat_alt)
  from ex iu e have "file_wf t f \<and> File_file_size t f = off \<and> take (length (file_ids s f)) (file_ids t f) = file_ids s f
      \<and> length (file_ids t f) = ceil_blocks (unat off)"
  proof (cases rule: ExtendFile_cases)
    case (filled fb ids s4)
    note fill = this
    have len: "length ids = ceil_blocks (unat off) - ceil_blocks (unat ?sz)"
      using filled(5) unat_num_blocks_needed [OF lt] by simp
    from filled(10) show ?thesis
    proof (cases rule: extend_persist_cases)
      case (extended s')
      then obtain c1 k1 c2 k2 where
        s': "s' = (if ids = [] then s4 else upd_bmeta fb (\<lambda>m. m\<lparr>fb_crc := c1\<rparr>) s4\<lparr>kern := k1\<rparr>)"
        and t: "t = upd_fmeta (File_fh s4 f) (\<lambda>m. m\<lparr>fm_crc := c2\<rparr>)
         (File_set_file_size f off (if ids \<noteq> [] \<and> ?sz = 0 then snd (AddFileBlockNoLock f fb s') else s'))\<lparr>kern := k2\<rparr>"
        by blast
      have own: "fb_owned t fb = fb_owned s fb @ ids" using same_blocks_owned [OF extended(2), of fb] fill(4) by simp
      have used: "fb_used (bmetas t fb)" using extended(2) fill(9) by (simp add: same_blocks_def)
      have sz: "File_file_size t f = off" using fill(2,3) s'
        by (auto simp: t obj_acc_defs File_set_file_size_def AddFileBlockNoLock_def fs_upd_defs Let_def)
      from wf show ?thesis
      proof (cases rule: file_wf_cases)
        case empty
        have "fb_owned s fb = []" using fill(8) empty(2) by (simp add: fb_owned_def)
        moreover have "ids \<noteq> []" using len n0 empty(2) ceil_blocks_pos [of "unat off"] by auto
        moreover from this have "f_items (fobj t f) = [(0, fb)]"
          using s' fill(2,8) empty(1,2)
          by (auto simp: t File_set_file_size_def AddFileBlockNoLock_def fs_upd_defs Let_def)
        ultimately show ?thesis
          using own used sz len empty offpos by (simp add: file_wf_def file_ids_def)
      next
        case (one fb0)
        then have fb0: "fb0 = fb" using fill(7) by simp
        have "f_items (fobj t f) = [(0, fb)]"
          using s' fill(2) one(1,2) fb0 by (auto simp: t File_set_file_size_def fs_upd_defs)
        moreover have "length (fb_owned s fb) + length ids = ceil_blocks (unat off)"
          using len one(4) fb0 ceil_blocks_mono [of "unat ?sz" "unat off"] n0 by simp
        ultimately show ?thesis
          using own used sz one fb0 offpos by (simp add: file_wf_def file_ids_def)
      qed
    qed simp
  qed simp
  then show "file_wf t f" "File_file_size t f = off" "take (length (file_ids s f)) (file_ids t f) = file_ids s f"
    "length (file_ids t f) = ceil_blocks (unat off)" by auto
qed

section \<open>Never undefined, and local to one file\<close>

lemma ExtendFile_defined:
  assumes ex: "blocks_exclusive s"
  shows "\<exists>r t. ExtendFile f off s = Some (r, t)"
proof -
  let ?n = "num_blocks_needed (File_file_size s f) off" and ?nw = "File_file_size s f = 0"
  obtain o1 s1 where t: "extend_target f s = (o1, s1)" by (cases "extend_target f s")
  have b1: "bmetas s1 = bmetas s"
    using t by (auto simp: extend_target_def GetFileBlockLock_def split: list.splits option.splits if_splits)
  show ?thesis
  proof (cases "sb_device_size (super_meta s) < off \<or> o1 = None")
    case True
    then show ?thesis using t by (auto simp: ExtendFile_def Let_def)
  next
    case False
    then obtain fb where dev: "\<not> sb_device_size (super_meta s) < off" and fb: "o1 = Some fb" by auto
    obtain o2 s2 where b: "extend_blocks ?nw ?n fb s1 = (o2, s2)" by (cases "extend_blocks ?nw ?n fb s1")
    have b2: "bmetas s2 = bmetas s"
      using b b1 by (auto simp: extend_blocks_def blk_op_defs PutFileBlockLock_def split: if_splits prod.splits option.splits)
    show ?thesis
    proof (cases o2)
      case None
      then show ?thesis using dev t fb b by (simp add: ExtendFile_def Let_def)
    next
      case (Some ids)
      define s3 where "s3 = (if ?nw then upd_bmeta fb (\<lambda>m. m\<lparr>fb_used := True, fb_file_cut := 0,
          fb_fh := ucast (fm_fh (File_meta s2 f)), fb_is_temp := fm_is_temp (File_meta s2 f)\<rparr>) s2 else s2)"
      have "length (fb_block_id (bmetas s3 fb)) = 1000" "unat (fb_used_block_num (bmetas s3 fb)) \<le> 1000"
        using ex b2 by (auto simp: s3_def upd_bmeta_def blocks_exclusive_def wf_bmetas_def)
      then obtain ok s4 where "fill_file_block fb ids s3 = Some (ok, s4)"
        using fill_file_block_spec [of s3 fb _ ids] by blast
      then show ?thesis using dev t fb b Some
        by (cases "extend_persist f off ?nw fb ids s4") (simp add: ExtendFile_def Let_def s3_def)
    qed
  qed
qed

lemma ExtendFile_ret: "blocks_exclusive s \<Longrightarrow> items_used s f \<Longrightarrow> ExtendFile f off s = Some (r, t) \<Longrightarrow> r = 0 \<or> r = - 1"
  by (cases rule: ExtendFile_cases [of s f off r t]) (auto elim: extend_persist_cases)

text \<open>A file block in use that is not the file's own keeps its blocks.\<close>

lemma ExtendFile_others:
  assumes "blocks_exclusive s" "items_used s f" "ExtendFile f off s = Some (0, t)"
    and "fb_used (bmetas s fb')" "\<forall>(i, fb) \<in> set (f_items (fobj s f)). fb \<noteq> fb'"
  shows "fb_owned t fb' = fb_owned s fb'"
  using assms(1-3)
proof (cases rule: ExtendFile_cases)
  case (filled fb ids s4)
  have "fb \<noteq> fb'"
    using filled(7,8) assms(4,5) by (cases "File_file_size s f = 0") (auto dest: map_of_SomeD)
  then have "fb_owned s4 fb' = fb_owned s fb'" using filled(6) [of fb'] by (simp add: fb_owned_def)
  moreover have "same_blocks s4 t" using filled(10) by (cases rule: extend_persist_cases) auto
  ultimately show ?thesis using same_blocks_owned by metis
qed simp

lemma ExtendFile_fobj:
  assumes "blocks_exclusive s" "items_used s f" "ExtendFile f off s = Some (0, t)" "g \<noteq> f"
  shows "fobj t g = fobj s g" "f_meta (fobj t f) = f_meta (fobj s f)"
    "i \<noteq> f_meta (fobj s f) \<Longrightarrow> fm_size (fmetas t i) = fm_size (fmetas s i)"
proof -
  from assms(1-3) obtain s4 fb ids where s4: "fobj s4 = fobj s" "fmetas s4 = fmetas s"
    and p: "extend_persist f off (File_file_size s f = 0) fb ids s4 = (0, t)"
    by (cases rule: ExtendFile_cases) auto
  from p show "fobj t g = fobj s g" "f_meta (fobj t f) = f_meta (fobj s f)"
    "i \<noteq> f_meta (fobj s f) \<Longrightarrow> fm_size (fmetas t i) = fm_size (fmetas s i)"
    using s4 assms(4)
    by (cases rule: extend_persist_cases;
        auto simp: File_set_file_size_def AddFileBlockNoLock_def fs_upd_defs Let_def)+
qed

text \<open>A file block that joins the file was not in use before.\<close>

lemma AddFileBlockNoLock_items:
  "snd ` set (f_items (fobj (snd (AddFileBlockNoLock f fb s)) f)) \<subseteq> insert fb (snd ` set (f_items (fobj s f)))"
proof -
  have "snd ` set (amap_put c fb m) \<subseteq> insert fb (snd ` set m)" for c and m :: "(nat, nat) amap"
    by (induction m) auto
  then show ?thesis by (auto simp: AddFileBlockNoLock_def upd_file_def Let_def)
qed

lemma ExtendFile_items:
  assumes "blocks_exclusive s" "items_used s f" "ExtendFile f off s = Some (0, t)"
    and "x \<in> snd ` set (f_items (fobj t f))"
  shows "x \<in> snd ` set (f_items (fobj s f)) \<or> \<not> fb_used (bmetas s x)"
  using assms(1-3)
proof (cases rule: ExtendFile_cases)
  case (filled fb ids s4)
  from filled(10) show ?thesis
  proof (cases rule: extend_persist_cases)
    case (extended s')
    from extended(3) have s': "fobj s' = fobj s" using filled(2) by (auto simp: upd_bmeta_def)
    from extended(4) have "f_items (fobj t f) = f_items (fobj
        (if ids \<noteq> [] \<and> File_file_size s f = 0 then snd (AddFileBlockNoLock f fb s') else s') f)"
      by (elim exE) (simp only: File_set_file_size_def upd_fmeta_def fs.simps, simp)
    then have "x \<in> snd ` set (f_items (fobj s f)) \<or> File_file_size s f = 0 \<and> x = fb"
      using assms(4) AddFileBlockNoLock_items [of f fb s'] s' by (auto split: if_splits)
    then show ?thesis using filled(8) by auto
  qed simp
qed simp

text \<open>The handles a file uses stay in range, and its own handle does not change.\<close>

lemma ExtendFile_range:
  assumes "blocks_exclusive s" "items_used s f" "ExtendFile f off s = Some (0, t)"
  shows "set (free_fbhs t) \<subseteq> set (free_fbhs s)" "File_fh t f = File_fh s f"
    "snd ` set (f_items (fobj t f)) \<subseteq> snd ` set (f_items (fobj s f)) \<union> set (free_fbhs s)"
proof -
  from assms have "set (free_fbhs t) \<subseteq> set (free_fbhs s) \<and> File_fh t f = File_fh s f
      \<and> snd ` set (f_items (fobj t f)) \<subseteq> snd ` set (f_items (fobj s f)) \<union> set (free_fbhs s)"
  proof (cases rule: ExtendFile_cases)
    case (filled fb ids s4)
    from filled(10) show ?thesis
    proof (cases rule: extend_persist_cases)
      case (extended s')
      from extended(3) have s': "fobj s' = fobj s" "fmetas s' = fmetas s" using filled(2,3) by (auto simp: upd_bmeta_def)
      let ?a = "if ids \<noteq> [] \<and> File_file_size s f = 0 then snd (AddFileBlockNoLock f fb s') else s'"
      have a: "fmetas ?a = fmetas s" "f_meta (fobj ?a f) = f_meta (fobj s f)"
        using s' by (auto simp: AddFileBlockNoLock_def upd_file_def Let_def)
      obtain c k where t: "t = upd_fmeta (File_fh s4 f) (\<lambda>m. m\<lparr>fm_crc := c\<rparr>) (File_set_file_size f off ?a)\<lparr>kern := k\<rparr>"
        using extended(4) by blast
      have "f_items (fobj t f) = f_items (fobj ?a f)" unfolding t by (simp add: File_set_file_size_def upd_fmeta_def)
      moreover have "snd ` set (f_items (fobj ?a f)) \<subseteq> snd ` set (f_items (fobj s f)) \<union> set (free_fbhs s)"
        using AddFileBlockNoLock_items [of f fb s'] s' filled(8) by (auto split: if_splits)
      moreover have "File_fh t f = File_fh s f"
        unfolding t using a by (simp add: File_set_file_size_def upd_fmeta_def File_fh_def)
      moreover have "free_fbhs t = free_fbhs s4" using extended(2) by (simp add: same_blocks_def)
      ultimately show ?thesis using filled(17) by simp
    qed simp
  qed simp
  then show "set (free_fbhs t) \<subseteq> set (free_fbhs s)" "File_fh t f = File_fh s f"
    "snd ` set (f_items (fobj t f)) \<subseteq> snd ` set (f_items (fobj s f)) \<union> set (free_fbhs s)" by blast+
qed

end
