(* ===== verification/Super_Block.thy ===== *)
theory Super_Block
  imports FS_State
begin

text \<open>
  The super block (\<open>lib/super_block.cc\<close>): how a device is divided into the metadata
  regions and the data blocks, and how the super block is written and verified. All
  arithmetic is in \<open>uint64_t\<close>, as in the source.
\<close>

definition SuperBlockMeta_zero :: SuperBlockMeta where
  "SuperBlockMeta_zero =
     \<lparr>sb_crc = 0, sb_uuid = replicate 64 NUL, sb_magic = 0, sb_max_file_num = 0,
      sb_max_support_udisk_size = 0, sb_max_file_block_num = 0, sb_max_support_block_num = 0,
      sb_block_size = 0, sb_max_dir_name_len = 0, sb_max_file_name_len = 0,
      sb_dir_meta_size = 0, sb_file_meta_size = 0, sb_file_block_meta_size = 0,
      sb_super_block_size = 0, sb_dir_meta_total_size = 0, sb_file_meta_total_size = 0,
      sb_file_block_meta_total_size = 0, sb_super_block_offset = 0, sb_dir_meta_offset = 0,
      sb_file_meta_offset = 0, sb_file_block_meta_offset = 0, sb_block_data_start_offset = 0,
      sb_device_size = 0, sb_curr_block_num = 0, sb_pad = replicate 3856 0\<rparr>"

definition format_uuid :: string where
  "format_uuid = ''12345678901234567890123456789012345678901234567890123456789''"

text \<open>The assignments of \<open>FormatAllMeta\<close>, in their order, on the zeroed buffer.\<close>

definition SuperBlock_layout :: "u64 \<Rightarrow> SuperBlockMeta" where
  "SuperBlock_layout devsize =
    (let meta = SuperBlockMeta_zero
           \<lparr>sb_uuid := fit 64 NUL (format_uuid @ [NUL]), sb_magic := kBlockFsMagic,
            sb_max_file_num := kMaxFileNum, sb_max_support_udisk_size := kBlockFsMaxUDiskSize,
            sb_block_size := kBlockSize, sb_max_dir_name_len := kBlockFsMaxDirNameLen,
            sb_max_file_name_len := kBlockFsMaxFileNameLen,
            sb_dir_meta_size := kBlockFsDirMetaSize, sb_file_meta_size := kBlockFsFileMetaSize,
            sb_file_block_meta_size := kBlockFsFileBlockMetaSize,
            sb_super_block_offset := kSuperBlockOffset, sb_super_block_size := kSuperBlockSize,
            sb_dir_meta_offset := kDirMetaOffset\<rparr>;
         dir_total = ROUND_UP (sb_dir_meta_size meta * sb_max_file_num meta) kBlockFsPageSize;
         file_off = sb_dir_meta_offset meta + dir_total;
         file_total = ROUND_UP (sb_file_meta_size meta * sb_max_file_num meta) kBlockFsPageSize;
         fb_off = file_off + file_total;
         tmpNum1 = sb_max_file_num meta - 1;
         tmpSize1 = tmpNum1 * sb_file_block_meta_size meta;
         tmpNum2 = ALIGN_UP (sb_max_support_udisk_size meta - tmpSize1)
                     (sb_block_size meta * kFileBlockCapacity);
         tmpSize2 = tmpNum2 * sb_file_block_meta_size meta;
         fb_total = ROUND_UP (tmpSize1 + tmpSize2) kBlockFsPageSize;
         data_start = ROUND_UP (fb_off + fb_total) kBlockSize;
         free_udisk_size = devsize - data_start
     in meta\<lparr>sb_dir_meta_total_size := dir_total, sb_file_meta_offset := file_off,
             sb_file_meta_total_size := file_total, sb_file_block_meta_offset := fb_off,
             sb_file_block_meta_total_size := fb_total,
             sb_max_file_block_num := tmpNum1 + tmpNum2,
             sb_block_data_start_offset := data_start,
             sb_device_size := devsize,
             sb_curr_block_num := free_udisk_size div kBlockSize,
             sb_max_support_block_num := (sb_max_support_udisk_size meta - data_start) div kBlockSize\<rparr>)"

definition SuperBlock_WriteMeta :: "fs \<Rightarrow> bool \<times> fs" where
  "SuperBlock_WriteMeta s =
     (let s = s\<lparr>super_meta := (super_meta s)\<lparr>sb_crc := crc32 s (body_SuperBlockMeta (super_meta s))\<rparr>\<rparr>;
          (ret, s) = fs_PwriteDirect (enc_SuperBlockMeta (super_meta s)) kSuperBlockOffset s
      in (ret = int (unat kSuperBlockSize), s))"

definition SuperBlock_FormatAllMeta :: "fs \<Rightarrow> bool \<times> fs" where
  "SuperBlock_FormatAllMeta s =
     (let meta = SuperBlock_layout (dev_size (dev s));
          meta = meta\<lparr>sb_crc := crc32 s (body_SuperBlockMeta meta)\<rparr>;
          s = s\<lparr>super_meta := meta\<rparr>;
          (ret, s) = fs_PwriteDirect (enc_SuperBlockMeta meta) kSuperBlockOffset s
      in (ret = int (unat kSuperBlockSize), s))"

definition SuperBlock_InitializeMeta :: "fs \<Rightarrow> bool \<times> fs" where
  "SuperBlock_InitializeMeta s =
     (let meta = super_meta s; crc = crc32 s (body_SuperBlockMeta meta)
      in if sb_crc meta \<noteq> crc then (False, s)
         else if sb_magic meta \<noteq> kBlockFsMagic then (False, s)
         else (True, s))"

section \<open>The layout\<close>

text \<open>The region sizes do not depend on the device.\<close>

lemma SuperBlock_layout_fields [simp]:
  "sb_super_block_offset (SuperBlock_layout n) = 0"
  "sb_super_block_size (SuperBlock_layout n) = 4096"
  "sb_dir_meta_offset (SuperBlock_layout n) = 4096"
  "sb_dir_meta_total_size (SuperBlock_layout n) = 102400000"
  "sb_file_meta_offset (SuperBlock_layout n) = 102404096"
  "sb_file_meta_total_size (SuperBlock_layout n) = 25600000"
  "sb_file_block_meta_offset (SuperBlock_layout n) = 128004096"
  "sb_file_block_meta_total_size (SuperBlock_layout n) = 547037184"
  "sb_block_data_start_offset (SuperBlock_layout n) = 675282944"
  "sb_max_file_num (SuperBlock_layout n) = 100000"
  "sb_max_file_block_num (SuperBlock_layout n) = 133554"
  "sb_dir_meta_size (SuperBlock_layout n) = 1024"
  "sb_file_meta_size (SuperBlock_layout n) = 256"
  "sb_file_block_meta_size (SuperBlock_layout n) = 4096"
  "sb_block_size (SuperBlock_layout n) = 4194304"
  "sb_device_size (SuperBlock_layout n) = n"
  "sb_magic (SuperBlock_layout n) = kBlockFsMagic"
  "sb_curr_block_num (SuperBlock_layout n) = (n - 675282944) div 4194304"
  by (simp_all add: SuperBlock_layout_def SuperBlockMeta_zero_def layout_consts ROUND_UP_def
      ALIGN_UP_def Let_def)

lemma wf_SuperBlock_layout: "wf_SuperBlockMeta (SuperBlock_layout n)"
  by (simp add: wf_SuperBlockMeta_def SuperBlock_layout_def SuperBlockMeta_zero_def Let_def)

lemma curr_block_num_fits:
  assumes "675282944 \<le> n"
  shows "unat (sb_block_data_start_offset (SuperBlock_layout n))
      + unat (sb_curr_block_num (SuperBlock_layout n)) * 4194304 \<le> unat n"
    "unat n < unat (sb_block_data_start_offset (SuperBlock_layout n))
      + (unat (sb_curr_block_num (SuperBlock_layout n)) + 1) * 4194304"
proof -
  have le: "675282944 \<le> unat n" using assms by (simp add: word_le_nat_alt)
  have d: "unat (n - 675282944) = unat n - 675282944"
    using assms by (simp add: unat_sub)
  have q: "unat (sb_curr_block_num (SuperBlock_layout n)) = (unat n - 675282944) div 4194304"
    by (simp add: unat_div d)
  have e: "(unat n - 675282944) div 4194304 * 4194304 + (unat n - 675282944) mod 4194304
      = unat n - 675282944" by simp
  have m: "(unat n - 675282944) mod 4194304 < 4194304" by simp
  have o: "unat (sb_block_data_start_offset (SuperBlock_layout n)) = 675282944" by simp
  show "unat (sb_block_data_start_offset (SuperBlock_layout n))
      + unat (sb_curr_block_num (SuperBlock_layout n)) * 4194304 \<le> unat n"
    unfolding q o using e le by linarith
  show "unat n < unat (sb_block_data_start_offset (SuperBlock_layout n))
      + (unat (sb_curr_block_num (SuperBlock_layout n)) + 1) * 4194304"
    unfolding q o add_mult_distrib using e m le by linarith
qed

text \<open>A super block just formatted passes the verification of the next mount.\<close>

lemma body_SuperBlockMeta_crc [simp]: "body_SuperBlockMeta (m\<lparr>sb_crc := c\<rparr>) = body_SuperBlockMeta m"
  by (simp add: body_SuperBlockMeta_def)

lemma SuperBlock_FormatAllMeta_verifies:
  assumes "SuperBlock_FormatAllMeta s = (ok, s')"
  shows "SuperBlock_InitializeMeta s' = (True, s')"
    "super_meta s' = (SuperBlock_layout (dev_size (dev s)))
        \<lparr>sb_crc := crc32 s (body_SuperBlockMeta (SuperBlock_layout (dev_size (dev s))))\<rparr>"
  using assms fs_PwriteDirect_frame
  by (auto simp: SuperBlock_FormatAllMeta_def SuperBlock_InitializeMeta_def Let_def
      split: prod.splits dest!: fs_PwriteDirect_frame)

lemma wf_SuperBlockMeta_crc [simp]: "wf_SuperBlockMeta (m\<lparr>sb_crc := c\<rparr>) = wf_SuperBlockMeta m"
  by (simp add: wf_SuperBlockMeta_def)

text \<open>On a device that works, the super block can be read back from the disk.\<close>

lemma SuperBlock_FormatAllMeta_persists:
  assumes "SuperBlock_FormatAllMeta s = (True, s')"
  shows "dec_SuperBlockMeta (disk_read (k_disk (kern s')) 0 4096) = super_meta s'"
proof -
  let ?m = "(SuperBlock_layout (dev_size (dev s)))
        \<lparr>sb_crc := crc32 s (body_SuperBlockMeta (SuperBlock_layout (dev_size (dev s))))\<rparr>"
  obtain ret k where w: "PwriteDirect (dev s) (enc_SuperBlockMeta ?m) 0 (kern s) = (ret, k)"
    by (cases "PwriteDirect (dev s) (enc_SuperBlockMeta ?m) 0 (kern s)")
  have ret: "ret = 4096" and k: "kern s' = k" and m: "super_meta s' = ?m"
    using assms w
    by (auto simp: SuperBlock_FormatAllMeta_def fs_PwriteDirect_def Let_def layout_consts
        split: prod.splits)
  from Pwrite_disk [OF w [unfolded PwriteDirect_def]] ret
  have "k_disk k = disk_write (k_disk (kern s)) 0 (enc_SuperBlockMeta ?m)" by auto
  then have "disk_read (k_disk (kern s')) 0 4096 = enc_SuperBlockMeta ?m"
    using disk_read_write_same [of _ 0 "enc_SuperBlockMeta ?m"] k by simp
  then show ?thesis by (simp add: m wf_SuperBlock_layout)
qed

text \<open>
  The data area: on a device that has room for the metadata, the blocks counted in
  \<open>curr_block_num_\<close> end on the device, and one more would not.
\<close>

lemma data_blocks_fit:
  assumes "675282944 \<le> n"
  shows "unat (sb_block_data_start_offset (SuperBlock_layout n))
        + unat (sb_curr_block_num (SuperBlock_layout n)) * unat kBlockSize \<le> unat n
     \<and> unat n < unat (sb_block_data_start_offset (SuperBlock_layout n))
        + (unat (sb_curr_block_num (SuperBlock_layout n)) + 1) * unat kBlockSize"
  using curr_block_num_fits [OF assms] by (simp add: layout_consts)

text \<open>
  A device smaller than the metadata area is not refused: the subtraction wraps around in
  \<open>uint64_t\<close> and the super block claims more than \<open>4 * 10\<^sup>1\<^sup>2\<close> blocks.
\<close>

lemma small_device_wraps:
  assumes "n < 675282944"
  shows "4000000000000 < unat (sb_curr_block_num (SuperBlock_layout n))"
proof -
  have lt: "unat n < 675282944" using assms by (simp add: word_less_nat_alt)
  have "unat (n - 675282944) = unat n + 2 ^ 64 - 675282944"
    using lt by (simp add: unat_sub_if_size word_le_nat_alt word_size)
  then have "2 ^ 64 - 675282944 \<le> unat (n - 675282944)" by simp
  then have "(2 ^ 64 - 675282944) div 4194304 \<le> unat (n - 675282944) div 4194304" by (rule div_le_mono)
  then show ?thesis by (simp add: unat_div)
qed

section \<open>Properties\<close>

text \<open>
  C28. The layout \<open>FormatAllMeta\<close> computes, for every device size: the super block, the three
  metadata regions and the data area follow each other without overlap, every region is page
  aligned and holds its full number of entries, and the data area starts at a block boundary. On a
  device that has room for the metadata the blocks counted in \<open>curr_block_num_\<close> end on the device, and
  one more would not; a smaller one is not refused, the subtraction wraps around, and the super block
  claims more than \<open>4 * 10\<^sup>1\<^sup>2\<close> blocks.
\<close>

theorem layout_regions:
  fixes n :: u64
  defines "m \<equiv> SuperBlock_layout n"
  shows "sb_dir_meta_offset m = sb_super_block_offset m + sb_super_block_size m
     \<and> sb_file_meta_offset m = sb_dir_meta_offset m + sb_dir_meta_total_size m
     \<and> sb_file_block_meta_offset m = sb_file_meta_offset m + sb_file_meta_total_size m
     \<and> unat (sb_file_block_meta_offset m) + unat (sb_file_block_meta_total_size m) \<le> unat (sb_block_data_start_offset m)
     \<and> unat (sb_max_file_num m) * unat (sb_dir_meta_size m) \<le> unat (sb_dir_meta_total_size m)
     \<and> unat (sb_max_file_num m) * unat (sb_file_meta_size m) \<le> unat (sb_file_meta_total_size m)
     \<and> unat (sb_max_file_block_num m) * unat (sb_file_block_meta_size m) \<le> unat (sb_file_block_meta_total_size m)
     \<and> 4096 dvd unat (sb_dir_meta_offset m) \<and> 4096 dvd unat (sb_file_meta_offset m)
     \<and> 4096 dvd unat (sb_file_block_meta_offset m) \<and> 4194304 dvd unat (sb_block_data_start_offset m)
     \<and> (675282944 \<le> n \<longrightarrow>
          unat (sb_block_data_start_offset m) + unat (sb_curr_block_num m) * unat kBlockSize \<le> unat n
          \<and> unat n < unat (sb_block_data_start_offset m) + (unat (sb_curr_block_num m) + 1) * unat kBlockSize)
     \<and> (n < 675282944 \<longrightarrow> 4000000000000 < unat (sb_curr_block_num m))"
  using data_blocks_fit [of n] small_device_wraps [of n] unfolding m_def by (intro conjI impI) simp_all

theorem layout_regions_witness:
  "4000000000000 < unat (sb_curr_block_num (SuperBlock_layout 1048576))
     \<and> unat (sb_curr_block_num (SuperBlock_layout 1073741824)) = 95"
proof -
  have "4000000000000 < unat (sb_curr_block_num (SuperBlock_layout 1048576))"
    using layout_regions [of 1048576] by simp
  moreover have "unat (sb_block_data_start_offset (SuperBlock_layout 1073741824)) + unat (sb_curr_block_num (SuperBlock_layout 1073741824)) * unat kBlockSize \<le> 1073741824"
    "1073741824 < unat (sb_block_data_start_offset (SuperBlock_layout 1073741824)) + (unat (sb_curr_block_num (SuperBlock_layout 1073741824)) + 1) * unat kBlockSize"
    using layout_regions [of 1073741824] by simp_all
  ultimately show ?thesis by (simp add: layout_consts)
qed

text \<open>
  C29. When \<open>FormatAllMeta\<close> reports success, the super block that is read back from the disk is
  the one in memory, and it passes the verification of the next mount.
\<close>

theorem format_super_block:
  assumes "SuperBlock_FormatAllMeta s = (True, t)"
  shows "dec_SuperBlockMeta (disk_read (k_disk (kern t)) 0 4096) = super_meta t
     \<and> SuperBlock_InitializeMeta t = (True, t) \<and> sb_device_size (super_meta t) = dev_size (dev s)"
  using SuperBlock_FormatAllMeta_persists [OF assms] SuperBlock_FormatAllMeta_verifies [OF assms] by simp

end
