(* ===== verification/Data_Area.thy ===== *)
theory Data_Area
  imports File_Extend Super_Block
begin

text \<open>
  The separation of metadata and data on a formatted device. \<open>formatted\<close> says that the super
  block in memory is the one \<open>SuperBlock::FormatAllMeta\<close> lays out; \<open>data_same\<close> relates
  two states between which no byte of the data area changed. Every metadata write-back, and so
  every growth of a file, leaves the data area alone.
\<close>

definition formatted :: "fs \<Rightarrow> bool" where
  "formatted s \<longleftrightarrow> (\<exists>c. super_meta s = (SuperBlock_layout (dev_size (dev s)))\<lparr>sb_crc := c\<rparr>)"

lemma formatted_fields:
  assumes "formatted s"
  shows "sb_dir_meta_offset (super_meta s) = 4096" "sb_file_meta_offset (super_meta s) = 102404096"
    "sb_file_block_meta_offset (super_meta s) = 128004096" "sb_block_data_start_offset (super_meta s) = 675282944"
    "sb_dir_meta_size (super_meta s) = 1024" "sb_file_meta_size (super_meta s) = 256"
    "sb_file_block_meta_size (super_meta s) = 4096" "sb_block_size (super_meta s) = 4194304"
    "sb_max_file_num (super_meta s) = 100000" "sb_max_file_block_num (super_meta s) = 133554"
    "sb_device_size (super_meta s) = dev_size (dev s)"
  using assms by (auto simp: formatted_def)

definition data_same :: "fs \<Rightarrow> fs \<Rightarrow> bool" where
  "data_same s t \<longleftrightarrow> (\<forall>p \<ge> 675282944. k_disk (kern t) p = k_disk (kern s) p)
     \<and> (benign (k_script (kern s)) \<longrightarrow> benign (k_script (kern t)))
     \<and> dev t = dev s \<and> super_meta t = super_meta s \<and> open_files t = open_files s
     \<and> max_block_num (block_handle t) = max_block_num (block_handle s)"

lemma data_same_refl [simp, intro]: "data_same s s"
  by (simp add: data_same_def)

lemma data_same_trans [trans]: "data_same s t \<Longrightarrow> data_same t u \<Longrightarrow> data_same s u"
  by (auto simp: data_same_def)

lemma data_same_upds [simp]:
  "data_same s (upd_fmeta i f s)" "data_same s (upd_dmeta i g s)" "data_same s (upd_bmeta i b s)"
  "data_same s (upd_file p h s)" "data_same s (upd_dir p d s)" "data_same s (s\<lparr>free_fbhs := x\<rparr>)"
  "data_same s (set_errno e s)" "data_same s (s\<lparr>free_fhs := y\<rparr>)"
  by (simp_all add: data_same_def fs_upd_defs)

lemma data_same_formatted: "data_same s t \<Longrightarrow> formatted s \<Longrightarrow> formatted t"
  by (simp add: data_same_def formatted_def)

lemma data_same_io: "data_same s t \<Longrightarrow> io_ok s \<Longrightarrow> io_ok t"
  by (simp add: data_same_def io_ok_def)

text \<open>A direct write below the data area.\<close>

lemma fs_PwriteDirect_data:
  assumes "fs_PwriteDirect bs off s = (r, t)" "unat off + length bs \<le> 675282944"
  shows "data_same s t"
proof -
  obtain k where w: "Pwrite (dev_fd_direct (dev s)) (dev s) bs off (kern s) = (r, k)" and t: "t = s\<lparr>kern := k\<rparr>"
    using assms(1) by (auto simp: fs_PwriteDirect_def PwriteDirect_def split: prod.splits)
  from Pwrite_disk [OF w] obtain n where
    "n \<le> length bs" "k_disk k = disk_write (k_disk (kern s)) (unat off) (take n bs)" by auto
  then have "\<forall>p \<ge> 675282944. k_disk k p = k_disk (kern s) p"
    using assms(2) by (auto intro!: disk_write_outside)
  then show ?thesis using Pwrite_script [OF w] t by (simp add: data_same_def)
qed

lemma FileBlock_WriteMeta_data:
  assumes "formatted s" "fb < 133554"
  shows "data_same s (snd (FileBlock_WriteMeta fb s))"
proof -
  have "unat (128004096 + 4096 * word_of_nat fb :: u64) = 128004096 + 4096 * fb"
    using assms(2) by (simp add: unat_word_ariths unat_of_nat)
  then have addr: "unat (sb_file_block_meta_offset (super_meta s)
      + sb_file_block_meta_size (super_meta s) * word_of_nat fb) = 128004096 + 4096 * fb"
    using formatted_fields [OF assms(1)] by simp
  let ?s = "upd_bmeta fb (\<lambda>m. m\<lparr>fb_crc := crc32 s (body_FileBlockMeta (bmetas s fb))\<rparr>) s"
  obtain r t where w: "fs_PwriteDirect (enc_FileBlockMeta (bmetas ?s fb))
      (sb_file_block_meta_offset (super_meta s) + sb_file_block_meta_size (super_meta s) * word_of_nat fb) ?s = (r, t)"
    by fastforce
  have "data_same ?s t" by (rule fs_PwriteDirect_data [OF w]) (use addr assms(2) in simp)
  moreover have "snd (FileBlock_WriteMeta fb s) = t"
    using w by (simp add: FileBlock_WriteMeta_def Let_def upd_bmeta_def)
  ultimately show ?thesis using data_same_trans [OF data_same_upds(3)] by metis
qed

lemma page_align:
  assumes "i < 4294967296" "n = 4 \<or> n = 16"
  shows "unat ((word_of_nat i :: u32) - word_of_nat i mod word_of_nat n) = i - i mod n"
proof -
  have "unat (word_of_nat i :: u32) = i" using assms(1) by (simp add: unat_of_nat)
  moreover have "unat (word_of_nat n :: u32) = n" using assms(2) by auto
  ultimately have m: "unat ((word_of_nat i :: u32) mod word_of_nat n) = i mod n" by (simp add: unat_mod)
  then have "(word_of_nat i :: u32) mod word_of_nat n \<le> word_of_nat i"
    using \<open>unat (word_of_nat i :: u32) = i\<close> by (simp add: word_le_nat_alt)
  then show ?thesis using m \<open>unat (word_of_nat i :: u32) = i\<close> by (simp add: unat_sub)
qed

lemma FileHandle_PageAlignIndex_eq:
  assumes "formatted s" "fh < 100000"
  shows "unat (FileHandle_PageAlignIndex s (word_of_nat fh)) = fh - fh mod 16"
  using page_align [of fh 16] formatted_fields [OF assms(1)] assms(2)
  by (simp add: FileHandle_PageAlignIndex_def layout_consts)

lemma length_file_page [simp]: "length (file_page s a) = 4096"
  by (simp add: file_page_def length_concat o_def layout_consts sum_list_triv)

lemma File_WriteMeta_fh_data:
  assumes "formatted s" "fh < 100000"
  shows "data_same s (snd (File_WriteMeta_fh fh s))"
proof -
  let ?a = "FileHandle_PageAlignIndex s (word_of_nat fh)"
  have a: "unat ?a = fh - fh mod 16" by (rule FileHandle_PageAlignIndex_eq [OF assms])
  have le: "fh - fh mod 16 \<le> 99984"
  proof -
    have "fh - fh mod 16 = 16 * (fh div 16)" by (simp add: minus_mod_eq_mult_div)
    moreover have "fh div 16 \<le> 6249" using assms(2) by simp
    ultimately show ?thesis by linarith
  qed
  have "unat (ucast ?a :: u64) = unat ?a"
    using unsigned_less [of ?a, where 'a = nat] by (simp add: unsigned_ucast_eq take_bit_nat_eq_self)
  then have addr: "unat (sb_file_meta_offset (super_meta s) + sb_file_meta_size (super_meta s) * ucast ?a)
      = 102404096 + 256 * (fh - fh mod 16)"
    using formatted_fields [OF assms(1)] a le by (simp add: unat_word_ariths)
  obtain r t where w: "fs_PwriteDirect (file_page (file_crc fh s) (unat ?a))
      (sb_file_meta_offset (super_meta s) + sb_file_meta_size (super_meta s) * ucast ?a) (file_crc fh s) = (r, t)"
    by fastforce
  have "data_same (file_crc fh s) t" by (rule fs_PwriteDirect_data [OF w]) (use addr le in simp)
  moreover have "snd (File_WriteMeta_fh fh s) = t"
    using w by (simp add: File_WriteMeta_fh_def Let_def file_crc_def upd_fmeta_def)
  moreover have "data_same s (file_crc fh s)" by (simp add: file_crc_def)
  ultimately show ?thesis using data_same_trans by metis
qed

text \<open>Growing a file leaves the data area alone, on every branch.\<close>

lemma extend_persist_data:
  assumes "formatted s" "File_fh s f < 100000" "fb < 133554" "extend_persist f off nw fb ids s = (r, t)"
  shows "data_same s t"
proof -
  obtain ok s5 where w5: "(if ids = [] then (True, s) else FileBlock_WriteMeta fb s) = (ok, s5)"
    by fastforce
  have d5: "data_same s s5"
    using w5 FileBlock_WriteMeta_data [OF assms(1,3)] by (auto split: if_splits)
  have fh5: "File_fh s5 f = File_fh s f"
    using w5 FileBlock_WriteMeta_frame [of fb s ok s5]
    by (auto simp: obj_acc_defs fs_upd_defs split: if_splits)
  show ?thesis
  proof (cases ok)
    case False
    then show ?thesis using assms(4) w5 d5 by (simp add: extend_persist_def)
  next
    case True
    define s6 where "s6 = File_set_file_size f off
      (if ids \<noteq> [] \<and> nw then snd (AddFileBlockNoLock f fb s5) else s5)"
    have w7: "t = snd (File_WriteMeta f s6)"
      using assms(4) w5 True by (auto simp: extend_persist_def Let_def s6_def split: prod.splits)
    have d6: "data_same s5 s6"
      by (auto simp: s6_def File_set_file_size_def AddFileBlockNoLock_def Let_def
          intro: data_same_trans [OF data_same_upds(4) data_same_upds(1)])
    have "File_fh s6 f = File_fh s f"
      using fh5 by (auto simp: s6_def File_set_file_size_def AddFileBlockNoLock_def obj_acc_defs fs_upd_defs Let_def)
    moreover have d06: "data_same s s6" using d5 d6 by (rule data_same_trans)
    ultimately have "data_same s6 t"
      using File_WriteMeta_fh_data [OF data_same_formatted [OF d06 assms(1)]] assms(2) w7
      by (simp add: File_WriteMeta_def)
    then show ?thesis using d06 data_same_trans by blast
  qed
qed

lemma fill_file_block_frame:
  "fill_file_block fb ids s = Some (ok, t) \<Longrightarrow> \<exists>b. t = s\<lparr>bmetas := b\<rparr>"
proof (induction ids arbitrary: s)
  case Nil
  then show ?case by (auto intro!: exI [of _ "bmetas s"])
next
  case (Cons i ids)
  show ?case
  proof (cases "is_block_full s fb")
    case True
    then show ?thesis using Cons.prems by (auto intro!: exI [of _ "bmetas s"])
  next
    case False
    then obtain s1 where s1: "add_block_id i fb s = Some s1" "fill_file_block fb ids s1 = Some (ok, t)"
      using Cons.prems by (auto split: bind_splits)
    then have "\<exists>b. s1 = s\<lparr>bmetas := b\<rparr>" using False
      by (auto simp: add_block_id_def upd_bmeta_def split: if_splits)
    with Cons.IH [OF s1(2)] show ?thesis by auto
  qed
qed

definition fbs_in_range :: "fs \<Rightarrow> nat \<Rightarrow> bool" where
  "fbs_in_range s f \<longleftrightarrow> (\<forall>x \<in> set (free_fbhs s). x < 133554) \<and> (\<forall>(i, fb) \<in> set (f_items (fobj s f)). fb < 133554)"

lemma extend_target_data:
  assumes "extend_target f s = (o1, s1)"
  shows "data_same s s1" "fobj s1 = fobj s" "fmetas s1 = fmetas s"
    "o1 = Some fb \<Longrightarrow> fbs_in_range s f \<Longrightarrow> fb < 133554"
  using assms
  by (auto simp: extend_target_def GetFileBlockLock_def GetFileBlock_def fbs_in_range_def
      split: list.splits option.splits if_splits dest!: map_of_SomeD)

lemma extend_blocks_data:
  assumes "extend_blocks nw n fb s = (o2, s2)"
  shows "data_same s s2" "fobj s2 = fobj s" "fmetas s2 = fmetas s"
  using assms
  by (auto simp: extend_blocks_def blk_op_defs GetFreeBlockIdLock_eq PutFileBlockLock_def data_same_def
      split: if_splits)

lemma ExtendFile_data:
  assumes fm: "formatted s" and fh: "File_fh s f < 100000" and rg: "fbs_in_range s f"
    and e: "ExtendFile f off s = Some (r, t)"
  shows "data_same s t"
proof -
  let ?n = "num_blocks_needed (File_file_size s f) off" and ?nw = "File_file_size s f = 0"
  obtain o1 s1 where t: "extend_target f s = (o1, s1)" by (cases "extend_target f s")
  note T = extend_target_data [OF t]
  show ?thesis
  proof (cases "sb_device_size (super_meta s) < off \<or> o1 = None")
    case True
    then show ?thesis using e T t by (auto simp: ExtendFile_def Let_def split: if_splits)
  next
    case False
    then obtain fb where dev: "\<not> sb_device_size (super_meta s) < off" and fb: "o1 = Some fb" by auto
    note t = t [unfolded fb]
    obtain o2 s2 where b: "extend_blocks ?nw ?n fb s1 = (o2, s2)" by (cases "extend_blocks ?nw ?n fb s1")
    note B = extend_blocks_data [OF b]
    have d2: "data_same s s2" using T(1) B(1) by (rule data_same_trans)
    show ?thesis
    proof (cases o2)
      case None
      then show ?thesis using e dev t b d2 by (simp add: ExtendFile_def Let_def)
    next
      case (Some ids)
      define s3 where "s3 = (if ?nw then upd_bmeta fb (\<lambda>m. m\<lparr>fb_used := True, fb_file_cut := 0,
          fb_fh := ucast (fm_fh (File_meta s2 f)), fb_is_temp := fm_is_temp (File_meta s2 f)\<rparr>) s2 else s2)"
      have "(do { (filled, s) \<leftarrow> fill_file_block fb ids s3;
          Some (if filled then extend_persist f off ?nw fb ids s else (- 1, s)) }) = Some (r, t)"
        using e dev t b Some by (simp add: ExtendFile_def Let_def s3_def)
      then obtain ok s4 where f4: "fill_file_block fb ids s3 = Some (ok, s4)"
        and p: "(if ok then extend_persist f off ?nw fb ids s4 else (- 1, s4)) = (r, t)"
        by (cases "fill_file_block fb ids s3") auto
      obtain bm where s4: "s4 = s3\<lparr>bmetas := bm\<rparr>" using fill_file_block_frame [OF f4] by blast
      have d4: "data_same s s4" using d2 by (auto simp: s4 s3_def data_same_def upd_bmeta_def)
      have "File_fh s4 f = File_fh s f" using T B by (simp add: s4 s3_def obj_acc_defs upd_bmeta_def)
      then have "data_same s4 t" if "ok"
        using extend_persist_data [OF data_same_formatted [OF d4 fm], of f fb] p that fh T(4) [OF fb rg] by simp
      then show ?thesis using d4 p data_same_trans by (cases ok) auto
    qed
  qed
qed

section \<open>Growing succeeds when there is room\<close>

lemma FileBlock_WriteMeta_ok:
  assumes "formatted s" "io_ok s" "fb < 133554" "675282944 \<le> unat (dev_size (dev s))"
  shows "fst (FileBlock_WriteMeta fb s)"
proof -
  have "unat (128004096 + 4096 * word_of_nat fb :: u64) = 128004096 + 4096 * fb"
    using assms(3) by (simp add: unat_word_ariths unat_of_nat)
  then have addr: "unat (sb_file_block_meta_offset (super_meta s)
      + sb_file_block_meta_size (super_meta s) * word_of_nat fb) = 128004096 + 4096 * fb"
    using formatted_fields [OF assms(1)] by simp
  let ?s = "upd_bmeta fb (\<lambda>m. m\<lparr>fb_crc := crc32 s (body_FileBlockMeta (bmetas s fb))\<rparr>) s"
  have io: "io_ok ?s" using assms(2) by (simp add: io_ok_def upd_bmeta_def)
  have len: "length (enc_FileBlockMeta (bmetas ?s fb)) = 4096" by simp
  then have ne: "enc_FileBlockMeta (bmetas ?s fb) \<noteq> []" by (metis list.size(3) zero_neq_numeral)
  have "in_dev (dev ?s) (unat (sb_file_block_meta_offset (super_meta s)
      + sb_file_block_meta_size (super_meta s) * word_of_nat fb)) (length (enc_FileBlockMeta (bmetas ?s fb)))"
    unfolding addr len using assms(3,4) by (simp add: in_dev_def upd_bmeta_def)
  then obtain k where "fs_PwriteDirect (enc_FileBlockMeta (bmetas ?s fb)) (sb_file_block_meta_offset (super_meta s)
      + sb_file_block_meta_size (super_meta s) * word_of_nat fb) ?s = (int (length (enc_FileBlockMeta (bmetas ?s fb))), ?s\<lparr>kern := k\<rparr>)"
    by (rule fs_PwriteDirect_ok [OF io _ ne])
  then show ?thesis
    using formatted_fields(7) [OF assms(1)] by (simp add: FileBlock_WriteMeta_def Let_def upd_bmeta_def)
qed

lemma File_WriteMeta_fh_ok:
  assumes "formatted s" "io_ok s" "fh < 100000" "675282944 \<le> unat (dev_size (dev s))"
  shows "fst (File_WriteMeta_fh fh s)"
proof -
  let ?a = "FileHandle_PageAlignIndex s (word_of_nat fh)"
  have a: "unat ?a = fh - fh mod 16" by (rule FileHandle_PageAlignIndex_eq [OF assms(1,3)])
  have "unat (ucast ?a :: u64) = unat ?a"
    using unsigned_less [of ?a, where 'a = nat] by (simp add: unsigned_ucast_eq take_bit_nat_eq_self)
  then have addr: "unat (sb_file_meta_offset (super_meta s) + sb_file_meta_size (super_meta s) * ucast ?a)
      = 102404096 + 256 * (fh - fh mod 16)"
    using formatted_fields [OF assms(1)] a assms(3) by (simp add: unat_word_ariths)
  let ?s = "file_crc fh s"
  have io: "io_ok ?s" using assms(2) by (simp add: io_ok_def file_crc_def upd_fmeta_def)
  have ne: "file_page ?s (unat ?a) \<noteq> []" by (metis length_file_page list.size(3) zero_neq_numeral)
  have "in_dev (dev ?s) (unat (sb_file_meta_offset (super_meta s) + sb_file_meta_size (super_meta s) * ucast ?a))
      (length (file_page ?s (unat ?a)))"
    unfolding addr using assms(3,4) by (simp add: in_dev_def file_crc_def upd_fmeta_def)
  then obtain k where "fs_PwriteDirect (file_page ?s (unat ?a)) (sb_file_meta_offset (super_meta s)
      + sb_file_meta_size (super_meta s) * ucast ?a) ?s = (int (length (file_page ?s (unat ?a))), ?s\<lparr>kern := k\<rparr>)"
    by (rule fs_PwriteDirect_ok [OF io _ ne])
  then show ?thesis
    by (simp add: File_WriteMeta_fh_def Let_def file_crc_def upd_fmeta_def layout_consts)
qed

lemma extend_persist_ok:
  assumes "formatted s" "io_ok s" "File_fh s f < 100000" "fb < 133554" "675282944 \<le> unat (dev_size (dev s))"
  shows "fst (extend_persist f off nw fb ids s) = 0"
proof -
  obtain ok s5 where w5: "(if ids = [] then (True, s) else FileBlock_WriteMeta fb s) = (ok, s5)"
    by fastforce
  have ok: "ok" using w5 FileBlock_WriteMeta_ok [OF assms(1,2,4,5)] by (auto split: if_splits)
  have d5: "data_same s s5"
    using w5 FileBlock_WriteMeta_data [OF assms(1,4)] by (auto split: if_splits)
  define s6 where "s6 = File_set_file_size f off
    (if ids \<noteq> [] \<and> nw then snd (AddFileBlockNoLock f fb s5) else s5)"
  have d6: "data_same s5 s6"
    by (auto simp: s6_def File_set_file_size_def AddFileBlockNoLock_def Let_def
        intro: data_same_trans [OF data_same_upds(4) data_same_upds(1)])
  have d: "data_same s s6" using d5 d6 by (rule data_same_trans)
  have "File_fh s6 f = File_fh s f"
    using w5 FileBlock_WriteMeta_frame [of fb s ok s5]
    by (auto simp: s6_def File_set_file_size_def AddFileBlockNoLock_def obj_acc_defs fs_upd_defs Let_def
        split: if_splits)
  then have "fst (File_WriteMeta f s6)"
    using File_WriteMeta_fh_ok [OF data_same_formatted [OF d assms(1)] data_same_io [OF d assms(2)]] assms(3,5) d
    by (simp add: File_WriteMeta_def data_same_def)
  then show ?thesis
    unfolding extend_persist_def w5 using ok by (simp add: Let_def s6_def [symmetric] split_beta)
qed

text \<open>What a growth to \<open>n\<close> bytes needs: room on the device, in the one file block, and in the pools.\<close>

definition can_grow :: "fs \<Rightarrow> nat \<Rightarrow> nat \<Rightarrow> bool" where
  "can_grow s f n \<longleftrightarrow> n \<le> unat (dev_size (dev s)) \<and> ceil_blocks n \<le> 1000
     \<and> ceil_blocks n \<le> ceil_blocks (unat (File_file_size s f)) + length (block_id_pool (block_handle s))
     \<and> (File_file_size s f = 0 \<longrightarrow> free_fbhs s \<noteq> []) \<and> ceil_blocks (unat (File_file_size s f)) < 1000"

lemma ExtendFile_succeeds:
  assumes fm: "formatted s" "io_ok s" and ex: "blocks_exclusive s" and wf: "file_wf s f"
    and fh: "File_fh s f < 100000" and rg: "fbs_in_range s f"
    and lt: "File_file_size s f < off" "off \<le> kBlockFsMaxUDiskSize"
    and dev: "675282944 \<le> unat (dev_size (dev s))" and cg: "can_grow s f (unat off)"
  shows "\<exists>t. ExtendFile f off s = Some (0, t)"
proof -
  let ?n = "num_blocks_needed (File_file_size s f) off" and ?nw = "File_file_size s f = 0"
  have dv: "off \<le> dev_size (dev s)" and cap: "ceil_blocks (unat off) \<le> 1000"
    and room: "ceil_blocks (unat off) \<le> ceil_blocks (unat (File_file_size s f)) + length (block_id_pool (block_handle s))"
    and fb: "File_file_size s f = 0 \<Longrightarrow> free_fbhs s \<noteq> []"
    and slack: "ceil_blocks (unat (File_file_size s f)) < 1000"
    using cg by (auto simp: can_grow_def word_le_nat_alt)
  have n: "unat ?n = ceil_blocks (unat off) - ceil_blocks (unat (File_file_size s f))"
    by (rule unat_num_blocks_needed [OF lt(1,2)])
  obtain o1 s1 where t: "extend_target f s = (o1, s1)" by (cases "extend_target f s")
  note T = extend_target_data [OF t]
  have own: "length (fb_owned s x) = ceil_blocks (unat (File_file_size s f))
      \<and> unat (fb_used_block_num (bmetas s x)) = length (fb_owned s x)" if "o1 = Some x" for x
    using wf
  proof (cases rule: file_wf_cases)
    case empty
    then have "x \<in> set (free_fbhs s)" using t that
      by (auto simp: extend_target_def GetFileBlockLock_def split: list.splits)
    then show ?thesis using ex empty by (auto simp: blocks_exclusive_def fb_owned_def)
  next
    case (one x')
    then have "x = x'" using t that by (auto simp: extend_target_def GetFileBlock_def split: if_splits)
    moreover have "unat (fb_used_block_num (bmetas s x')) \<le> length (fb_block_id (bmetas s x'))"
      using ex by (simp add: blocks_exclusive_def wf_bmetas_def)
    ultimately show ?thesis using one by (simp add: fb_owned_def)
  qed
  obtain x where x: "o1 = Some x"
    using wf
  proof (cases rule: file_wf_cases)
    case empty
    then show ?thesis using that t fb by (auto simp: extend_target_def GetFileBlockLock_def split: list.splits)
  next
    case (one x')
    have "unat (fb_used_block_num (bmetas s x')) \<le> length (fb_block_id (bmetas s x'))"
      using ex by (simp add: blocks_exclusive_def wf_bmetas_def)
    then have "unat (fb_used_block_num (bmetas s x')) < 1000" using one slack by (simp add: fb_owned_def)
    then have "\<not> is_block_full s x'" by (auto simp: is_block_full_def)
    then show ?thesis using that t one by (auto simp: extend_target_def GetFileBlock_def)
  qed
  note t = t [unfolded x]
  have bh: "block_handle s1 = block_handle s" "bmetas s1 = bmetas s"
    using t by (auto simp: extend_target_def GetFileBlockLock_def GetFileBlock_def split: list.splits option.splits if_splits)
  obtain o2 s2 where b: "extend_blocks ?nw ?n x s1 = (o2, s2)" by (cases "extend_blocks ?nw ?n x s1")
  note B = extend_blocks_data [OF b]
  obtain ids where ids: "o2 = Some ids" "length ids = unat ?n" and b2: "bmetas s2 = bmetas s"
    using b n room bh word_gt_0 [of ?n]
    by (auto simp: extend_blocks_def blk_op_defs GetFreeBlockIdLock_eq split: if_splits)
  define s3 where "s3 = (if ?nw then upd_bmeta x (\<lambda>m. m\<lparr>fb_used := True, fb_file_cut := 0,
      fb_fh := ucast (fm_fh (File_meta s2 f)), fb_is_temp := fm_is_temp (File_meta s2 f)\<rparr>) s2 else s2)"
  have w: "length (fb_block_id (bmetas s3 x)) = 1000" "unat (fb_used_block_num (bmetas s3 x)) = ceil_blocks (unat (File_file_size s f))"
    using ex own [OF x] b2 by (auto simp: s3_def upd_bmeta_def blocks_exclusive_def wf_bmetas_def)
  have k: "min (length ids) (1000 - unat (fb_used_block_num (bmetas s3 x))) = length ids"
    using ids n w cap by simp
  obtain bm where f4: "fill_file_block x ids s3 = Some (True, s3\<lparr>bmetas := bm\<rparr>)"
    using fill_file_block_spec [OF w(1) _ refl, of ids] w(2) slack unfolding k by auto
  let ?s4 = "s3\<lparr>bmetas := bm\<rparr>"
  have d4: "data_same s ?s4"
    using data_same_trans [OF T(1) B(1)] by (auto simp: s3_def data_same_def upd_bmeta_def)
  have "File_fh ?s4 f = File_fh s f" using T B by (simp add: s3_def obj_acc_defs upd_bmeta_def)
  then have "fst (extend_persist f off ?nw x ids ?s4) = 0"
    using extend_persist_ok [OF data_same_formatted [OF d4 fm(1)] data_same_io [OF d4 fm(2)]] fh T(4) [OF x rg] dev d4
    by (simp add: data_same_def)
  then obtain t' where "extend_persist f off ?nw x ids ?s4 = (0, t')" by (metis prod.collapse)
  then show ?thesis
    using dv formatted_fields(11) [OF fm(1)] t b ids f4 by (simp add: ExtendFile_def Let_def s3_def)
qed

end
