(* ===== verification/File_IO.thy ===== *)
theory File_IO
  imports Data_Area
begin

text \<open>
  Reading and writing open files (\<open>OpenFile\<close>, \<open>FileReader\<close>, \<open>FileWriter\<close> in
  \<open>lib/file.h\<close> and \<open>lib/file.cc\<close>). A request is cut at block boundaries into device
  transfers; the theory shows that the cuts are right for every offset and size, so that a read
  returns the bytes of the file, a write changes exactly the bytes it addresses, and what is
  written can be read back. \<open>file_pos\<close> is the reference: the place of byte \<open>i\<close> of a file
  on the device.
\<close>

section \<open>Cutting a request at block boundaries\<close>

record BlockData =
  bd_block_id :: u32
  bd_buffer :: u64
  bd_dev_offset :: u64
  bd_size :: u64

text \<open>
  The \<open>do ... while\<close> loop that \<open>ReadData\<close> and \<open>WriteData\<close> share. An index outside
  the array of the file block is undefined (\<open>None\<close>), which also bounds the recursion.
\<close>

function split_blocks :: "fs \<Rightarrow> nat \<Rightarrow> u64 \<Rightarrow> u32 \<Rightarrow> u64 \<Rightarrow> u64 \<Rightarrow> BlockData list option" where
  "split_blocks s fb sz index block_offset count =
     (case get_block_id s fb index of
        None \<Rightarrow> None
      | Some block_id \<Rightarrow>
          (let rd_offset = (if 0 < block_offset then ucast block_offset else 0) :: u32;
               rd_size = (if 0 < block_offset then min sz (kBlockSize - block_offset)
                          else min (sz - count) kBlockSize);
               block = \<lparr>bd_block_id = block_id, bd_buffer = count,
                        bd_dev_offset = block_addr s block_id (ucast rd_offset), bd_size = rd_size\<rparr>;
               count = count + rd_size
           in if sz \<le> count then Some [block]
              else do { rest \<leftarrow> split_blocks s fb sz (index + 1) 0 count; Some (block # rest) }))"
  by pat_completeness auto
termination
proof (relation "measure (\<lambda>(_, _, _, index, _, _). 1000 - unat index)", goal_cases)
  case 1
  then show ?case by simp
next
  case prems: (2 s fb sz index)
  have lt: "unat index < 1000"
    using prems(1) by (simp add: get_block_id_def word_less_nat_alt split: if_splits)
  then have "unat (index + 1) = Suc (unat index)" by (simp add: unat_word_ariths)
  then show ?case using lt by simp
qed

declare split_blocks.simps [simp del]

section \<open>ReadData and WriteData\<close>

definition fs_PreadDirect :: "u64 \<Rightarrow> u64 \<Rightarrow> fs \<Rightarrow> (int \<times> u8 list) \<times> fs" where
  "fs_PreadDirect n off s = (let (r, k) = PreadDirect (dev s) n off (kern s) in (r, s\<lparr>kern := k\<rparr>))"

definition ReadBlockData :: "bool \<Rightarrow> BlockData \<Rightarrow> fs \<Rightarrow> (int \<times> u8 list) \<times> fs" where
  "ReadBlockData direct b s =
     (if direct then fs_PreadDirect (bd_size b) (bd_dev_offset b) s
      else fs_PreadCache (bd_size b) (bd_dev_offset b) s)"

text \<open>The user buffer is a list; the slice of a block is \<open>write_buffer_ + curr_write_count\<close>.\<close>

definition buf_put :: "nat \<Rightarrow> u8 list \<Rightarrow> u8 list \<Rightarrow> u8 list" where
  "buf_put pos data buf = take pos buf @ data @ drop (pos + length data) buf"

definition WriteBlockData :: "bool \<Rightarrow> u8 list \<Rightarrow> BlockData \<Rightarrow> fs \<Rightarrow> int \<times> fs" where
  "WriteBlockData direct buf b s =
     (let data = take (unat (bd_size b)) (drop (unat (bd_buffer b)) buf)
      in if direct then fs_PwriteDirect data (bd_dev_offset b) s
         else fs_PwriteCache data (bd_dev_offset b) s)"

fun read_blocks :: "bool \<Rightarrow> BlockData list \<Rightarrow> int \<Rightarrow> u8 list \<Rightarrow> fs \<Rightarrow> ((int \<times> u8 list) \<times> fs) option" where
  "read_blocks direct [] ret buf s = Some ((ret, buf), s)"
| "read_blocks direct (b # bs) ret buf s = do {
     lock \<leftarrow> block_lock (bd_block_id b);
     let ((block_read, data), s) = ReadBlockData direct b s;
     let buf = buf_put (unat (bd_buffer b)) data buf;
     if block_read \<le> 0 then Some ((ret, buf), s)
     else read_blocks direct bs (ret + block_read) buf s
   }"

fun write_blocks :: "bool \<Rightarrow> u8 list \<Rightarrow> BlockData list \<Rightarrow> int \<Rightarrow> fs \<Rightarrow> (int \<times> fs) option" where
  "write_blocks direct buf [] ret s = Some (ret, s)"
| "write_blocks direct buf (b # bs) ret s = do {
     lock \<leftarrow> block_lock (bd_block_id b);
     let (block_write, s) = WriteBlockData direct buf b s;
     if block_write \<le> 0 then Some (ret, s)
     else write_blocks direct buf bs (ret + block_write) s
   }"

definition add_append_pos :: "int \<Rightarrow> int \<Rightarrow> fs \<Rightarrow> fs" where
  "add_append_pos fd n s =
     s\<lparr>open_files := map (\<lambda>(k, x). (k, if k = fd then x\<lparr>of_append_pos := of_append_pos x + word_of_int n\<rparr> else x))
         (open_files s)\<rparr>"

text \<open>
  \<open>fd\<close> names the open file; \<open>f\<close> is its \<open>File\<close>. A read of a file without file block
  fails, a write dereferences the null pointer.
\<close>

definition ReadData :: "bool \<Rightarrow> int \<Rightarrow> nat \<Rightarrow> u64 \<Rightarrow> u64 \<Rightarrow> u8 list \<Rightarrow> fs \<Rightarrow> ((int \<times> u8 list) \<times> fs) option" where
  "ReadData direct fd f sz offset buf s =
     (case GetFileBlock s f 0 of
        None \<Rightarrow> Some ((- 1, buf), s)
      | Some fb \<Rightarrow> do {
          blocks \<leftarrow> split_blocks s fb sz (ucast (offset div kBlockSize)) (offset mod kBlockSize) 0;
          ((ret, buf), s) \<leftarrow> read_blocks direct blocks 0 buf s;
          Some ((ret, buf), if direct then s else add_append_pos fd ret s)
        })"

definition WriteData :: "bool \<Rightarrow> int \<Rightarrow> nat \<Rightarrow> u64 \<Rightarrow> u64 \<Rightarrow> u8 list \<Rightarrow> fs \<Rightarrow> (int \<times> fs) option" where
  "WriteData direct fd f sz offset buf s = do {
     fb \<leftarrow> GetFileBlock s f 0;
     blocks \<leftarrow> split_blocks s fb sz (ucast (offset div kBlockSize)) (offset mod kBlockSize) 0;
     (ret, s) \<leftarrow> write_blocks direct buf blocks 0 s;
     Some (ret, if direct then s else add_append_pos fd ret s)
   }"

section \<open>OpenFile\<close>

abbreviation (input) SEEK_SET :: nat where "SEEK_SET \<equiv> 0"
abbreviation (input) SEEK_CUR :: nat where "SEEK_CUR \<equiv> 1"
abbreviation (input) SEEK_END :: nat where "SEEK_END \<equiv> 2"

text \<open>\<open>off_t\<close> values are 64-bit words here, negative ones in two's complement.\<close>

definition OpenFile_lseek :: "int \<Rightarrow> OpenFile \<Rightarrow> u64 \<Rightarrow> nat \<Rightarrow> fs \<Rightarrow> u64 \<times> fs" where
  "OpenFile_lseek fd x offset whence s =
     (let go = (\<lambda>pos. (pos, s\<lparr>open_files := amap_put fd (x\<lparr>of_append_pos := pos\<rparr>) (open_files s)\<rparr>))
      in if whence = SEEK_SET then go offset
         else if whence = SEEK_CUR then go (of_append_pos x + offset)
         else if whence = SEEK_END then go (File_file_size s (of_file x) + offset)
         else (- 1, set_errno EINVAL s))"

definition OpenFile_pread :: "int \<Rightarrow> nat \<Rightarrow> u64 \<Rightarrow> u64 \<Rightarrow> u8 list \<Rightarrow> fs \<Rightarrow> ((int \<times> u8 list) \<times> fs) option" where
  "OpenFile_pread fd f sz offset buf s =
     (if sz = 0 \<or> File_file_size s f \<le> offset then Some ((0, buf), s)
      else let need_read_size = (if File_file_size s f < offset + sz then File_file_size s f - offset else sz)
           in ReadData False fd f need_read_size offset buf s)"

text \<open>\<open>OpenFile::read\<close> is the same code with the append position as the offset.\<close>

definition OpenFile_read :: "int \<Rightarrow> nat \<Rightarrow> u64 \<Rightarrow> u64 \<Rightarrow> u8 list \<Rightarrow> fs \<Rightarrow> ((int \<times> u8 list) \<times> fs) option" where
  "OpenFile_read fd f sz append_pos buf s =
     (if sz = 0 \<or> File_file_size s f \<le> append_pos then Some ((0, buf), s)
      else let need_read_size = (if File_file_size s f < append_pos + sz then File_file_size s f - append_pos else sz)
           in ReadData False fd f need_read_size append_pos buf s)"

definition OpenFile_pwrite :: "int \<Rightarrow> nat \<Rightarrow> u8 list \<Rightarrow> u64 \<Rightarrow> u64 \<Rightarrow> fs \<Rightarrow> (int \<times> fs) option" where
  "OpenFile_pwrite fd f buf sz offset s =
     (if sz = 0 then Some (0, s)
      else do {
        (r, s) \<leftarrow> (if File_file_size s f < offset + sz then ftruncate f (offset + sz) s else Some (0, s));
        if r < 0 then Some (- 1, s)
        else let seconds = now s;
                 s = (if seconds mod 2 = 0 then File_UpdateTimeStamp f seconds s else s)
             in WriteData False fd f sz offset buf s
      })"

section \<open>The reference: where a byte of a file lives\<close>

definition file_pos :: "fs \<Rightarrow> u32 list \<Rightarrow> nat \<Rightarrow> nat" where
  "file_pos s ids i = unat (sb_block_data_start_offset (super_meta s))
     + 4194304 * unat (ids ! (i div 4194304)) + i mod 4194304"

text \<open>
  The data area: every block a file may own lies on the device and has a lock.
\<close>

definition data_ok :: "fs \<Rightarrow> bool" where
  "data_ok s \<longleftrightarrow> sb_block_size (super_meta s) = 4194304 \<and> unat (dev_size (dev s)) < 2 ^ 63
     \<and> unat (max_block_num (block_handle s)) \<le> 100000
     \<and> unat (sb_block_data_start_offset (super_meta s))
         + 4194304 * unat (max_block_num (block_handle s)) \<le> unat (dev_size (dev s))"

definition ids_ok :: "fs \<Rightarrow> u32 list \<Rightarrow> bool" where
  "ids_ok s ids \<longleftrightarrow> length ids \<le> 1000 \<and> distinct ids \<and> (\<forall>b \<in> set ids. b < max_block_num (block_handle s))"

lemma div_mod_add:
  assumes "i mod (4194304::nat) + j < 4194304"
  shows "(i + j) div 4194304 = i div 4194304" "(i + j) mod 4194304 = i mod 4194304 + j"
proof -
  have e: "i + j = 4194304 * (i div 4194304) + (i mod 4194304 + j)" by simp
  show "(i + j) div 4194304 = i div 4194304"
    by (subst e, subst div_mult_self4) (use assms in auto)
  show "(i + j) mod 4194304 = i mod 4194304 + j"
    by (subst e, subst mod_mult_self4) (use assms in auto)
qed

lemma file_pos_add:
  "i mod 4194304 + j < 4194304 \<Longrightarrow> file_pos s ids (i + j) = file_pos s ids i + j"
  by (simp add: file_pos_def div_mod_add)

lemma div_less_blocks: "i < n * 4194304 \<Longrightarrow> i div 4194304 < (n::nat)"
  by (simp add: div_less_iff_less_mult)

lemma file_pos_inj:
  assumes "distinct ids" "i < length ids * 4194304" "j < length ids * 4194304"
    and "file_pos s ids i = file_pos s ids j"
  shows "i = j"
proof -
  have e: "4194304 * unat (ids ! (i div 4194304)) + i mod 4194304
      = 4194304 * unat (ids ! (j div 4194304)) + j mod 4194304"
    using assms(4) by (simp add: file_pos_def)
  have m: "i mod 4194304 = j mod 4194304" using arg_cong [OF e, of "\<lambda>x. x mod 4194304"] by simp
  with e have "ids ! (i div 4194304) = ids ! (j div 4194304)" by (simp add: word_unat_eq_iff)
  then have "i div 4194304 = j div 4194304"
    using assms(1-3) by (simp add: nth_eq_iff_index_eq div_less_blocks)
  with m show ?thesis by (metis div_mult_mod_eq)
qed

lemma file_pos_in_dev:
  assumes "data_ok s" "ids_ok s ids" "i < length ids * 4194304" "i mod 4194304 + n \<le> 4194304"
  shows "in_dev (dev s) (file_pos s ids i) n"
proof -
  have "ids ! (i div 4194304) \<in> set ids" using assms(3) div_less_blocks by simp
  then have "Suc (unat (ids ! (i div 4194304))) \<le> unat (max_block_num (block_handle s))"
    using assms(2) by (auto simp: ids_ok_def word_less_nat_alt)
  then have "4194304 * unat (ids ! (i div 4194304)) + 4194304 \<le> 4194304 * unat (max_block_num (block_handle s))"
    by linarith
  then show ?thesis using assms(1,4) by (simp add: in_dev_def file_pos_def data_ok_def)
qed

lemma unat_block_addr:
  assumes d: "data_ok s" and b: "b < max_block_num (block_handle s)" and o: "unat x \<le> 4194304"
  shows "unat (block_addr s b x)
     = unat (sb_block_data_start_offset (super_meta s)) + 4194304 * unat b + unat x"
proof -
  have "Suc (unat b) \<le> unat (max_block_num (block_handle s))" using b by (simp add: word_less_nat_alt)
  then have le: "unat (sb_block_data_start_offset (super_meta s)) + 4194304 * unat b + 4194304 < 2 ^ 63"
    using d by (simp add: data_ok_def)
  have b64: "unat (ucast b :: u64) = unat b"
    using unsigned_less [of b, where 'a = nat] by (simp add: unsigned_ucast_eq take_bit_nat_eq_self)
  have "unat (4194304 * ucast b :: u64) = 4194304 * unat b"
    using le b64 by (simp add: unat_word_ariths)
  then show ?thesis
    using d le o by (simp add: block_addr_def data_ok_def unat_word_ariths)
qed

text \<open>A list of transfers that covers bytes \<open>cnt\<close> to \<open>sz\<close> of a request at \<open>off\<close>.\<close>

fun segs_ok :: "fs \<Rightarrow> u32 list \<Rightarrow> nat \<Rightarrow> nat \<Rightarrow> nat \<Rightarrow> BlockData list \<Rightarrow> bool" where
  "segs_ok s ids off sz cnt [] \<longleftrightarrow> cnt = sz"
| "segs_ok s ids off sz cnt (b # bs) \<longleftrightarrow>
     bd_block_id b = ids ! ((off + cnt) div 4194304)
     \<and> unat (bd_buffer b) = cnt \<and> 0 < unat (bd_size b) \<and> cnt + unat (bd_size b) \<le> sz
     \<and> unat (bd_dev_offset b) = file_pos s ids (off + cnt)
     \<and> (off + cnt) mod 4194304 + unat (bd_size b) \<le> 4194304
     \<and> segs_ok s ids off sz (cnt + unat (bd_size b)) bs"

text \<open>The segments, byte by byte: the request in order, each byte at its place.\<close>

lemma segs_cover:
  assumes "segs_ok s ids off sz cnt bs"
  shows "concat (map (\<lambda>b. map (\<lambda>j. (unat (bd_buffer b) + j, unat (bd_dev_offset b) + j)) [0..<unat (bd_size b)]) bs)
     = map (\<lambda>i. (i, file_pos s ids (off + i))) [cnt..<sz]"
  using assms
proof (induction bs arbitrary: cnt)
  case Nil
  then show ?case by simp
next
  case (Cons b bs)
  let ?n = "unat (bd_size b)"
  have b: "unat (bd_buffer b) = cnt" "cnt + ?n \<le> sz" "unat (bd_dev_offset b) = file_pos s ids (off + cnt)"
    "(off + cnt) mod 4194304 + ?n \<le> 4194304" "segs_ok s ids off sz (cnt + ?n) bs"
    using Cons.prems by simp_all
  have "unat (bd_dev_offset b) + j = file_pos s ids (off + (cnt + j))" if "j < ?n" for j
    using b(3,4) that file_pos_add [of "off + cnt" j s ids] by (simp add: add.assoc)
  then have "map (\<lambda>j. (unat (bd_buffer b) + j, unat (bd_dev_offset b) + j)) [0..<?n] = map (\<lambda>i. (i, file_pos s ids (off + i))) [cnt..<cnt + ?n]"
    by (intro nth_equalityI) (simp_all add: b(1))
  moreover have "[cnt..<sz] = [cnt..<cnt + ?n] @ [cnt + ?n..<sz]" using b(2) upt_add_eq_append [of cnt "cnt + ?n" "sz - (cnt + ?n)"] by simp
  ultimately show ?case using Cons.IH [OF b(5)] by simp
qed

lemma unat_min: "unat (min a b) = min (unat (a::u64)) (unat b)"
  by (simp add: min_def word_le_nat_alt)

lemma split_step_arith:
  fixes off sz count boff :: u64
  assumes lt: "count < sz" and b: "unat boff = (unat off + unat count) mod 4194304"
    and z: "boff = 0 \<or> count = 0"
  shows "unat (if 0 < boff then min sz (kBlockSize - boff) else min (sz - count) kBlockSize)
      = min (unat sz - unat count) (4194304 - (unat off + unat count) mod 4194304)"
    "unat (ucast (if 0 < boff then ucast boff else 0 :: u32) :: u64) = unat boff"
proof -
  have bl: "unat boff < 4194304" using b by simp
  have "boff \<le> kBlockSize" using bl by (simp add: word_le_nat_alt layout_consts)
  then have k: "unat (kBlockSize - boff) = 4194304 - unat boff" by (simp add: unat_sub layout_consts)
  have c: "unat (sz - count) = unat sz - unat count" using lt by (simp add: unat_sub order_less_imp_le)
  show "unat (if 0 < boff then min sz (kBlockSize - boff) else min (sz - count) kBlockSize)
      = min (unat sz - unat count) (4194304 - (unat off + unat count) mod 4194304)"
  proof (cases "boff = 0")
    case True
    then show ?thesis using b c by (simp add: unat_min layout_consts)
  next
    case False
    then show ?thesis using z b k by (simp add: unat_min word_gt_0)
  qed
  show "unat (ucast (if 0 < boff then ucast boff else 0 :: u32) :: u64) = unat boff"
    using bl by (cases "boff = 0") (simp_all add: word_gt_0 unsigned_ucast_eq take_bit_nat_eq_self unsigned_take_bit_eq)
qed

lemma split_blocks_spec:
  fixes off :: u64
  assumes d: "data_ok s" and ids: "ids_ok s ids"
    and slot: "\<forall>j < length ids. fb_block_id (bmetas s fb) ! j = ids ! j"
    and fits: "unat off + unat sz \<le> length ids * 4194304"
    and lt: "count < sz" and i: "unat index = (unat off + unat count) div 4194304"
    and b: "unat boff = (unat off + unat count) mod 4194304" and z: "boff = 0 \<or> count = 0"
  shows "\<exists>bs. split_blocks s fb sz index boff count = Some bs
     \<and> segs_ok s ids (unat off) (unat sz) (unat count) bs"
  using lt i b z d ids slot fits
proof (induction s fb sz index boff count rule: split_blocks.induct)
  case (1 s fb sz index boff count)
  let ?p = "unat off + unat count"
  let ?n = "min (unat sz - unat count) (4194304 - ?p mod 4194304)"
  let ?rd = "if 0 < boff then min sz (kBlockSize - boff) else min (sz - count) kBlockSize"
  let ?id = "ids ! (?p div 4194304)"
  define n where "n = ?n"
  note A = split_step_arith [OF 1(2,4,5)]
  have cs: "unat count < unat sz" using 1(2) by (simp add: word_less_nat_alt)
  have plt: "?p < length ids * 4194304" using cs 1(9) by linarith
  then have q: "?p div 4194304 < length ids" by (rule div_less_blocks)
  have len: "length ids \<le> 1000" using 1(7) by (simp add: ids_ok_def)
  have g: "get_block_id s fb index = Some ?id"
    using q len 1(3,8) by (simp add: get_block_id_def word_less_nat_alt)
  have idlt: "?id < max_block_num (block_handle s)" using q 1(7) by (simp add: ids_ok_def)
  have addr: "unat (block_addr s ?id (ucast (if 0 < boff then ucast boff else 0 :: u32))) = file_pos s ids ?p"
    using unat_block_addr [OF 1(6) idlt] A(2) 1(4) by (simp add: file_pos_def)
  have cn: "unat (count + ?rd) = unat count + ?n"
  proof -
    have "unat count + ?n < 2 ^ 64" using cs unsigned_less [of sz, where 'a = nat] by simp
    then show ?thesis using A(1) by (simp only: unat_word_ariths) simp
  qed
  have npos: "0 < ?n" using cs by simp
  have "?p mod 4194304 < 4194304" by simp
  then have mn: "?p mod 4194304 + ?n \<le> 4194304" by linarith
  show ?case
  proof (cases "sz \<le> count + ?rd")
    case True
    then have e: "unat count + ?n = unat sz" using cn cs by (simp add: word_le_nat_alt)
    moreover from e have "?n = unat sz - unat count" by linarith
    ultimately show ?thesis
      by (subst split_blocks.simps) (use True g addr A(1) npos mn in \<open>simp add: Let_def\<close>)
  next
    case False
    then have l: "unat count + ?n < unat sz" using cn by (simp add: word_le_nat_alt)
    then have n: "?n = 4194304 - ?p mod 4194304" by auto
    have pn: "?p + ?n = (?p div 4194304 + 1) * 4194304"
    proof -
      have "?p mod 4194304 < 4194304" by simp
      then show ?thesis unfolding n add_mult_distrib using div_mult_mod_eq [of ?p 4194304] by linarith
    qed
    have ix: "unat (index + 1) = ?p div 4194304 + 1" using q len 1(3) by (simp add: unat_word_ariths)
    have "\<exists>bs. split_blocks s fb sz (index + 1) 0 (count + ?rd) = Some bs
        \<and> segs_ok s ids (unat off) (unat sz) (unat (count + ?rd)) bs"
    proof (rule 1(1) [OF g refl refl refl refl False])
      show "count + ?rd < sz" using False by simp
      show "unat (index + 1) = (unat off + unat (count + ?rd)) div 4194304"
        unfolding cn ix add.assoc [symmetric] pn by simp
      show "unat (0::u64) = (unat off + unat (count + ?rd)) mod 4194304"
        unfolding cn add.assoc [symmetric] pn by simp
    qed (use 1 in simp_all)
    then obtain bs where bs: "split_blocks s fb sz (index + 1) 0 (count + ?rd) = Some bs"
      "segs_ok s ids (unat off) (unat sz) (unat count + ?n) bs" unfolding cn by blast
    show ?thesis
      by (subst split_blocks.simps)
        (use False g addr A(1) [folded n_def] l [folded n_def] npos [folded n_def] mn [folded n_def]
          bs [folded n_def] in \<open>simp add: Let_def\<close>)
  qed
qed

section \<open>Transfers\<close>

lemma disk_read_file_pos:
  assumes "i mod 4194304 + n \<le> 4194304"
  shows "disk_read d (file_pos s ids i) n = map (\<lambda>j. d (file_pos s ids j)) [i..<i + n]"
  using assms
  by (intro nth_equalityI) (auto simp: disk_read_def file_pos_add)

lemma file_pos_kern [simp]:
  "file_pos (s\<lparr>kern := k\<rparr>) ids i = file_pos s ids i"
  "segs_ok (s\<lparr>kern := k\<rparr>) ids off sz cnt bs = segs_ok s ids off sz cnt bs"
  "data_ok (s\<lparr>kern := k\<rparr>) = data_ok s" "ids_ok (s\<lparr>kern := k\<rparr>) ids = ids_ok s ids"
proof -
  show "file_pos (s\<lparr>kern := k\<rparr>) ids i = file_pos s ids i" for i by (simp add: file_pos_def)
  then show "segs_ok (s\<lparr>kern := k\<rparr>) ids off sz cnt bs = segs_ok s ids off sz cnt bs"
    by (induction bs arbitrary: cnt) auto
  show "data_ok (s\<lparr>kern := k\<rparr>) = data_ok s" by (simp add: data_ok_def)
  show "ids_ok (s\<lparr>kern := k\<rparr>) ids = ids_ok s ids" by (simp add: ids_ok_def)
qed

lemma segs_ok_le: "segs_ok s ids off sz cnt bs \<Longrightarrow> cnt \<le> sz"
  by (induction bs arbitrary: cnt) fastforce+

lemma block_lock_ok:
  assumes "data_ok s" "ids_ok s ids" "i < length ids * 4194304"
  shows "block_lock (ids ! (i div 4194304)) = Some ()"
proof -
  have "ids ! (i div 4194304) < max_block_num (block_handle s)"
    using assms(2) div_less_blocks [OF assms(3)] by (simp add: ids_ok_def)
  then show ?thesis using assms(1) by (simp add: data_ok_def block_lock_def word_less_nat_alt)
qed

lemma read_blocks_ok:
  assumes "io_ok s" "data_ok s" "ids_ok s ids" "segs_ok s ids off sz cnt bs"
    and "off + sz \<le> length ids * 4194304" "sz \<le> length buf"
  shows "\<exists>k. read_blocks False bs ret buf s =
      Some ((ret + int (sz - cnt), take cnt buf @ map (\<lambda>i. k_disk (kern s) (file_pos s ids i)) [off + cnt..<off + sz]
         @ drop sz buf), s\<lparr>kern := k\<rparr>)
    \<and> k_disk k = k_disk (kern s) \<and> benign (k_script k)"
  using assms
proof (induction bs arbitrary: cnt ret buf s)
  case Nil
  then show ?case by (intro exI [of _ "kern s"]) (simp add: io_ok_def)
next
  case (Cons b bs)
  let ?n = "unat (bd_size b)"
  from Cons.prems(4) have b: "unat (bd_buffer b) = cnt" "0 < ?n" "cnt + ?n \<le> sz"
    "unat (bd_dev_offset b) = file_pos s ids (off + cnt)" "(off + cnt) mod 4194304 + ?n \<le> 4194304"
    "segs_ok s ids off sz (cnt + ?n) bs" and bl: "block_lock (bd_block_id b) = Some ()"
    using block_lock_ok [OF Cons.prems(2,3), of "off + cnt"] Cons.prems(5) by auto
  have "in_dev (dev s) (unat (bd_dev_offset b)) ?n"
    using file_pos_in_dev [OF Cons.prems(2,3) _ b(5)] b Cons.prems(5) by simp
  from fs_PreadCache_ok [OF Cons.prems(1) this b(2)] obtain k where
    k: "fs_PreadCache (bd_size b) (bd_dev_offset b) s
        = ((int ?n, disk_read (k_disk (kern s)) (unat (bd_dev_offset b)) ?n), s\<lparr>kern := k\<rparr>)"
      "k_disk k = k_disk (kern s)" "benign (k_script k)" .
  let ?data = "map (\<lambda>i. k_disk (kern s) (file_pos s ids i)) [off + cnt..<off + cnt + ?n]"
  have data: "disk_read (k_disk (kern s)) (unat (bd_dev_offset b)) ?n = ?data"
    using disk_read_file_pos [OF b(5)] b(4) by simp
  let ?buf = "take cnt buf @ ?data @ drop (cnt + ?n) buf"
  have io: "io_ok (s\<lparr>kern := k\<rparr>)" using Cons.prems(1) k by (simp add: io_ok_def)
  have len: "sz \<le> length ?buf" using Cons.prems(6) b(3) by simp
  from Cons.IH [of "s\<lparr>kern := k\<rparr>" "cnt + ?n" ?buf "ret + int ?n"] io Cons.prems(2,3,5) b(6) len obtain k' where
    r: "read_blocks False bs (ret + int ?n) ?buf (s\<lparr>kern := k\<rparr>) =
      Some ((ret + int ?n + int (sz - (cnt + ?n)), take (cnt + ?n) ?buf
         @ map (\<lambda>i. k_disk (kern s) (file_pos s ids i)) [off + (cnt + ?n)..<off + sz] @ drop sz ?buf), s\<lparr>kern := k'\<rparr>)"
    "k_disk k' = k_disk (kern s)" "benign (k_script k')"
    using k(2) by auto
  have up: "[off + cnt..<off + sz] = [off + cnt..<off + cnt + ?n] @ [off + (cnt + ?n)..<off + sz]"
    using b(3) upt_add_eq_append [of "off + cnt" "off + cnt + ?n" "sz - (cnt + ?n)"] by (simp add: add.assoc)
  have tk: "take (cnt + ?n) ?buf = take cnt buf @ ?data" "drop sz ?buf = drop sz buf"
    using b(3) Cons.prems(6) by simp_all
  have ar: "ret + int ?n + int (sz - (cnt + ?n)) = ret + int (sz - cnt)" using b(3) by simp
  have nz: "bd_size b \<noteq> 0" using b(2) by auto
  have "read_blocks False (b # bs) ret buf s = read_blocks False bs (ret + int ?n) ?buf (s\<lparr>kern := k\<rparr>)"
    using k(1) data b(1) nz bl by (simp add: ReadBlockData_def buf_put_def word_gt_0 Let_def unsigned_eq_0_iff)
  then show ?case using r(2,3) r(1) [unfolded tk ar]
    by (intro exI [of _ k']) (simp only: up map_append append_assoc simp_thms)
qed

text \<open>After a write, each addressed byte of the file is the one supplied; no other byte of the device moved.\<close>

lemma disk_write_file_pos:
  assumes "i mod 4194304 + length data \<le> 4194304" "j < length data"
  shows "disk_write d (file_pos s ids i) data (file_pos s ids (i + j)) = data ! j"
  using assms by (simp add: file_pos_add disk_write_def)

lemma disk_write_other_pos:
  assumes "i mod 4194304 + length data \<le> 4194304" "p \<notin> file_pos s ids ` {i..<i + length data}"
  shows "disk_write d (file_pos s ids i) data p = d p"
proof (rule disk_write_outside, rule ccontr)
  assume "\<not> (p < file_pos s ids i \<or> file_pos s ids i + length data \<le> p)"
  then have "p = file_pos s ids i + (p - file_pos s ids i)" "p - file_pos s ids i < length data" by auto
  then obtain j where "p = file_pos s ids i + j" "j < length data" by blast
  then have "p = file_pos s ids (i + j)" "i + j \<in> {i..<i + length data}"
    using file_pos_add [of i j] assms(1) by auto
  with assms(2) show False by blast
qed

lemma write_blocks_ok:
  assumes "io_ok s" "data_ok s" "ids_ok s ids" "segs_ok s ids off sz cnt bs"
    and "off + sz \<le> length ids * 4194304" "length buf = sz"
  shows "\<exists>k. write_blocks False buf bs ret s = Some (ret + int (sz - cnt), s\<lparr>kern := k\<rparr>)
    \<and> benign (k_script k)
    \<and> (\<forall>i \<in> {off + cnt..<off + sz}. k_disk k (file_pos s ids i) = buf ! (i - off))
    \<and> (\<forall>p. p \<notin> file_pos s ids ` {off + cnt..<off + sz} \<longrightarrow> k_disk k p = k_disk (kern s) p)"
  using assms
proof (induction bs arbitrary: cnt ret s)
  case Nil
  then show ?case by (intro exI [of _ "kern s"]) (simp add: io_ok_def)
next
  case (Cons b bs)
  let ?n = "unat (bd_size b)"
  from Cons.prems(4) have b: "unat (bd_buffer b) = cnt" "0 < ?n" "cnt + ?n \<le> sz"
    "unat (bd_dev_offset b) = file_pos s ids (off + cnt)" "(off + cnt) mod 4194304 + ?n \<le> 4194304"
    "segs_ok s ids off sz (cnt + ?n) bs" and bl: "block_lock (bd_block_id b) = Some ()"
    using block_lock_ok [OF Cons.prems(2,3), of "off + cnt"] Cons.prems(5) by auto
  let ?data = "take ?n (drop cnt buf)"
  have len: "length ?data = ?n" using b(3) Cons.prems(6) by simp
  have "in_dev (dev s) (unat (bd_dev_offset b)) (length ?data)"
    using file_pos_in_dev [OF Cons.prems(2,3) _ b(5)] b Cons.prems(5) len by simp
  moreover have "?data \<noteq> []" using len b(2) by auto
  ultimately obtain k where
    k: "fs_PwriteCache ?data (bd_dev_offset b) s = (int (length ?data), s\<lparr>kern := k\<rparr>)"
      "k_disk k = disk_write (k_disk (kern s)) (unat (bd_dev_offset b)) ?data" "benign (k_script k)"
    by (rule fs_PwriteCache_ok [OF Cons.prems(1)])
  have io: "io_ok (s\<lparr>kern := k\<rparr>)" using Cons.prems(1) k by (simp add: io_ok_def)
  from Cons.IH [of "s\<lparr>kern := k\<rparr>" "cnt + ?n" "ret + int ?n"] io Cons.prems(2,3,5,6) b(6) obtain k' where
    r: "write_blocks False buf bs (ret + int ?n) (s\<lparr>kern := k\<rparr>) = Some (ret + int ?n + int (sz - (cnt + ?n)), s\<lparr>kern := k'\<rparr>)"
      "benign (k_script k')"
      "\<forall>i \<in> {off + (cnt + ?n)..<off + sz}. k_disk k' (file_pos s ids i) = buf ! (i - off)"
      "\<forall>p. p \<notin> file_pos s ids ` {off + (cnt + ?n)..<off + sz} \<longrightarrow> k_disk k' p = k_disk k p"
    by auto
  have ar: "ret + int ?n + int (sz - (cnt + ?n)) = ret + int (sz - cnt)" using b(3) by simp
  have nz: "bd_size b \<noteq> 0" using b(2) by auto
  have step: "write_blocks False buf (b # bs) ret s = write_blocks False buf bs (ret + int ?n) (s\<lparr>kern := k\<rparr>)"
    using k(1) b(1) len nz bl by (simp add: WriteBlockData_def Let_def unsigned_eq_0_iff)
  have in1: "k_disk k' (file_pos s ids i) = buf ! (i - off)" if i: "i \<in> {off + cnt..<off + (cnt + ?n)}" for i
  proof -
    have "file_pos s ids i \<notin> file_pos s ids ` {off + (cnt + ?n)..<off + sz}"
    proof
      assume "file_pos s ids i \<in> file_pos s ids ` {off + (cnt + ?n)..<off + sz}"
      then obtain j where j: "j \<in> {off + (cnt + ?n)..<off + sz}" "file_pos s ids i = file_pos s ids j" by auto
      have "i = j" by (rule file_pos_inj [OF _ _ _ j(2)]) (use Cons.prems(3,5) i j b(3) in \<open>auto simp: ids_ok_def\<close>)
      then show False using i j by auto
    qed
    then have "k_disk k' (file_pos s ids i) = k_disk k (file_pos s ids i)" using r(4) by blast
    also have "\<dots> = ?data ! (i - (off + cnt))"
    proof -
      have "i - (off + cnt) < length ?data" "off + cnt + (i - (off + cnt)) = i" using i len by auto
      then show ?thesis
        using disk_write_file_pos [of "off + cnt" ?data "i - (off + cnt)" "k_disk (kern s)" s ids] b(4,5) len k(2)
        by metis
    qed
    also have "\<dots> = buf ! (i - off)" using i b(3) Cons.prems(6) by auto
    finally show ?thesis .
  qed
  have in2: "k_disk k' p = k_disk (kern s) p" if p: "p \<notin> file_pos s ids ` {off + cnt..<off + sz}" for p
  proof -
    have "{off + cnt..<off + sz} = {off + cnt..<off + cnt + ?n} \<union> {off + (cnt + ?n)..<off + sz}"
      using b(3) by auto
    then have "p \<notin> file_pos s ids ` {off + cnt..<off + cnt + length ?data}"
      "p \<notin> file_pos s ids ` {off + (cnt + ?n)..<off + sz}" using p len by auto
    then show ?thesis
      using r(4) k(2) b(4,5) len disk_write_other_pos [of "off + cnt" ?data p s ids] by simp
  qed
  have "\<forall>i \<in> {off + cnt..<off + sz}. k_disk k' (file_pos s ids i) = buf ! (i - off)"
  proof
    fix i assume i: "i \<in> {off + cnt..<off + sz}"
    show "k_disk k' (file_pos s ids i) = buf ! (i - off)"
      using in1 [of i] r(3) i by (cases "i < off + (cnt + ?n)") auto
  qed
  then show ?case using step r(1,2) ar in2 by (intro exI [of _ k']) simp
qed

section \<open>Reading and writing a file\<close>

definition file_byte :: "fs \<Rightarrow> nat \<Rightarrow> nat \<Rightarrow> u8" where
  "file_byte s f i = k_disk (kern s) (file_pos s (file_ids s f) i)"

definition fs_ok :: "fs \<Rightarrow> bool" where
  "fs_ok s \<longleftrightarrow> formatted s \<and> io_ok s \<and> blocks_exclusive s \<and> data_ok s"

definition ready :: "fs \<Rightarrow> nat \<Rightarrow> bool" where
  "ready s f \<longleftrightarrow> fs_ok s \<and> file_wf s f \<and> File_fh s f < 100000 \<and> fbs_in_range s f"

lemma ceil_blocks_enough: "n \<le> ceil_blocks n * 4194304"
  using ceil_bounds_nat(1) [of 4194304 n] by (simp add: ceil_blocks_def)

lemma file_wf_slots:
  assumes "blocks_exclusive s" "file_wf s f" "File_file_size s f \<noteq> 0"
  obtains fb where "GetFileBlock s f 0 = Some fb" "ids_ok s (file_ids s f)"
    "\<forall>j < length (file_ids s f). fb_block_id (bmetas s fb) ! j = file_ids s f ! j"
    "unat (File_file_size s f) \<le> length (file_ids s f) * 4194304"
  using assms(2)
proof (cases rule: file_wf_cases)
  case empty
  then show ?thesis using assms(3) by simp
next
  case (one fb)
  have own: "fb_owned s fb = take (unat (fb_used_block_num (bmetas s fb))) (fb_block_id (bmetas s fb))"
    using one(3) by (simp add: fb_owned_def)
  have "length (fb_owned s fb) \<le> 1000" using assms(1) by (simp add: own blocks_exclusive_def wf_bmetas_def)
  then have "ids_ok s (file_ids s f)"
    using assms(1) one(5) by (simp add: ids_ok_def blocks_exclusive_def)
  moreover have "GetFileBlock s f 0 = Some fb" using one(1) by (simp add: GetFileBlock_def)
  moreover have "\<forall>j < length (file_ids s f). fb_block_id (bmetas s fb) ! j = file_ids s f ! j"
    using one(5) own by simp
  moreover have "unat (File_file_size s f) \<le> length (file_ids s f) * 4194304"
    using one(4,5) ceil_blocks_enough by simp
  ultimately show ?thesis using that by blast
qed

text \<open>The request of \<open>ReadData\<close> or \<open>WriteData\<close>, cut up.\<close>

lemma file_split:
  assumes "fs_ok s" "file_wf s f" "sz \<noteq> 0" "unat off + unat sz \<le> unat (File_file_size s f)"
  obtains fb bs where "GetFileBlock s f 0 = Some fb" "ids_ok s (file_ids s f)"
    "split_blocks s fb sz (ucast (off div kBlockSize)) (off mod kBlockSize) 0 = Some bs"
    "segs_ok s (file_ids s f) (unat off) (unat sz) 0 bs"
    "unat off + unat sz \<le> length (file_ids s f) * 4194304"
proof -
  have nz: "File_file_size s f \<noteq> 0" using assms(3,4) by (auto simp: unat_eq_zero)
  obtain fb where fb: "GetFileBlock s f 0 = Some fb" "ids_ok s (file_ids s f)"
    "\<forall>j < length (file_ids s f). fb_block_id (bmetas s fb) ! j = file_ids s f ! j"
    "unat (File_file_size s f) \<le> length (file_ids s f) * 4194304"
    using file_wf_slots [OF _ assms(2) nz] assms(1) by (auto simp: fs_ok_def)
  have fit: "unat off + unat sz \<le> length (file_ids s f) * 4194304" using fb(4) assms(4) by simp
  have "unat (off div kBlockSize) < 2 ^ 32"
    using fit fb(2) by (simp add: unat_div layout_consts ids_ok_def div_less_iff_less_mult)
  then have i: "unat (ucast (off div kBlockSize) :: u32) = (unat off + unat (0::u64)) div 4194304"
    by (simp add: unsigned_ucast_eq take_bit_nat_eq_self unat_div layout_consts)
  have b: "unat (off mod kBlockSize) = (unat off + unat (0::u64)) mod 4194304"
    by (simp add: unat_mod layout_consts)
  have "data_ok s" using assms(1) by (simp add: fs_ok_def)
  moreover have "0 < sz" using assms(3) by (simp add: word_gt_0)
  ultimately obtain bs where "split_blocks s fb sz (ucast (off div kBlockSize)) (off mod kBlockSize) 0 = Some bs"
    "segs_ok s (file_ids s f) (unat off) (unat sz) (unat (0::u64)) bs"
    using split_blocks_spec [OF _ fb(2,3) fit _ i b] by auto
  with that fb fit show ?thesis by simp
qed

lemma ReadData_ok:
  assumes "fs_ok s" "file_wf s f" "sz \<noteq> 0" "unat off + unat sz \<le> unat (File_file_size s f)"
    and "unat sz \<le> length buf"
  shows "\<exists>k. ReadData False fd f sz off buf s =
      Some ((int (unat sz), map (file_byte s f) [unat off..<unat off + unat sz] @ drop (unat sz) buf),
        add_append_pos fd (int (unat sz)) (s\<lparr>kern := k\<rparr>))
    \<and> k_disk k = k_disk (kern s) \<and> benign (k_script k)"
proof -
  obtain fb bs where fb: "GetFileBlock s f 0 = Some fb" "ids_ok s (file_ids s f)"
    "split_blocks s fb sz (ucast (off div kBlockSize)) (off mod kBlockSize) 0 = Some bs"
    "segs_ok s (file_ids s f) (unat off) (unat sz) 0 bs"
    "unat off + unat sz \<le> length (file_ids s f) * 4194304"
    using file_split [OF assms(1-4)] .
  have io: "io_ok s" "data_ok s" using assms(1) by (simp_all add: fs_ok_def)
  from read_blocks_ok [OF io fb(2,4,5) assms(5), of 0] show ?thesis
    using fb(1,3) by (auto simp: ReadData_def file_byte_def)
qed

lemma WriteData_ok:
  assumes "fs_ok s" "file_wf s f" "sz \<noteq> 0" "unat off + unat sz \<le> unat (File_file_size s f)"
    and "length buf = unat sz"
  shows "\<exists>k. WriteData False fd f sz off buf s =
      Some (int (unat sz), add_append_pos fd (int (unat sz)) (s\<lparr>kern := k\<rparr>))
    \<and> benign (k_script k)
    \<and> (\<forall>i \<in> {unat off..<unat off + unat sz}. k_disk k (file_pos s (file_ids s f) i) = buf ! (i - unat off))
    \<and> (\<forall>p. p \<notin> file_pos s (file_ids s f) ` {unat off..<unat off + unat sz} \<longrightarrow> k_disk k p = k_disk (kern s) p)"
proof -
  obtain fb bs where fb: "GetFileBlock s f 0 = Some fb" "ids_ok s (file_ids s f)"
    "split_blocks s fb sz (ucast (off div kBlockSize)) (off mod kBlockSize) 0 = Some bs"
    "segs_ok s (file_ids s f) (unat off) (unat sz) 0 bs"
    "unat off + unat sz \<le> length (file_ids s f) * 4194304"
    using file_split [OF assms(1-4)] .
  have io: "io_ok s" "data_ok s" using assms(1) by (simp_all add: fs_ok_def)
  from write_blocks_ok [OF io fb(2,4,5) assms(5), of 0] show ?thesis
    using fb(1,3) by (auto simp: WriteData_def)
qed

text \<open>Two states that agree on everything the contents and shape of a file are made of.\<close>

definition same_file :: "fs \<Rightarrow> fs \<Rightarrow> nat \<Rightarrow> bool" where
  "same_file s t f \<longleftrightarrow> same_blocks s t \<and> f_items (fobj t f) = f_items (fobj s f)
     \<and> File_file_size t f = File_file_size s f \<and> File_fh t f = File_fh s f
     \<and> super_meta t = super_meta s \<and> dev t = dev s"

lemma same_file_ids: "same_file s t f \<Longrightarrow> file_ids t f = file_ids s f"
  using same_blocks_owned [of s t] by (simp add: same_file_def file_ids_def cong: map_cong)

lemma same_file_wf:
  assumes "same_file s t f"
  shows "file_wf t f = file_wf s f"
proof -
  have "fb_owned t = fb_owned s" "\<And>i. fb_used (bmetas t i) = fb_used (bmetas s i)"
    using assms same_blocks_owned [of s t] by (auto simp: same_file_def same_blocks_def)
  then show ?thesis using assms by (auto simp: same_file_def file_wf_def split: list.splits)
qed

lemma same_file_fs_ok:
  "same_file s t f \<Longrightarrow> benign (k_script (kern t)) \<Longrightarrow> fs_ok s \<Longrightarrow> fs_ok t"
  using same_blocks_exclusive [of s t]
  by (auto simp: fs_ok_def same_file_def io_ok_def formatted_def data_ok_def same_blocks_def)

lemma same_file_ready: "same_file s t f \<Longrightarrow> ready s f \<Longrightarrow> fs_ok t \<Longrightarrow> ready t f"
  by (simp add: ready_def same_file_wf) (simp add: same_file_def same_blocks_def fbs_in_range_def)

lemma same_file_pos: "same_file s t f \<Longrightarrow> file_pos t ids i = file_pos s ids i"
  by (simp add: same_file_def file_pos_def)

lemma same_file_byte:
  "same_file s t f \<Longrightarrow> kern t = kern s \<Longrightarrow> file_byte t f i = file_byte s f i"
  by (simp add: file_byte_def same_file_ids same_file_pos)

lemma same_file_append_pos: "same_file s (add_append_pos fd n (s\<lparr>kern := k\<rparr>)) f"
  by (simp add: same_file_def same_blocks_def add_append_pos_def obj_acc_defs)

lemma same_file_time: "same_file s (File_UpdateTimeStamp f t s) f" "kern (File_UpdateTimeStamp f t s) = kern s"
  by (auto simp: same_file_def same_blocks_def File_UpdateTimeStamp_def file_crc_def fs_upd_defs obj_acc_defs Let_def)

lemma file_byte_grown:
  assumes "data_same s t" "formatted s" "i < length (file_ids s f) * 4194304"
    and "take (length (file_ids s f)) (file_ids t f) = file_ids s f"
  shows "file_byte t f i = file_byte s f i"
proof -
  have lt: "i div 4194304 < length (file_ids s f)" using assms(3) by (rule div_less_blocks)
  have "file_ids t f ! (i div 4194304) = file_ids s f ! (i div 4194304)"
    by (subst assms(4) [symmetric], rule nth_take [symmetric]) (fact lt)
  then have "file_pos t (file_ids t f) i = file_pos s (file_ids s f) i"
    using assms(1) by (simp add: file_pos_def data_same_def)
  moreover have "675282944 \<le> file_pos s (file_ids s f) i"
    using formatted_fields(4) [OF assms(2)] by (simp add: file_pos_def)
  ultimately show ?thesis using assms(1) by (simp add: file_byte_def data_same_def)
qed

lemma ready_grow:
  assumes r: "ready s f" and n: "File_file_size s f < n" "n \<le> kBlockFsMaxUDiskSize"
    and e: "ftruncate f n s = Some (0, t)"
  shows "fs_ok t" "file_wf t f" "File_file_size t f = n" "data_same s t"
    "take (length (file_ids s f)) (file_ids t f) = file_ids s f" "File_fh t f = File_fh s f" "fbs_in_range t f"
proof -
  have ok: "formatted s" "io_ok s" "blocks_exclusive s" "data_ok s" "file_wf s f" "File_fh s f < 100000" "fbs_in_range s f"
    using r by (simp_all add: ready_def fs_ok_def)
  have e: "ExtendFile f n s = Some (0, t)" using e n(1) by (simp add: ftruncate_def)
  show d: "data_same s t" by (rule ExtendFile_data [OF ok(1,6,7) e])
  show "file_wf t f" "File_file_size t f = n" "take (length (file_ids s f)) (file_ids t f) = file_ids s f"
    using ExtendFile_extends [OF ok(3,5) n e] by auto
  note R = ExtendFile_range [OF ok(3) file_wf_items_used [OF ok(5)] e]
  show "File_fh t f = File_fh s f" by (rule R(2))
  show "fbs_in_range t f" using ok(7) R(1,3) by (fastforce simp: fbs_in_range_def)
  have "data_ok t" using d ok(4) by (simp add: data_same_def data_ok_def)
  then show "fs_ok t"
    using ExtendFile_exclusive [OF ok(3) file_wf_items_used [OF ok(5)] e]
      data_same_formatted [OF d ok(1)] data_same_io [OF d ok(2)] by (simp add: fs_ok_def)
qed

lemma pread_file:
  assumes "fs_ok s" "file_wf s f" "sz \<noteq> 0" "off < File_file_size s f" "unat off + unat sz < 2 ^ 64"
    and "unat sz \<le> length buf" "n = min (unat sz) (unat (File_file_size s f) - unat off)"
  shows "\<exists>k. OpenFile_pread fd f sz off buf s =
      Some ((int n, map (file_byte s f) [unat off..<unat off + n] @ drop n buf),
        add_append_pos fd (int n) (s\<lparr>kern := k\<rparr>))
    \<and> k_disk k = k_disk (kern s) \<and> benign (k_script k)"
proof -
  let ?fs = "File_file_size s f"
  let ?m = "if ?fs < off + sz then ?fs - off else sz"
  have sum: "unat (off + sz) = unat off + unat sz" using assms(5) by (simp add: unat_word_ariths)
  have lt: "unat off < unat ?fs" using assms(4) by (simp add: word_less_nat_alt)
  have sub: "unat (?fs - off) = unat ?fs - unat off" using assms(4) by (simp add: unat_sub order_less_imp_le)
  have m: "unat ?m = n"
    using sum sub assms(7) by (auto simp: word_less_nat_alt)
  have "0 < unat sz" using assms(3) by (simp add: unat_gt_0)
  then have "0 < unat ?m" unfolding m using lt assms(7) by simp
  then have mz: "?m \<noteq> 0" by (simp only: unat_gt_0 simp_thms not_False_eq_True)
  have fit: "unat off + unat ?m \<le> unat ?fs" using m lt assms(7) by simp
  have bl: "unat ?m \<le> length buf" using m assms(6,7) by simp
  have "OpenFile_pread fd f sz off buf s = ReadData False fd f ?m off buf s"
    using assms(3,4) by (simp add: OpenFile_pread_def Let_def not_le [symmetric])
  then show ?thesis using ReadData_ok [OF assms(1,2) mz fit bl, of fd] unfolding m by simp
qed

text \<open>
  \<open>pwrite\<close>: it either fails with -1, which can only happen when the file has to grow, or
  stores the whole buffer; the rest of the old contents stays.
\<close>

lemma pwrite_inside:
  assumes "fs_ok s" "file_wf s f" "sz \<noteq> 0" "length buf = unat sz"
    and fit: "unat off + unat sz \<le> unat (File_file_size s f)"
  shows "\<exists>t. WriteData False fd f sz off buf s = Some (int (unat sz), t)
     \<and> fs_ok t \<and> same_file s t f \<and> open_files t = open_files (add_append_pos fd (int (unat sz)) s)
     \<and> (\<forall>i \<in> {unat off..<unat off + unat sz}. file_byte t f i = buf ! (i - unat off))
     \<and> (\<forall>i < unat (File_file_size s f). i \<notin> {unat off..<unat off + unat sz} \<longrightarrow> file_byte t f i = file_byte s f i)
     \<and> (\<forall>p. p \<notin> file_pos s (file_ids s f) ` {unat off..<unat off + unat sz} \<longrightarrow> k_disk (kern t) p = k_disk (kern s) p)"
proof -
  obtain k where w: "WriteData False fd f sz off buf s = Some (int (unat sz), add_append_pos fd (int (unat sz)) (s\<lparr>kern := k\<rparr>))"
    and k: "benign (k_script k)"
      "\<forall>i \<in> {unat off..<unat off + unat sz}. k_disk k (file_pos s (file_ids s f) i) = buf ! (i - unat off)"
      "\<forall>p. p \<notin> file_pos s (file_ids s f) ` {unat off..<unat off + unat sz} \<longrightarrow> k_disk k p = k_disk (kern s) p"
    using WriteData_ok [OF assms(1-3) fit assms(4), of fd] by blast
  let ?t = "add_append_pos fd (int (unat sz)) (s\<lparr>kern := k\<rparr>)"
  have sf: "same_file s ?t f" by (rule same_file_append_pos)
  have kt: "kern ?t = k" by (simp add: add_append_pos_def)
  have nz: "File_file_size s f \<noteq> 0" using assms(3) fit by (auto simp: unat_eq_zero)
  have "blocks_exclusive s" using assms(1) by (simp add: fs_ok_def)
  from file_wf_slots [OF this assms(2) nz]
  have ids: "length (file_ids s f) * 4194304 \<ge> unat (File_file_size s f)" "distinct (file_ids s f)"
    unfolding ids_ok_def by blast+
  have "file_byte ?t f i = file_byte s f i"
    if i: "i < unat (File_file_size s f)" "i \<notin> {unat off..<unat off + unat sz}" for i
  proof -
    have "file_pos s (file_ids s f) i \<notin> file_pos s (file_ids s f) ` {unat off..<unat off + unat sz}"
    proof
      assume "file_pos s (file_ids s f) i \<in> file_pos s (file_ids s f) ` {unat off..<unat off + unat sz}"
      then obtain j where j: "j \<in> {unat off..<unat off + unat sz}"
        "file_pos s (file_ids s f) i = file_pos s (file_ids s f) j" by auto
      have "i = j" by (rule file_pos_inj [OF ids(2) _ _ j(2)]) (use i j fit ids(1) in auto)
      with i j show False by simp
    qed
    then show ?thesis using k(3) kt same_file_ids [OF sf] same_file_pos [OF sf] by (simp add: file_byte_def)
  qed
  moreover have "\<forall>i \<in> {unat off..<unat off + unat sz}. file_byte ?t f i = buf ! (i - unat off)"
    using k(2) kt same_file_ids [OF sf] same_file_pos [OF sf] by (simp add: file_byte_def)
  moreover have "fs_ok ?t" using same_file_fs_ok [OF sf] k(1) kt assms(1) by simp
  moreover have "open_files ?t = open_files (add_append_pos fd (int (unat sz)) s)"
    by (simp add: add_append_pos_def)
  ultimately show ?thesis using w sf k(3) kt by (intro exI [of _ ?t]) simp
qed

lemma pwrite_file:
  assumes r: "ready s f" and sz: "sz \<noteq> 0" and len: "length buf = unat sz"
    and mx: "unat off + unat sz \<le> unat kBlockFsMaxUDiskSize"
  shows "\<exists>r t. OpenFile_pwrite fd f buf sz off s = Some (r, t)
     \<and> (r = - 1 \<and> unat (File_file_size s f) < unat off + unat sz \<and> \<not> can_grow s f (unat off + unat sz)
       \<or> r = int (unat sz) \<and> fs_ok t \<and> file_wf t f \<and> ready t f \<and> open_files t = open_files (add_append_pos fd (int (unat sz)) s)
         \<and> unat (File_file_size t f) = max (unat (File_file_size s f)) (unat off + unat sz)
         \<and> (\<forall>i \<in> {unat off..<unat off + unat sz}. file_byte t f i = buf ! (i - unat off))
         \<and> (\<forall>i < unat (File_file_size s f). i \<notin> {unat off..<unat off + unat sz} \<longrightarrow> file_byte t f i = file_byte s f i))"
proof -
  let ?lim = "unat off + unat sz" and ?old = "unat (File_file_size s f)"
  have mx': "?lim \<le> 140737488355328" using mx by (simp add: layout_consts)
  have sum: "unat (off + sz) = ?lim" using mx' by (simp add: unat_word_ariths)
  have ok: "fs_ok s" "file_wf s f" using r by (simp_all add: ready_def)
  define grow where "grow \<longleftrightarrow> File_file_size s f < off + sz"
  have gr: "grow = (?old < ?lim)" by (simp add: grow_def word_less_nat_alt sum)
  obtain r1 s1 where g: "(if grow then ftruncate f (off + sz) s else Some (0, s)) = Some (r1, s1)"
    and r1: "r1 = 0 \<or> r1 = - 1 \<and> grow \<and> \<not> can_grow s f ?lim"
  proof (cases grow)
    case True
    have ex: "blocks_exclusive s" "items_used s f" using ok file_wf_items_used by (auto simp: fs_ok_def)
    obtain r1 s1 where "ExtendFile f (off + sz) s = Some (r1, s1)" using ExtendFile_defined [OF ex(1)] by blast
    moreover from this have "r1 = 0" if "can_grow s f ?lim"
    proof -
      have "off + sz \<le> kBlockFsMaxUDiskSize" using mx sum by (simp add: word_le_nat_alt)
      moreover have "675282944 \<le> unat (dev_size (dev s))"
        using ok formatted_fields(4) [of s] by (simp add: fs_ok_def data_ok_def)
      ultimately show ?thesis
        using ExtendFile_succeeds [of s f "off + sz"] r ok True that sum
          \<open>ExtendFile f (off + sz) s = Some (r1, s1)\<close>
        by (auto simp: ready_def fs_ok_def grow_def)
    qed
    ultimately show ?thesis using ExtendFile_ret [OF ex] True that by (auto simp: ftruncate_def grow_def)
  next
    case False
    then show ?thesis using that by simp
  qed
  show ?thesis
  proof (cases "r1 = 0")
    case False
    then show ?thesis using g r1 sz gr by (auto simp: OpenFile_pwrite_def grow_def)
  next
    case True
    have s1: "fs_ok s1 \<and> file_wf s1 f \<and> ready s1 f \<and> unat (File_file_size s1 f) = max ?old ?lim \<and> open_files s1 = open_files s
        \<and> (\<forall>i < ?old. file_byte s1 f i = file_byte s f i)"
    proof (cases grow)
      case gw: True
      then have e: "ftruncate f (off + sz) s = Some (0, s1)" using g True by simp
      have "off + sz \<le> kBlockFsMaxUDiskSize" using mx sum by (simp add: word_le_nat_alt)
      note R = ready_grow [OF r gw [unfolded grow_def] this e]
      have "file_byte s1 f i = file_byte s f i" if "i < ?old" for i
      proof (rule file_byte_grown [OF R(4) _ _ R(5)])
        show "formatted s" using ok by (simp add: fs_ok_def)
        from ok(2) show "i < length (file_ids s f) * 4194304"
        proof (cases rule: file_wf_cases)
          case (one fb)
          then show ?thesis using ceil_blocks_enough [of ?old] that by simp
        qed (use that in simp)
      qed
      moreover have "ready s1 f" using R r by (simp add: ready_def)
      ultimately show ?thesis using R gw gr sum by (simp add: data_same_def)
    next
      case False
      then show ?thesis using g ok gr r by auto
    qed
    define s2 where "s2 = (if now s1 mod 2 = 0 then File_UpdateTimeStamp f (now s1) s1 else s1)"
    have sf2: "same_file s1 s2 f" "kern s2 = kern s1"
      using same_file_time by (auto simp: s2_def same_file_def)
    have ok2: "fs_ok s2" "file_wf s2 f" "File_file_size s2 f = File_file_size s1 f"
      using same_file_fs_ok [OF sf2(1)] same_file_wf [OF sf2(1)] s1 sf2
      by (auto simp: fs_ok_def io_ok_def same_file_def)
    have of2: "open_files s2 = open_files s1"
      by (simp add: s2_def File_UpdateTimeStamp_def file_crc_def fs_upd_defs Let_def)
    obtain t where t: "WriteData False fd f sz off buf s2 = Some (int (unat sz), t)" "fs_ok t" "same_file s2 t f"
      "\<forall>i \<in> {unat off..<?lim}. file_byte t f i = buf ! (i - unat off)"
      "\<forall>i < unat (File_file_size s2 f). i \<notin> {unat off..<?lim} \<longrightarrow> file_byte t f i = file_byte s2 f i"
      "open_files t = open_files (add_append_pos fd (int (unat sz)) s2)"
      using pwrite_inside [OF ok2(1,2) sz len, of off fd] s1 ok2(3) by auto
    have "OpenFile_pwrite fd f buf sz off s = Some (int (unat sz), t)"
      using g True t(1) sz by (simp add: OpenFile_pwrite_def grow_def s2_def Let_def)
    moreover have "file_wf t f" "File_file_size t f = File_file_size s1 f"
      using same_file_wf [OF t(3)] ok2 t(3) by (auto simp: same_file_def)
    moreover have "ready t f" using same_file_ready [OF t(3) _ t(2)] same_file_ready [OF sf2(1) _ ok2(1)] s1 by blast
    moreover have "file_byte t f i = file_byte s f i" if "i < ?old" "i \<notin> {unat off..<?lim}" for i
      using t(5) s1 ok2(3) same_file_byte [OF sf2] that by simp
    moreover have "open_files t = open_files (add_append_pos fd (int (unat sz)) s)"
      using t(6) of2 s1 by (simp add: add_append_pos_def)
    ultimately show ?thesis using t(2,4) s1 by (intro exI [of _ "int (unat sz)"] exI [of _ t]) simp
  qed
qed

section \<open>Other files\<close>

lemma file_pos_disjoint:
  assumes "set ids \<inter> set ids' = {}" "i < length ids * 4194304" "j < length ids' * 4194304"
  shows "file_pos s ids i \<noteq> file_pos s ids' j"
proof
  assume "file_pos s ids i = file_pos s ids' j"
  then have e: "4194304 * unat (ids ! (i div 4194304)) + i mod 4194304
      = 4194304 * unat (ids' ! (j div 4194304)) + j mod 4194304"
    by (simp add: file_pos_def)
  have "i mod 4194304 = j mod 4194304" using arg_cong [OF e, of "\<lambda>x. x mod 4194304"] by simp
  with e have "ids ! (i div 4194304) = ids' ! (j div 4194304)" by (simp add: word_unat_eq_iff)
  then show False
    using assms div_less_blocks [of i "length ids"] div_less_blocks [of j "length ids'"] nth_mem by fastforce
qed

definition apart :: "fs \<Rightarrow> nat \<Rightarrow> nat \<Rightarrow> bool" where
  "apart s f g \<longleftrightarrow> f \<noteq> g \<and> snd ` set (f_items (fobj s f)) \<inter> snd ` set (f_items (fobj s g)) = {}"

lemma grow_others:
  assumes r: "ready s f" and n: "File_file_size s f < n"
    and e: "ftruncate f n s = Some (0, t)" and g: "file_wf s g" "apart s f g"
  shows "file_ids t g = file_ids s g" "apart t f g"
proof -
  have ok: "blocks_exclusive s" "items_used s f"
    using r file_wf_items_used by (auto simp: ready_def fs_ok_def)
  have e: "ExtendFile f n s = Some (0, t)" using e n by (simp add: ftruncate_def)
  have fo: "fobj t g = fobj s g" using ExtendFile_fobj(1) [OF ok e] g(2) by (auto simp: apart_def)
  have gu: "fb_used (bmetas s x)" if "x \<in> snd ` set (f_items (fobj s g))" for x
    using file_wf_items_used [OF g(1)] that by (auto simp: items_used_def)
  have "x \<notin> snd ` set (f_items (fobj s g))" if "x \<in> snd ` set (f_items (fobj t f))" for x
    using ExtendFile_items [OF ok e that] gu [of x] g(2) unfolding apart_def by blast
  then show "apart t f g" using g(2) unfolding apart_def fo by blast
  have own: "fb_owned t fb = fb_owned s fb" if "(i, fb) \<in> set (f_items (fobj s g))" for i fb
  proof (rule ExtendFile_others [OF ok e])
    show "fb_used (bmetas s fb)" using file_wf_items_used [OF g(1)] that by (auto simp: items_used_def)
    show "\<forall>(j, x) \<in> set (f_items (fobj s f)). x \<noteq> fb" using g(2) that by (force simp: apart_def)
  qed
  have "map (\<lambda>(i, fb). fb_owned t fb) (f_items (fobj s g)) = map (\<lambda>(i, fb). fb_owned s fb) (f_items (fobj s g))"
    using own by (auto intro!: map_cong)
  then show "file_ids t g = file_ids s g" unfolding file_ids_def fo by (rule arg_cong)
qed

lemma file_ids_owner: "b \<in> set (file_ids s f) \<longleftrightarrow> (\<exists>fb \<in> snd ` set (f_items (fobj s f)). b \<in> set (fb_owned s fb))"
  by (force simp: file_ids_def)

lemma apart_ids:
  assumes "blocks_exclusive s" "snd ` set (f_items (fobj s f)) \<inter> snd ` set (f_items (fobj s g)) = {}"
  shows "set (file_ids s f) \<inter> set (file_ids s g) = {}"
proof -
  have own: "set (fb_owned s a) \<inter> set (fb_owned s b) = {}" if "a \<noteq> b" for a b
    using assms(1) that by (simp add: blocks_exclusive_def)
  show ?thesis
  proof (rule equals0I)
    fix b assume "b \<in> set (file_ids s f) \<inter> set (file_ids s g)"
    then obtain u v where "u \<in> snd ` set (f_items (fobj s f))" "v \<in> snd ` set (f_items (fobj s g))"
      "b \<in> set (fb_owned s u)" "b \<in> set (fb_owned s v)"
      unfolding Int_iff file_ids_owner by blast
    with own [of u v] assms(2) show False by blast
  qed
qed

lemma write_others:
  assumes "fs_ok s" "file_wf s f" "sz \<noteq> 0" "length buf = unat sz"
    and fit: "unat off + unat sz \<le> unat (File_file_size s f)"
    and dj: "set (file_ids s f) \<inter> set (file_ids s g) = {}" "i < length (file_ids s g) * 4194304"
    and w: "WriteData False fd f sz off buf s = Some (r, t)"
  shows "k_disk (kern t) (file_pos s (file_ids s g) i) = k_disk (kern s) (file_pos s (file_ids s g) i)"
proof -
  have nz: "File_file_size s f \<noteq> 0" using assms(3) fit by (auto simp: unat_eq_zero)
  have "blocks_exclusive s" using assms(1) by (simp add: fs_ok_def)
  from file_wf_slots [OF this assms(2) nz]
  have len: "length (file_ids s f) * 4194304 \<ge> unat (File_file_size s f)" by blast
  have "file_pos s (file_ids s g) i \<notin> file_pos s (file_ids s f) ` {unat off..<unat off + unat sz}"
  proof
    assume "file_pos s (file_ids s g) i \<in> file_pos s (file_ids s f) ` {unat off..<unat off + unat sz}"
    then obtain j where j: "j < unat off + unat sz" "file_pos s (file_ids s f) j = file_pos s (file_ids s g) i" by auto
    then show False using file_pos_disjoint [OF dj(1) _ dj(2), of j s] len fit by simp
  qed
  then show ?thesis using pwrite_inside [OF assms(1-4) fit, of fd] w by auto
qed

text \<open>Writing to one file never changes a byte of another.\<close>

lemma pwrite_others:
  assumes r: "ready s f" and sz: "sz \<noteq> 0" and len: "length buf = unat sz"
    and mx: "unat off + unat sz \<le> unat kBlockFsMaxUDiskSize"
    and g: "file_wf s g" "apart s f g"
    and w: "OpenFile_pwrite fd f buf sz off s = Some (r', t)"  "0 \<le> r'"
  shows "file_ids t g = file_ids s g" "i < length (file_ids s g) * 4194304 \<Longrightarrow> file_byte t g i = file_byte s g i"
proof -
  let ?lim = "unat off + unat sz"
  have sum: "unat (off + sz) = ?lim" using mx by (simp add: unat_word_ariths layout_consts)
  have ok: "fs_ok s" "file_wf s f" using r by (simp_all add: ready_def)
  define grow where "grow \<longleftrightarrow> File_file_size s f < off + sz"
  obtain r1 s1 where g1: "(if grow then ftruncate f (off + sz) s else Some (0, s)) = Some (r1, s1)"
    and r1: "\<not> r1 < 0" and wd: "WriteData False fd f sz off buf
      (if now s1 mod 2 = 0 then File_UpdateTimeStamp f (now s1) s1 else s1) = Some (r', t)"
    using w sz by (auto simp: OpenFile_pwrite_def grow_def Let_def split: bind_splits if_splits prod.splits)
  define s2 where "s2 = (if now s1 mod 2 = 0 then File_UpdateTimeStamp f (now s1) s1 else s1)"
  have s1: "fs_ok s1 \<and> file_wf s1 f \<and> ?lim \<le> unat (File_file_size s1 f) \<and> file_ids s1 g = file_ids s g
      \<and> super_meta s1 = super_meta s \<and> apart s1 f g
      \<and> k_disk (kern s1) (file_pos s (file_ids s g) i) = file_byte s g i"
  proof (cases grow)
    case True
    have ex: "blocks_exclusive s" "items_used s f" using ok file_wf_items_used by (auto simp: fs_ok_def)
    have e: "ftruncate f (off + sz) s = Some (0, s1)"
      using g1 True r1 ExtendFile_ret [OF ex, of "off + sz" r1 s1] by (auto simp: ftruncate_def grow_def split: if_splits)
    have gr: "File_file_size s f < off + sz" "off + sz \<le> kBlockFsMaxUDiskSize"
      using True mx sum by (simp_all add: grow_def word_le_nat_alt)
    note R = ready_grow [OF r gr e] and O = grow_others [OF r gr(1) e g(1,2)]
    have "675282944 \<le> file_pos s (file_ids s g) i"
      using formatted_fields(4) [of s] ok(1) by (simp add: file_pos_def fs_ok_def)
    then show ?thesis using R O sum by (simp add: data_same_def file_byte_def)
  next
    case False
    then have "?lim \<le> unat (File_file_size s f)" using sum by (simp add: grow_def word_less_nat_alt)
    then show ?thesis using False g1 ok g(2) by (auto simp: file_byte_def)
  qed
  have sf2: "same_file s1 s2 f" "kern s2 = kern s1" "fobj s2 = fobj s1" "same_blocks s1 s2"
    using same_file_time by (auto simp: s2_def same_file_def File_UpdateTimeStamp_def file_crc_def fs_upd_defs Let_def)
  have g2: "file_ids s2 g = file_ids s g" "super_meta s2 = super_meta s" "apart s2 f g"
    using s1 sf2 same_blocks_owned [OF sf2(4)] by (auto simp: file_ids_def apart_def same_file_def)
  have ok2: "fs_ok s2" "file_wf s2 f" "?lim \<le> unat (File_file_size s2 f)"
    using same_file_fs_ok [OF sf2(1)] same_file_wf [OF sf2(1)] s1 sf2(1,2)
    by (auto simp: fs_ok_def io_ok_def same_file_def)
  have dj: "set (file_ids s2 f) \<inter> set (file_ids s2 g) = {}"
    using apart_ids [of s2 f g] ok2(1) g2(3) by (simp add: fs_ok_def apart_def)
  have wd: "WriteData False fd f sz off buf s2 = Some (r', t)" using wd by (simp add: s2_def)
  have fp: "file_pos s2 ids j = file_pos s ids j" for ids j using g2(2) by (simp add: file_pos_def)
  obtain k where t: "t = add_append_pos fd (int (unat sz)) (s2\<lparr>kern := k\<rparr>)"
    using WriteData_ok [OF ok2(1,2) sz ok2(3) len, of fd] wd by auto
  show gi: "file_ids t g = file_ids s g"
  proof -
    have "fb_owned t = fb_owned s2" "fobj t = fobj s2"
      by (rule ext) (simp_all add: t add_append_pos_def fb_owned_def)
    then have "file_ids t g = file_ids s2 g" by (simp add: file_ids_def)
    then show ?thesis using g2(1) by simp
  qed
  have "super_meta t = super_meta s" using g2(2) by (simp add: t add_append_pos_def)
  then have fpt: "file_pos t ids j = file_pos s ids j" for ids j by (simp add: file_pos_def)
  assume i: "i < length (file_ids s g) * 4194304"
  have "k_disk (kern t) (file_pos s2 (file_ids s2 g) i) = k_disk (kern s2) (file_pos s2 (file_ids s2 g) i)"
    by (rule write_others [OF ok2(1,2) sz len ok2(3) dj _ wd]) (use i g2(1) in simp)
  then show "file_byte t g i = file_byte s g i"
    using s1 sf2(2) g2(1) fp fpt gi by (simp add: file_byte_def)
qed

end
