(* ===== verification/File_Handle.thy ===== *)
theory File_Handle
  imports File_IO
begin

text \<open>
  \<open>FileHandle\<close> (\<open>lib/file_handle.h\<close>, \<open>lib/file_handle.cc\<close>): creating, finding, unlinking,
  opening, closing and duplicating files. \<open>None\<close> in a result of type \<open>option\<close> is
  undefined behaviour inherited from \<open>ftruncate\<close> or the release of a corrupt file block.

  \<open>open\<close> and \<open>dup\<close> store the descriptor in an unsigned \<open>ino_t\<close>, so their test for
  a negative descriptor never holds: with the pool exhausted they register the open file under
  the descriptor -1 and return it with \<open>errno = 0\<close>.
\<close>

section \<open>Paths and lookups\<close>

definition FileHandle_TransformPath :: "string \<Rightarrow> fs \<Rightarrow> (string \<times> string) option \<times> fs" where
  "FileHandle_TransformPath filename s =
     (if ends_with_slash filename then (None, set_errno ENOTDIR s)
      else let new_dirname = GetDirName filename; new_filename = GetFileName filename
           in if unat kBlockFsMaxFileNameLen \<le> length new_filename then (None, set_errno ENAMETOOLONG s)
              else (Some (new_dirname, new_filename), s))"

definition GetCreatedFile_fh :: "fs \<Rightarrow> nat \<Rightarrow> nat option" where
  "GetCreatedFile_fh s fh = map_of (created_fhs s) fh"

definition GetCreatedFile_key :: "nat \<times> string \<Rightarrow> fs \<Rightarrow> nat option \<times> fs" where
  "GetCreatedFile_key key s =
     (case map_of (created_files s) key of
        None \<Rightarrow> (None, set_errno ENOENT s)
      | Some f \<Rightarrow> (Some f, s))"

definition GetCreatedFile :: "string \<Rightarrow> fs \<Rightarrow> nat option \<times> fs" where
  "GetCreatedFile filename s =
     (case FileHandle_TransformPath filename s of
        (None, s) \<Rightarrow> (None, s)
      | (Some (new_dirname, new_filename), s) \<Rightarrow>
          (case GetCreatedDirectory new_dirname s of
             (None, s) \<Rightarrow> (None, s)
           | (Some dir, s) \<Rightarrow> GetCreatedFile_key (Dir_dh s dir, new_filename) s))"

definition FileHandle_CheckFileExist :: "string \<Rightarrow> fs \<Rightarrow> bool \<times> fs" where
  "FileHandle_CheckFileExist path s = (let (f, s) = GetCreatedFile path s in (f = None, s))"

definition FindFile :: "string \<Rightarrow> string \<Rightarrow> fs \<Rightarrow> (nat \<times> nat) option \<times> fs" where
  "FindFile dirname filename s =
     (case GetCreatedDirectory dirname s of
        (None, s) \<Rightarrow> (None, set_errno ENOENT s)
      | (Some dir, s) \<Rightarrow>
          (case map_of (created_files s) (Dir_dh s dir, filename) of
             None \<Rightarrow> (None, set_errno ENOENT s)
           | Some f \<Rightarrow> (Some (dir, f), s)))"

definition GetOpenFile :: "int \<Rightarrow> fs \<Rightarrow> OpenFile option \<times> fs" where
  "GetOpenFile fd s =
     (case map_of (open_files s) fd of
        None \<Rightarrow> (None, set_errno EBADF s)
      | Some x \<Rightarrow> (Some x, s))"

section \<open>Creating files\<close>

text \<open>The checks and initialisation that \<open>NewFreeFileNolock\<close> and \<open>NewFreeTmpFileNolock\<close> share.\<close>

definition new_free_file :: "nat \<Rightarrow> (nat \<Rightarrow> string) \<Rightarrow> bool \<Rightarrow> fs \<Rightarrow> nat option \<times> fs" where
  "new_free_file dh name_of temp s =
     (case free_fhs s of
        [] \<Rightarrow> (None, set_errno ENFILE s)
      | fh # rest \<Rightarrow>
          (if fm_used (fmetas s fh) \<or> fm_fh (fmetas s fh) \<noteq> word_of_nat fh \<or> fm_size (fmetas s fh) \<noteq> 0
           then (None, set_errno EINVAL s)
           else let (f, s) = new_file (File_new fh) s;
                    s = upd_fmeta fh (\<lambda>m. m\<lparr>fm_used := True, fm_fh := word_of_nat fh, fm_dh := word_of_nat dh\<rparr>) s;
                    s = File_set_file_name f (name_of fh) s;
                    s = upd_fmeta fh (\<lambda>m. m\<lparr>fm_is_temp := temp\<rparr>) s
                in (Some f, s\<lparr>free_fhs := rest\<rparr>)))"

definition NewFreeFileNolock :: "nat \<Rightarrow> string \<Rightarrow> fs \<Rightarrow> nat option \<times> fs" where
  "NewFreeFileNolock dh filename s = new_free_file dh (\<lambda>_. filename) False s"

definition NewFreeTmpFileNolock :: "nat \<Rightarrow> fs \<Rightarrow> nat option \<times> fs" where
  "NewFreeTmpFileNolock dh s = new_free_file dh (\<lambda>fh. ''tmpfile_'' @ to_string fh) True s"

definition NewFile :: "string \<Rightarrow> string \<Rightarrow> bool \<Rightarrow> fs \<Rightarrow> (nat \<times> nat) option \<times> fs" where
  "NewFile dirname filename tmpfile s =
     (case GetCreatedDirectory dirname s of
        (None, s) \<Rightarrow> (None, set_errno ENOENT s)
      | (Some dir, s) \<Rightarrow>
          (if \<not> tmpfile \<and> amap_contains (Dir_dh s dir, filename) (created_files s)
           then (None, set_errno EEXIST s)
           else case (if \<not> tmpfile then NewFreeFileNolock (Dir_dh s dir) filename s
                      else NewFreeTmpFileNolock (Dir_dh s dir) s) of
                  (None, s) \<Rightarrow> (None, s)
                | (Some f, s) \<Rightarrow>
                    (let t = now s;
                         s = upd_fmeta (f_meta (fobj s f)) (\<lambda>m. m\<lparr>fm_atime := t, fm_mtime := t, fm_ctime := t\<rparr>) s
                     in (Some (dir, f), s))))"

definition CreateFile :: "string \<Rightarrow> bool \<Rightarrow> fs \<Rightarrow> nat option \<times> fs" where
  "CreateFile filename tmpfile s =
     (case (if \<not> tmpfile then FileHandle_TransformPath filename s else (Some (filename, []), s)) of
        (None, s) \<Rightarrow> (None, s)
      | (Some (new_dirname, new_filename), s) \<Rightarrow>
          (case NewFile new_dirname new_filename tmpfile s of
             (None, s) \<Rightarrow> (None, s)
           | (Some (parent_dir, curr_file), s) \<Rightarrow>
               (case File_WriteMeta curr_file s of
                  (False, s) \<Rightarrow> (None, s)
                | (True, s) \<Rightarrow> (Some curr_file, set_errno 0 (AddFileToDirectory parent_dir curr_file s)))))"

section \<open>Unlinking\<close>

definition UnlinkFileNolock :: "nat \<Rightarrow> fs \<Rightarrow> (int \<times> fs) option" where
  "UnlinkFileNolock fh s =
     (case GetCreatedFile_fh s fh of
        None \<Rightarrow> Some (- 1, set_errno ENOENT s)
      | Some f \<Rightarrow>
     (case GetCreatedDirectory_dh s (File_dh s f) of
        None \<Rightarrow> Some (- 1, set_errno EISDIR s)
      | Some parent_dir \<Rightarrow>
     (let t = now s; s = upd_fmeta (f_meta (fobj s f)) (\<lambda>m. m\<lparr>fm_mtime := t, fm_ctime := t\<rparr>) s
      in if 0 < f_nlink (fobj s f) then Some (- 1, s)
         else do {
           (ok, s) \<leftarrow> RemoveAllFileBlock f s;
           if \<not> ok then Some (- 1, s) else Some (
           case ReleaseNolock f s of
             (False, s) \<Rightarrow> (- 1, s)
           | (True, s) \<Rightarrow>
               (case RemoveFileFromoDirectory parent_dir f s of
                  (False, s) \<Rightarrow> (- 1, s)
                | (True, s) \<Rightarrow> (0, set_errno 0 s)))
         })))"

definition unlink :: "string \<Rightarrow> fs \<Rightarrow> (int \<times> fs) option" where
  "unlink filename s =
     (case GetCreatedDirectory filename s of
        (Some _, s) \<Rightarrow> Some (- 1, set_errno EISDIR s)
      | (None, s) \<Rightarrow>
     (case FileHandle_TransformPath filename s of
        (None, s) \<Rightarrow> Some (- 1, s)
      | (Some (new_dirname, new_filename), s) \<Rightarrow>
     (case FindFile new_dirname new_filename s of
        (None, s) \<Rightarrow> Some (- 1, s)
      | (Some (parent_dir, curr_file), s) \<Rightarrow>
          (if 0 < f_nlink (fobj s curr_file)
           then Some (0, upd_file curr_file (\<lambda>x. x\<lparr>f_deleted := True\<rparr>) s)
           else do {
             (ok, s) \<leftarrow> RemoveAllFileBlock curr_file s;
             if \<not> ok then Some (- 1, s) else Some (
             case ReleaseNolock curr_file s of
               (False, s) \<Rightarrow> (- 1, s)
             | (True, s) \<Rightarrow>
                 (case RemoveFileFromoDirectory parent_dir curr_file s of
                    (False, s) \<Rightarrow> (- 1, s)
                  | (True, s) \<Rightarrow> (0, set_errno 0 s)))
           }))))"

section \<open>Descriptors\<close>

definition VerifyOpenExistFileFlag :: "u32 \<Rightarrow> fs \<Rightarrow> bool \<times> fs" where
  "VerifyOpenExistFileFlag flags s =
     (if flags AND O_CREAT \<noteq> 0 \<and> flags AND O_EXCL \<noteq> 0 then (False, set_errno EEXIST s)
      else if flags AND O_DIRECTORY \<noteq> 0 then (False, set_errno ENOTDIR s)
      else (True, s))"

definition IsNeedCreateTempFile :: "u32 \<Rightarrow> fs \<Rightarrow> bool \<times> fs" where
  "IsNeedCreateTempFile flags s =
     (if flags AND O_TMPFILE = 0 then (False, s)
      else if flags AND O_RDWR = 0 \<and> flags AND O_WRONLY = 0 then (False, set_errno EINVAL s)
      else (True, s))"

text \<open>The file an \<open>open\<close> refers to, created or truncated as the flags ask; \<open>None\<close> is \<open>-1\<close>.\<close>

definition open_file :: "string \<Rightarrow> u32 \<Rightarrow> fs \<Rightarrow> (nat option \<times> fs) option" where
  "open_file filename flags s =
     (case IsNeedCreateTempFile flags s of
        (True, s) \<Rightarrow> Some (CreateFile filename True s)
      | (False, s) \<Rightarrow>
     (case GetCreatedDirectory filename s of
        (Some _, s) \<Rightarrow> Some (None, set_errno EISDIR s)
      | (None, s) \<Rightarrow>
     (case GetCreatedFile filename s of
        (None, s) \<Rightarrow>
          (if flags AND O_CREAT \<noteq> 0 then Some (CreateFile filename False s)
           else Some (None, set_errno ENOENT s))
      | (Some f, s) \<Rightarrow>
          (case VerifyOpenExistFileFlag flags s of
             (False, s) \<Rightarrow> Some (None, s)
           | (True, s) \<Rightarrow>
               (if flags AND O_TRUNC \<noteq> 0 \<and> flags AND (O_RDWR OR O_WRONLY) \<noteq> 0
                then do { (r, s) \<leftarrow> ftruncate f 0 s; Some (if r < 0 then (None, s) else (Some f, s)) }
                else Some (Some f, s))))))"

definition fs_get_fd :: "fs \<Rightarrow> int \<times> fs" where
  "fs_get_fd s = (case get_fd (fd_handle s) of
       (Inl e, h) \<Rightarrow> (- 1, set_errno e (s\<lparr>fd_handle := h\<rparr>))
     | (Inr fd, h) \<Rightarrow> (fd, s\<lparr>fd_handle := h\<rparr>))"

definition AddOpenFile :: "int \<Rightarrow> OpenFile \<Rightarrow> fs \<Rightarrow> fs" where
  "AddOpenFile fd x s = s\<lparr>open_files := amap_put fd x (open_files s)\<rparr>"

definition FileHandle_open :: "string \<Rightarrow> u32 \<Rightarrow> fs \<Rightarrow> (int \<times> fs) option" where
  "FileHandle_open filename flags s = do {
     (r, s) \<leftarrow> open_file filename flags s;
     case r of None \<Rightarrow> Some (- 1, s)
     | Some f \<Rightarrow>
        (let (fd, s) = fs_get_fd s;
             pos = (if flags AND O_APPEND \<noteq> 0 then File_file_size s f else 0);
             s = AddOpenFile fd \<lparr>of_file = f, of_append_pos = pos\<rparr> s;
             s = upd_file f (\<lambda>x. x\<lparr>f_nlink := f_nlink x + 1\<rparr>) s
         in Some (fd, set_errno 0 s))
   }"

text \<open>The results of \<open>fsync\<close> and of the deferred unlink are ignored.\<close>

definition FileHandle_close :: "int \<Rightarrow> fs \<Rightarrow> (int \<times> fs) option" where
  "FileHandle_close fd s =
     (case GetOpenFile fd s of
        (None, s) \<Rightarrow> Some (- 1, s)
      | (Some x, s) \<Rightarrow>
         (let f = of_file x;
              s = snd (File_fsync f s);
              s = upd_file f (\<lambda>y. y\<lparr>f_locked := False, f_nlink := f_nlink y - 1\<rparr>) s
          in do {
            s \<leftarrow> (if f_nlink (fobj s f) = 0 \<and> (fm_is_temp (File_meta s f) \<or> f_deleted (fobj s f))
                   then map_option snd (UnlinkFileNolock (File_fh s f) s) else Some s);
            let s = s\<lparr>open_files := amap_del fd (open_files s), fd_handle := put_fd fd (fd_handle s)\<rparr>;
            Some (0, set_errno 0 s)
          }))"

definition FileHandle_dup :: "int \<Rightarrow> fs \<Rightarrow> int \<times> fs" where
  "FileHandle_dup oldfd s =
     (case GetOpenFile oldfd s of
        (None, s) \<Rightarrow> (- 1, s)
      | (Some x, s) \<Rightarrow>
         (let f = of_file x;
              (newfd, s) = fs_get_fd s;
              s = AddOpenFile newfd \<lparr>of_file = f, of_append_pos = 0\<rparr> s;
              s = upd_file f (\<lambda>y. y\<lparr>f_nlink := f_nlink y + 1\<rparr>) s
          in (newfd, set_errno 0 s)))"

definition FileHandle_fsync :: "int \<Rightarrow> fs \<Rightarrow> int \<times> fs" where
  "FileHandle_fsync fd s =
     (case GetOpenFile fd s of
        (None, s) \<Rightarrow> (- 1, set_errno ENOENT s)
      | (Some x, s) \<Rightarrow> File_fsync (of_file x) s)"

text \<open>\<open>UpdateMeta\<close> writes back every file, stopping at the first failure.\<close>

fun update_files :: "nat list \<Rightarrow> fs \<Rightarrow> bool \<times> fs" where
  "update_files [] s = (True, s)"
| "update_files (f # fs) s =
     (case File_WriteMeta f s of (False, s) \<Rightarrow> (False, s) | (True, s) \<Rightarrow> update_files fs s)"

definition FileHandle_UpdateMeta :: "fs \<Rightarrow> bool \<times> fs" where
  "FileHandle_UpdateMeta s = update_files (map snd (created_files s)) s"

end
