(* ===== verification/Dir_Handle.thy ===== *)
theory Dir_Handle
  imports File_Handle
begin

text \<open>
  The path-level operations of \<open>DirHandle\<close> (\<open>lib/dir_handle.h\<close>, \<open>lib/dir_handle.cc\<close>) and
  \<open>Directory::rename\<close> (\<open>lib/directory.cc\<close>): making, removing, renaming, opening, reading
  and closing directories.
\<close>

section \<open>Checks\<close>

text \<open>\<open>path.erase(path.size() - 1)\<close> of a trailing separator.\<close>

definition strip_slash :: "string \<Rightarrow> string" where
  "strip_slash p = (if ends_with_slash p then butlast p else p)"

definition DirHandle_CheckFileExist :: "string \<Rightarrow> bool \<Rightarrow> fs \<Rightarrow> bool \<times> fs" where
  "DirHandle_CheckFileExist dirname check_parent s =
     (if IsMountPoint dirname then (True, s)
      else case GetCreatedFile (strip_slash dirname) s of
        (Some _, s) \<Rightarrow> (False, set_errno (if check_parent then EEXIST else ENOTDIR) s)
      | (None, s) \<Rightarrow>
          (let parent_path = GetDirName dirname
           in if \<not> IsMountPoint parent_path \<and> check_parent
              then (case GetCreatedFile (strip_slash parent_path) s of
                      (Some _, s) \<Rightarrow> (False, set_errno ENOTDIR s)
                    | (None, s) \<Rightarrow> (True, s))
              else (True, s)))"

section \<open>Making and removing\<close>

text \<open>The metadata write is tried three times.\<close>

fun write_retry :: "nat \<Rightarrow> nat \<Rightarrow> fs \<Rightarrow> bool \<times> fs" where
  "write_retry 0 d s = (False, s)"
| "write_retry (Suc n) d s =
     (case Directory_WriteMeta d s of (True, s) \<Rightarrow> (True, s) | (False, s) \<Rightarrow> write_retry n d s)"

definition CreateDirectory :: "string \<Rightarrow> fs \<Rightarrow> (int \<times> fs) option" where
  "CreateDirectory path s =
     (case DirHandle_CheckFileExist path True s of
        (False, s) \<Rightarrow> Some (- 1, s)
      | (True, s) \<Rightarrow>
     (case DirHandle_TransformPath path s of
        (None, s) \<Rightarrow> Some (- 1, s)
      | (Some dir_name, s) \<Rightarrow>
     (case NewDirectory dir_name s of
        (None, s) \<Rightarrow> Some (- 1, s)
      | (Some (parent_dir, curr_dir), s) \<Rightarrow>
     (case write_retry 3 curr_dir s of
        (False, s) \<Rightarrow> Some (- 1, s)
      | (True, s) \<Rightarrow> do {
          (ok, s) \<leftarrow> AddDirectory parent_dir curr_dir s;
          Some (if ok then (0, set_errno 0 s) else (- 1, s))
        }))))"

text \<open>
  The checks of both \<open>DeleteDirectory\<close> variants. The error number is a bitwise or of two.
  \<open>Directory::LinkCount\<close> returns the signed counter as \<open>uint32_t\<close>.
\<close>

definition delete_allowed :: "nat \<Rightarrow> fs \<Rightarrow> bool \<times> fs" where
  "delete_allowed d s =
     (if 0 < ChildCount s d then (False, set_errno (ENOTEMPTY OR EEXIST) s)
      else if 0 < (word_of_int (d_nlink (dobj s d)) :: u32) then (False, set_errno EBUSY s)
      else (True, s))"

definition DeleteDirectory :: "string \<Rightarrow> bool \<Rightarrow> fs \<Rightarrow> int \<times> fs" where
  "DeleteDirectory path recursive s =
     (case DirHandle_CheckFileExist path False s of
        (False, s) \<Rightarrow> (- 1, s)
      | (True, s) \<Rightarrow>
     (case DirHandle_TransformPath path s of
        (None, s) \<Rightarrow> (- 1, s)
      | (Some dir_name, s) \<Rightarrow>
     (if IsMountPoint path then (- 1, set_errno (EPERM OR EBUSY) s)
      else case FindDirectory dir_name s of
        (None, s) \<Rightarrow> (- 1, s)
      | (Some (parent_dir, curr_dir), s) \<Rightarrow>
     (case delete_allowed curr_dir s of
        (False, s) \<Rightarrow> (- 1, s)
      | (True, s) \<Rightarrow>
     (case SuicideNolock curr_dir s of
        (False, s) \<Rightarrow> (- 1, s)
      | (True, s) \<Rightarrow>
     (case RemoveDirectory parent_dir curr_dir s of
        (False, s) \<Rightarrow> (- 1, s)
      | (True, s) \<Rightarrow> (0, set_errno 0 s)))))))"

definition DeleteDirectory_dh :: "nat \<Rightarrow> fs \<Rightarrow> int \<times> fs" where
  "DeleteDirectory_dh dh s =
     (case GetCreatedDirectory_dh s dh of
        None \<Rightarrow> (- 1, set_errno ENOENT s)
      | Some dir \<Rightarrow>
     (let t = now s; s = upd_dmeta (d_meta (dobj s dir)) (\<lambda>m. m\<lparr>dm_mtime := t, dm_ctime := t\<rparr>) s
      in case delete_allowed dir s of
        (False, s) \<Rightarrow> (- 1, s)
      | (True, s) \<Rightarrow>
     (case SuicideNolock dir s of
        (False, s) \<Rightarrow> (- 1, s)
      | (True, s) \<Rightarrow>
     (case map_of (created_dirs s) (GetDirName (Dir_dir_name s dir)) of
        None \<Rightarrow> (- 1, set_errno ENOENT s)
      | Some parent_dir \<Rightarrow>
     (case RemoveDirectory parent_dir dir s of
        (False, s) \<Rightarrow> (- 1, s)
      | (True, s) \<Rightarrow> (0, set_errno 0 s))))))"

section \<open>Renaming\<close>

text \<open>
  \<open>rename\<close> keeps references into \<open>created_dirs_\<close> across the removal of its own entry.
  A directory renamed into itself is its own new parent, and the reference then dangles
  (\<open>None\<close>). Results of the child map updates are ignored.
\<close>

definition Directory_rename :: "nat \<Rightarrow> string \<Rightarrow> fs \<Rightarrow> (int \<times> fs) option" where
  "Directory_rename d to s =
     (case GetCreatedDirectory (GetDirName to) s of
        (None, s) \<Rightarrow> Some (- 1, s)
      | (Some new_parent_dir, s) \<Rightarrow>
     (case GetCreatedDirectory (GetDirName (Dir_dir_name s d)) s of
        (None, s) \<Rightarrow> Some (- 1, s)
      | (Some old_parent_dir, s) \<Rightarrow>
     (let (_, s) = RemovChildDirectory old_parent_dir d s
      in case RemoveDirectoryFromCreateNolock d s of
        (False, s) \<Rightarrow> Some (- 1, s)
      | (True, s) \<Rightarrow>
     (if new_parent_dir = d then None
      else let s = Dir_set_dir_name d to s;
               (_, s) = AddDirectory2CreateNolock d s;
               (_, s) = AddChildDirectory new_parent_dir d s;
               (ok, s) = Directory_WriteMeta d s
           in Some (if ok then 0 else - 1, s)))))"

text \<open>\<open>if (!curr_dir->rename(...)) return -1\<close>: the result 0 of a success reads as failure.\<close>

definition RenameDirectory :: "string \<Rightarrow> string \<Rightarrow> fs \<Rightarrow> (int \<times> fs) option" where
  "RenameDirectory from_path to s =
     (case DirHandle_CheckFileExist to True s of
        (False, s) \<Rightarrow> Some (- 1, s)
      | (True, s) \<Rightarrow>
     (if IsMountPoint from_path \<or> IsMountPoint to then Some (- 1, set_errno (EPERM OR EBUSY) s)
      else case DirHandle_TransformPath from_path s of
        (None, s) \<Rightarrow> Some (- 1, s)
      | (Some from_dir_name, s) \<Rightarrow>
     (case DirHandle_TransformPath to s of
        (None, s) \<Rightarrow> Some (- 1, s)
      | (Some to_dir_name, s) \<Rightarrow>
     (case FindDirectory from_dir_name s of
        (None, s) \<Rightarrow> Some (- 1, s)
      | (Some (parent_dir, curr_dir), s) \<Rightarrow> do {
          (r, s) \<leftarrow> Directory_rename curr_dir to_dir_name s;
          Some (if r = 0 then (- 1, s) else (0, set_errno 0 s))
        }))))"

section \<open>Directory streams\<close>

record BLOCKFS_DIR =
  bd_inited :: bool
  bd_fd :: int
  bd_index :: nat
  bd_dir :: nat
  bd_items :: "dirent list"

definition OpenDirectory :: "string \<Rightarrow> fs \<Rightarrow> BLOCKFS_DIR option \<times> fs" where
  "OpenDirectory path s =
     (case DirHandle_TransformPath path s of
        (None, s) \<Rightarrow> (None, s)
      | (Some dir_name, s) \<Rightarrow>
     (case GetCreatedDirectory dir_name s of
        (None, s) \<Rightarrow> (None, set_errno ENOENT s)
      | (Some dir, s) \<Rightarrow>
     (let (fd, s) = fs_get_fd s
      in if fd < 0 then (None, s)
         else (Some \<lparr>bd_inited = False, bd_fd = fd, bd_index = 0, bd_dir = dir, bd_items = []\<rparr>,
               upd_dir dir (\<lambda>x. x\<lparr>d_nlink := d_nlink x + 1\<rparr>)
                 (s\<lparr>open_dirs := amap_put fd dir (open_dirs s)\<rparr>)))))"

definition ReadDirectory :: "BLOCKFS_DIR \<Rightarrow> fs \<Rightarrow> ((dirent option \<times> BLOCKFS_DIR) \<times> fs) option" where
  "ReadDirectory d s = do {
     (d, s) \<leftarrow> (if bd_inited d then Some (d, s)
                else do { items \<leftarrow> ScanDir s (bd_dir d);
                          Some (d\<lparr>bd_items := bd_items d @ items, bd_inited := True\<rparr>,
                                Directory_UpdateTimeStamp False True True (bd_dir d) s) });
     Some (if bd_index d < length (bd_items d)
           then ((Some (bd_items d ! bd_index d), d\<lparr>bd_index := Suc (bd_index d)\<rparr>), s)
           else ((None, d), s))
   }"

text \<open>The entry of \<open>open_dirs_\<close> is not removed.\<close>

definition CloseDirectory :: "BLOCKFS_DIR \<Rightarrow> fs \<Rightarrow> int \<times> fs" where
  "CloseDirectory d s =
     (0, upd_dir (bd_dir d) (\<lambda>x. x\<lparr>d_nlink := d_nlink x - 1\<rparr>)
           (s\<lparr>fd_handle := put_fd (bd_fd d) (fd_handle s)\<rparr>))"

end
