(* ===== verification/Struct_Array.thy ===== *)
theory Struct_Array
  imports Meta_Defines Block_Device
begin

text \<open>
  A metadata region is an array of packed structs, written back page by page. The locale
  \<open>struct_array\<close> is the contract of such a region: images of a fixed size that decode to the struct,
  at a base address, a whole number of them to a page. What a write of a page, or of the whole region,
  does to every struct of the region and to the rest of the disk is proved once, and holds for
  the directory, file and file block structs alike.
\<close>

section \<open>Images of consecutive structs\<close>

lemma concat_slice:
  assumes "\<forall>x \<in> set xs. length (g x) = n" "i < length xs"
  shows "take n (drop (n * i) (concat (map g xs))) = g (xs ! i)"
  using assms
proof (induction xs arbitrary: i)
  case Nil
  then show ?case by simp
next
  case (Cons x xs)
  show ?case
  proof (cases i)
    case 0
    then show ?thesis using Cons.prems by simp
  next
    case (Suc j)
    have "drop (n * Suc j) (g x @ concat (map g xs)) = drop (n * j) (concat (map g xs))"
      using Cons.prems(1) by (simp add: drop_append)
    then show ?thesis using Cons.IH [of j] Cons.prems Suc by simp
  qed
qed

lemma concat_slice_upt:
  assumes "\<And>i. length (g i) = n" "a \<le> i" "i < b"
  shows "take n (drop (n * (i - a)) (concat (map g [a..<b]))) = g i"
  using concat_slice [of "[a..<b]" g n "i - a"] assms by simp

lemma length_concat_upt: "(\<And>i. length (g i) = n) \<Longrightarrow> length (concat (map g [a..<b])) = n * (b - a)"
  by (simp add: length_concat o_def sum_list_triv)

lemma disk_read_write_sub:
  assumes "off \<le> p" "p + n \<le> off + length bs"
  shows "disk_read (disk_write d off bs) p n = take n (drop (p - off) bs)"
  by (rule nth_equalityI) (use assms in \<open>auto simp: disk_read_def disk_write_def\<close>)

text \<open>The indices that share a page of sixteen file or four directory structs.\<close>

lemma page_iff:
  fixes i fh n :: nat
  assumes "0 < n"
  shows "i div n = fh div n \<longleftrightarrow> fh - fh mod n \<le> i \<and> i < fh - fh mod n + n"
proof -
  have "i div n = q \<longleftrightarrow> n * q \<le> i \<and> i < n * q + n" for q
    using assms div_nat_eqI [of n q i] times_div_less_eq_dividend [of n i] dividend_less_times_div [of n i] by auto
  then show ?thesis by (simp add: minus_mod_eq_mult_div)
qed

lemma page_write_read:
  fixes g :: "nat \<Rightarrow> u8 list"
  assumes len: "\<And>i. length (g i) = n" and i: "a \<le> i" "i < a + m"
  shows "disk_read (disk_write d (base + n * a) (concat (map g [a..<a + m]))) (base + n * i) n = g i"
proof -
  have l: "length (concat (map g [a..<a + m])) = n * m" using length_concat_upt [OF len] by simp
  have "n * i + n \<le> n * a + n * m" using i(2) by (metis Suc_leI mult_Suc_right mult_le_mono2 add.commute distrib_left)
  then have "disk_read (disk_write d (base + n * a) (concat (map g [a..<a + m]))) (base + n * i) n
      = take n (drop (base + n * i - (base + n * a)) (concat (map g [a..<a + m])))"
    using i(1) l by (intro disk_read_write_sub) auto
  also have "base + n * i - (base + n * a) = n * (i - a)" by (simp add: diff_mult_distrib2)
  also have "take n (drop (n * (i - a)) (concat (map g [a..<a + m]))) = g i"
    by (rule concat_slice_upt) (use len i in auto)
  finally show ?thesis .
qed

text \<open>The struct at an offset of a buffer.\<close>

definition slice :: "nat \<Rightarrow> nat \<Rightarrow> u8 list \<Rightarrow> u8 list" where
  "slice off n bs = take n (drop off bs)"

lemma slice_disk_read: "off + n \<le> l \<Longrightarrow> slice off n (disk_read d 0 l) = disk_read d off n"
  using disk_read_sub [of off n l d 0] by (simp add: slice_def)

section \<open>The contract of a region\<close>

locale struct_array =
  fixes enc :: "'m \<Rightarrow> u8 list" and dec :: "u8 list \<Rightarrow> 'm" and wf :: "'m \<Rightarrow> bool"
    and n base cnt k :: nat
  assumes enc_length: "length (enc x) = n" and dec_enc: "wf x \<Longrightarrow> dec (enc x) = x"
    and pos: "0 < n" "0 < k" and pages: "k dvd cnt"
begin

text \<open>The page of entry \<open>j\<close> is written: its structs are in step, the others are as before.\<close>

lemma page_same:
  assumes d: "d' = disk_write d (base + n * (j - j mod k)) (concat (map (\<lambda>i. enc (f i)) [j - j mod k..<j - j mod k + k]))"
    and i: "i div k = j div k"
  shows "disk_read d' (base + n * i) n = enc (f i)"
proof -
  have "j - j mod k \<le> i" "i < j - j mod k + k" using i page_iff [OF pos(2)] by simp_all
  then show ?thesis unfolding d by (intro page_write_read enc_length)
qed

lemma page_other:
  assumes d: "d' = disk_write d (base + n * (j - j mod k)) (concat (map (\<lambda>i. enc (f i)) [j - j mod k..<j - j mod k + k]))"
    and i: "i div k \<noteq> j div k"
  shows "disk_read d' (base + n * i) n = disk_read d (base + n * i) n"
proof -
  obtain a where a: "j - j mod k = a" by blast
  have "i < a \<or> a + k \<le> i" using i page_iff [OF pos(2), of i j] unfolding a by linarith
  then have "base + n * i + n \<le> base + n * a \<or> base + n * a + n * k \<le> base + n * i"
    using mult_le_mono2 [of "Suc i" a n] mult_le_mono2 [of "a + k" i n] by (auto simp: distrib_left)
  then show ?thesis
    unfolding d a by (intro disk_read_write_disjoint) (simp add: length_concat_upt [OF enc_length])
qed

lemma page_write:
  assumes d: "d' = disk_write d (base + n * (j - j mod k)) (concat (map (\<lambda>i. enc (f i)) [j - j mod k..<j - j mod k + k]))"
    and same: "\<And>i. i \<noteq> j \<Longrightarrow> f i = f0 i"
    and sy: "\<And>i. i < cnt \<Longrightarrow> i \<notin> F \<Longrightarrow> disk_read d (base + n * i) n = enc (f0 i)"
    and i: "i < cnt" "i \<notin> F - {i. i div k = j div k}"
  shows "disk_read d' (base + n * i) n = enc (f i)"
proof (cases "i div k = j div k")
  case True
  from page_same [OF d this] show ?thesis .
next
  case False
  then have "i \<noteq> j" by auto
  then show ?thesis using page_other [OF d False] sy i same [of i] False by simp
qed

lemma page_outside:
  assumes d: "d' = disk_write d (base + n * (j - j mod k)) (concat (map (\<lambda>i. enc (f i)) [j - j mod k..<j - j mod k + k]))"
    and j: "j < cnt" and out: "p + l \<le> base \<or> base + n * cnt \<le> p"
  shows "disk_read d' p l = disk_read d p l"
proof -
  have "j div k < cnt div k" using j pages pos(2) by (auto simp: dvd_def less_mult_imp_div_less mult.commute)
  then have "k * Suc (j div k) \<le> cnt" using pages by (metis Suc_leI dvd_mult_div_cancel mult_le_mono2)
  moreover have "j - j mod k = k * (j div k)" by (simp add: minus_mod_eq_mult_div)
  ultimately have "j - j mod k + k \<le> cnt" by simp
  then have "n * (j - j mod k) + n * k \<le> n * cnt" by (metis distrib_left mult_le_mono2)
  then show ?thesis
    unfolding d by (intro disk_read_write_disjoint) (use out in \<open>auto simp: length_concat_upt [OF enc_length]\<close>)
qed

text \<open>A struct in step with the disk is what a read of the whole area yields for it.\<close>

lemma load:
  assumes "disk_read d (base + n * i) n = enc x" and "wf x" and "i < cnt" and "base + n * cnt \<le> l"
  shows "dec (slice (base + n * i) n (disk_read d 0 l)) = x"
proof -
  have "n * i + n \<le> n * cnt" using mult_le_mono2 [of "Suc i" cnt n] assms(3) by simp
  then show ?thesis using assms dec_enc by (simp add: slice_disk_read)
qed

end

section \<open>The three regions\<close>

interpretation dirs: struct_array enc_DirMeta dec_DirMeta wf_DirMeta 1024 4096 100000 4
  by unfold_locales simp_all

interpretation files: struct_array enc_FileMeta dec_FileMeta wf_FileMeta 256 102404096 100000 16
  by unfold_locales simp_all

interpretation fbs: struct_array enc_FileBlockMeta dec_FileBlockMeta wf_FileBlockMeta 4096 128004096 133554 1
  by unfold_locales simp_all

end
