(* ===== verification/Mount.thy ===== *)
theory Mount
  imports Dir_Handle Struct_Array
begin

text \<open>
  Formatting and mounting: the \<open>FormatAllMeta\<close> and \<open>InitializeMeta\<close> methods of the handles
  (\<open>lib/dir_handle.cc\<close>, \<open>lib/file_handle.cc\<close>, \<open>lib/file_block_handle.cc\<close>,
  \<open>lib/block_handle.cc\<close>), the metadata image of \<open>ShmManager\<close> (\<open>lib/shm_manager.cc\<close>), and their
  sequence in \<open>FileSystem\<close> (\<open>lib/file_system.cc\<close>). The loops over a whole metadata region
  are recursions over the list of its indices. \<open>None\<close> is undefined behaviour: a file block that
  claims more than its 1000 slots.
\<close>

section \<open>Formatting the metadata regions\<close>

definition DirMeta_zero :: DirMeta where
  "DirMeta_zero = \<lparr>dm_crc = 0, dm_dh = 0, dm_size = 0, dm_mode = 0, dm_uid = 0, dm_gid = 0,
     dm_atime = 0, dm_mtime = 0, dm_ctime = 0, dm_used = False,
     dm_dir_name = replicate 768 NUL, dm_pad = replicate 199 0\<rparr>"

definition FileMeta_zero :: FileMeta where
  "FileMeta_zero = \<lparr>fm_crc = 0, fm_fh = 0, fm_size = 0, fm_nlink = 0, fm_mode = 0, fm_uid = 0,
     fm_gid = 0, fm_atime = 0, fm_mtime = 0, fm_ctime = 0, fm_dh = 0, fm_child_fh = 0,
     fm_parent_fh = 0, fm_parent_size = 0, fm_used = False, fm_is_temp = False,
     fm_file_name = replicate 64 NUL, fm_pad = replicate 106 0\<rparr>"

definition FileBlockMeta_zero :: FileBlockMeta where
  "FileBlockMeta_zero = \<lparr>fb_crc = 0, fb_index = 0, fb_fh = 0, fb_file_cut = 0,
     fb_used_block_num = 0, fb_used = False, fb_is_temp = False,
     fb_block_id = replicate 1000 0, fb_pad = replicate 74 0\<rparr>"

definition format_dmeta :: "(u8 list \<Rightarrow> u32) \<Rightarrow> nat \<Rightarrow> DirMeta" where
  "format_dmeta crc dh =
     (let m = DirMeta_zero\<lparr>dm_used := False, dm_dh := word_of_nat dh\<rparr>
      in m\<lparr>dm_crc := crc (body_DirMeta m)\<rparr>)"

definition format_fmeta :: "(u8 list \<Rightarrow> u32) \<Rightarrow> nat \<Rightarrow> FileMeta" where
  "format_fmeta crc fh =
     (let m = FileMeta_zero\<lparr>fm_used := False, fm_fh := word_of_nat fh, fm_child_fh := - 1, fm_parent_fh := - 1\<rparr>
      in m\<lparr>fm_crc := crc (body_FileMeta m)\<rparr>)"

definition format_bmeta :: "(u8 list \<Rightarrow> u32) \<Rightarrow> nat \<Rightarrow> FileBlockMeta" where
  "format_bmeta crc i =
     (let m = FileBlockMeta_zero\<lparr>fb_used := False, fb_fh := - 1, fb_index := word_of_nat i\<rparr>
      in m\<lparr>fb_crc := crc (body_FileBlockMeta m)\<rparr>)"

definition DirHandle_FormatAllMeta :: "fs \<Rightarrow> bool \<times> fs" where
  "DirHandle_FormatAllMeta s =
     (let total = sb_dir_meta_total_size (super_meta s);
          buffer = fit (unat total) 0
            (concat (map (\<lambda>dh. enc_DirMeta (format_dmeta (crc32 s) dh)) [0..<unat (sb_max_file_num (super_meta s))]));
          (ret, s) = fs_PwriteDirect buffer (sb_dir_meta_offset (super_meta s)) s
      in (ret = int (unat total), s))"

definition FileHandle_FormatAllMeta :: "fs \<Rightarrow> bool \<times> fs" where
  "FileHandle_FormatAllMeta s =
     (let total = sb_file_meta_total_size (super_meta s);
          buffer = fit (unat total) 0
            (concat (map (\<lambda>fh. enc_FileMeta (format_fmeta (crc32 s) fh)) [0..<unat (sb_max_file_num (super_meta s))]));
          (ret, s) = fs_PwriteDirect buffer (sb_file_meta_offset (super_meta s)) s
      in (ret = int (unat total), s))"

definition FileBlockHandle_FormatAllMeta :: "fs \<Rightarrow> bool \<times> fs" where
  "FileBlockHandle_FormatAllMeta s =
     (let total = sb_file_block_meta_total_size (super_meta s);
          buffer = fit (unat total) 0
            (concat (map (\<lambda>i. enc_FileBlockMeta (format_bmeta (crc32 s) i)) [0..<unat (sb_max_file_block_num (super_meta s))]));
          (ret, s) = fs_PwriteDirect buffer (sb_file_block_meta_offset (super_meta s)) s
      in (ret = int (unat total), s))"

section \<open>Initialising the handles from the metadata image\<close>

fun init_dirs :: "nat list \<Rightarrow> fs \<Rightarrow> bool \<times> fs" where
  "init_dirs [] s = (True, s)"
| "init_dirs (dh # dhs) s =
     (let meta = dmetas s dh; crc = crc32 s (body_DirMeta meta)
      in if dm_crc meta \<noteq> crc then (False, s)
         else if dm_used meta then
           (if cstr (dm_dir_name meta) = [] then (False, s)
            else if dm_dh meta \<noteq> word_of_nat dh then (False, s)
            else let (d, s) = new_dir (Directory_new dh) s
                 in case AddDirectory2CreateNolock d s of
                      (False, s) \<Rightarrow> (False, s)
                    | (True, s) \<Rightarrow> init_dirs dhs s)
         else init_dirs dhs (s\<lparr>free_dhs := free_dhs s @ [dh]\<rparr>))"

fun link_dirs :: "nat list \<Rightarrow> fs \<Rightarrow> bool \<times> fs" where
  "link_dirs [] s = (True, s)"
| "link_dirs (d # ds) s =
     (if IsMountPoint (Dir_dir_name s d) then link_dirs ds s
      else case GetCreatedDirectory (GetDirName (Dir_dir_name s d)) s of
        (None, s) \<Rightarrow> (False, s)
      | (Some parent_dir, s) \<Rightarrow>
          (case AddChildDirectory parent_dir d s of
             (False, s) \<Rightarrow> (False, s)
           | (True, s) \<Rightarrow> link_dirs ds s))"

definition DirHandle_InitializeMeta :: "fs \<Rightarrow> bool \<times> fs" where
  "DirHandle_InitializeMeta s =
     (case init_dirs [0..<unat (sb_max_file_num (super_meta s))] s of
        (False, s) \<Rightarrow> (False, s)
      | (True, s) \<Rightarrow> link_dirs (map snd (created_dirs s)) s)"

text \<open>
  A file with a child is a leftover of a shrink; the test is \<open>child_fh() > 0\<close> on a signed
  number, so a child with handle 0 is not recognised.
\<close>

fun init_files :: "nat list \<Rightarrow> fs \<Rightarrow> bool \<times> fs" where
  "init_files [] s = (True, s)"
| "init_files (fh # fhs) s =
     (let meta = fmetas s fh; crc = crc32 s (body_FileMeta meta)
      in if fm_crc meta \<noteq> crc then (False, s)
         else if fm_used meta then
           (if fm_is_temp meta then
              (case File_WriteMeta_fh (unat (fm_fh meta)) (upd_fmeta fh File_ClearMeta s) of
                 (False, s) \<Rightarrow> (False, s)
               | (True, s) \<Rightarrow> init_files fhs s)
            else if cstr (fm_file_name meta) = [] then (False, s)
            else if fm_fh meta \<noteq> word_of_nat fh then (False, s)
            else let (f, s) = new_file (File_new fh) s;
                     s = (if 0 < s32 (fm_child_fh meta)
                          then s\<lparr>created_fhs := amap_put (File_fh s f) f (created_fhs s)\<rparr>
                          else AddFileNoLock f s)
                 in case GetCreatedDirectory_dh s (unat (fm_dh meta)) of
                      None \<Rightarrow> (False, s)
                    | Some dir \<Rightarrow> init_files fhs (snd (AddChildFile dir f s)))
         else init_files fhs (AddFile2FreeNolock fh s))"

definition FileHandle_InitializeMeta :: "fs \<Rightarrow> bool \<times> fs" where
  "FileHandle_InitializeMeta s = init_files [0..<unat (sb_max_file_num (super_meta s))] s"

fun claim_blocks :: "nat \<Rightarrow> nat list \<Rightarrow> fs \<Rightarrow> (bool \<times> fs) option" where
  "claim_blocks fb [] s = Some (True, s)"
| "claim_blocks fb (i # is) s = do {
     block_id \<leftarrow> get_block_id s fb (word_of_nat i);
     let (ok, h) = GetSpecificBlockId block_id (block_handle s);
     if \<not> ok then Some (False, s)
     else claim_blocks fb is (s\<lparr>block_handle := h\<rparr>)
   }"

fun init_fbs :: "nat list \<Rightarrow> fs \<Rightarrow> (bool \<times> fs) option" where
  "init_fbs [] s = Some (True, s)"
| "init_fbs (i # is) s =
     (let meta = bmetas s i; crc = crc32 s (body_FileBlockMeta meta)
      in if fb_crc meta \<noteq> crc then Some (False, s)
         else if fb_used meta then
           (if fb_is_temp meta then
              (case FileBlock_WriteMeta i (upd_bmeta i FileBlock_ClearMeta s) of
                 (False, s) \<Rightarrow> Some (False, s)
               | (True, s) \<Rightarrow> init_fbs is s)
            else case GetCreatedFile_fh s (unat (fb_fh meta)) of
              None \<Rightarrow> Some (False, s)
            | Some f \<Rightarrow> do {
                (ok, s) \<leftarrow> claim_blocks i [0..<unat (fb_used_block_num meta)] s;
                if \<not> ok then Some (False, s)
                else init_fbs is (snd (AddFileBlockNoLock f i s))
              })
         else init_fbs is (s\<lparr>free_fbhs := free_fbhs s @ [i]\<rparr>))"

definition FileBlockHandle_InitializeMeta :: "fs \<Rightarrow> (bool \<times> fs) option" where
  "FileBlockHandle_InitializeMeta s = init_fbs [0..<unat (sb_max_file_block_num (super_meta s))] s"

section \<open>The metadata image\<close>

definition fs_PreadDirect_all :: "u64 \<Rightarrow> fs \<Rightarrow> (int \<times> u8 list) \<times> fs" where
  "fs_PreadDirect_all n s = fs_PreadDirect n 0 s"

definition PrefetchSuperMeta_dev :: "fs \<Rightarrow> SuperBlockMeta option \<times> fs" where
  "PrefetchSuperMeta_dev s =
     (let ((ret, bytes), s) = fs_PreadCache kSuperBlockSize kSuperBlockOffset s
      in if ret \<noteq> int (unat kSuperBlockSize) then (None, s) else (Some (dec_SuperBlockMeta bytes), s))"

definition PrefetchSuperMeta :: "fs \<Rightarrow> SuperBlockMeta option \<times> fs" where
  "PrefetchSuperMeta s =
     (case PrefetchSuperMeta_dev s of
        (None, s) \<Rightarrow> (None, s)
      | (Some super, s) \<Rightarrow>
          (if sb_crc super \<noteq> crc32 s (body_SuperBlockMeta super) then (None, s)
           else if sb_magic super \<noteq> kBlockFsMagic then (None, s)
           else (Some super, s)))"

text \<open>
  \<open>ReadAllMeta\<close> fills the buffer and \<open>RegistMetaBaseAddr\<close> points the handles into it; here
  the regions are decoded. The arrays have \<open>max_file_num_\<close> and \<open>max_file_block_num_\<close>
  elements; an index behind them is not part of the array and decodes to a zero struct.
\<close>

definition regist_meta :: "SuperBlockMeta \<Rightarrow> u8 list \<Rightarrow> fs \<Rightarrow> fs" where
  "regist_meta super bs s =
     s\<lparr>super_meta := dec_SuperBlockMeta (slice (unat kSuperBlockOffset) 4096 bs),
       dmetas := (\<lambda>i. if i < unat (sb_max_file_num super)
         then dec_DirMeta (slice (unat (sb_dir_meta_offset super) + 1024 * i) 1024 bs) else DirMeta_zero),
       fmetas := (\<lambda>i. if i < unat (sb_max_file_num super)
         then dec_FileMeta (slice (unat (sb_file_meta_offset super) + 256 * i) 256 bs) else FileMeta_zero),
       bmetas := (\<lambda>i. if i < unat (sb_max_file_block_num super)
         then dec_FileBlockMeta (slice (unat (sb_file_block_meta_offset super) + 4096 * i) 4096 bs) else FileBlockMeta_zero)\<rparr>"

definition ShmManager_Initialize :: "fs \<Rightarrow> bool \<times> fs" where
  "ShmManager_Initialize s =
     (case PrefetchSuperMeta s of
        (None, s) \<Rightarrow> (False, s)
      | (Some super, s) \<Rightarrow>
          (let shm_size = sb_block_data_start_offset super
           in if shm_size = 0 then (False, s)
              else let ((ret, bs), s) = fs_PreadDirect_all shm_size s
                   in if ret \<noteq> sint shm_size then (False, s)
                      else (True, regist_meta super bs s)))"

section \<open>FileSystem\<close>

text \<open>
  \<open>new\<close> handles, a \<open>new\<close> device that is not open, and an empty descriptor table; the contents of the
  disks and the environment stay.
\<close>

definition FileSystem_Initialize :: "fs \<Rightarrow> fs" where
  "FileSystem_Initialize s =
     (use_device Device_new s)\<lparr>fd_handle := FdHandle_new, block_handle := BlockHandle_new,
       free_dhs := [], created_dirs := [], created_dhs := [], open_dirs := [],
       free_fhs := [], created_files := [], created_fhs := [], open_files := [], parent_files := [],
       free_fbhs := []\<rparr>"

definition fs_Device_Open :: "blk_env \<Rightarrow> string \<Rightarrow> fs \<Rightarrow> bool \<times> fs" where
  "fs_Device_Open env name s =
     (let (ok, d, k) = Device_Open env name (dev s) (kern s) in (ok, use_device d (s\<lparr>kern := k\<rparr>)))"

lemma FileSystem_Initialize_env:
  "crc32 (FileSystem_Initialize s) = crc32 s" "fobj_next (FileSystem_Initialize s) = fobj_next s"
  "dobj_next (FileSystem_Initialize s) = dobj_next s"
  "open_files (FileSystem_Initialize s) = []"
  "created_dirs (FileSystem_Initialize s) = []" "created_files (FileSystem_Initialize s) = []"
  "fd_handle (FileSystem_Initialize s) = FdHandle_new" "k_script (kern (FileSystem_Initialize s)) = k_script (kern s)"
  "disk_of n (FileSystem_Initialize s) = disk_of n s" "dev (FileSystem_Initialize s) = Device_new"
  by (simp_all add: FileSystem_Initialize_def use_device_def disk_of_def)

definition FileSystem_InitializeMeta :: "fs \<Rightarrow> (bool \<times> fs) option" where
  "FileSystem_InitializeMeta s =
     (case SuperBlock_InitializeMeta s of (False, s) \<Rightarrow> Some (False, s) | (True, s) \<Rightarrow>
     (case BlockHandle_InitializeMeta (sb_curr_block_num (super_meta s)) (block_handle s) of (_, h) \<Rightarrow>
     (case DirHandle_InitializeMeta (s\<lparr>block_handle := h\<rparr>) of (False, s) \<Rightarrow> Some (False, s) | (True, s) \<Rightarrow>
     (case FileHandle_InitializeMeta s of (False, s) \<Rightarrow> Some (False, s) | (True, s) \<Rightarrow>
      FileBlockHandle_InitializeMeta s))))"

definition FileSystem_FormatAll :: "fs \<Rightarrow> bool \<times> fs" where
  "FileSystem_FormatAll s =
     (case SuperBlock_FormatAllMeta s of (False, s) \<Rightarrow> (False, s) | (True, s) \<Rightarrow>
     (case DirHandle_FormatAllMeta s of (False, s) \<Rightarrow> (False, s) | (True, s) \<Rightarrow>
     (case FileHandle_FormatAllMeta s of (False, s) \<Rightarrow> (False, s) | (True, s) \<Rightarrow>
      FileBlockHandle_FormatAllMeta s)))"

text \<open>
  \<open>CleanupDirtyShareMemory\<close> reads the old super block and may remove a file under
  \<open>/dev/shm\<close>; only its device access is visible here.
\<close>

definition FileSystem_Format :: "blk_env \<Rightarrow> string \<Rightarrow> fs \<Rightarrow> bool \<times> fs" where
  "FileSystem_Format env name s =
     (case fs_Device_Open env name (FileSystem_Initialize s) of
        (False, s) \<Rightarrow> (False, s)
      | (True, s) \<Rightarrow> FileSystem_FormatAll (snd (PrefetchSuperMeta_dev s)))"

definition FileSystem_Check :: "blk_env \<Rightarrow> string \<Rightarrow> fs \<Rightarrow> (bool \<times> fs) option" where
  "FileSystem_Check env name s =
     (case fs_Device_Open env name (FileSystem_Initialize s) of
        (False, s) \<Rightarrow> Some (False, s)
      | (True, s) \<Rightarrow>
     (case ShmManager_Initialize s of
        (False, s) \<Rightarrow> Some (False, s)
      | (True, s) \<Rightarrow> FileSystem_InitializeMeta s))"

text \<open>
  \<open>OpenTarget\<close> tries the block devices in the order the directory iterator lists them. A
  device that \<open>Open\<close> refused half-way stays open, as in the source.
\<close>

fun OpenTarget :: "blk_env \<Rightarrow> string \<Rightarrow> string list \<Rightarrow> fs \<Rightarrow> bool \<times> fs" where
  "OpenTarget env uuid [] s = (False, s)"
| "OpenTarget env uuid (name # names) s =
     (case fs_Device_Open env (''/dev/'' @ name) s of
        (False, s) \<Rightarrow> OpenTarget env uuid names s
      | (True, s) \<Rightarrow>
          (case PrefetchSuperMeta_dev s of
             (m, s) \<Rightarrow>
               (if (case m of None \<Rightarrow> True | Some meta \<Rightarrow> cstr (sb_uuid meta) \<noteq> uuid)
                then let (d, k) = Device_Close (dev s) (kern s)
                     in OpenTarget env uuid names (s\<lparr>dev := d, kern := k\<rparr>)
                else (True, s))))"

definition MakeMountPoint :: "string \<Rightarrow> fs \<Rightarrow> (int \<times> fs) option" where
  "MakeMountPoint mount_point s =
     (case GetCreatedDirectory mount_point s of
        (None, s) \<Rightarrow> CreateDirectory mount_point s
      | (Some _, s) \<Rightarrow> Some (0, s))"

text \<open>
  \<open>MountFileSystem\<close> after the configuration was read: \<open>uuid\<close> is its \<open>device_uuid_\<close>,
  \<open>names\<close> the entries of \<open>/sys/block\<close>.
\<close>

definition MountFileSystem :: "blk_env \<Rightarrow> string list \<Rightarrow> string option \<Rightarrow> fs \<Rightarrow> (int \<times> fs) option" where
  "MountFileSystem env names uuid s =
     (case uuid of
        None \<Rightarrow> Some (- 1, s)
      | Some uuid \<Rightarrow>
     (case OpenTarget env uuid names (FileSystem_Initialize s) of
        (False, s) \<Rightarrow> Some (- 1, s)
      | (True, s) \<Rightarrow>
     (case ShmManager_Initialize s of
        (False, s) \<Rightarrow> Some (- 1, s)
      | (True, s) \<Rightarrow> do {
          (ok, s) \<leftarrow> FileSystem_InitializeMeta s;
          if \<not> ok then Some (- 1, s)
          else do {
            (r, s) \<leftarrow> MakeMountPoint ''/'' s;
            Some (if r < 0 then (- 1, s) else (0, s))
          }
        })))"

end
