(* ===== verification/Persistence.thy ===== *)
theory Persistence
  imports Mount Struct_Array
begin

text \<open>
  What is on the disk and what the next mount reads. \<open>file_synced\<close>, \<open>dir_synced\<close> and
  \<open>fb_synced\<close> say that one struct in memory and its image in the metadata area agree. The
  write-back of a page brings every struct of that page in step and leaves all others as they
  were; \<open>ExtendFile\<close> as a whole keeps the metadata area in step; a mount of a device in step
  finds the metadata as it was; and a mount of a device just formatted finds an empty file
  system.
\<close>

section \<open>Metadata in step with the disk\<close>

definition file_synced :: "fs \<Rightarrow> nat \<Rightarrow> bool" where
  "file_synced s i \<longleftrightarrow> disk_read (k_disk (kern s)) (102404096 + 256 * i) 256 = enc_FileMeta (fmetas s i)"

definition dir_synced :: "fs \<Rightarrow> nat \<Rightarrow> bool" where
  "dir_synced s i \<longleftrightarrow> disk_read (k_disk (kern s)) (4096 + 1024 * i) 1024 = enc_DirMeta (dmetas s i)"

definition fb_synced :: "fs \<Rightarrow> nat \<Rightarrow> bool" where
  "fb_synced s i \<longleftrightarrow> disk_read (k_disk (kern s)) (128004096 + 4096 * i) 4096 = enc_FileBlockMeta (bmetas s i)"

lemmas synced_defs = file_synced_def dir_synced_def fb_synced_def

text \<open>Everything but the structs listed is in step.\<close>

definition synced_but :: "nat set \<Rightarrow> nat set \<Rightarrow> nat set \<Rightarrow> fs \<Rightarrow> bool" where
  "synced_but F D B s \<longleftrightarrow> (\<forall>i < 100000. i \<notin> F \<longrightarrow> file_synced s i) \<and> (\<forall>i < 100000. i \<notin> D \<longrightarrow> dir_synced s i)
     \<and> (\<forall>i < 133554. i \<notin> B \<longrightarrow> fb_synced s i)
     \<and> disk_read (k_disk (kern s)) 0 4096 = enc_SuperBlockMeta (super_meta s)"

abbreviation meta_synced :: "fs \<Rightarrow> bool" where
  "meta_synced s \<equiv> synced_but {} {} {} s"

lemma synced_but_mono: "synced_but F D B s \<Longrightarrow> F \<subseteq> F' \<Longrightarrow> D \<subseteq> D' \<Longrightarrow> B \<subseteq> B' \<Longrightarrow> synced_but F' D' B' s"
  unfolding synced_but_def by blast

lemma synced_but_upd [simp]:
  "synced_but F D B s \<Longrightarrow> synced_but (insert i F) D B (upd_fmeta i f s)"
  "synced_but F D B s \<Longrightarrow> synced_but F (insert i D) B (upd_dmeta i g s)"
  "synced_but F D B s \<Longrightarrow> synced_but F D (insert i B) (upd_bmeta i h s)"
  by (auto simp: synced_but_def synced_defs fs_upd_defs)

text \<open>States that differ in nothing the predicate reads.\<close>

lemma synced_but_cong:
  assumes "fmetas t = fmetas s" "dmetas t = dmetas s" "bmetas t = bmetas s" "super_meta t = super_meta s"
    "k_disk (kern t) = k_disk (kern s)"
  shows "synced_but F D B t = synced_but F D B s"
  by (simp add: synced_but_def synced_defs assms)

section \<open>Write-back of one page\<close>

lemma fs_PwriteDirect_True:
  assumes "fs_PwriteDirect bs off s = (r, t)" "r = int (length bs)"
  shows "\<exists>k. t = s\<lparr>kern := k\<rparr> \<and> k_disk k = disk_write (k_disk (kern s)) (unat off) bs"
proof -
  obtain k where w: "Pwrite (dev_fd_direct (dev s)) (dev s) bs off (kern s) = (r, k)" and t: "t = s\<lparr>kern := k\<rparr>"
    using assms(1) by (auto simp: fs_PwriteDirect_def PwriteDirect_def split: prod.splits)
  from Pwrite_disk [OF w] assms(2) t show ?thesis by auto
qed

lemma file_page_address:
  assumes "formatted s" "fh < 100000"
  shows "unat (sb_file_meta_offset (super_meta s)
      + sb_file_meta_size (super_meta s) * ucast (FileHandle_PageAlignIndex s (word_of_nat fh)))
    = 102404096 + 256 * (fh - fh mod 16)"
proof -
  let ?a = "FileHandle_PageAlignIndex s (word_of_nat fh)"
  have a: "unat ?a = fh - fh mod 16" by (rule FileHandle_PageAlignIndex_eq [OF assms])
  have "unat (ucast ?a :: u64) = unat ?a"
    using unsigned_less [of ?a, where 'a = nat] by (simp add: unsigned_ucast_eq take_bit_nat_eq_self)
  then show ?thesis
    using formatted_fields [OF assms(1)] a assms(2) by (simp add: unat_word_ariths)
qed

lemma File_WriteMeta_fh_disk:
  assumes "formatted s" "fh < 100000" "File_WriteMeta_fh fh s = (True, t)"
  shows "\<exists>k. t = (file_crc fh s)\<lparr>kern := k\<rparr> \<and> k_disk k =
     disk_write (k_disk (kern s)) (102404096 + 256 * (fh - fh mod 16)) (file_page (file_crc fh s) (fh - fh mod 16))"
proof -
  let ?a = "FileHandle_PageAlignIndex s (word_of_nat fh)"
  let ?off = "sb_file_meta_offset (super_meta s) + sb_file_meta_size (super_meta s) * ucast ?a"
  have sm: "super_meta (file_crc fh s) = super_meta s" "kern (file_crc fh s) = kern s"
    by (simp_all add: file_crc_def upd_fmeta_def)
  obtain r where "fs_PwriteDirect (file_page (file_crc fh s) (unat ?a)) ?off (file_crc fh s) = (r, t)"
    "r = int (length (file_page (file_crc fh s) (unat ?a)))"
    using assms(3) sm by (auto simp: File_WriteMeta_fh_def Let_def layout_consts split: prod.splits)
  from fs_PwriteDirect_True [OF this] show ?thesis
    using file_page_address [OF assms(1,2)] FileHandle_PageAlignIndex_eq [OF assms(1,2)] sm by simp
qed

text \<open>A page write does not reach the structs of another page or of another region.\<close>

lemma File_WriteMeta_fh_synced:
  assumes fm: "formatted s" "fh < 100000" "File_WriteMeta_fh fh s = (True, t)" and sy: "synced_but F D B s"
  shows "synced_but (F - {i. i div 16 = fh div 16}) D B t"
    and "fm_crc (fmetas t fh) = crc32 t (body_FileMeta (fmetas t fh))"
proof -
  let ?a = "fh - fh mod 16" and ?c = "file_crc fh s"
  obtain k where t: "t = ?c\<lparr>kern := k\<rparr>"
    and "k_disk k = disk_write (k_disk (kern s)) (102404096 + 256 * ?a) (file_page ?c ?a)"
    using File_WriteMeta_fh_disk [OF fm] by blast
  then have d: "k_disk k = disk_write (k_disk (kern s)) (102404096 + 256 * ?a)
      (concat (map (\<lambda>i. enc_FileMeta (fmetas ?c i)) [?a..<?a + 16]))"
    by (simp add: file_page_def layout_consts)
  note out = files.page_outside [OF d fm(2)]
  have ot: "dmetas ?c = dmetas s" "bmetas ?c = bmetas s" "super_meta ?c = super_meta s"
    "\<And>i. i \<noteq> fh \<Longrightarrow> fmetas ?c i = fmetas s i"
    by (simp_all add: file_crc_def upd_fmeta_def)
  have "file_synced t i" if "i < 100000" "i \<notin> F - {i. i div 16 = fh div 16}" for i
    using files.page_write [OF d ot(4) _ that] sy by (simp add: synced_but_def file_synced_def t)
  then show "synced_but (F - {i. i div 16 = fh div 16}) D B t"
    using sy by (simp add: synced_but_def dir_synced_def fb_synced_def t ot out)
  show "fm_crc (fmetas t fh) = crc32 t (body_FileMeta (fmetas t fh))"
    by (simp add: t file_crc_def upd_fmeta_def body_FileMeta_def)
qed

text \<open>The same for directories, four to a page, and for file blocks, which fill one.\<close>

lemma DirHandle_PageAlignIndex_eq:
  assumes "formatted s" "dh < 100000"
  shows "unat (DirHandle_PageAlignIndex s (word_of_nat dh)) = dh - dh mod 4"
  using page_align [of dh 4] formatted_fields [OF assms(1)] assms(2)
  by (simp add: DirHandle_PageAlignIndex_def layout_consts)

lemma length_dir_page [simp]: "length (dir_page s a) = 4096"
  by (simp add: dir_page_def length_concat o_def layout_consts sum_list_triv)

lemma Directory_WriteMeta_disk:
  assumes "formatted s" "Dir_dh s d < 100000" "d_meta (dobj s d) = Dir_dh s d" "Directory_WriteMeta d s = (True, t)"
    and "a = Dir_dh s d - Dir_dh s d mod 4"
  shows "\<exists>k. t = (dir_crc (Dir_dh s d) s)\<lparr>kern := k\<rparr> \<and> k_disk k =
     disk_write (k_disk (kern s)) (4096 + 1024 * a) (dir_page (dir_crc (Dir_dh s d) s) a)"
proof -
  let ?dh = "Dir_dh s d"
  let ?a = "DirHandle_PageAlignIndex s (word_of_nat ?dh)" and ?c = "dir_crc ?dh s"
  let ?off = "sb_dir_meta_offset (super_meta s) + sb_dir_meta_size (super_meta s) * ucast ?a"
  have a: "unat ?a = a" using DirHandle_PageAlignIndex_eq [OF assms(1,2)] assms(5) by simp
  have "unat (ucast ?a :: u64) = unat ?a"
    using unsigned_less [of ?a, where 'a = nat] by (simp add: unsigned_ucast_eq take_bit_nat_eq_self)
  then have off: "unat ?off = 4096 + 1024 * a"
    using formatted_fields [OF assms(1)] a assms(2,5) by (simp add: unat_word_ariths)
  have sm: "super_meta ?c = super_meta s" "kern ?c = kern s" by (simp_all add: dir_crc_def upd_dmeta_def)
  obtain r where "fs_PwriteDirect (dir_page ?c (unat ?a)) ?off ?c = (r, t)" "r = int (length (dir_page ?c (unat ?a)))"
    using assms(3,4) sm by (auto simp: Directory_WriteMeta_def Let_def layout_consts split: prod.splits)
  from fs_PwriteDirect_True [OF this] show ?thesis using off a sm by simp
qed

lemma Directory_WriteMeta_synced:
  assumes fm: "formatted s" "Dir_dh s d < 100000" "d_meta (dobj s d) = Dir_dh s d"
    and w: "Directory_WriteMeta d s = (True, t)" and sy: "synced_but F D B s"
  shows "synced_but F (D - {i. i div 4 = Dir_dh s d div 4}) B t"
proof -
  let ?dh = "Dir_dh s d"
  let ?a = "?dh - ?dh mod 4" and ?c = "dir_crc ?dh s"
  obtain k where t: "t = ?c\<lparr>kern := k\<rparr>"
    and "k_disk k = disk_write (k_disk (kern s)) (4096 + 1024 * ?a) (dir_page ?c ?a)"
    using Directory_WriteMeta_disk [OF fm w refl] by blast
  then have d: "k_disk k = disk_write (k_disk (kern s)) (4096 + 1024 * ?a)
      (concat (map (\<lambda>i. enc_DirMeta (dmetas ?c i)) [?a..<?a + 4]))"
    by (simp add: dir_page_def layout_consts)
  note out = dirs.page_outside [OF d fm(2)]
  have ot: "fmetas ?c = fmetas s" "bmetas ?c = bmetas s" "super_meta ?c = super_meta s"
    "\<And>i. i \<noteq> ?dh \<Longrightarrow> dmetas ?c i = dmetas s i"
    by (simp_all add: dir_crc_def upd_dmeta_def)
  have "dir_synced t i" if "i < 100000" "i \<notin> D - {i. i div 4 = ?dh div 4}" for i
    using dirs.page_write [OF d ot(4) _ that] sy by (simp add: synced_but_def dir_synced_def t)
  then show ?thesis
    using sy by (simp add: synced_but_def file_synced_def fb_synced_def t ot out)
qed

lemma FileBlock_WriteMeta_disk:
  assumes fm: "formatted s" "fb < 133554" and w: "FileBlock_WriteMeta fb s = (True, t)"
  defines "c \<equiv> upd_bmeta fb (\<lambda>m. m\<lparr>fb_crc := crc32 s (body_FileBlockMeta (bmetas s fb))\<rparr>) s"
  shows "\<exists>k. t = c\<lparr>kern := k\<rparr> \<and> k_disk k = disk_write (k_disk (kern s)) (128004096 + 4096 * (fb - fb mod 1))
      (concat (map (\<lambda>i. enc_FileBlockMeta (bmetas c i)) [fb - fb mod 1..<fb - fb mod 1 + 1]))"
proof -
  let ?c = "upd_bmeta fb (\<lambda>m. m\<lparr>fb_crc := crc32 s (body_FileBlockMeta (bmetas s fb))\<rparr>) s"
  let ?off = "sb_file_block_meta_offset (super_meta s) + sb_file_block_meta_size (super_meta s) * word_of_nat fb"
  have off: "unat ?off = 128004096 + 4096 * fb"
    using formatted_fields [OF fm(1)] fm(2) by (simp add: unat_word_ariths unat_of_nat)
  have sm: "super_meta ?c = super_meta s" "kern ?c = kern s" by (simp_all add: upd_bmeta_def)
  obtain r where "fs_PwriteDirect (enc_FileBlockMeta (bmetas ?c fb)) ?off ?c = (r, t)"
    "r = int (length (enc_FileBlockMeta (bmetas ?c fb)))"
    using w sm(1) formatted_fields(7) [OF fm(1)]
    by (auto simp: FileBlock_WriteMeta_def Let_def split: prod.splits)
  from fs_PwriteDirect_True [OF this] obtain k where t: "t = ?c\<lparr>kern := k\<rparr>"
    and d: "k_disk k = disk_write (k_disk (kern s)) (128004096 + 4096 * fb) (enc_FileBlockMeta (bmetas ?c fb))"
    using off sm(2) by auto
  then show ?thesis unfolding c_def by (intro exI [of _ k]) simp
qed

lemma FileBlock_WriteMeta_synced:
  assumes fm: "formatted s" "fb < 133554" and w: "FileBlock_WriteMeta fb s = (True, t)" and sy: "synced_but F D B s"
  shows "synced_but F D (B - {fb}) t"
proof -
  let ?c = "upd_bmeta fb (\<lambda>m. m\<lparr>fb_crc := crc32 s (body_FileBlockMeta (bmetas s fb))\<rparr>) s"
  have sm: "super_meta ?c = super_meta s" "kern ?c = kern s" "fmetas ?c = fmetas s" "dmetas ?c = dmetas s"
    "\<And>i. i \<noteq> fb \<Longrightarrow> bmetas ?c i = bmetas s i" by (simp_all add: upd_bmeta_def)
  obtain k where t: "t = ?c\<lparr>kern := k\<rparr>"
    and d: "k_disk k = disk_write (k_disk (kern s)) (128004096 + 4096 * (fb - fb mod 1))
      (concat (map (\<lambda>i. enc_FileBlockMeta (bmetas ?c i)) [fb - fb mod 1..<fb - fb mod 1 + 1]))"
    using FileBlock_WriteMeta_disk [OF fm w] by blast
  note out = fbs.page_outside [OF d fm(2)]
  have "fb_synced t i" if "i < 133554" "i \<notin> B - {fb}" for i
    using fbs.page_write [OF d sm(5) _ that(1), of B] that(2) sy by (simp add: synced_but_def fb_synced_def t)
  then show ?thesis
    using sy by (simp add: synced_but_def file_synced_def dir_synced_def t sm out)
qed

section \<open>Growing a file keeps the metadata area in step\<close>

lemma ExtendFile_synced:
  assumes fm: "formatted s" and sy: "meta_synced s" and ex: "blocks_exclusive s" and wf: "file_wf s f"
    and fh: "File_fh s f < 100000" "f_meta (fobj s f) = File_fh s f" and rg: "fbs_in_range s f"
    and lt: "File_file_size s f < off" "off \<le> kBlockFsMaxUDiskSize"
    and e: "ExtendFile f off s = Some (0, t)"
  shows "meta_synced t"
  using ex file_wf_items_used [OF wf] e
proof (cases rule: ExtendFile_cases)
  case (filled fb ids s4)
  let ?nw = "File_file_size s f = 0"
  have fb: "fb < 133554"
    using filled(7,8) rg by (cases ?nw) (auto simp: fbs_in_range_def dest!: map_of_SomeD)
  have fm4: "formatted s4" using fm filled(12,13) by (simp add: formatted_def)
  have sy4: "synced_but {} {} {fb} s4"
    using sy filled(3,6,11,12,14) by (auto simp: synced_but_def synced_defs)
  have ids: "ids \<noteq> []" if ?nw
  proof -
    have "0 < ceil_blocks (unat off)" using lt that by (intro ceil_blocks_pos) (auto simp: word_less_nat_alt)
    then show ?thesis using that filled(5) unat_num_blocks_needed [OF _ lt(2), of 0] lt(1) by auto
  qed
  obtain s5 where w5: "(if ids = [] then (True, s4) else FileBlock_WriteMeta fb s4) = (True, s5)"
    using filled(10) by (auto simp: extend_persist_def Let_def split: prod.splits if_splits)
  have sy5: "meta_synced s5"
  proof (cases "ids = []")
    case True
    then have "s5 = s4" "bmetas s4 = bmetas s" using w5 ids filled(16) by auto
    then show ?thesis using sy filled(3,11,12,14) synced_but_cong [of s4 s] by simp
  next
    case False
    then show ?thesis using FileBlock_WriteMeta_synced [OF fm4 fb _ sy4] w5 by simp
  qed
  have f5: "fobj s5 = fobj s" "fmetas s5 = fmetas s" "super_meta s5 = super_meta s" "dev s5 = dev s"
    using w5 FileBlock_WriteMeta_frame [of fb s4 True s5] filled(2,3,12,13)
    by (auto simp: upd_bmeta_def split: if_splits)
  define s5' where "s5' = (if ids \<noteq> [] \<and> ?nw then snd (AddFileBlockNoLock f fb s5) else s5)"
  have f5': "fmetas s5' = fmetas s" "super_meta s5' = super_meta s" "dev s5' = dev s" "f_meta (fobj s5' f) = f_meta (fobj s f)"
    "dmetas s5' = dmetas s5" "bmetas s5' = bmetas s5" "kern s5' = kern s5"
    using f5 by (auto simp: s5'_def AddFileBlockNoLock_def upd_file_def Let_def)
  have sy5': "meta_synced s5'" using sy5 f5 f5' synced_but_cong [of s5' s5] by simp
  define s6 where "s6 = File_set_file_size f off s5'"
  have w6: "File_WriteMeta_fh (File_fh s6 f) s6 = (True, t)"
    using filled(10) w5 by (auto simp: extend_persist_def Let_def s6_def s5'_def File_WriteMeta_def
        split: prod.splits if_splits)
  have fh6: "File_fh s6 f = File_fh s f"
    using f5' by (simp add: s6_def File_set_file_size_def obj_acc_defs upd_fmeta_def)
  have "formatted s6" using fm f5' by (simp add: formatted_def s6_def File_set_file_size_def upd_fmeta_def)
  moreover have "synced_but {File_fh s f} {} {} s6"
    using synced_but_upd(1) [OF sy5'] fh(2) f5'(4) by (simp add: s6_def File_set_file_size_def)
  ultimately have "synced_but ({File_fh s f} - {i. i div 16 = File_fh s f div 16}) {} {} t"
    using File_WriteMeta_fh_synced(1) [OF _ _ w6] fh6 fh(1) by metis
  then show ?thesis by (rule synced_but_mono) auto
qed simp

section \<open>Reading the metadata area back\<close>

text \<open>The metadata area of a disk holds these structs.\<close>

definition disk_image :: "(nat \<Rightarrow> u8) \<Rightarrow> SuperBlockMeta \<Rightarrow> (nat \<Rightarrow> DirMeta) \<Rightarrow> (nat \<Rightarrow> FileMeta) \<Rightarrow> (nat \<Rightarrow> FileBlockMeta) \<Rightarrow> bool" where
  "disk_image d sm dm fm bm \<longleftrightarrow> disk_read d 0 4096 = enc_SuperBlockMeta sm
     \<and> (\<forall>i < 100000. disk_read d (4096 + 1024 * i) 1024 = enc_DirMeta (dm i))
     \<and> (\<forall>i < 100000. disk_read d (102404096 + 256 * i) 256 = enc_FileMeta (fm i))
     \<and> (\<forall>i < 133554. disk_read d (128004096 + 4096 * i) 4096 = enc_FileBlockMeta (bm i))"

lemma meta_synced_image: "meta_synced s \<longleftrightarrow> disk_image (k_disk (kern s)) (super_meta s) (dmetas s) (fmetas s) (bmetas s)"
  by (auto simp: synced_but_def synced_defs disk_image_def)

definition wf_metas :: "SuperBlockMeta \<Rightarrow> (nat \<Rightarrow> DirMeta) \<Rightarrow> (nat \<Rightarrow> FileMeta) \<Rightarrow> (nat \<Rightarrow> FileBlockMeta) \<Rightarrow> bool" where
  "wf_metas sm dm fm bm \<longleftrightarrow> wf_SuperBlockMeta sm \<and> (\<forall>i < 100000. wf_DirMeta (dm i) \<and> wf_FileMeta (fm i))
     \<and> (\<forall>i < 133554. wf_FileBlockMeta (bm i))"

lemma fs_PreadDirect_ok:
  assumes "io_ok s" "in_dev (dev s) (unat off) (unat n)" "0 < unat n"
  obtains k where
    "fs_PreadDirect n off s = ((int (unat n), disk_read (k_disk (kern s)) (unat off) (unat n)), s\<lparr>kern := k\<rparr>)"
    "k_disk k = k_disk (kern s)" "benign (k_script k)"
  using Pread_ok [of "dev s" "dev_fd_direct (dev s)" "kern s" off n] assms
  by (auto simp: io_ok_def dev_ok_def fs_PreadDirect_def dev_io_defs)

lemma ShmManager_Initialize_image:
  assumes im: "disk_image (k_disk (kern s)) sm dm fm bm" and wf: "wf_metas sm dm fm bm"
    and io: "io_ok s" and sz: "675282944 \<le> unat (dev_size (dev s))"
    and sm: "sm = (SuperBlock_layout n)\<lparr>sb_crc := crc32 s (body_SuperBlockMeta (SuperBlock_layout n))\<rparr>"
  shows "\<exists>k d f b. ShmManager_Initialize s = (True, s\<lparr>kern := k, super_meta := sm, dmetas := d, fmetas := f, bmetas := b\<rparr>)
     \<and> k_disk k = k_disk (kern s) \<and> benign (k_script k)
     \<and> (\<forall>i < 100000. d i = dm i \<and> f i = fm i) \<and> (\<forall>i. b i = (if i < 133554 then bm i else FileBlockMeta_zero))"
proof -
  have "in_dev (dev s) (unat (0::u64)) (unat (4096::u64))" "0 < unat (4096::u64)" using sz by (simp_all add: in_dev_def)
  from fs_PreadCache_ok [OF io this] obtain k1 where
    k1: "fs_PreadCache 4096 0 s = ((4096, disk_read (k_disk (kern s)) 0 4096), s\<lparr>kern := k1\<rparr>)"
      "k_disk k1 = k_disk (kern s)" "benign (k_script k1)" by auto
  let ?s1 = "s\<lparr>kern := k1\<rparr>"
  have dec: "dec_SuperBlockMeta (disk_read (k_disk (kern s)) 0 4096) = sm"
    using im wf by (simp add: disk_image_def wf_metas_def)
  have p: "PrefetchSuperMeta s = (Some sm, ?s1)"
    using k1(1) dec sm by (simp add: PrefetchSuperMeta_def PrefetchSuperMeta_dev_def layout_consts)
  have io1: "io_ok ?s1" using io k1(3) by (simp add: io_ok_def)
  have "in_dev (dev ?s1) (unat (0::u64)) (unat (675282944::u64))" "0 < unat (675282944::u64)"
    using sz by (simp_all add: in_dev_def)
  from fs_PreadDirect_ok [OF io1 this] obtain k2 where
    k2: "fs_PreadDirect 675282944 0 ?s1 = ((675282944, disk_read (k_disk (kern s)) 0 675282944), s\<lparr>kern := k2\<rparr>)"
      "k_disk k2 = k_disk (kern s)" "benign (k_script k2)" using k1(2) by auto
  let ?bs = "disk_read (k_disk (kern s)) 0 675282944"
  have r: "ShmManager_Initialize s = (True, regist_meta sm ?bs (s\<lparr>kern := k2\<rparr>))"
    using p k2(1) sm by (simp add: ShmManager_Initialize_def fs_PreadDirect_all_def)
  have s0: "dec_SuperBlockMeta (slice 0 4096 ?bs) = sm" using dec by (simp add: slice_disk_read)
  have dd: "dec_DirMeta (slice (4096 + 1024 * i) 1024 ?bs) = dm i" if "i < 100000" for i
    by (rule dirs.load) (use im wf that in \<open>auto simp: disk_image_def wf_metas_def\<close>)
  have ff: "dec_FileMeta (slice (102404096 + 256 * i) 256 ?bs) = fm i" if "i < 100000" for i
    by (rule files.load) (use im wf that in \<open>auto simp: disk_image_def wf_metas_def\<close>)
  have bb: "dec_FileBlockMeta (slice (128004096 + 4096 * i) 4096 ?bs) = bm i" if "i < 133554" for i
    by (rule fbs.load) (use im wf that in \<open>auto simp: disk_image_def wf_metas_def\<close>)
  have "unat (sb_dir_meta_offset sm) = 4096" "unat (sb_file_meta_offset sm) = 102404096"
    "unat (sb_file_block_meta_offset sm) = 128004096" "unat kSuperBlockOffset = 0"
    "unat (sb_max_file_num sm) = 100000" "unat (sb_max_file_block_num sm) = 133554"
    using sm by (simp_all add: layout_consts)
  note o = this
  have "regist_meta sm ?bs (s\<lparr>kern := k2\<rparr>) = s\<lparr>kern := k2, super_meta := sm,
      dmetas := \<lambda>i. if i < 100000 then dec_DirMeta (slice (4096 + 1024 * i) 1024 ?bs) else DirMeta_zero,
      fmetas := \<lambda>i. if i < 100000 then dec_FileMeta (slice (102404096 + 256 * i) 256 ?bs) else FileMeta_zero,
      bmetas := \<lambda>i. if i < 133554 then dec_FileBlockMeta (slice (128004096 + 4096 * i) 4096 ?bs) else FileBlockMeta_zero\<rparr>"
    unfolding regist_meta_def o s0 ..
  then show ?thesis using r dd ff bb k2(2,3) by (intro exI conjI) auto
qed

section \<open>Formatting\<close>

text \<open>One metadata region, formatted in a single write of the whole region.\<close>

lemma region_format:
  fixes g :: "nat \<Rightarrow> u8 list" and tt :: u64
  assumes io: "io_ok s" and len: "\<And>i. length (g i) = n" and tot: "unat tt = n * m" "0 < n * m"
    and fit: "unat off + n * m \<le> 675282944" and sz: "675282944 \<le> unat (dev_size (dev s))"
  shows "\<exists>k. fs_PwriteDirect (fit (unat tt) 0 (concat (map g [0..<m]))) off s = (int (unat tt), s\<lparr>kern := k\<rparr>)
     \<and> benign (k_script k) \<and> (\<forall>i < m. disk_read (k_disk k) (unat off + n * i) n = g i)
     \<and> (\<forall>p l. p + l \<le> unat off \<or> unat off + n * m \<le> p \<longrightarrow> disk_read (k_disk k) p l = disk_read (k_disk (kern s)) p l)"
proof -
  let ?bs = "concat (map g [0..<m])"
  have l: "length ?bs = n * m" using length_concat_upt [of g n 0 m] len by simp
  then have f: "fit (unat tt) 0 ?bs = ?bs" using tot(1) by (simp add: fit_def)
  have "in_dev (dev s) (unat off) (length ?bs)" using fit sz l by (simp add: in_dev_def)
  moreover have "?bs \<noteq> []" using l tot(2) by (metis length_0_conv less_numeral_extra(3))
  ultimately obtain k where k: "fs_PwriteDirect ?bs off s = (int (length ?bs), s\<lparr>kern := k\<rparr>)"
    "k_disk k = disk_write (k_disk (kern s)) (unat off) ?bs" "benign (k_script k)"
    by (rule fs_PwriteDirect_ok [OF io])
  have "disk_read (k_disk k) (unat off + n * i) n = g i" if "i < m" for i
    using page_write_read [of g n 0 i m "k_disk (kern s)" "unat off"] len that k(2) by simp
  moreover have "disk_read (k_disk k) p q = disk_read (k_disk (kern s)) p q"
    if "p + q \<le> unat off \<or> unat off + n * m \<le> p" for p q
    unfolding k(2) by (rule disk_read_write_disjoint) (use that l in simp)
  ultimately show ?thesis using k f l tot(1) by auto
qed

lemma wf_format:
  "wf_DirMeta (format_dmeta c i)" "wf_FileMeta (format_fmeta c i)" "wf_FileBlockMeta (format_bmeta c i)"
  by (simp_all add: format_dmeta_def format_fmeta_def format_bmeta_def DirMeta_zero_def FileMeta_zero_def
      FileBlockMeta_zero_def wf_DirMeta_def wf_FileMeta_def wf_FileBlockMeta_def Let_def)

lemma format_crc:
  "dm_crc (format_dmeta c i) = c (body_DirMeta (format_dmeta c i))"
  "fm_crc (format_fmeta c i) = c (body_FileMeta (format_fmeta c i))"
  "fb_crc (format_bmeta c i) = c (body_FileBlockMeta (format_bmeta c i))"
  by (simp_all add: format_dmeta_def format_fmeta_def format_bmeta_def body_DirMeta_def body_FileMeta_def
      body_FileBlockMeta_def Let_def)

lemma format_unused:
  "\<not> dm_used (format_dmeta c i)" "\<not> fm_used (format_fmeta c i)" "\<not> fb_used (format_bmeta c i)"
  by (simp_all add: format_dmeta_def format_fmeta_def format_bmeta_def DirMeta_zero_def FileMeta_zero_def
      FileBlockMeta_zero_def Let_def)

definition format_super :: "fs \<Rightarrow> SuperBlockMeta" where
  "format_super s = (SuperBlock_layout (dev_size (dev s)))
     \<lparr>sb_crc := crc32 s (body_SuperBlockMeta (SuperBlock_layout (dev_size (dev s))))\<rparr>"

lemma FileSystem_FormatAll_image:
  assumes io: "io_ok s" and sz: "675282944 \<le> unat (dev_size (dev s))"
  shows "\<exists>k. FileSystem_FormatAll s = (True, s\<lparr>super_meta := format_super s, kern := k\<rparr>) \<and> benign (k_script k)
     \<and> disk_image (k_disk k) (format_super s) (format_dmeta (crc32 s)) (format_fmeta (crc32 s)) (format_bmeta (crc32 s))"
proof -
  let ?m = "format_super s" and ?c = "crc32 s"
  have flds: "sb_dir_meta_offset ?m = 4096" "sb_file_meta_offset ?m = 102404096" "sb_file_block_meta_offset ?m = 128004096"
    "sb_dir_meta_total_size ?m = 102400000" "sb_file_meta_total_size ?m = 25600000"
    "sb_file_block_meta_total_size ?m = 547037184" "sb_max_file_num ?m = 100000" "sb_max_file_block_num ?m = 133554"
    by (simp_all add: format_super_def)
  let ?s0 = "s\<lparr>super_meta := ?m\<rparr>"
  have io0: "io_ok ?s0" using io by (simp add: io_ok_def)
  have "in_dev (dev ?s0) (unat (0::u64)) (length (enc_SuperBlockMeta ?m))" "enc_SuperBlockMeta ?m \<noteq> []"
    using sz length_enc_SuperBlockMeta [of ?m] by (auto simp: in_dev_def simp del: length_enc_SuperBlockMeta)
  from fs_PwriteDirect_ok [OF io0 this(1)] this(2) obtain k1 where
    k1: "fs_PwriteDirect (enc_SuperBlockMeta ?m) 0 ?s0 = (4096, ?s0\<lparr>kern := k1\<rparr>)"
      "k_disk k1 = disk_write (k_disk (kern s)) 0 (enc_SuperBlockMeta ?m)" "benign (k_script k1)" by auto
  let ?s1 = "?s0\<lparr>kern := k1\<rparr>"
  have r1: "SuperBlock_FormatAllMeta s = (True, ?s1)"
    using k1(1) unfolding SuperBlock_FormatAllMeta_def Let_def format_super_def [symmetric]
    by (simp add: layout_consts)
  have sup1: "disk_read (k_disk k1) 0 4096 = enc_SuperBlockMeta ?m"
    using disk_read_write_same [of "k_disk (kern s)" 0 "enc_SuperBlockMeta ?m"] k1(2) by simp
  have io1: "io_ok ?s1" "675282944 \<le> unat (dev_size (dev ?s1))" using io sz k1(3) by (simp_all add: io_ok_def)
  obtain k2 where k2: "fs_PwriteDirect (fit (unat (102400000::u64)) 0 (concat (map (\<lambda>i. enc_DirMeta (format_dmeta ?c i)) [0..<100000]))) 4096 ?s1
        = (int (unat (102400000::u64)), ?s1\<lparr>kern := k2\<rparr>)" "benign (k_script k2)"
      "\<forall>i < 100000. disk_read (k_disk k2) (unat (4096::u64) + 1024 * i) 1024 = enc_DirMeta (format_dmeta ?c i)"
      "\<forall>p l. p + l \<le> unat (4096::u64) \<or> unat (4096::u64) + 1024 * 100000 \<le> p \<longrightarrow> disk_read (k_disk k2) p l = disk_read (k_disk (kern ?s1)) p l"
    using region_format [OF io1(1), of "\<lambda>i. enc_DirMeta (format_dmeta ?c i)" 1024 102400000 100000 4096] io1(2) by auto
  let ?s2 = "?s1\<lparr>kern := k2\<rparr>"
  have r2: "DirHandle_FormatAllMeta ?s1 = (True, ?s2)"
    using k2(1) by (simp add: DirHandle_FormatAllMeta_def flds)
  have io2: "io_ok ?s2" "675282944 \<le> unat (dev_size (dev ?s2))" using io sz k2(2) by (simp_all add: io_ok_def)
  obtain k3 where k3: "fs_PwriteDirect (fit (unat (25600000::u64)) 0 (concat (map (\<lambda>i. enc_FileMeta (format_fmeta ?c i)) [0..<100000]))) 102404096 ?s2
        = (int (unat (25600000::u64)), ?s2\<lparr>kern := k3\<rparr>)" "benign (k_script k3)"
      "\<forall>i < 100000. disk_read (k_disk k3) (unat (102404096::u64) + 256 * i) 256 = enc_FileMeta (format_fmeta ?c i)"
      "\<forall>p l. p + l \<le> unat (102404096::u64) \<or> unat (102404096::u64) + 256 * 100000 \<le> p \<longrightarrow> disk_read (k_disk k3) p l = disk_read (k_disk (kern ?s2)) p l"
    using region_format [OF io2(1), of "\<lambda>i. enc_FileMeta (format_fmeta ?c i)" 256 25600000 100000 102404096] io2(2) by auto
  let ?s3 = "?s2\<lparr>kern := k3\<rparr>"
  have r3: "FileHandle_FormatAllMeta ?s2 = (True, ?s3)"
    using k3(1) by (simp add: FileHandle_FormatAllMeta_def flds)
  have io3: "io_ok ?s3" "675282944 \<le> unat (dev_size (dev ?s3))" using io sz k3(2) by (simp_all add: io_ok_def)
  obtain k4 where k4: "fs_PwriteDirect (fit (unat (547037184::u64)) 0 (concat (map (\<lambda>i. enc_FileBlockMeta (format_bmeta ?c i)) [0..<133554]))) 128004096 ?s3
        = (int (unat (547037184::u64)), ?s3\<lparr>kern := k4\<rparr>)" "benign (k_script k4)"
      "\<forall>i < 133554. disk_read (k_disk k4) (unat (128004096::u64) + 4096 * i) 4096 = enc_FileBlockMeta (format_bmeta ?c i)"
      "\<forall>p l. p + l \<le> unat (128004096::u64) \<or> unat (128004096::u64) + 4096 * 133554 \<le> p \<longrightarrow> disk_read (k_disk k4) p l = disk_read (k_disk (kern ?s3)) p l"
    using region_format [OF io3(1), of "\<lambda>i. enc_FileBlockMeta (format_bmeta ?c i)" 4096 547037184 133554 128004096] io3(2) by auto
  have r4: "FileBlockHandle_FormatAllMeta ?s3 = (True, ?s3\<lparr>kern := k4\<rparr>)"
    using k4(1) by (simp add: FileBlockHandle_FormatAllMeta_def flds)
  have "FileSystem_FormatAll s = (True, s\<lparr>super_meta := ?m, kern := k4\<rparr>)"
    using r1 r2 r3 r4 by (simp add: FileSystem_FormatAll_def)
  moreover have "disk_image (k_disk k4) ?m (format_dmeta ?c) (format_fmeta ?c) (format_bmeta ?c)"
    using sup1 k2(3,4) k3(3,4) k4(3,4) by (simp add: disk_image_def)
  ultimately show ?thesis using k4(2) by blast
qed

section \<open>Mounting a formatted device\<close>

text \<open>Unused structs with a correct checksum go to the free lists, in order.\<close>

lemma init_dirs_free:
  assumes "\<forall>i \<in> set is. dm_crc (dmetas s i) = crc32 s (body_DirMeta (dmetas s i)) \<and> \<not> dm_used (dmetas s i)"
  shows "init_dirs is s = (True, s\<lparr>free_dhs := free_dhs s @ is\<rparr>)"
  using assms by (induction "is" arbitrary: s) (auto simp: Let_def)

lemma init_files_free:
  assumes "\<forall>i \<in> set is. fm_crc (fmetas s i) = crc32 s (body_FileMeta (fmetas s i)) \<and> \<not> fm_used (fmetas s i)"
  shows "init_files is s = (True, s\<lparr>free_fhs := free_fhs s @ is\<rparr>)"
  using assms by (induction "is" arbitrary: s) (auto simp: Let_def AddFile2FreeNolock_def)

lemma init_fbs_free:
  assumes "\<forall>i \<in> set is. fb_crc (bmetas s i) = crc32 s (body_FileBlockMeta (bmetas s i)) \<and> \<not> fb_used (bmetas s i)"
  shows "init_fbs is s = Some (True, s\<lparr>free_fbhs := free_fbhs s @ is\<rparr>)"
  using assms by (induction "is" arbitrary: s) (auto simp: Let_def)

text \<open>A checksum that does not match stops the mount.\<close>

lemma init_dirs_crc:
  assumes "i \<in> set is" "dm_crc (dmetas s i) \<noteq> crc32 s (body_DirMeta (dmetas s i))"
  shows "fst (init_dirs is s) = False"
  using assms
proof (induction "is" arbitrary: s)
  case Nil
  then show ?case by simp
next
  case (Cons j js)
  show ?case
  proof (cases "i = j")
    case True
    then show ?thesis using Cons.prems(2) by (simp add: Let_def)
  next
    case False
    then have i: "i \<in> set js" using Cons.prems(1) by simp
    have keep: "dmetas t = dmetas s \<Longrightarrow> crc32 t = crc32 s \<Longrightarrow> \<not> fst (init_dirs js t)" for t
      using Cons.IH [OF i, of t] Cons.prems(2) by simp
    show ?thesis
      by (simp add: Let_def new_dir_def AddDirectory2CreateNolock_def keep)
  qed
qed

definition empty_tables :: "fs \<Rightarrow> bool" where
  "empty_tables s \<longleftrightarrow> free_dhs s = [] \<and> created_dirs s = [] \<and> created_dhs s = [] \<and> free_fhs s = []
     \<and> created_files s = [] \<and> created_fhs s = [] \<and> free_fbhs s = [] \<and> block_handle s = BlockHandle_new"

lemma FileSystem_InitializeMeta_fresh:
  assumes e: "empty_tables s" and fm: "formatted s" "SuperBlock_InitializeMeta s = (True, s)"
    and d: "\<forall>i < 100000. dmetas s i = format_dmeta (crc32 s) i \<and> fmetas s i = format_fmeta (crc32 s) i"
    and b: "\<forall>i < 133554. bmetas s i = format_bmeta (crc32 s) i"
  shows "FileSystem_InitializeMeta s = Some (True, s\<lparr>free_dhs := [0..<100000], free_fhs := [0..<100000],
     free_fbhs := [0..<133554], block_handle := snd (BlockHandle_InitializeMeta (sb_curr_block_num (super_meta s)) BlockHandle_new)\<rparr>)"
proof -
  let ?h = "snd (BlockHandle_InitializeMeta (sb_curr_block_num (super_meta s)) BlockHandle_new)"
  have n: "unat (sb_max_file_num (super_meta s)) = 100000" "unat (sb_max_file_block_num (super_meta s)) = 133554"
    using formatted_fields [OF fm(1)] by simp_all
  let ?s1 = "s\<lparr>block_handle := ?h\<rparr>" and ?s2 = "s\<lparr>block_handle := ?h, free_dhs := [0..<100000]\<rparr>"
  let ?s3 = "?s2\<lparr>free_fhs := [0..<100000]\<rparr>"
  have "init_dirs [0..<100000] ?s1 = (True, ?s1\<lparr>free_dhs := free_dhs ?s1 @ [0..<100000]\<rparr>)"
    by (rule init_dirs_free) (use d format_crc format_unused in simp)
  then have r1: "DirHandle_InitializeMeta ?s1 = (True, ?s2)"
    using e n by (simp add: DirHandle_InitializeMeta_def empty_tables_def)
  have "init_files [0..<100000] ?s2 = (True, ?s2\<lparr>free_fhs := free_fhs ?s2 @ [0..<100000]\<rparr>)"
    by (rule init_files_free) (use d format_crc format_unused in simp)
  then have r2: "FileHandle_InitializeMeta ?s2 = (True, ?s3)"
    using e n by (simp add: FileHandle_InitializeMeta_def empty_tables_def)
  have "init_fbs [0..<133554] ?s3 = Some (True, ?s3\<lparr>free_fbhs := free_fbhs ?s3 @ [0..<133554]\<rparr>)"
    by (rule init_fbs_free) (use b format_crc format_unused in simp)
  then have r3: "FileBlockHandle_InitializeMeta ?s3 = Some (True, ?s3\<lparr>free_fbhs := [0..<133554]\<rparr>)"
    using e n by (simp add: FileBlockHandle_InitializeMeta_def empty_tables_def)
  have bh: "block_handle s = BlockHandle_new" using e by (simp add: empty_tables_def)
  obtain ok h where B: "BlockHandle_InitializeMeta (sb_curr_block_num (super_meta s)) BlockHandle_new = (ok, h)"
    by fastforce
  show ?thesis
    using fm(2) r1 r2 r3 by (simp add: FileSystem_InitializeMeta_def bh B)
qed

text \<open>Loading a freshly formatted metadata area into empty tables.\<close>

definition fresh_tables :: "fs \<Rightarrow> kernel \<Rightarrow> SuperBlockMeta \<Rightarrow> (nat \<Rightarrow> DirMeta) \<Rightarrow> (nat \<Rightarrow> FileMeta) \<Rightarrow> (nat \<Rightarrow> FileBlockMeta) \<Rightarrow> fs" where
  "fresh_tables s k sm dm fm bm = s\<lparr>kern := k, super_meta := sm, dmetas := dm, fmetas := fm, bmetas := bm,
     free_dhs := [0..<100000], free_fhs := [0..<100000], free_fbhs := [0..<133554],
     block_handle := snd (BlockHandle_InitializeMeta (sb_curr_block_num sm) BlockHandle_new)\<rparr>"

lemma load_fresh:
  assumes e: "empty_tables s" and io: "io_ok s" and sz: "675282944 \<le> unat (dev_size (dev s))"
    and sm: "sm = (SuperBlock_layout (dev_size (dev s)))\<lparr>sb_crc := crc32 s (body_SuperBlockMeta (SuperBlock_layout (dev_size (dev s))))\<rparr>"
    and im: "disk_image (k_disk (kern s)) sm (format_dmeta (crc32 s)) (format_fmeta (crc32 s)) (format_bmeta (crc32 s))"
  shows "\<exists>k dm fm bm t. ShmManager_Initialize s = (True, t)
     \<and> FileSystem_InitializeMeta t = Some (True, fresh_tables s k sm dm fm bm)
     \<and> k_disk k = k_disk (kern s) \<and> benign (k_script k)
     \<and> (\<forall>i < 100000. dm i = format_dmeta (crc32 s) i \<and> fm i = format_fmeta (crc32 s) i)
     \<and> (\<forall>i. bm i = (if i < 133554 then format_bmeta (crc32 s) i else FileBlockMeta_zero))"
proof -
  have wf: "wf_metas sm (format_dmeta (crc32 s)) (format_fmeta (crc32 s)) (format_bmeta (crc32 s))"
    by (simp add: wf_metas_def wf_format wf_SuperBlock_layout sm)
  from ShmManager_Initialize_image [OF im wf io sz sm] obtain k dm fm bm where
    m: "ShmManager_Initialize s = (True, s\<lparr>kern := k, super_meta := sm, dmetas := dm, fmetas := fm, bmetas := bm\<rparr>)"
      "k_disk k = k_disk (kern s)" "benign (k_script k)"
      "\<forall>i < 100000. dm i = format_dmeta (crc32 s) i \<and> fm i = format_fmeta (crc32 s) i"
      "\<forall>i. bm i = (if i < 133554 then format_bmeta (crc32 s) i else FileBlockMeta_zero)" by blast
  let ?t = "s\<lparr>kern := k, super_meta := sm, dmetas := dm, fmetas := fm, bmetas := bm\<rparr>"
  have e2: "empty_tables ?t" using e by (simp add: empty_tables_def)
  have f2: "formatted ?t" by (auto simp: formatted_def sm)
  have v2: "SuperBlock_InitializeMeta ?t = (True, ?t)" by (simp add: SuperBlock_InitializeMeta_def sm)
  have "FileSystem_InitializeMeta ?t = Some (True, ?t\<lparr>free_dhs := [0..<100000], free_fhs := [0..<100000],
     free_fbhs := [0..<133554], block_handle := snd (BlockHandle_InitializeMeta (sb_curr_block_num (super_meta ?t)) BlockHandle_new)\<rparr>)"
    by (rule FileSystem_InitializeMeta_fresh [OF e2 f2 v2]) (use m(4,5) in simp_all)
  then show ?thesis using m by (intro exI [of _ k] exI [of _ dm] exI [of _ fm] exI [of _ bm] exI [of _ ?t]) (simp add: fresh_tables_def)
qed

lemma fresh_pool:
  "set (block_id_pool (snd (BlockHandle_InitializeMeta n BlockHandle_new))) = {i. i < ucast n}"
  using BlockHandle_InitializeMeta_pool(1) [OF prod.collapse [symmetric], of n BlockHandle_new]
  by (simp add: BlockHandle_new_def)

text \<open>A device the operating system opens: a block device, two descriptors, a size.\<close>

definition opens :: "blk_env \<Rightarrow> string \<Rightarrow> u64 \<Rightarrow> bool" where
  "opens env name sz \<longleftrightarrow> name \<notin> set [[], ''/dev/sda'', ''/dev/vda'', ''/dev/.'', ''/dev/..'']
     \<and> be_is_blk env name = Some True
     \<and> (case be_open_direct env name of None \<Rightarrow> False
        | Some fd \<Rightarrow> 0 < fd \<and> be_size env name fd = Some sz \<and> be_sector_size env name fd \<noteq> None)
     \<and> (case be_open_cache env name of None \<Rightarrow> False | Some fd \<Rightarrow> 0 < fd) \<and> unat sz < 2 ^ 63"

lemma fs_Device_Open_opens:
  assumes "opens env name sz"
  shows "\<exists>d. fs_Device_Open env name s = (True, use_device d s) \<and> dev_ok d \<and> dev_size d = sz \<and> dev_name d = name"
  using assms
  by (auto simp: opens_def fs_Device_Open_def Device_Open_def IsBlkDev_def BlkDevGetSize_def BlkDevGetSectorSize_def
      dev_ok_def Let_def split: option.splits)

lemma FileSystem_Format_image:
  assumes op: "opens env name sz" "675282944 \<le> unat sz" and b: "benign (k_script (kern s))"
  shows "\<exists>t sm. FileSystem_Format env name s = (True, t) \<and> benign (k_script (kern t)) \<and> crc32 t = crc32 s \<and> fobj_next t = fobj_next s
     \<and> sm = (SuperBlock_layout sz)\<lparr>sb_crc := crc32 s (body_SuperBlockMeta (SuperBlock_layout sz))\<rparr>
     \<and> disk_image (disk_of name t) sm (format_dmeta (crc32 s)) (format_fmeta (crc32 s)) (format_bmeta (crc32 s))
     \<and> (\<forall>n. n \<noteq> name \<longrightarrow> disk_of n t = disk_of n s)"
proof -
  let ?s0 = "FileSystem_Initialize s"
  obtain d where d: "fs_Device_Open env name ?s0 = (True, use_device d ?s0)" "dev_ok d" "dev_size d = sz" "dev_name d = name"
    using fs_Device_Open_opens [OF op(1)] by blast
  let ?s1 = "use_device d ?s0"
  have i1: "crc32 ?s1 = crc32 s" "fobj_next ?s1 = fobj_next s" "disks ?s1 = (\<lambda>n. disk_of n s)"
    by (simp_all add: use_device_def FileSystem_Initialize_env)
  have io1: "io_ok ?s1" using d(2) b by (simp add: io_ok_def FileSystem_Initialize_env)
  have "in_dev (dev ?s1) (unat (0::u64)) (unat (4096::u64))" "0 < unat (4096::u64)"
    using op(2) d(3) by (simp_all add: in_dev_def)
  from fs_PreadCache_ok [OF io1 this] obtain k where
    k: "fs_PreadCache 4096 0 ?s1 = ((4096, disk_read (k_disk (kern ?s1)) 0 4096), ?s1\<lparr>kern := k\<rparr>)" "benign (k_script k)"
    by auto
  let ?s2 = "?s1\<lparr>kern := k\<rparr>"
  have p: "snd (PrefetchSuperMeta_dev ?s1) = ?s2"
    using k(1) by (simp add: PrefetchSuperMeta_dev_def layout_consts)
  have "io_ok ?s2" "675282944 \<le> unat (dev_size (dev ?s2))" using d(2,3) op(2) k(2) by (simp_all add: io_ok_def)
  from FileSystem_FormatAll_image [OF this] obtain k2 where
    k2: "FileSystem_FormatAll ?s2 = (True, ?s2\<lparr>super_meta := format_super ?s2, kern := k2\<rparr>)" "benign (k_script k2)"
      "disk_image (k_disk k2) (format_super ?s2) (format_dmeta (crc32 s)) (format_fmeta (crc32 s)) (format_bmeta (crc32 s))"
    using i1 by auto
  let ?t = "?s2\<lparr>super_meta := format_super ?s2, kern := k2\<rparr>"
  have "FileSystem_Format env name s = (True, ?t)" using d(1) p k2(1) by (simp add: FileSystem_Format_def)
  moreover have "disk_of name ?t = k_disk k2" "\<And>n. n \<noteq> name \<Longrightarrow> disk_of n ?t = disk_of n s"
    using d(4) i1(3) by (simp_all add: disk_of_def)
  ultimately show ?thesis using k2(2,3) d(3) i1 by (auto simp: format_super_def)
qed

lemma Format_Check_fresh:
  assumes "opens env name sz" and "675282944 \<le> unat sz" and "benign (k_script (kern s))"
  shows "\<exists>t u. FileSystem_Format env name s = (True, t) \<and> FileSystem_Check env name t = Some (True, u)
     \<and> created_dirs u = [] \<and> created_files u = [] \<and> open_files u = []
     \<and> free_dhs u = [0..<100000] \<and> free_fhs u = [0..<100000] \<and> free_fbhs u = [0..<133554]
     \<and> set (block_id_pool (block_handle u)) = {i. i < ucast ((sz - 675282944) div 4194304)}
     \<and> formatted u \<and> io_ok u \<and> dev_size (dev u) = sz"
proof -
  let ?sm = "(SuperBlock_layout sz)\<lparr>sb_crc := crc32 s (body_SuperBlockMeta (SuperBlock_layout sz))\<rparr>"
  obtain t where t: "FileSystem_Format env name s = (True, t)" "benign (k_script (kern t))" "crc32 t = crc32 s"
    "disk_image (disk_of name t) ?sm (format_dmeta (crc32 s)) (format_fmeta (crc32 s)) (format_bmeta (crc32 s))"
    using FileSystem_Format_image [OF assms] by blast
  let ?t0 = "FileSystem_Initialize t"
  obtain d where d: "fs_Device_Open env name ?t0 = (True, use_device d ?t0)" "dev_ok d" "dev_size d = sz" "dev_name d = name"
    using fs_Device_Open_opens [OF assms(1)] by blast
  let ?t1 = "use_device d ?t0"
  have i1: "crc32 ?t1 = crc32 s" "open_files ?t1 = []" and e: "empty_tables ?t1"
    using t(3) by (simp_all add: use_device_def FileSystem_Initialize_def empty_tables_def)
  have io: "io_ok ?t1" "675282944 \<le> unat (dev_size (dev ?t1))"
    using d(2,3) t(2) assms(2) by (simp_all add: io_ok_def FileSystem_Initialize_env)
  have sm: "?sm = (SuperBlock_layout (dev_size (dev ?t1)))\<lparr>sb_crc := crc32 ?t1 (body_SuperBlockMeta (SuperBlock_layout (dev_size (dev ?t1))))\<rparr>"
    using i1(1) d(3) by simp
  have im: "disk_image (k_disk (kern ?t1)) ?sm (format_dmeta (crc32 ?t1)) (format_fmeta (crc32 ?t1)) (format_bmeta (crc32 ?t1))"
    using t(4) i1(1) d(4) by (simp add: FileSystem_Initialize_env)
  from load_fresh [OF e io sm im] obtain k dm fm bm t2 where
    m: "ShmManager_Initialize ?t1 = (True, t2)" "FileSystem_InitializeMeta t2 = Some (True, fresh_tables ?t1 k ?sm dm fm bm)"
      "benign (k_script k)"
    by blast
  have c: "FileSystem_Check env name t = Some (True, fresh_tables ?t1 k ?sm dm fm bm)"
    using d(1) m by (simp add: FileSystem_Check_def)
  have f: "formatted (fresh_tables ?t1 k ?sm dm fm bm)" "io_ok (fresh_tables ?t1 k ?sm dm fm bm)"
    using d(2,3) m(3) by (auto simp: formatted_def io_ok_def fresh_tables_def)
  show ?thesis
    by (rule exI [of _ t], rule exI [of _ "fresh_tables ?t1 k ?sm dm fm bm"])
      (use t(1) c f d(3) i1(2) e fresh_pool in \<open>simp add: empty_tables_def fresh_tables_def\<close>)
qed

section \<open>Properties\<close>

text \<open>
  C21. A device that \<open>Format\<close> has formatted passes \<open>Check\<close>: every checksum and the magic number
  verify, and the file system comes up empty, with all directory, file and file block handles free
  and exactly the blocks of the data area in the block pool, on the device that was named.
\<close>

theorem Format_then_Check:
  assumes "opens env name sz" and "675282944 \<le> unat sz" and "benign (k_script (kern s))"
  shows "\<exists>t u. FileSystem_Format env name s = (True, t) \<and> FileSystem_Check env name t = Some (True, u)
     \<and> created_dirs u = [] \<and> created_files u = [] \<and> open_files u = []
     \<and> free_dhs u = [0..<100000] \<and> free_fhs u = [0..<100000] \<and> free_fbhs u = [0..<133554]
     \<and> set (block_id_pool (block_handle u)) = {i. i < ucast ((sz - 675282944) div 4194304)}
     \<and> formatted u \<and> io_ok u \<and> dev_size (dev u) = sz"
  by (rule Format_Check_fresh [OF assms])

text \<open>
  A mount finds the metadata as it was: when the metadata area of a formatted device is in
  step with memory, \<open>ShmManager::Initialize\<close> reads back every directory, file and file block
  struct unchanged.
\<close>

theorem remount_metadata:
  assumes "meta_synced s" and "wf_metas (super_meta s) (dmetas s) (fmetas s) (bmetas s)"
    and "io_ok s" and "675282944 \<le> unat (dev_size (dev s))" and "super_meta s = format_super s"
  shows "\<exists>t. ShmManager_Initialize s = (True, t) \<and> super_meta t = super_meta s
     \<and> (\<forall>i < 100000. dmetas t i = dmetas s i \<and> fmetas t i = fmetas s i) \<and> (\<forall>i < 133554. bmetas t i = bmetas s i)"
proof -
  have im: "disk_image (k_disk (kern s)) (super_meta s) (dmetas s) (fmetas s) (bmetas s)"
    using assms(1) by (simp add: meta_synced_image)
  from ShmManager_Initialize_image [OF im assms(2-4) assms(5) [unfolded format_super_def]]
  obtain k d f b where
    m: "ShmManager_Initialize s = (True, s\<lparr>kern := k, super_meta := super_meta s, dmetas := d, fmetas := f, bmetas := b\<rparr>)"
      "\<forall>i < 100000. d i = dmetas s i \<and> f i = fmetas s i" "\<forall>i. b i = (if i < 133554 then bmetas s i else FileBlockMeta_zero)" by blast
  show ?thesis by (intro exI conjI, rule m(1)) (use m(2,3) in simp_all)
qed

text \<open>
  C9. Growing a file is durable: when \<open>ExtendFile\<close> reports success, the metadata area on the disk
  is in step with memory again, so a mount at this point finds the new size and the new blocks.
\<close>

theorem ExtendFile_durable:
  assumes "formatted s" and "meta_synced s" and "blocks_exclusive s" and "file_wf s f"
    and "File_fh s f < 100000" and "f_meta (fobj s f) = File_fh s f" and "fbs_in_range s f"
    and "File_file_size s f < off" and "off \<le> kBlockFsMaxUDiskSize" and "ExtendFile f off s = Some (0, t)"
  shows "meta_synced t \<and> File_file_size t f = off \<and> length (file_ids t f) = ceil_blocks (unat off)"
  using ExtendFile_synced [OF assms] ExtendFile_extends [OF assms(3,4,8,9,10)] by simp

text \<open>
  C22. A damaged metadata area is refused, whatever else it holds: a wrong checksum in the super
  block, a wrong magic number in it, or a wrong checksum in any of the directory structs the super
  block counts, makes \<open>InitializeMeta\<close> fail.
\<close>

theorem InitializeMeta_rejects:
  assumes "sb_crc (super_meta s) \<noteq> crc32 s (body_SuperBlockMeta (super_meta s)) \<or> sb_magic (super_meta s) \<noteq> kBlockFsMagic
       \<or> i < unat (sb_max_file_num (super_meta s)) \<and> dm_crc (dmetas s i) \<noteq> crc32 s (body_DirMeta (dmetas s i))"
  shows "\<exists>t. FileSystem_InitializeMeta s = Some (False, t)"
proof (cases "SuperBlock_InitializeMeta s = (True, s)")
  case False
  then have "SuperBlock_InitializeMeta s = (False, s)" by (auto simp: SuperBlock_InitializeMeta_def Let_def)
  then show ?thesis by (simp add: FileSystem_InitializeMeta_def)
next
  case True
  let ?n = "unat (sb_max_file_num (super_meta s))"
  have i: "i < ?n" "dm_crc (dmetas s i) \<noteq> crc32 s (body_DirMeta (dmetas s i))"
    using True assms by (auto simp: SuperBlock_InitializeMeta_def Let_def split: if_splits)
  obtain ok h where B: "BlockHandle_InitializeMeta (sb_curr_block_num (super_meta s)) (block_handle s) = (ok, h)"
    by fastforce
  have "fst (init_dirs [0..<?n] (s\<lparr>block_handle := h\<rparr>)) = False"
    by (rule init_dirs_crc [of i]) (use i in simp_all)
  then obtain t where "init_dirs [0..<?n] (s\<lparr>block_handle := h\<rparr>) = (False, t)" by (metis prod.collapse)
  then have "DirHandle_InitializeMeta (s\<lparr>block_handle := h\<rparr>) = (False, t)" by (simp add: DirHandle_InitializeMeta_def)
  then show ?thesis using True B by (simp add: FileSystem_InitializeMeta_def)
qed

end
