(* ===== verification/Open_Target.thy ===== *)
theory Open_Target
  imports Persistence
begin

text \<open>
  The search for the device of a file system (\<open>FileSystem::OpenTarget\<close> in \<open>lib/file_system.cc\<close>).
  Each listed device has its own content, and the uuid that counts is the one in its super
  block. Devices with another uuid are passed over whatever they answer, the first one with the uuid
  is opened, and no disk is written.
\<close>

section \<open>Passing from device to device\<close>

definition uuid_of :: "string \<Rightarrow> fs \<Rightarrow> string" where
  "uuid_of n s = cstr (sb_uuid (dec_SuperBlockMeta (disk_read (disk_of n s) 0 4096)))"

text \<open>A state that differs at most in which device is open; the content of every disk is the same.\<close>

definition passed :: "fs \<Rightarrow> fs \<Rightarrow> bool" where
  "passed s t \<longleftrightarrow> t = s\<lparr>disks := disks t, dev := dev t, kern := kern t\<rparr> \<and> (\<forall>n. disk_of n t = disk_of n s)
     \<and> (benign (k_script (kern s)) \<longrightarrow> benign (k_script (kern t)))"

lemma passedI:
  assumes "t = s\<lparr>disks := m, dev := d, kern := k\<rparr>" "\<And>n. disk_of n t = disk_of n s"
    "benign (k_script (kern s)) \<Longrightarrow> benign (k_script (kern t))"
  shows "passed s t"
proof -
  have "t = s\<lparr>disks := disks t, dev := dev t, kern := kern t\<rparr>" unfolding assms(1) by simp
  then show ?thesis using assms(2,3) unfolding passed_def by blast
qed

lemma passed_trans:
  assumes "passed s t" "passed t u"
  shows "passed s u"
proof -
  have t: "t = s\<lparr>disks := disks t, dev := dev t, kern := kern t\<rparr>" using assms(1) unfolding passed_def by blast
  have "t\<lparr>disks := a, dev := b, kern := c\<rparr> = s\<lparr>disks := a, dev := b, kern := c\<rparr>" for a b c by (subst t) simp
  then have "u = s\<lparr>disks := disks u, dev := dev u, kern := kern u\<rparr>" using assms(2) unfolding passed_def by metis
  then show ?thesis using assms unfolding passed_def by simp
qed

lemma passed_refl: "passed s s"
  by (rule passedI [where m = "disks s" and d = "dev s" and k = "kern s"]) simp_all

lemma passed_uuid: "passed s t \<Longrightarrow> uuid_of n t = uuid_of n s"
  by (simp add: passed_def uuid_of_def)

lemma passed_tables:
  assumes "passed s t"
  shows "created_dirs t = created_dirs s" "created_files t = created_files s" "open_files t = open_files s"
proof -
  have t: "t = s\<lparr>disks := disks t, dev := dev t, kern := kern t\<rparr>" using assms unfolding passed_def by blast
  show "created_dirs t = created_dirs s" "created_files t = created_files s" "open_files t = open_files s"
    by (subst t, simp)+
qed

lemma passed_kern:
  assumes "dev_name d = dev_name (dev s)" "k_disk k = k_disk (kern s)" "benign (k_script (kern s)) \<Longrightarrow> benign (k_script k)"
  shows "passed s (s\<lparr>dev := d, kern := k\<rparr>)"
  by (rule passedI [where m = "disks s" and d = d and k = k]) (use assms in \<open>simp_all add: disk_of_def\<close>)

lemma passed_use_device: "passed s (use_device d s)"
  by (rule passedI [where m = "\<lambda>n. disk_of n s" and d = d and k = "(kern s)\<lparr>k_disk := disk_of (dev_name d) s\<rparr>"])
    (simp_all add: use_device_def disk_of_def)

lemma open_passed:
  assumes "fs_Device_Open env name s = (ok, t)"
  shows "passed s t" "ok \<Longrightarrow> dev_name (dev t) = name"
proof -
  obtain d k where o: "Device_Open env name (dev s) (kern s) = (ok, d, k)" "t = use_device d (s\<lparr>kern := k\<rparr>)"
    using assms by (auto simp: fs_Device_Open_def split: prod.splits)
  note f = Device_Open_frame [OF o(1)]
  have "passed s (s\<lparr>kern := k\<rparr>)" using passed_kern [of "dev s" s k] f by simp
  then show "passed s t" unfolding o(2) using passed_use_device by (rule passed_trans)
  show "ok \<Longrightarrow> dev_name (dev t) = name" using f(3) o(2) by simp
qed

lemma prefetch_passed:
  assumes "PrefetchSuperMeta_dev s = (m, t)"
  shows "passed s t" "dev t = dev s" "m = Some meta \<Longrightarrow> cstr (sb_uuid meta) = uuid_of (dev_name (dev s)) s"
proof -
  obtain r bs k where p: "PreadCache (dev s) kSuperBlockSize kSuperBlockOffset (kern s) = ((r, bs), k)" by (metis surj_pair)
  have t: "t = s\<lparr>kern := k\<rparr>" "m = (if r \<noteq> int (unat kSuperBlockSize) then None else Some (dec_SuperBlockMeta bs))"
    using assms p by (auto simp: PrefetchSuperMeta_dev_def fs_PreadCache_def split: if_splits)
  note f = PreadCache_reads [OF p]
  show "passed s t" using passed_kern [of "dev s" s k] f t(1) by simp
  show "dev t = dev s" using t(1) by simp
  have u: "unat kSuperBlockOffset = 0" "unat kSuperBlockSize = 4096" by (simp_all add: layout_consts)
  show "cstr (sb_uuid meta) = uuid_of (dev_name (dev s)) s" if "m = Some meta"
    using that t(2) f(3) by (auto simp: uuid_of_def disk_of_def u split: if_splits)
qed

section \<open>The search\<close>

text \<open>A device with another uuid makes no difference, whatever the kernel answers.\<close>

lemma OpenTarget_skip:
  assumes "uuid_of (''/dev/'' @ n) s \<noteq> uuid"
  shows "\<exists>t. passed s t \<and> OpenTarget env uuid (n # names) s = OpenTarget env uuid names t"
proof -
  obtain ok s1 where o: "fs_Device_Open env (''/dev/'' @ n) s = (ok, s1)" by fastforce
  note p1 = open_passed [OF o]
  show ?thesis
  proof (cases ok)
    case False
    then show ?thesis using o p1(1) by auto
  next
    case True
    obtain m s2 where m: "PrefetchSuperMeta_dev s1 = (m, s2)" by fastforce
    note p2 = prefetch_passed [OF m]
    obtain d k where c: "Device_Close (dev s2) (kern s2) = (d, k)" by fastforce
    note f = Device_Close_frame [OF c]
    have ne: "case m of None \<Rightarrow> True | Some meta \<Rightarrow> cstr (sb_uuid meta) \<noteq> uuid"
      using p2(3) p1(2) [OF True] passed_uuid [OF p1(1)] assms by (simp split: option.splits)
    have "passed s (s2\<lparr>dev := d, kern := k\<rparr>)"
      using p1(1) p2(1) passed_kern [OF f(1,2) f(3)] by (blast intro: passed_trans)
    moreover have "OpenTarget env uuid (n # names) s = OpenTarget env uuid names (s2\<lparr>dev := d, kern := k\<rparr>)"
      using o True m c ne by simp
    ultimately show ?thesis by blast
  qed
qed

lemma OpenTarget_skips:
  assumes "\<forall>b \<in> set before. uuid_of (''/dev/'' @ b) s \<noteq> uuid"
  shows "\<exists>t. passed s t \<and> OpenTarget env uuid (before @ names) s = OpenTarget env uuid names t"
  using assms
proof (induction before arbitrary: s)
  case Nil
  then show ?case using passed_refl by auto
next
  case (Cons b bs)
  obtain t where t: "passed s t" "OpenTarget env uuid (b # bs @ names) s = OpenTarget env uuid (bs @ names) t"
    using OpenTarget_skip [of b s uuid env "bs @ names"] Cons.prems by auto
  have "\<forall>c \<in> set bs. uuid_of (''/dev/'' @ c) t \<noteq> uuid" using Cons.prems passed_uuid [OF t(1)] by simp
  from Cons.IH [OF this] show ?case using t passed_trans by auto
qed

text \<open>On a device without I/O errors the search stops at the first device with the uuid.\<close>

lemma OpenTarget_here:
  assumes op: "opens env (''/dev/'' @ nm) sz" and sz: "4096 \<le> unat sz" and b: "benign (k_script (kern s))"
    and u: "uuid_of (''/dev/'' @ nm) s = uuid"
  shows "\<exists>t. OpenTarget env uuid (nm # names) s = (True, t) \<and> passed s t \<and> dev_ok (dev t) \<and> dev_size (dev t) = sz
     \<and> dev_name (dev t) = ''/dev/'' @ nm"
proof -
  obtain d where d: "fs_Device_Open env (''/dev/'' @ nm) s = (True, use_device d s)" "dev_ok d" "dev_size d = sz" "dev_name d = ''/dev/'' @ nm"
    using fs_Device_Open_opens [OF op] by blast
  let ?s1 = "use_device d s"
  have io: "io_ok ?s1" using d(2) b by (simp add: io_ok_def)
  have "in_dev (dev ?s1) (unat (0::u64)) (unat (4096::u64))" "0 < unat (4096::u64)" using sz d(3) by (simp_all add: in_dev_def)
  from fs_PreadCache_ok [OF io this] obtain k where
    k: "fs_PreadCache 4096 0 ?s1 = ((4096, disk_read (k_disk (kern ?s1)) 0 4096), ?s1\<lparr>kern := k\<rparr>)" by auto
  obtain meta where m: "PrefetchSuperMeta_dev ?s1 = (Some meta, ?s1\<lparr>kern := k\<rparr>)"
    using k by (simp add: PrefetchSuperMeta_dev_def layout_consts)
  note p = prefetch_passed [OF m]
  have "cstr (sb_uuid meta) = uuid" using p(3) u d(4) passed_uuid [OF passed_use_device] by simp
  then have "OpenTarget env uuid (nm # names) s = (True, ?s1\<lparr>kern := k\<rparr>)" using d(1) m by simp
  moreover have "passed s (?s1\<lparr>kern := k\<rparr>)" using passed_use_device p(1) by (rule passed_trans)
  ultimately show ?thesis using d by simp
qed

lemma OpenTarget_finds:
  assumes op: "opens env (''/dev/'' @ nm) sz" and sz: "4096 \<le> unat sz" and b: "benign (k_script (kern s))"
    and u: "uuid_of (''/dev/'' @ nm) s = uuid" and before: "\<forall>b \<in> set before. uuid_of (''/dev/'' @ b) s \<noteq> uuid"
  shows "\<exists>m d k. OpenTarget env uuid (before @ nm # after) s = (True, s\<lparr>disks := m, dev := d, kern := k\<rparr>)
     \<and> dev_ok d \<and> dev_size d = sz \<and> dev_name d = ''/dev/'' @ nm \<and> k_disk k = disk_of (''/dev/'' @ nm) s \<and> benign (k_script k)"
proof -
  obtain t where t: "passed s t" "OpenTarget env uuid (before @ nm # after) s = OpenTarget env uuid (nm # after) t"
    using OpenTarget_skips [OF before] by blast
  have "benign (k_script (kern t))" "uuid_of (''/dev/'' @ nm) t = uuid" using t(1) b u passed_uuid [OF t(1)] by (simp_all add: passed_def)
  from OpenTarget_here [OF op sz this] obtain v where
    v: "OpenTarget env uuid (nm # after) t = (True, v)" "passed t v" "dev_ok (dev v)" "dev_size (dev v) = sz" "dev_name (dev v) = ''/dev/'' @ nm"
    by blast
  have p: "passed s v" using t(1) v(2) by (rule passed_trans)
  then obtain m d k where e: "v = s\<lparr>disks := m, dev := d, kern := k\<rparr>" unfolding passed_def by blast
  have "disk_of (''/dev/'' @ nm) v = disk_of (''/dev/'' @ nm) s" "benign (k_script (kern v))" using p b by (simp_all add: passed_def)
  then have "k_disk k = disk_of (''/dev/'' @ nm) s" "benign (k_script k)" using v(5) e by (simp_all add: disk_of_def)
  then show ?thesis using t(2) v e by auto
qed

lemma OpenTarget_none:
  assumes "\<forall>n \<in> set names. uuid_of (''/dev/'' @ n) s \<noteq> uuid"
  shows "\<exists>t. passed s t \<and> OpenTarget env uuid names s = (False, t)"
  using OpenTarget_skips [OF assms, of env "[]"] by simp

lemma Initialize_uuid: "uuid_of n (FileSystem_Initialize s) = uuid_of n s"
  by (simp add: uuid_of_def FileSystem_Initialize_env)

section \<open>Property\<close>

text \<open>
  C23. A mount only takes a device with the uuid it was given: when no listed device has it in its
  super block, then whatever the devices answer (interrupted, short or failing reads, devices that
  cannot be opened) \<open>MountFileSystem\<close> returns -1, with every disk as it was and nothing loaded.
\<close>

theorem mount_needs_uuid:
  assumes "\<forall>n \<in> set names. uuid_of (''/dev/'' @ n) s \<noteq> uuid"
  shows "\<exists>t. MountFileSystem env names (Some uuid) s = Some (- 1, t) \<and> (\<forall>n. disk_of n t = disk_of n s)
     \<and> created_dirs t = [] \<and> created_files t = [] \<and> open_files t = []"
proof -
  obtain t where t: "passed (FileSystem_Initialize s) t" "OpenTarget env uuid names (FileSystem_Initialize s) = (False, t)"
    using OpenTarget_none [of names "FileSystem_Initialize s" uuid env] assms by (auto simp: Initialize_uuid)
  have "MountFileSystem env names (Some uuid) s = Some (- 1, t)" using t(2) by (simp add: MountFileSystem_def)
  moreover have "disk_of n t = disk_of n s" for n using t(1) by (simp add: passed_def FileSystem_Initialize_env)
  moreover have "created_dirs t = [] \<and> created_files t = [] \<and> open_files t = []"
    using passed_tables [OF t(1)] by (simp add: FileSystem_Initialize_env)
  ultimately show ?thesis by blast
qed

end
