(* ===== verification/File_System.thy ===== *)
theory File_System
  imports Mount
begin

text \<open>
  The \<open>FileSystem\<close> interface (\<open>lib/file_system.h\<close>, \<open>lib/file_system.cc\<close>): the calls
  the FUSE layer and the tools make, dispatching by path or descriptor to the file and
  directory handles.
\<close>

definition StatPath :: "u32 \<Rightarrow> u32 \<Rightarrow> string \<Rightarrow> fs \<Rightarrow> stat option \<times> fs" where
  "StatPath uid gid path s =
     (if path = [] then (None, set_errno EINVAL s)
      else if ends_with_slash path then
        (case GetCreatedDirectory path s of
           (None, s) \<Rightarrow> (None, set_errno ENOENT s)
         | (Some d, s) \<Rightarrow> (Some (Directory_stat uid gid s d), set_errno 0 s))
      else
        (case GetCreatedFile path s of
           (Some f, s) \<Rightarrow> (Some (File_stat uid gid s f), set_errno 0 s)
         | (None, s) \<Rightarrow>
             (case GetCreatedDirectory path s of
                (None, s) \<Rightarrow> (None, set_errno ENOENT s)
              | (Some d, s) \<Rightarrow> (Some (Directory_stat uid gid s d), set_errno 0 s))))"

definition StatPath_fd :: "u32 \<Rightarrow> u32 \<Rightarrow> int \<Rightarrow> fs \<Rightarrow> stat option \<times> fs" where
  "StatPath_fd uid gid fd s =
     (case GetOpenFile fd s of
        (Some x, s) \<Rightarrow> (Some (File_stat uid gid s (of_file x)), s)
      | (None, s) \<Rightarrow>
          (case GetOpenDirectory s fd of
             None \<Rightarrow> (None, set_errno ENOENT s)
           | Some d \<Rightarrow> (Some (Directory_stat uid gid s d), s)))"

record statvfs =
  f_bsize :: u64
  f_frsize :: u64
  f_blocks :: u64
  f_bfree :: u64
  f_bavail :: u64
  f_files :: u64
  f_ffree :: u64
  f_favail :: u64
  f_fsid :: u64
  f_namemax :: u64

definition StatVFS :: "fs \<Rightarrow> statvfs" where
  "StatVFS s =
     \<lparr>f_bsize = sb_block_size (super_meta s), f_frsize = sb_block_size (super_meta s),
      f_blocks = sb_curr_block_num (super_meta s),
      f_bfree = GetFreeBlockNum (block_handle s), f_bavail = GetFreeBlockNum (block_handle s),
      f_files = sb_max_file_num (super_meta s),
      f_ffree = ucast (word_of_nat (length (free_fhs s)) :: u32),
      f_favail = ucast (word_of_nat (length (free_fhs s)) :: u32), f_fsid = 0,
      f_namemax = sb_max_file_name_len (super_meta s)\<rparr>"

definition FileSystem_CreateFile :: "string \<Rightarrow> fs \<Rightarrow> int \<times> fs" where
  "FileSystem_CreateFile path s =
     (let (f, s) = CreateFile path False s in (if f \<noteq> None then 0 else - 1, s))"

definition RenamePath :: "string \<Rightarrow> string \<Rightarrow> fs \<Rightarrow> (int \<times> fs) option" where
  "RenamePath oldpath newpath s =
     (if oldpath = [] \<or> newpath = [] then Some (- 1, set_errno EINVAL s)
      else case GetCreatedFile newpath s of
        (Some _, s) \<Rightarrow> Some (- 1, s)
      | (None, s) \<Rightarrow>
          (case GetCreatedFile oldpath s of
             (Some f, s) \<Rightarrow> Some (File_rename f newpath s)
           | (None, s) \<Rightarrow>
               (case GetCreatedDirectory oldpath s of
                  (None, s) \<Rightarrow> Some (- 1, set_errno ENOENT s)
                | (Some _, s) \<Rightarrow> RenameDirectory oldpath newpath s)))"

text \<open>The signed size is converted to \<open>uint64_t\<close>.\<close>

definition TruncateFile :: "string \<Rightarrow> u64 \<Rightarrow> fs \<Rightarrow> (int \<times> fs) option" where
  "TruncateFile filename sz s =
     (case GetCreatedFile filename s of
        (None, s) \<Rightarrow> Some (- 1, set_errno ENOENT s)
      | (Some f, s) \<Rightarrow> ftruncate f sz s)"

definition TruncateFile_fd :: "int \<Rightarrow> u64 \<Rightarrow> fs \<Rightarrow> (int \<times> fs) option" where
  "TruncateFile_fd fd sz s =
     (case GetOpenFile fd s of
        (None, s) \<Rightarrow> Some (- 1, set_errno ENOENT s)
      | (Some x, s) \<Rightarrow> ftruncate (of_file x) sz s)"

definition ReadFile :: "int \<Rightarrow> u64 \<Rightarrow> u8 list \<Rightarrow> fs \<Rightarrow> ((int \<times> u8 list) \<times> fs) option" where
  "ReadFile fd len buf s =
     (case GetOpenFile fd s of
        (None, s) \<Rightarrow> Some ((- 1, buf), s)
      | (Some x, s) \<Rightarrow> OpenFile_read fd (of_file x) len (of_append_pos x) buf s)"

definition PreadFile :: "int \<Rightarrow> u64 \<Rightarrow> u64 \<Rightarrow> u8 list \<Rightarrow> fs \<Rightarrow> ((int \<times> u8 list) \<times> fs) option" where
  "PreadFile fd len offset buf s =
     (case GetOpenFile fd s of
        (None, s) \<Rightarrow> Some ((- 1, buf), set_errno ENOENT s)
      | (Some x, s) \<Rightarrow> OpenFile_pread fd (of_file x) len offset buf s)"

definition PwriteFile :: "int \<Rightarrow> u8 list \<Rightarrow> u64 \<Rightarrow> u64 \<Rightarrow> fs \<Rightarrow> (int \<times> fs) option" where
  "PwriteFile fd buf len offset s =
     (case GetOpenFile fd s of
        (None, s) \<Rightarrow> Some (- 1, set_errno ENOENT s)
      | (Some x, s) \<Rightarrow> OpenFile_pwrite fd (of_file x) buf len offset s)"

definition SeekFile :: "int \<Rightarrow> u64 \<Rightarrow> nat \<Rightarrow> fs \<Rightarrow> u64 \<times> fs" where
  "SeekFile fd offset whence s =
     (case GetOpenFile fd s of
        (None, s) \<Rightarrow> (- 1, s)
      | (Some x, s) \<Rightarrow> OpenFile_lseek fd x offset whence s)"

datatype lock_type = F_RDLCK | F_WRLCK | F_UNLCK | F_OTHER

definition FcntlFile :: "int \<Rightarrow> lock_type \<Rightarrow> fs \<Rightarrow> int \<times> fs" where
  "FcntlFile fd lock_type s =
     (case GetOpenFile fd s of
        (None, s) \<Rightarrow> (- 1, s)
      | (Some x, s) \<Rightarrow>
          (let f = of_file x; locked = f_locked (fobj s f);
               set_locked = (\<lambda>b. upd_file f (\<lambda>y. y\<lparr>f_locked := b\<rparr>) s)
           in case lock_type of
                F_UNLCK \<Rightarrow> if \<not> locked then (- 1, set_errno ENOLCK s) else (0, set_locked False)
              | F_RDLCK \<Rightarrow> if locked then (- 1, set_errno EACCES s) else (0, set_locked True)
              | F_WRLCK \<Rightarrow> if locked then (- 1, set_errno EACCES s) else (0, set_locked True)
              | F_OTHER \<Rightarrow> (- 1, s)))"

end
