(* ===== verification/Descriptors.thy ===== *)
theory Descriptors
  imports File_System
begin

text \<open>
  Descriptors and link counts. \<open>fds_ok\<close> is the agreement between the descriptor pool
  (\<open>FdHandle\<close>), the table of open files (\<open>FileHandle::open_files_\<close>) and the link counts of the
  files (\<open>File::nlink_\<close>): a descriptor in use is not in the pool, and the link count of a file
  is the number of descriptors that refer to it. Every call of the file interface keeps it. That
  is what makes \<open>unlink\<close> safe, which keeps a file alive as long as its link count is positive.
  First come the frame lemmas: which operations leave all of this alone.
\<close>

section \<open>What the invariant reads\<close>

definition files_of :: "fs \<Rightarrow> nat set" where
  "files_of s = snd ` set (created_files s) \<union> snd ` set (created_fhs s)"

text \<open>The descriptors in use and their files; the positions do not matter.\<close>

definition open_refs :: "fs \<Rightarrow> (int \<times> nat) list" where
  "open_refs s = map (\<lambda>(fd, x). (fd, of_file x)) (open_files s)"

definition fd_view :: "fs \<Rightarrow> (int \<times> nat) list \<times> FdHandle \<times> nat \<times> (nat \<Rightarrow> int) \<times> (nat \<times> string, nat) amap \<times> (nat, nat) amap" where
  "fd_view s = (open_refs s, fd_handle s, fobj_next s, \<lambda>f. f_nlink (fobj s f), created_files s, created_fhs s)"

named_theorems fdv \<open>operations that leave the view alone, as destruction rules\<close>

lemma fd_view_upds [simp]:
  "fd_view (set_errno e s) = fd_view s" "fd_view (upd_fmeta i f1 s) = fd_view s"
  "fd_view (upd_dmeta i f2 s) = fd_view s" "fd_view (upd_bmeta i f3 s) = fd_view s"
  "fd_view (upd_dir d f4 s) = fd_view s"
  "fd_view (s\<lparr>kern := k\<rparr>) = fd_view s" "fd_view (s\<lparr>block_handle := h\<rparr>) = fd_view s"
  "fd_view (s\<lparr>free_fbhs := l1\<rparr>) = fd_view s" "fd_view (s\<lparr>free_fhs := l2\<rparr>) = fd_view s"
  "fd_view (s\<lparr>free_dhs := l3\<rparr>) = fd_view s" "fd_view (s\<lparr>parent_files := m\<rparr>) = fd_view s"
  "fd_view (s\<lparr>bmetas := b\<rparr>) = fd_view s"
  by (simp_all add: fd_view_def open_refs_def fs_upd_defs)

lemma fd_view_upd_file [simp]: "(\<And>x. f_nlink (h x) = f_nlink x) \<Longrightarrow> fd_view (upd_file f h s) = fd_view s"
  by (simp add: fd_view_def open_refs_def fs_upd_defs fun_eq_iff)

section \<open>Operations that leave it alone\<close>

lemma io_view [fdv]:
  "fs_PwriteDirect bs off s = (r, t) \<Longrightarrow> fd_view t = fd_view s"
  "fs_PwriteCache bs off s = (r, t) \<Longrightarrow> fd_view t = fd_view s"
  "fs_PreadCache n off s = (x, t) \<Longrightarrow> fd_view t = fd_view s"
  "fs_PreadDirect n off s = (x, t) \<Longrightarrow> fd_view t = fd_view s"
  "fs_Fsync s = (r, t) \<Longrightarrow> fd_view t = fd_view s"
  by (auto simp: fs_io_defs fs_PreadDirect_def split: prod.splits)

lemma meta_view [fdv]:
  "FileBlock_WriteMeta fb s = (ok, t) \<Longrightarrow> fd_view t = fd_view s"
  "File_WriteMeta_fh fh s = (ok, t) \<Longrightarrow> fd_view t = fd_view s"
  "File_WriteMeta f s = (ok, t) \<Longrightarrow> fd_view t = fd_view s"
  "Directory_WriteMeta d s = (ok, t) \<Longrightarrow> fd_view t = fd_view s"
  by (auto simp: FileBlock_WriteMeta_def File_WriteMeta_def File_WriteMeta_fh_def Directory_WriteMeta_def
      file_crc_def dir_crc_def Let_def split: prod.splits dest!: fdv)

lemma pool_view [fdv]:
  "GetFileBlockLock s = (x, t) \<Longrightarrow> fd_view t = fd_view s"
  "fs_GetFreeBlockIdLock n s = (y, t) \<Longrightarrow> fd_view t = fd_view s"
  "fs_PutFreeBlockIdLock ids s = (ok, t) \<Longrightarrow> fd_view t = fd_view s"
  "fs_PutFreeBlockIdLock1 i s = (ok, t) \<Longrightarrow> fd_view t = fd_view s"
  by (auto simp: GetFileBlockLock_def fs_GetFreeBlockIdLock_def fs_PutFreeBlockIdLock_def fs_PutFreeBlockIdLock1_def
      split: prod.splits list.splits)

lemma put_view [simp]: "fd_view (PutFileBlockLock fb s) = fd_view s" "fd_view (AddFile2FreeNolock fh s) = fd_view s"
  by (simp_all add: PutFileBlockLock_def AddFile2FreeNolock_def)

lemma release_view [fdv]:
  "ReleaseMyself fb s = (ok, t) \<Longrightarrow> fd_view t = fd_view s"
  "ReleaseAll fb s = Some (ok, t) \<Longrightarrow> fd_view t = fd_view s"
  by (auto simp: ReleaseMyself_def ReleaseAll_def Let_def split: prod.splits if_splits bind_splits dest!: fdv)

lemma release_items_view [fdv]: "release_items fbs s = Some (ok, t) \<Longrightarrow> fd_view t = fd_view s"
  by (induction fbs arbitrary: s) (auto split: bind_splits if_splits dest!: fdv)

lemma file_view [fdv]:
  "RemoveAllFileBlock f s = Some (ok, t) \<Longrightarrow> fd_view t = fd_view s"
  "ReleaseNolock f s = (ok, t) \<Longrightarrow> fd_view t = fd_view s"
  "AddFileBlockNoLock f fb s = (ok, t) \<Longrightarrow> fd_view t = fd_view s"
  by (auto simp: RemoveAllFileBlock_def ReleaseNolock_def AddFileBlockNoLock_def Let_def
      split: bind_splits if_splits dest!: fdv)

lemma add_fb_view [simp]: "fd_view (snd (AddFileBlockNoLock f fb s)) = fd_view s"
  by (simp add: AddFileBlockNoLock_def Let_def)

lemma set_view [simp]:
  "fd_view (File_set_file_size f n s) = fd_view s" "fd_view (File_set_file_name f nm s) = fd_view s"
  "fd_view (File_set_dh f dh s) = fd_view s" "fd_view (File_UpdateTimeStamp f sec s) = fd_view s"
  by (simp_all add: File_set_file_size_def File_set_file_name_def File_set_dh_def File_UpdateTimeStamp_def
      file_crc_def Let_def)

lemma add_block_id_view [fdv]: "add_block_id i fb s = Some t \<Longrightarrow> fd_view t = fd_view s"
  by (auto simp: add_block_id_def split: if_splits)

lemma fill_view [fdv]: "fill_file_block fb ids s = Some (ok, t) \<Longrightarrow> fd_view t = fd_view s"
  by (induction ids arbitrary: s) (auto split: if_splits bind_splits dest!: fdv)

lemma extend_view [fdv]:
  "extend_target f s = (x, t) \<Longrightarrow> fd_view t = fd_view s"
  "extend_blocks nw n fb s = (y, t) \<Longrightarrow> fd_view t = fd_view s"
  "extend_persist f off nw fb ids s = (r, t) \<Longrightarrow> fd_view t = fd_view s"
  by (auto simp: extend_target_def extend_blocks_def extend_persist_def Let_def
      split: if_splits option.splits prod.splits dest!: fdv)

lemma ExtendFile_view [fdv]: "ExtendFile f off s = Some (r, t) \<Longrightarrow> fd_view t = fd_view s"
  by (auto simp: ExtendFile_def Let_def split: if_splits option.splits prod.splits bind_splits dest!: fdv)

lemma copy_loop_view [fdv]: "copy_loop src dst off len s = (ok, t) \<Longrightarrow> fd_view t = fd_view s"
proof (induction "unat len" arbitrary: off len s rule: less_induct)
  case less
  have shorter: "len \<noteq> 0 \<Longrightarrow> unat (len - min len (4 * M)) < unat len"
    by (auto simp: layout_consts min_def unat_sub word_le_nat_alt unat_gt_0)
  from less.prems show ?case
    by (subst (asm) copy_loop.simps)
      (auto simp: Let_def split: if_splits prod.splits dest!: fdv dest: less.hyps [OF shorter])
qed

lemma CopyData_view [fdv]: "CopyData src dst off len s = (ok, t) \<Longrightarrow> fd_view t = fd_view s"
  by (auto simp: CopyData_def Let_def split: bool.splits prod.splits dest!: fdv)

lemma NewFreeFileMeta_view [fdv]: "NewFreeFileMeta dh nm s = Some (x, t) \<Longrightarrow> fd_view t = fd_view s"
  by (auto simp: NewFreeFileMeta_def split: list.splits if_splits)

lemma recycle_ids_view [fdv]: "recycle_ids n i ids s = (j, t) \<Longrightarrow> fd_view t = fd_view s"
proof (induction ids arbitrary: i s)
  case Nil
  then show ?case by simp
next
  case (Cons a ids)
  have "fd_view (snd (fs_PutFreeBlockIdLock1 a s)) = fd_view s" using pool_view(4) prod.collapse by metis
  then show ?case using Cons by (auto split: if_splits)
qed

lemma recycle_fbs_view [fdv]: "recycle_fbs n i fbs is s = Some t \<Longrightarrow> fd_view t = fd_view s"
proof (induction "is" arbitrary: i s)
  case Nil
  then show ?case by simp
next
  case (Cons a "is")
  have "fd_view (snd (ReleaseMyself fb u)) = fd_view u" for fb u using release_view(1) prod.collapse by metis
  then show ?case using Cons by (auto split: bind_splits prod.splits dest!: fdv)
qed

lemma recycle_view [fdv]:
  "Recycle p s = Some (ok, t) \<Longrightarrow> fd_view t = fd_view s"
  "RemoveParentFile fh s = Some (ok, t) \<Longrightarrow> fd_view t = fd_view s"
  "RecycleParentFh f fh im s = Some (r, t) \<Longrightarrow> fd_view t = fd_view s"
proof -
  show R: "Recycle p s = Some (ok, t) \<Longrightarrow> fd_view t = fd_view s" for p s ok t
    by (auto simp: Recycle_def Let_def split: bind_splits prod.splits if_splits dest!: fdv)
  show P: "RemoveParentFile fh s = Some (ok, t) \<Longrightarrow> fd_view t = fd_view s" for fh s ok t
    by (auto simp: RemoveParentFile_def split: option.splits dest!: R)
  show "RecycleParentFh f fh im s = Some (r, t) \<Longrightarrow> fd_view t = fd_view s"
    by (auto simp: RecycleParentFh_def Let_def split: bind_splits prod.splits if_splits dest!: P fdv)
qed

lemma inherit_ids_view [fdv]: "inherit_ids ofb nfb js s = Some t \<Longrightarrow> fd_view t = fd_view s"
  by (induction js arbitrary: s) (auto split: bind_splits dest!: fdv)

lemma shrink_fb_view [fdv]: "shrink_fb f fh off s = Some (x, t) \<Longrightarrow> fd_view t = fd_view s"
  by (auto simp: shrink_fb_def Let_def
      split: prod.splits option.splits bind_splits if_splits list.splits bool.splits dest!: fdv)

lemma child_view [fdv]:
  "RemoveChildFile d f s = (ok, t) \<Longrightarrow> fd_view t = fd_view s"
  "AddChildFile d f s = (ok, t) \<Longrightarrow> fd_view t = fd_view s"
  by (auto simp: RemoveChildFile_def AddChildFile_def split: if_splits)

section \<open>Operations that move names or make files\<close>

text \<open>
  \<open>fd_link F s t\<close>: descriptors and link counts are the same in \<open>t\<close>, and the tables name no
  file that was not named in \<open>s\<close> or in \<open>F\<close>.
\<close>

definition fd_link :: "nat set \<Rightarrow> fs \<Rightarrow> fs \<Rightarrow> bool" where
  "fd_link F s t \<longleftrightarrow> open_refs t = open_refs s \<and> fd_handle t = fd_handle s \<and> fobj_next t = fobj_next s
     \<and> (\<forall>f. f_nlink (fobj t f) = f_nlink (fobj s f)) \<and> files_of t \<subseteq> F \<union> files_of s"

lemma fd_view_link: "fd_view t = fd_view s \<Longrightarrow> fd_link F s t"
  by (auto simp: fd_view_def fd_link_def files_of_def fun_eq_iff)

lemma fd_link_trans: "fd_link F s t \<Longrightarrow> fd_link F t u \<Longrightarrow> fd_link F s u"
  by (auto simp: fd_link_def)

lemma fd_link_view1: "fd_view t = fd_view s \<Longrightarrow> fd_link F t u \<Longrightarrow> fd_link F s u"
  using fd_link_trans fd_view_link by blast

lemma fd_link_view2: "fd_link F s t \<Longrightarrow> fd_view u = fd_view t \<Longrightarrow> fd_link F s u"
  using fd_link_trans fd_view_link by blast

lemma fd_link_errno [simp]: "fd_link F s (set_errno e t) = fd_link F s t"
  by (simp add: fd_link_def open_refs_def files_of_def set_errno_def)

lemma snd_amap_put: "snd ` set (amap_put k v m) \<subseteq> insert v (snd ` set m)"
  by (induction m) auto

lemma snd_amap_del: "snd ` set (amap_del k m) \<subseteq> snd ` set m"
  by (induction m) auto

lemma AddFileNoLock_link: "f \<in> F \<Longrightarrow> fd_link F s (AddFileNoLock f s)"
  using snd_amap_put [of "File_fh s f" f "created_fhs s"] snd_amap_put [of "(File_dh s f, File_file_name s f)" f "created_files s"]
  by (auto simp: fd_link_def open_refs_def AddFileNoLock_def files_of_def)

lemma AddFileToDirectory_link: "f \<in> F \<Longrightarrow> fd_link F s (AddFileToDirectory d f s)"
  unfolding AddFileToDirectory_def
  by (rule fd_link_view1 [OF _ AddFileNoLock_link]) (metis child_view(2) prod.collapse)

lemma fd_link_tables:
  assumes "snd ` set a \<subseteq> F \<union> files_of s" "snd ` set b \<subseteq> F \<union> files_of s"
  shows "fd_link F s (s\<lparr>created_files := a, created_fhs := b\<rparr>)" "fd_link F s (s\<lparr>created_files := a\<rparr>)"
  using assms by (auto simp: fd_link_def open_refs_def files_of_def)

lemma RemoveFileNoLock_link:
  assumes "RemoveFileNoLock f s = (ok, t)"
  shows "fd_link F s t"
proof -
  let ?a = "amap_del (File_dh s f, File_file_name s f) (created_files s)" and ?b = "amap_del (File_fh s f) (created_fhs s)"
  have "t = s \<or> t = s\<lparr>created_files := ?a\<rparr> \<or> t = s\<lparr>created_files := ?a, created_fhs := ?b\<rparr>"
    using assms by (auto simp: RemoveFileNoLock_def Let_def File_fh_def split: if_splits)
  moreover have "snd ` set ?a \<subseteq> F \<union> files_of s" "snd ` set ?b \<subseteq> F \<union> files_of s"
    using snd_amap_del [of "(File_dh s f, File_file_name s f)" "created_files s"] snd_amap_del [of "File_fh s f" "created_fhs s"]
    unfolding files_of_def by blast+
  ultimately show ?thesis using fd_link_tables [of ?a F s ?b] fd_view_link [of s s F] by auto
qed

lemma RemoveFileFromoDirectory_link: "RemoveFileFromoDirectory d f s = (ok, t) \<Longrightarrow> fd_link F s t"
  by (auto simp: RemoveFileFromoDirectory_def split: prod.splits bool.splits
      dest!: fdv RemoveFileNoLock_link [where F = F] intro: fd_link_view1 fd_view_link)

lemma shrink_switch_link:
  assumes "shrink_switch f fh off fb s = Some (r, t)"
  shows "fd_link {f} s t"
proof -
  let ?s1 = "upd_fmeta (f_meta (fobj s f)) (\<lambda>m. m\<lparr>fm_child_fh := ucast (fm_fh (fmetas s fh))\<rparr>) s"
  show ?thesis
  proof (cases "GetCreatedDirectory_dh ?s1 (File_dh ?s1 f)")
    case None
    then show ?thesis using assms by (auto simp: shrink_switch_def Let_def intro!: fd_view_link)
  next
    case (Some dir)
    obtain x s2 where r: "RemoveFileFromoDirectory dir f ?s1 = (x, s2)" by fastforce
    define s3 where "s3 = AddFileToDirectory dir f (upd_file f (\<lambda>x. x\<lparr>f_meta := fh\<rparr>) s2)"
    have "fd_link {f} s s2" using fd_link_view1 [OF _ RemoveFileFromoDirectory_link [OF r]] by simp
    then have "fd_link {f} s (upd_file f (\<lambda>x. x\<lparr>f_meta := fh\<rparr>) s2)" by (rule fd_link_view2) simp
    then have l3: "fd_link {f} s s3"
      unfolding s3_def by (rule fd_link_trans) (rule AddFileToDirectory_link, simp)
    have "fd_view t = fd_view s3"
      using assms Some r s3_def
      by (auto simp: shrink_switch_def Let_def AddParentFile_def split: if_splits option.splits prod.splits dest!: fdv)
    with l3 show ?thesis by (rule fd_link_view2)
  qed
qed

lemma ShrinkFile_link:
  assumes "ShrinkFile f off s = Some (r, t)"
  shows "fd_link {f} s t"
proof -
  obtain nm s1 where n: "NewFreeFileMeta (File_dh s f) (File_file_name s f) s = Some (nm, s1)"
    using assms by (auto simp: ShrinkFile_def split: bind_splits)
  have v1: "fd_view s1 = fd_view s" using n by (rule NewFreeFileMeta_view)
  show ?thesis
  proof (cases nm)
    case None
    then show ?thesis using assms n v1 by (auto simp: ShrinkFile_def intro: fd_view_link)
  next
    case (Some fh)
    define s2 where "s2 = upd_fmeta fh (\<lambda>m. m\<lparr>fm_is_temp := fm_is_temp (File_meta s1 f),
        fm_parent_fh := ucast (fm_fh (File_meta s1 f)),
        fm_parent_size := ucast (ucast (off div kBlockSize) :: u32) * kBlockSize,
        fm_size := ucast (ucast (off div kBlockSize) :: u32) * kBlockSize\<rparr>) s1"
    have v2: "fd_view s2 = fd_view s" using v1 by (simp add: s2_def)
    define whole where "whole \<longleftrightarrow> (ucast (off div kBlockSize) :: u32) mod ucast kFileBlockCapacity = 0 \<and> off mod kBlockSize = 0"
    have e: "(if whole then shrink_switch f fh off None s2
        else do { (x, s) \<leftarrow> shrink_fb f fh off s2;
                  case x of Inl _ \<Rightarrow> Some (- 1, s) | Inr fb \<Rightarrow> shrink_switch f fh off (Some fb) s }) = Some (r, t)"
      using assms n unfolding Some ShrinkFile_def Let_def s2_def whole_def by simp
    show ?thesis
    proof (cases whole)
      case True
      then show ?thesis using e fd_link_view1 [OF v2] shrink_switch_link by simp
    next
      case False
      then obtain x s3 where b: "shrink_fb f fh off s2 = Some (x, s3)"
        "(case x of Inl _ \<Rightarrow> Some (- 1, s3) | Inr fb \<Rightarrow> shrink_switch f fh off (Some fb) s3) = Some (r, t)"
        using e by (cases "shrink_fb f fh off s2") auto
      have v3: "fd_view s3 = fd_view s" using shrink_fb_view [OF b(1)] v2 by simp
      show ?thesis
      proof (cases x)
        case (Inl a)
        then show ?thesis using b v3 by (auto intro: fd_view_link)
      next
        case (Inr fb)
        then show ?thesis using b fd_link_view1 [OF v3] shrink_switch_link by simp
      qed
    qed
  qed
qed

lemma ftruncate_link: "ftruncate f n s = Some (r, t) \<Longrightarrow> fd_link {f} s t"
  by (auto simp: ftruncate_def split: if_splits dest!: ExtendFile_view intro: fd_view_link ShrinkFile_link)

lemma lookup_view [fdv]:
  "DirHandle_TransformPath p s = (x, t) \<Longrightarrow> fd_view t = fd_view s"
  "GetCreatedDirectory p s = (y, t) \<Longrightarrow> fd_view t = fd_view s"
  "FileHandle_TransformPath p s = (z, t) \<Longrightarrow> fd_view t = fd_view s"
  "GetCreatedFile_key k s = (u, t) \<Longrightarrow> fd_view t = fd_view s"
  by (auto simp: DirHandle_TransformPath_def GetCreatedDirectory_def FileHandle_TransformPath_def GetCreatedFile_key_def
      Let_def split: if_splits option.splits prod.splits)

lemma GetCreatedFile_view [fdv]: "GetCreatedFile p s = (x, t) \<Longrightarrow> fd_view t = fd_view s"
  by (auto simp: GetCreatedFile_def split: option.splits prod.splits dest!: fdv)

lemma FindFile_view [fdv]: "FindFile d n s = (x, t) \<Longrightarrow> fd_view t = fd_view s"
  by (auto simp: FindFile_def split: option.splits prod.splits dest!: fdv)

text \<open>What a lookup returns is in the tables.\<close>

lemma GetCreatedFile_in:
  assumes "GetCreatedFile p s = (Some f, t)"
  shows "f \<in> files_of s"
proof -
  have key: "f \<in> snd ` set (created_files u)" if "GetCreatedFile_key k u = (Some f, v)" for k u v
    using that by (cases "map_of (created_files u) k") (auto simp: GetCreatedFile_key_def dest!: map_of_SomeD intro: rev_image_eqI)
  obtain x s1 where x: "FileHandle_TransformPath p s = (x, s1)" by fastforce
  obtain d n where dn: "x = Some (d, n)" using assms x by (cases x) (auto simp: GetCreatedFile_def)
  obtain y s2 where y: "GetCreatedDirectory d s1 = (y, s2)" by fastforce
  obtain dir where dir: "y = Some dir" using assms x dn y by (cases y) (auto simp: GetCreatedFile_def)
  have "GetCreatedFile_key (Dir_dh s2 dir, n) s2 = (Some f, t)"
    using assms x dn y dir by (simp add: GetCreatedFile_def)
  moreover have "fd_view s2 = fd_view s" using x y by (auto dest!: fdv)
  ultimately show ?thesis using key [of _ s2] unfolding files_of_def fd_view_def by auto
qed

text \<open>Calls on an open file that move nothing but its position.\<close>

lemma open_refs_append_pos [simp]: "fd_view (add_append_pos fd n s) = fd_view s"
  by (auto simp: fd_view_def open_refs_def add_append_pos_def)

lemma read_blocks_view [fdv]: "read_blocks d bs r buf s = Some (x, t) \<Longrightarrow> fd_view t = fd_view s"
proof (induction bs arbitrary: r buf s)
  case Nil
  then show ?case by simp
next
  case (Cons b bs)
  have rd: "ReadBlockData d b u = (y, v) \<Longrightarrow> fd_view v = fd_view u" for u v y
    by (auto simp: ReadBlockData_def split: if_splits dest!: fdv)
  from Cons show ?case
    by (auto simp: Let_def split: bind_splits prod.splits if_splits dest!: rd)
qed

lemma write_blocks_view [fdv]: "write_blocks d buf bs r s = Some (x, t) \<Longrightarrow> fd_view t = fd_view s"
proof (induction bs arbitrary: r s)
  case Nil
  then show ?case by simp
next
  case (Cons b bs)
  have wr: "WriteBlockData d buf b u = (y, v) \<Longrightarrow> fd_view v = fd_view u" for u v y
    by (auto simp: WriteBlockData_def Let_def split: if_splits dest!: fdv)
  from Cons show ?case
    by (auto simp: Let_def split: bind_splits prod.splits if_splits dest!: wr)
qed

lemma data_view [fdv]:
  "ReadData d fd f sz off buf s = Some (x, t) \<Longrightarrow> fd_view t = fd_view s"
  "WriteData d fd f sz off buf s = Some (r, t) \<Longrightarrow> fd_view t = fd_view s"
  by (auto simp: ReadData_def WriteData_def split: option.splits bind_splits prod.splits if_splits dest!: fdv)

lemma read_view [fdv]:
  "OpenFile_pread fd f sz off buf s = Some (x, t) \<Longrightarrow> fd_view t = fd_view s"
  "OpenFile_read fd f sz off buf s = Some (x, t) \<Longrightarrow> fd_view t = fd_view s"
  by (auto simp: OpenFile_pread_def OpenFile_read_def Let_def split: if_splits dest!: fdv)

lemma OpenFile_pwrite_link:
  assumes "OpenFile_pwrite fd f buf sz off s = Some (r, t)"
  shows "fd_link {f} s t"
proof (cases "sz = 0")
  case True
  then show ?thesis using assms by (auto simp: OpenFile_pwrite_def intro: fd_view_link)
next
  case False
  then obtain r1 s1 where g: "(if File_file_size s f < off + sz then ftruncate f (off + sz) s else Some (0, s)) = Some (r1, s1)"
    and w: "(if r1 < 0 then Some (- 1, s1) else WriteData False fd f sz off buf
      (if now s1 mod 2 = 0 then File_UpdateTimeStamp f (now s1) s1 else s1)) = Some (r, t)"
    using assms unfolding OpenFile_pwrite_def Let_def by (auto split: bind_splits)
  have l: "fd_link {f} s s1" using g ftruncate_link fd_view_link by (auto split: if_splits)
  have "fd_view t = fd_view s1" using w by (auto split: if_splits dest!: fdv)
  with l show ?thesis by (rule fd_link_view2)
qed

lemma amap_put_refs:
  assumes "map_of m k = Some x" "of_file y = of_file x"
  shows "map (\<lambda>(fd, x). (fd, of_file x)) (amap_put k y m) = map (\<lambda>(fd, x). (fd, of_file x)) m"
  using assms by (induction m) (auto split: if_splits)

lemma OpenFile_lseek_view [fdv]:
  assumes "OpenFile_lseek fd x off wh s = (p, t)" "map_of (open_files s) fd = Some x"
  shows "fd_view t = fd_view s"
  using assms amap_put_refs [OF assms(2)]
  by (auto simp: OpenFile_lseek_def Let_def fd_view_def open_refs_def set_errno_def split: if_splits)

section \<open>Removing a file\<close>

lemma UnlinkFileNolock_link:
  assumes "UnlinkFileNolock fh s = Some (r, t)"
  shows "fd_link {} s t"
  using assms
  by (auto simp: UnlinkFileNolock_def Let_def
      split: option.splits if_splits bind_splits prod.splits bool.splits
      dest!: fdv RemoveFileFromoDirectory_link [where F = "{}"]
      intro: fd_view_link fd_link_view1 fd_link_view2)

lemma unlink_link:
  assumes "unlink path s = Some (r, t)"
  shows "fd_link {} s t"
proof -
  have nl: "fd_view (upd_file f (\<lambda>x. x\<lparr>f_deleted := True\<rparr>) u) = fd_view u" for f u by simp
  from assms show ?thesis
    by (auto simp: unlink_def nl
        split: option.splits if_splits bind_splits prod.splits bool.splits
        dest!: fdv RemoveFileFromoDirectory_link [where F = "{}"]
        intro: fd_view_link fd_link_view1 fd_link_view2)
qed

section \<open>Making a file\<close>

definition fd_ext :: "fs \<Rightarrow> fs \<Rightarrow> bool" where
  "fd_ext s t \<longleftrightarrow> open_refs t = open_refs s \<and> fd_handle t = fd_handle s \<and> fobj_next s \<le> fobj_next t
     \<and> (\<forall>f < fobj_next s. f_nlink (fobj t f) = f_nlink (fobj s f))
     \<and> (\<forall>f \<in> {fobj_next s..<fobj_next t}. f_nlink (fobj t f) = 0)
     \<and> files_of t \<subseteq> files_of s \<union> {fobj_next s..<fobj_next t}"

lemma fd_link_ext: "fd_link F s t \<Longrightarrow> F \<subseteq> files_of s \<Longrightarrow> fd_ext s t"
  by (auto simp: fd_link_def fd_ext_def)

lemma fd_view_ext: "fd_view t = fd_view s \<Longrightarrow> fd_ext s t"
  using fd_link_ext [OF fd_view_link [of t s "{}"]] by simp

lemma fd_ext_trans:
  assumes "fd_ext s t" "fd_ext t u"
  shows "fd_ext s u"
proof -
  have "f_nlink (fobj u f) = 0" if "f \<in> {fobj_next s..<fobj_next u}" for f
    using assms that by (cases "f < fobj_next t") (auto simp: fd_ext_def)
  then show ?thesis using assms unfolding fd_ext_def by (auto dest!: subsetD)
qed

lemma new_free_file_ext:
  assumes "new_free_file dh nm tmp s = (x, t)"
  shows "x = None \<and> fd_view t = fd_view s
     \<or> x = Some (fobj_next s) \<and> fd_ext s t \<and> fobj_next t = Suc (fobj_next s)"
proof (cases "free_fhs s")
  case Nil
  then show ?thesis using assms by (auto simp: new_free_file_def)
next
  case (Cons fh rest)
  show ?thesis
  proof (cases "fm_used (fmetas s fh) \<or> fm_fh (fmetas s fh) \<noteq> word_of_nat fh \<or> fm_size (fmetas s fh) \<noteq> 0")
    case True
    then show ?thesis using assms Cons by (auto simp: new_free_file_def)
  next
    case False
    let ?s1 = "s\<lparr>fobj := (fobj s)(fobj_next s := File_new fh), fobj_next := Suc (fobj_next s)\<rparr>"
    have "x = Some (fobj_next s)" "fd_view t = fd_view ?s1"
      using assms Cons False by (auto simp: new_free_file_def new_file_def Let_def)
    moreover have "fd_ext s ?s1"
      by (auto simp: fd_ext_def open_refs_def files_of_def File_new_def)
    moreover have "fd_view t = fd_view ?s1 \<Longrightarrow> fobj_next t = Suc (fobj_next s)" by (simp add: fd_view_def)
    ultimately show ?thesis using fd_ext_trans fd_view_ext by blast
  qed
qed

lemma NewFile_ext:
  assumes "NewFile d n tmp s = (x, t)"
  shows "(\<exists>dir. x = Some (dir, fobj_next s) \<and> fobj_next t = Suc (fobj_next s)) \<and> fd_ext s t
     \<or> x = None \<and> fd_view t = fd_view s"
proof -
  obtain y s1 where y: "GetCreatedDirectory d s = (y, s1)" by fastforce
  have v1: "fd_view s1 = fd_view s" using y by (rule fdv)
  then have n1: "fobj_next s1 = fobj_next s" by (simp add: fd_view_def)
  show ?thesis
  proof (cases y)
    case None
    then show ?thesis using assms y v1 by (auto simp: NewFile_def)
  next
    case (Some dir)
    obtain z s2 where z: "(if \<not> tmp then NewFreeFileNolock (Dir_dh s1 dir) n s1 else NewFreeTmpFileNolock (Dir_dh s1 dir) s1) = (z, s2)"
      by fastforce
    have e2: "z = None \<and> fd_view s2 = fd_view s1
        \<or> z = Some (fobj_next s1) \<and> fd_ext s1 s2 \<and> fobj_next s2 = Suc (fobj_next s1)"
      using z new_free_file_ext by (auto simp: NewFreeFileNolock_def NewFreeTmpFileNolock_def split: if_splits)
    show ?thesis
    proof (cases "\<not> tmp \<and> amap_contains (Dir_dh s1 dir, n) (created_files s1)")
      case True
      then show ?thesis using assms y Some v1 by (auto simp: NewFile_def)
    next
      case False
      then have r: "NewFile d n tmp s = (case z of None \<Rightarrow> (None, s2) | Some f \<Rightarrow>
          (Some (dir, f), upd_fmeta (f_meta (fobj s2 f)) (\<lambda>m. m\<lparr>fm_atime := now s2, fm_mtime := now s2, fm_ctime := now s2\<rparr>) s2))"
        using y Some z by (auto simp: NewFile_def Let_def split: option.splits)
      show ?thesis
      proof (cases z)
        case None
        then show ?thesis using r assms e2 v1 by simp
      next
        case (Some f)
        then have "fd_ext s s2" "f = fobj_next s" "fobj_next s2 = Suc (fobj_next s)"
          using e2 fd_ext_trans [OF fd_view_ext [OF v1]] n1 by auto
        moreover have v: "fd_view t = fd_view s2" using r assms Some by auto
        then have "fd_ext s2 t" "fobj_next t = fobj_next s2" by (simp_all add: fd_view_ext) (simp add: fd_view_def)
        moreover have "x = Some (dir, f)" using r assms Some by simp
        ultimately show ?thesis using fd_ext_trans by auto
      qed
    qed
  qed
qed

lemma CreateFile_ext:
  assumes "CreateFile p tmp s = (x, t)"
  shows "fd_ext s t" "x = Some f \<Longrightarrow> f < fobj_next t"
proof -
  obtain y s1 where y: "(if \<not> tmp then FileHandle_TransformPath p s else (Some (p, []), s)) = (y, s1)" by fastforce
  have v1: "fd_view s1 = fd_view s" using y by (auto split: if_splits dest!: fdv)
  have "fd_ext s t \<and> (x = Some f \<longrightarrow> f < fobj_next t)"
  proof (cases y)
    case None
    then show ?thesis using assms y v1 by (auto simp: CreateFile_def intro: fd_view_ext)
  next
    case (Some dn)
    obtain d n where dn: "dn = (d, n)" by fastforce
    obtain z s2 where z: "NewFile d n tmp s1 = (z, s2)" by fastforce
    note N = NewFile_ext [OF z]
    have e2: "fd_ext s s2" using N fd_ext_trans [OF fd_view_ext [OF v1]] fd_view_ext by blast
    show ?thesis
    proof (cases z)
      case None
      then show ?thesis using assms y Some dn z e2 by (simp add: CreateFile_def)
    next
      case zs: (Some df)
      obtain dir f' where df: "df = (dir, f')" by fastforce
      have f': "f' = fobj_next s1" "fobj_next s2 = Suc (fobj_next s1)" using N zs df by auto
      obtain ok s3 where w: "File_WriteMeta f' s2 = (ok, s3)" by fastforce
      have v3: "fd_view s3 = fd_view s2" using w by (rule fdv)
      then have e3: "fd_ext s s3" "fobj_next s3 = fobj_next s2" using e2 fd_ext_trans fd_view_ext by (blast, simp add: fd_view_def)
      show ?thesis
      proof (cases ok)
        case False
        then show ?thesis using assms y Some dn z zs df w e3 by (simp add: CreateFile_def)
      next
        case True
        let ?u = "AddFileToDirectory dir f' s3"
        have xt: "x = Some f'" "t = set_errno 0 ?u" using assms y Some dn z zs df w True by (simp_all add: CreateFile_def)
        have l: "fd_link {f'} s3 ?u" by (rule AddFileToDirectory_link) simp
        have n: "fobj_next s1 = fobj_next s" using v1 by (simp add: fd_view_def)
        have "fd_ext s ?u" using l e3 f' n by (auto simp: fd_ext_def fd_link_def)
        then have "fd_ext s t" using fd_ext_trans [of s ?u t] fd_view_ext [of t ?u] xt by simp
        moreover have "fobj_next t = fobj_next s3" using l xt by (simp add: fd_link_def set_errno_def)
        moreover have "f = f'" if "x = Some f" using that xt(1) by simp
        ultimately show ?thesis using f' e3(2) by fastforce
      qed
    qed
  qed
  then show "fd_ext s t" "x = Some f \<Longrightarrow> f < fobj_next t" by simp_all
qed

section \<open>The invariant\<close>

definition alloc_ok :: "fs \<Rightarrow> bool" where
  "alloc_ok s \<longleftrightarrow> (\<forall>f \<in> files_of s. f < fobj_next s)"

definition fds_used :: "int list \<Rightarrow> fs \<Rightarrow> int list" where
  "fds_used D s = map fst (open_refs s) @ D"

text \<open>
  \<open>D\<close> lists the descriptors that open directory streams hold. Descriptors in use and free
  descriptors are a partition of all descriptors: none is handed out twice, none is lost.
\<close>

definition fds_ok :: "int list \<Rightarrow> fs \<Rightarrow> bool" where
  "fds_ok D s \<longleftrightarrow> fd_inv (fd_handle s) \<and> distinct (fds_used D s)
     \<and> set (fds_used D s) \<inter> set (free_fd_pool (fd_handle s)) = {}
     \<and> set (fds_used D s) \<union> set (free_fd_pool (fd_handle s)) = {0..<max_fd_num (fd_handle s)}
     \<and> (\<forall>f \<in> snd ` set (open_refs s). f < fobj_next s)
     \<and> (\<forall>f < fobj_next s. f_nlink (fobj s f) = int (count_list (map snd (open_refs s)) f)) \<and> alloc_ok s"

lemma fds_ok_file: "fds_ok D s \<Longrightarrow> map_of (open_files s) fd = Some x \<Longrightarrow> of_file x < fobj_next s"
  by (force simp: fds_ok_def open_refs_def dest!: map_of_SomeD)

lemma fds_ok_ext:
  assumes "fds_ok D s" "fd_ext s t"
  shows "fds_ok D t"
proof -
  have "count_list (map snd (open_refs s)) f = 0" if "fobj_next s \<le> f" for f
    using assms(1) that by (force simp: fds_ok_def count_list_0_iff)
  then have "f_nlink (fobj t f) = int (count_list (map snd (open_refs t)) f)" if "f < fobj_next t" for f
    using assms that by (cases "f < fobj_next s") (auto simp: fds_ok_def fd_ext_def)
  moreover have "alloc_ok t"
    using assms unfolding fds_ok_def fd_ext_def alloc_ok_def by (meson UnE atLeastLessThan_iff order_less_le_trans subsetD)
  moreover have "\<forall>f \<in> snd ` set (open_refs t). f < fobj_next t"
    using assms unfolding fds_ok_def fd_ext_def by (metis order_less_le_trans)
  ultimately show ?thesis using assms by (simp add: fds_ok_def fd_ext_def fds_used_def)
qed

lemma fds_ok_view: "fds_ok D s \<Longrightarrow> fd_view t = fd_view s \<Longrightarrow> fds_ok D t"
  using fds_ok_ext fd_view_ext by blast

lemma fds_ok_link:
  assumes "fds_ok D s" "fd_link F s t" "\<forall>f \<in> F. f < fobj_next s"
  shows "fds_ok D t"
  using assms by (auto simp: fds_ok_def fd_link_def fds_used_def alloc_ok_def)

text \<open>The common tail of \<open>open\<close> and \<open>dup\<close>: take a descriptor, register it, count the link.\<close>

lemma amap_put_fresh: "k \<notin> fst ` set m \<Longrightarrow> amap_put k v m = m @ [(k, v)]"
  by (induction m) auto

lemma fs_get_fd_some:
  assumes "fs_get_fd s = (fd, s1)" "free_fd_pool (fd_handle s) \<noteq> []" "fds_ok D s"
  shows "\<exists>rest. free_fd_pool (fd_handle s) = fd # rest \<and> s1 = s\<lparr>fd_handle := (fd_handle s)\<lparr>free_fd_pool := rest\<rparr>\<rparr>
    \<and> 0 \<le> fd \<and> fd \<notin> set (fds_used D s) \<and> fd_inv (fd_handle s1)
    \<and> set (fd # fds_used D s) \<inter> set rest = {} \<and> set (fd # fds_used D s) \<union> set rest = {0..<max_fd_num (fd_handle s)}"
proof -
  obtain rest where p: "free_fd_pool (fd_handle s) = fd # rest" and s1: "s1 = s\<lparr>fd_handle := (fd_handle s)\<lparr>free_fd_pool := rest\<rparr>\<rparr>"
    using assms by (cases "free_fd_pool (fd_handle s)") (auto simp: fs_get_fd_def get_fd_def)
  then show ?thesis using assms(3) by (auto simp: fds_ok_def fd_inv_def)
qed

lemma fds_ok_register:
  assumes ok: "fds_ok D s" and f: "f < fobj_next s" and g: "fs_get_fd s = (fd, s1)" "free_fd_pool (fd_handle s) \<noteq> []"
    and t: "t = upd_file f (\<lambda>x. x\<lparr>f_nlink := f_nlink x + 1\<rparr>) (AddOpenFile fd \<lparr>of_file = f, of_append_pos = pos\<rparr> s1)"
  shows "fds_ok D t \<and> 0 \<le> fd \<and> fd \<notin> set (fds_used D s) \<and> open_refs t = open_refs s @ [(fd, f)]"
proof -
  obtain rest where p: "s1 = s\<lparr>fd_handle := (fd_handle s)\<lparr>free_fd_pool := rest\<rparr>\<rparr>" "0 \<le> fd" "fd \<notin> set (fds_used D s)"
    "fd_inv (fd_handle s1)" "set (fd # fds_used D s) \<inter> set rest = {}"
    "set (fd # fds_used D s) \<union> set rest = {0..<max_fd_num (fd_handle s)}"
    using fs_get_fd_some [OF g ok] by blast
  have "fd \<notin> fst ` set (open_files s)" using p(3) by (force simp: fds_used_def open_refs_def)
  then have r: "open_refs t = open_refs s @ [(fd, f)]"
    by (simp add: t p(1) open_refs_def AddOpenFile_def upd_file_def amap_put_fresh)
  have h: "fd_handle t = fd_handle s1" "fobj_next t = fobj_next s" "files_of t = files_of s"
    "\<And>x. f_nlink (fobj t x) = f_nlink (fobj s x) + (if x = f then 1 else 0)"
    by (simp_all add: t p(1) AddOpenFile_def upd_file_def files_of_def)
  have s1: "free_fd_pool (fd_handle s1) = rest" "max_fd_num (fd_handle s1) = max_fd_num (fd_handle s)" by (simp_all add: p(1))
  have u: "set (fds_used D t) = set (fd # fds_used D s)" "distinct (fds_used D t)"
    using ok p(3) by (auto simp: fds_ok_def fds_used_def r)
  have n: "f_nlink (fobj t x) = int (count_list (map snd (open_refs t)) x)" if "x < fobj_next t" for x
    using ok that by (simp add: fds_ok_def h(2,4) r)
  have a: "alloc_ok t" "\<forall>x \<in> snd ` set (open_refs t). x < fobj_next t"
    using ok f by (auto simp: fds_ok_def alloc_ok_def h(2,3) r)
  show ?thesis
    using p(2-6) r n a u unfolding fds_ok_def h(1) s1 by simp
qed

section \<open>Opening, duplicating and closing\<close>

lemma open_file_ext:
  assumes "open_file p fl s = Some (x, t)" "fds_ok D s"
  shows "fds_ok D t \<and> (\<forall>f. x = Some f \<longrightarrow> f < fobj_next t) \<and> fd_handle t = fd_handle s \<and> open_refs t = open_refs s"
proof -
  have ext: "fds_ok D v \<and> fd_handle v = fd_handle u \<and> open_refs v = open_refs u" if "fds_ok D u" "fd_ext u v" for u v
    using that fds_ok_ext by (auto simp: fd_ext_def)
  have create: "fds_ok D v \<and> (\<forall>f. y = Some f \<longrightarrow> f < fobj_next v) \<and> fd_handle v = fd_handle u \<and> open_refs v = open_refs u"
    if "fds_ok D u" "CreateFile q b u = (y, v)" for q b y u v
    using CreateFile_ext [OF that(2)] ext [OF that(1)] by auto
  obtain b s1 where b: "IsNeedCreateTempFile fl s = (b, s1)" by fastforce
  have v1: "fd_view s1 = fd_view s" using b by (auto simp: IsNeedCreateTempFile_def split: if_splits)
  have ok1: "fds_ok D s1" "fd_handle s1 = fd_handle s" "open_refs s1 = open_refs s"
    using fds_ok_view [OF assms(2) v1] v1 by (simp_all add: fd_view_def)
  show ?thesis
  proof (cases b)
    case True
    then have "CreateFile p True s1 = (x, t)" using assms(1) b by (simp add: open_file_def)
    from create [OF ok1(1) this] show ?thesis using ok1 by simp
  next
    case False
    obtain y s2 where y: "GetCreatedDirectory p s1 = (y, s2)" by fastforce
    obtain z s3 where z: "GetCreatedFile p s2 = (z, s3)" by fastforce
    have v: "fd_view s2 = fd_view s1" "fd_view s3 = fd_view s2" using y z by (blast intro: fdv)+
    then have ok3: "fds_ok D s2" "fds_ok D s3" "fd_handle s2 = fd_handle s" "open_refs s2 = open_refs s"
      "fd_handle s3 = fd_handle s" "open_refs s3 = open_refs s" "fobj_next s3 = fobj_next s2"
      using fds_ok_view ok1 by (blast, blast, simp_all add: fd_view_def)
    show ?thesis
    proof (cases "y = None")
      case False
      then have "x = None" "t = set_errno EISDIR s2" using assms(1) b \<open>\<not> b\<close> y by (auto simp: open_file_def)
      then show ?thesis using ok3 fds_ok_view [of D s2 t] by (simp add: open_refs_def set_errno_def)
    next
      case dn: True
      show ?thesis
      proof (cases z)
        case None
        then have "CreateFile p False s3 = (x, t) \<or> x = None \<and> t = set_errno ENOENT s3"
          using assms(1) b False y dn z by (auto simp: open_file_def split: if_splits)
        then show ?thesis
        proof
          assume "CreateFile p False s3 = (x, t)"
          from create [OF ok3(2) this] show ?thesis using ok3 by simp
        next
          assume "x = None \<and> t = set_errno ENOENT s3"
          then show ?thesis using ok3 fds_ok_view [of D s3 t] by (simp add: open_refs_def set_errno_def)
        qed
      next
        case (Some f)
        have f: "f < fobj_next s3" using GetCreatedFile_in z Some ok3(1,7) by (auto simp: fds_ok_def alloc_ok_def)
        obtain vok s4 where vf: "VerifyOpenExistFileFlag fl s3 = (vok, s4)" by fastforce
        then have v4: "fd_view s4 = fd_view s3" by (auto simp: VerifyOpenExistFileFlag_def split: if_splits)
        then have ok4: "fds_ok D s4" "fd_handle s4 = fd_handle s" "open_refs s4 = open_refs s" "f < fobj_next s4"
          using fds_ok_view [OF ok3(2)] f ok3 by (simp_all add: fd_view_def)
        have l: "fd_link {f} s4 t \<and> (x = None \<or> x = Some f)"
          using assms(1) b False y dn z Some vf
          by (auto simp: open_file_def intro: fd_view_link ftruncate_link split: bool.splits if_splits bind_splits)
        then have "fds_ok D t" using fds_ok_link [OF ok4(1)] ok4(4) by auto
        then show ?thesis using l ok4 by (auto simp: fd_link_def)
      qed
    qed
  qed
qed

lemma FileHandle_open_ok:
  assumes "FileHandle_open p fl s = Some (r, t)" "fds_ok D s" "free_fd_pool (fd_handle s) \<noteq> []"
  shows "fds_ok D t \<and> (r < 0 \<and> open_refs t = open_refs s
     \<or> 0 \<le> r \<and> r \<notin> set (fds_used D s) \<and> (\<exists>f. open_refs t = open_refs s @ [(r, f)]))"
proof -
  obtain x s1 where x: "open_file p fl s = Some (x, s1)"
    using assms(1) unfolding FileHandle_open_def by (auto split: bind_splits)
  note o = open_file_ext [OF x assms(2)]
  show ?thesis
  proof (cases x)
    case None
    then show ?thesis using assms(1) x o by (simp add: FileHandle_open_def)
  next
    case (Some f)
    obtain fd s2 where g: "fs_get_fd s1 = (fd, s2)" by fastforce
    let ?pos = "if fl AND O_APPEND \<noteq> 0 then File_file_size s2 f else 0"
    let ?u = "upd_file f (\<lambda>x. x\<lparr>f_nlink := f_nlink x + 1\<rparr>) (AddOpenFile fd \<lparr>of_file = f, of_append_pos = ?pos\<rparr> s2)"
    have "Some (fd, set_errno 0 ?u) = FileHandle_open p fl s"
      using x Some g unfolding FileHandle_open_def Let_def by simp
    with assms(1) have rt: "r = fd" "t = set_errno 0 ?u" by auto
    have "free_fd_pool (fd_handle s1) \<noteq> []" "f < fobj_next s1" "fds_ok D s1" using o assms(3) Some by simp_all
    from fds_ok_register [OF this(3,2) g this(1) refl]
    have "fds_ok D ?u" "0 \<le> fd" "fd \<notin> set (fds_used D s1)" "open_refs ?u = open_refs s1 @ [(fd, f)]" by blast+
    moreover have "fds_used D s1 = fds_used D s" "open_refs s1 = open_refs s" using o by (simp_all add: fds_used_def)
    moreover have "fd_view t = fd_view ?u" using rt(2) by simp
    ultimately show ?thesis using rt(1) fds_ok_view [of D ?u t] by (simp add: fd_view_def)
  qed
qed

lemma FileHandle_dup_ok:
  assumes "FileHandle_dup fd s = (r, t)" "fds_ok D s" "free_fd_pool (fd_handle s) \<noteq> []"
  shows "fds_ok D t \<and> (r = - 1 \<and> map_of (open_files s) fd = None \<and> open_refs t = open_refs s
     \<or> 0 \<le> r \<and> r \<notin> set (fds_used D s) \<and> (\<exists>x. map_of (open_files s) fd = Some x \<and> open_refs t = open_refs s @ [(r, of_file x)]))"
proof (cases "map_of (open_files s) fd")
  case None
  then have rt: "r = - 1" "t = set_errno EBADF s" using assms(1) by (auto simp: FileHandle_dup_def GetOpenFile_def)
  then have "fd_view t = fd_view s" by simp
  then show ?thesis using fds_ok_view assms(2) None rt(1) by (simp add: fd_view_def)
next
  case (Some x)
  obtain nfd s1 where g: "fs_get_fd s = (nfd, s1)" by fastforce
  let ?u = "upd_file (of_file x) (\<lambda>x. x\<lparr>f_nlink := f_nlink x + 1\<rparr>) (AddOpenFile nfd \<lparr>of_file = of_file x, of_append_pos = 0\<rparr> s1)"
  have "(nfd, set_errno 0 ?u) = FileHandle_dup fd s"
    using Some g unfolding FileHandle_dup_def GetOpenFile_def Let_def by simp
  with assms(1) have rt: "r = nfd" "t = set_errno 0 ?u" by auto
  from fds_ok_register [OF assms(2) fds_ok_file [OF assms(2) Some] g assms(3) refl]
  have "fds_ok D ?u" "0 \<le> nfd" "nfd \<notin> set (fds_used D s)" "open_refs ?u = open_refs s @ [(nfd, of_file x)]" by blast+
  moreover have "fd_view t = fd_view ?u" using rt(2) by simp
  ultimately show ?thesis using rt(1) fds_ok_view [of D ?u t] Some by (simp add: fd_view_def)
qed

lemma amap_del_map_snd: "amap_del k (map (\<lambda>(k, x). (k, g x)) m) = map (\<lambda>(k, x). (k, g x)) (amap_del k m)"
  by (induction m) auto

lemma amap_del_count:
  assumes "distinct (map fst m)" "map_of m k = Some f"
  shows "count_list (map snd m) g = count_list (map snd (amap_del k m)) g + (if g = f then 1 else 0)"
  using assms
proof (induction m)
  case Nil
  then show ?case by simp
next
  case (Cons e m)
  obtain k' f' where e: "e = (k', f')" by fastforce
  show ?case
  proof (cases "k' = k")
    case True
    then have "map_of m k = None" using Cons.prems(1) e by (auto simp: map_of_eq_None_iff)
    then have "amap_del k m = m" by (simp add: delete_id map_of_eq_None_iff)
    then show ?thesis using True Cons.prems(2) e by auto
  next
    case False
    then show ?thesis using Cons e by auto
  qed
qed

lemma fsync_view [fdv]: "File_fsync f s = (r, t) \<Longrightarrow> fd_view t = fd_view s"
  by (auto simp: File_fsync_def Let_def split: prod.splits if_splits dest!: fdv)

lemma FileHandle_close_ok:
  assumes "FileHandle_close fd s = Some (r, t)" "fds_ok D s"
  shows "fds_ok D t \<and> (r = - 1 \<and> map_of (open_files s) fd = None \<and> open_refs t = open_refs s
     \<or> r = 0 \<and> open_refs t = amap_del fd (open_refs s) \<and> fd \<in> set (free_fd_pool (fd_handle t)))"
proof (cases "map_of (open_files s) fd")
  case None
  then have rt: "r = - 1" "t = set_errno EBADF s" using assms(1) by (auto simp: FileHandle_close_def GetOpenFile_def)
  then have "fd_view t = fd_view s" by simp
  then show ?thesis using fds_ok_view assms(2) None rt(1) by (simp add: fd_view_def)
next
  case (Some x)
  let ?f = "of_file x" and ?g = "\<lambda>y. y\<lparr>f_locked := False, f_nlink := f_nlink y - 1\<rparr>"
  define s1 where "s1 = snd (File_fsync ?f s)"
  let ?s2 = "upd_file ?f ?g s1"
  obtain s3 where s3: "(if f_nlink (fobj ?s2 ?f) = 0 \<and> (fm_is_temp (File_meta ?s2 ?f) \<or> f_deleted (fobj ?s2 ?f))
      then map_option snd (UnlinkFileNolock (File_fh ?s2 ?f) ?s2) else Some ?s2) = Some s3"
    and rt: "r = 0" "t = set_errno 0 (s3\<lparr>open_files := amap_del fd (open_files s3), fd_handle := put_fd fd (fd_handle s3)\<rparr>)"
    using assms(1) Some unfolding FileHandle_close_def GetOpenFile_def Let_def s1_def by (auto split: bind_splits)
  have l: "fd_link {} ?s2 s3" using s3 by (auto split: if_splits intro: fd_view_link UnlinkFileNolock_link)
  have v1: "fd_view s1 = fd_view s" unfolding s1_def using fsync_view [OF prod.collapse [symmetric]] by blast
  have r: "open_refs t = amap_del fd (open_refs s)"
  proof -
    have "open_refs t = amap_del fd (open_refs s3)" by (simp add: rt(2) open_refs_def set_errno_def amap_del_map_snd)
    then show ?thesis using l v1 by (simp add: fd_link_def open_refs_def upd_file_def fd_view_def)
  qed
  have h: "fd_handle t = put_fd fd (fd_handle s)" "fobj_next t = fobj_next s" "files_of t \<subseteq> files_of s"
    "\<And>g. f_nlink (fobj t g) = f_nlink (fobj s g) - (if g = ?f then 1 else 0)"
    using l v1 by (auto simp: rt(2) fd_link_def upd_file_def fd_view_def files_of_def set_errno_def fun_eq_iff)
  have d: "distinct (map fst (open_refs s))" "fd \<in> fst ` set (open_refs s)"
    and m: "map_of (open_refs s) fd = Some ?f"
    using assms(2) Some by (auto simp: fds_ok_def fds_used_def open_refs_def map_of_map dest: map_of_SomeD intro!: rev_image_eqI)
  have fd: "0 \<le> fd" "fd < max_fd_num (fd_handle s)" "fd \<notin> set (free_fd_pool (fd_handle s))"
    using assms(2) d(2) unfolding fds_ok_def fds_used_def by auto
  then have pool: "fd_handle t = (fd_handle s)\<lparr>free_fd_pool := free_fd_pool (fd_handle s) @ [fd]\<rparr>"
    using h(1) by (simp add: put_fd_def)
  have used: "set (fds_used D t) = set (fds_used D s) - {fd}" "distinct (fds_used D t)"
    using assms(2) d by (auto simp: fds_ok_def fds_used_def r amap_del_set distinct_delete)
  have "fds_ok D t"
    unfolding fds_ok_def
  proof (intro conjI)
    show "fd_inv (fd_handle t)" using assms(2) fd by (auto simp: pool fds_ok_def fd_inv_def)
    show "distinct (fds_used D t)" by (rule used)
    show "set (fds_used D t) \<inter> set (free_fd_pool (fd_handle t)) = {}" using assms(2) by (auto simp: pool used(1) fds_ok_def)
    have "fd \<in> set (fds_used D s)" using d(2) by (auto simp: fds_used_def)
    then show "set (fds_used D t) \<union> set (free_fd_pool (fd_handle t)) = {0..<max_fd_num (fd_handle t)}"
      using assms(2) by (auto simp: pool used(1) fds_ok_def)
    show "\<forall>f \<in> snd ` set (open_refs t). f < fobj_next t" using assms(2) by (auto simp: fds_ok_def h(2) r amap_del_set)
    show "\<forall>f < fobj_next t. f_nlink (fobj t f) = int (count_list (map snd (open_refs t)) f)"
      using assms(2) amap_del_count [OF d(1) m] by (auto simp: fds_ok_def h(2,4) r)
    show "alloc_ok t" using assms(2) h(2,3) by (auto simp: fds_ok_def alloc_ok_def)
  qed
  then show ?thesis using rt(1) r pool by simp
qed

end
