(* ===== verification/Reachable.thy ===== *)
theory Reachable
  imports Descriptors
begin

text \<open>
  The calls of \<open>FileSystem\<close> as a step relation, on the state of the file system and the list of
  open directory streams, and the invariant \<open>fds_ok\<close> for every state that a mounted file
  system can reach. \<open>open\<close>, \<open>dup\<close> are steps only while the descriptor pool is not
  empty; what they do with an empty pool is stated apart.
\<close>

section \<open>The remaining calls\<close>

lemma dir_table_view [fdv]:
  "AddDirectory2CreateNolock d s = (ok, t) \<Longrightarrow> fd_view t = fd_view s"
  "RemoveDirectoryFromCreateNolock d s = (ok, t) \<Longrightarrow> fd_view t = fd_view s"
  "AddChildDirectory p d s = (ok, t) \<Longrightarrow> fd_view t = fd_view s"
  "RemovChildDirectory p d s = (ok, t) \<Longrightarrow> fd_view t = fd_view s"
  by (auto simp: AddDirectory2CreateNolock_def RemoveDirectoryFromCreateNolock_def AddChildDirectory_def
      RemovChildDirectory_def Let_def fd_view_def open_refs_def upd_dir_def split: if_splits)

lemma dir_meta_view [fdv]:
  "Directory_WriteMeta d s = (ok, t) \<Longrightarrow> fd_view t = fd_view s"
  "SuicideNolock d s = (ok, t) \<Longrightarrow> fd_view t = fd_view s"
  by (auto simp: Directory_WriteMeta_def SuicideNolock_def Directory_ClearMeta_def dir_crc_def Let_def
      split: prod.splits dest!: fdv)

lemma dir_view [fdv]:
  "AddDirectory p d s = Some (ok, t) \<Longrightarrow> fd_view t = fd_view s"
  "RemoveDirectory q d s = (ok, t) \<Longrightarrow> fd_view t = fd_view s"
  "FindDirectory n s = (x, t) \<Longrightarrow> fd_view t = fd_view s"
  by (auto simp: AddDirectory_def RemoveDirectory_def FindDirectory_def
      split: if_splits option.splits prod.splits bool.splits dest!: fdv)

lemma new_dir_view [simp]: "fd_view (snd (new_dir d s)) = fd_view s"
  by (simp add: new_dir_def fd_view_def open_refs_def)

lemma NewFreeDirectoryNolock_view [fdv]: "NewFreeDirectoryNolock n s = (x, t) \<Longrightarrow> fd_view t = fd_view s"
  by (auto simp: NewFreeDirectoryNolock_def Let_def Dir_set_dir_name_def new_dir_def fd_view_def open_refs_def fs_upd_defs
      split: list.splits if_splits)

lemma NewDirectory_view [fdv]: "NewDirectory n s = (x, t) \<Longrightarrow> fd_view t = fd_view s"
  by (auto simp: NewDirectory_def Let_def split: if_splits option.splits prod.splits dest!: fdv)

lemma DirHandle_CheckFileExist_view [fdv]: "DirHandle_CheckFileExist n b s = (ok, t) \<Longrightarrow> fd_view t = fd_view s"
  by (auto simp: DirHandle_CheckFileExist_def Let_def split: if_splits option.splits prod.splits dest!: fdv)

lemma write_retry_view [fdv]: "write_retry n d s = (ok, t) \<Longrightarrow> fd_view t = fd_view s"
  by (induction n arbitrary: s) (auto split: prod.splits bool.splits dest!: fdv)

lemma CreateDirectory_view [fdv]: "CreateDirectory p s = Some (r, t) \<Longrightarrow> fd_view t = fd_view s"
  by (auto simp: CreateDirectory_def split: prod.splits bool.splits option.splits bind_splits if_splits dest!: fdv)

lemma delete_allowed_view [fdv]: "delete_allowed d s = (ok, t) \<Longrightarrow> fd_view t = fd_view s"
  by (auto simp: delete_allowed_def split: if_splits)

lemma DeleteDirectory_view [fdv]: "DeleteDirectory p b s = (r, t) \<Longrightarrow> fd_view t = fd_view s"
  by (auto simp: DeleteDirectory_def split: prod.splits bool.splits option.splits if_splits dest!: fdv)

lemma Directory_rename_view [fdv]: "Directory_rename d p s = Some (r, t) \<Longrightarrow> fd_view t = fd_view s"
  by (auto simp: Directory_rename_def Let_def Dir_set_dir_name_def
      split: prod.splits bool.splits option.splits if_splits dest!: fdv)

lemma RenameDirectory_view [fdv]: "RenameDirectory p q s = Some (r, t) \<Longrightarrow> fd_view t = fd_view s"
  by (auto simp: RenameDirectory_def split: prod.splits bool.splits option.splits if_splits bind_splits dest!: fdv)

lemma fd_link_chain:
  "fd_link F a b \<Longrightarrow> fd_link F b c \<Longrightarrow> fd_view a = fd_view s \<Longrightarrow> fd_view t = fd_view c \<Longrightarrow> fd_link F s t"
  using fd_link_trans fd_link_view1 fd_link_view2 by metis

lemma File_rename_link:
  assumes "File_rename f p s = (r, t)"
  shows "fd_link {f} s t"
proof -
  have add: "fd_link {f} u (AddFileNoLock f (File_UpdateTimeStamp f n (File_set_dh f h (File_set_file_name f nm u))))" for u n h nm
    by (rule fd_link_view1 [OF _ AddFileNoLock_link]) simp_all
  have rest: "fd_link {f} u v" if "AddChildFile d f (AddFileNoLock f (File_UpdateTimeStamp f n (File_set_dh f h (File_set_file_name f nm u)))) = (ok, v)"
    for u v n h nm d ok
    using fd_link_view2 [OF add child_view(2) [OF that]] .
  from assms show ?thesis
    by (auto simp: File_rename_def Let_def split: prod.splits bool.splits option.splits if_splits
        dest!: fdv rest RemoveFileNoLock_link [where F = "{f}"]
        intro: fd_view_link fd_link_view1 fd_link_chain)
qed

lemma RenamePath_ok:
  assumes "RenamePath p q s = Some (r, t)" "fds_ok D s"
  shows "fds_ok D t"
proof -
  obtain x s1 where x: "GetCreatedFile q s = (x, s1)" by fastforce
  obtain y s2 where y: "GetCreatedFile p s1 = (y, s2)" by fastforce
  obtain z s3 where z: "GetCreatedDirectory p s2 = (z, s3)" by fastforce
  have v: "fd_view s1 = fd_view s" "fd_view s2 = fd_view s" "fd_view s3 = fd_view s"
    using fdv(1) x y z by (auto dest!: fdv)
  have "fd_view t = fd_view s \<or> (\<exists>f. y = Some f \<and> fd_link {f} s2 t)"
    using assms(1) x y z v
    by (auto simp: RenamePath_def split: if_splits option.splits prod.splits dest!: fdv RenameDirectory_view File_rename_link)
  moreover have "f < fobj_next s2" if "y = Some f" for f
  proof -
    have "f \<in> files_of s1" using y that by (auto intro: GetCreatedFile_in)
    then show ?thesis using assms(2) v by (auto simp: fds_ok_def alloc_ok_def files_of_def fd_view_def)
  qed
  ultimately show ?thesis
    using fds_ok_view [OF assms(2)] fds_ok_link [OF fds_ok_view [OF assms(2) v(2)]] by auto
qed

lemma open_call_ok:
  assumes "fds_ok D s"
  shows "ReadFile fd len buf s = Some (x, t) \<Longrightarrow> fds_ok D t"
    "PreadFile fd len off buf s = Some (x, t) \<Longrightarrow> fds_ok D t"
    "PwriteFile fd buf len off s = Some (r, t) \<Longrightarrow> fds_ok D t"
    "SeekFile fd off wh s = (y, t) \<Longrightarrow> fds_ok D t"
    "FcntlFile fd l s = (r, t) \<Longrightarrow> fds_ok D t"
    "FileHandle_fsync fd s = (r, t) \<Longrightarrow> fds_ok D t"
    "TruncateFile_fd fd len s = Some (r, t) \<Longrightarrow> fds_ok D t"
proof -
  note v = fds_ok_view [OF assms] and l = fds_ok_link [OF assms] and f = fds_ok_file [OF assms]
  show "ReadFile fd len buf s = Some (x, t) \<Longrightarrow> fds_ok D t" "PreadFile fd len off buf s = Some (x, t) \<Longrightarrow> fds_ok D t"
    by (auto simp: ReadFile_def PreadFile_def GetOpenFile_def split: option.splits dest!: fdv intro: v)
  show "PwriteFile fd buf len off s = Some (r, t) \<Longrightarrow> fds_ok D t" "TruncateFile_fd fd len s = Some (r, t) \<Longrightarrow> fds_ok D t"
    by (auto simp: PwriteFile_def TruncateFile_fd_def GetOpenFile_def split: option.splits
        dest!: OpenFile_pwrite_link ftruncate_link intro: v elim!: l dest: f)
  show "SeekFile fd off wh s = (y, t) \<Longrightarrow> fds_ok D t"
    by (auto simp: SeekFile_def GetOpenFile_def split: option.splits dest!: OpenFile_lseek_view intro: v)
  show "FcntlFile fd l s = (r, t) \<Longrightarrow> fds_ok D t"
    by (auto simp: FcntlFile_def GetOpenFile_def Let_def split: option.splits lock_type.splits if_splits intro!: v)
  show "FileHandle_fsync fd s = (r, t) \<Longrightarrow> fds_ok D t"
    by (auto simp: FileHandle_fsync_def GetOpenFile_def split: option.splits dest!: fdv intro: v)
qed

lemma path_call_ok:
  assumes "fds_ok D s"
  shows "FileSystem_CreateFile p s = (r, t) \<Longrightarrow> fds_ok D t" "unlink p s = Some (r, t) \<Longrightarrow> fds_ok D t"
    "TruncateFile p len s = Some (r, t) \<Longrightarrow> fds_ok D t"
    "CreateDirectory p s = Some (r, t) \<Longrightarrow> fds_ok D t" "DeleteDirectory p b s = (r, t) \<Longrightarrow> fds_ok D t"
proof -
  note v = fds_ok_view [OF assms]
  show "FileSystem_CreateFile p s = (r, t) \<Longrightarrow> fds_ok D t"
    using fds_ok_ext [OF assms CreateFile_ext(1)] by (auto simp: FileSystem_CreateFile_def split: prod.splits)
  show "unlink p s = Some (r, t) \<Longrightarrow> fds_ok D t" using fds_ok_link [OF assms unlink_link] by simp
  show "fds_ok D t" if t: "TruncateFile p len s = Some (r, t)"
  proof -
    obtain x s1 where x: "GetCreatedFile p s = (x, s1)" by fastforce
    have v1: "fd_view s1 = fd_view s" using x by (rule fdv)
    show ?thesis
    proof (cases x)
      case None
      then show ?thesis using t x v1 v [of t] by (auto simp: TruncateFile_def)
    next
      case (Some f)
      then have "fd_link {f} s1 t" using t x by (auto simp: TruncateFile_def dest: ftruncate_link)
      moreover have "f < fobj_next s1"
        using GetCreatedFile_in x Some assms v1 by (auto simp: fds_ok_def alloc_ok_def fd_view_def)
      ultimately show ?thesis using fds_ok_link [OF v [OF v1]] by simp
    qed
  qed
  show "CreateDirectory p s = Some (r, t) \<Longrightarrow> fds_ok D t" "DeleteDirectory p b s = (r, t) \<Longrightarrow> fds_ok D t"
    by (blast intro: v fdv)+
qed

section \<open>Directory streams\<close>

lemma stream_view [simp]:
  "fd_view (s\<lparr>open_dirs := m\<rparr>) = fd_view s"
  "fd_view (Directory_UpdateTimeStamp a b c d s) = fd_view s"
  by (simp_all add: fd_view_def open_refs_def)
    (simp add: Directory_UpdateTimeStamp_def dir_crc_def Let_def upd_dmeta_def)

lemma ReadDirectory_view: "ReadDirectory d s = Some ((e, d'), t) \<Longrightarrow> fd_view t = fd_view s \<and> bd_fd d' = bd_fd d"
  by (auto simp: ReadDirectory_def split: bind_splits if_splits)

lemma OpenDirectory_ok:
  assumes "OpenDirectory p s = (x, t)" "fds_ok D s"
  shows "case x of None \<Rightarrow> fds_ok D t | Some d \<Rightarrow> fds_ok (D @ [bd_fd d]) t \<and> bd_fd d \<notin> set (fds_used D s)"
proof -
  obtain y s1 where y: "DirHandle_TransformPath p s = (y, s1)" by fastforce
  have v1: "fd_view s1 = fd_view s" using y by (rule fdv)
  then have ok1: "fds_ok D s1" "fds_used D s1 = fds_used D s" using fds_ok_view [OF assms(2)] by (simp_all add: fds_used_def fd_view_def)
  show ?thesis
  proof (cases y)
    case None
    then show ?thesis using assms(1) y ok1 by (auto simp: OpenDirectory_def)
  next
    case (Some n)
    obtain z s2 where z: "GetCreatedDirectory n s1 = (z, s2)" by fastforce
    have v2: "fd_view s2 = fd_view s1" using z by (rule fdv)
    then have ok2: "fds_ok D s2" "fds_used D s2 = fds_used D s" using fds_ok_view [OF ok1(1)] ok1 by (simp_all add: fds_used_def fd_view_def)
    show ?thesis
    proof (cases z)
      case None
      then have "x = None" "fd_view t = fd_view s2" using assms(1) y Some z by (auto simp: OpenDirectory_def)
      then show ?thesis using fds_ok_view ok2 by auto
    next
      case zs: (Some dir)
      obtain fd s3 where g: "fs_get_fd s2 = (fd, s3)" by fastforce
      show ?thesis
      proof (cases "free_fd_pool (fd_handle s2)")
        case Nil
        then have "fd = - 1" "fd_view s3 = fd_view s2" using g by (auto simp: fs_get_fd_def get_fd_def)
        then have "x = None" "fd_view t = fd_view s2" using assms(1) y Some z zs g by (auto simp: OpenDirectory_def)
        then show ?thesis using fds_ok_view ok2 by auto
      next
        case (Cons a rest0)
        then have ne: "free_fd_pool (fd_handle s2) \<noteq> []" by simp
        obtain rest where p: "s3 = s2\<lparr>fd_handle := (fd_handle s2)\<lparr>free_fd_pool := rest\<rparr>\<rparr>" "0 \<le> fd" "fd \<notin> set (fds_used D s2)"
          "fd_inv (fd_handle s3)" "set (fd # fds_used D s2) \<inter> set rest = {}"
          "set (fd # fds_used D s2) \<union> set rest = {0..<max_fd_num (fd_handle s2)}"
          using fs_get_fd_some [OF g ne ok2(1)] by blast
        have xt: "x = Some \<lparr>bd_inited = False, bd_fd = fd, bd_index = 0, bd_dir = dir, bd_items = []\<rparr>"
          "fd_view t = fd_view s3"
          using assms(1) y Some z zs g p(2) by (auto simp: OpenDirectory_def)
        have h: "fd_handle s3 = (fd_handle s2)\<lparr>free_fd_pool := rest\<rparr>" "open_refs s3 = open_refs s2" "fobj_next s3 = fobj_next s2"
          "fobj s3 = fobj s2" "files_of s3 = files_of s2"
          by (simp_all add: p(1) open_refs_def files_of_def)
        have u: "set (fds_used (D @ [fd]) s3) = set (fd # fds_used D s2)" "distinct (fds_used (D @ [fd]) s3)"
          using ok2(1) p(3) by (auto simp: fds_ok_def fds_used_def h(2))
        have "fds_ok (D @ [fd]) s3"
          using ok2(1) p(4-6) u by (simp add: fds_ok_def h alloc_ok_def)
        then show ?thesis using xt fds_ok_view ok2(2) p(3) by auto
      qed
    qed
  qed
qed

lemma CloseDirectory_ok:
  assumes "CloseDirectory d s = (r, t)" "fds_ok (A @ bd_fd d # B) s"
  shows "fds_ok (A @ B) t"
proof -
  let ?fd = "bd_fd d"
  have fd: "0 \<le> ?fd" "?fd < max_fd_num (fd_handle s)" "?fd \<notin> set (free_fd_pool (fd_handle s))"
    using assms(2) unfolding fds_ok_def fds_used_def by auto
  have h: "fd_handle t = (fd_handle s)\<lparr>free_fd_pool := free_fd_pool (fd_handle s) @ [?fd]\<rparr>"
    "open_refs t = open_refs s" "fobj_next t = fobj_next s" "fobj t = fobj s" "files_of t = files_of s"
    using assms(1) fd by (auto simp: CloseDirectory_def put_fd_def open_refs_def files_of_def upd_dir_def)
  have u: "set (fds_used (A @ B) t) = set (fds_used (A @ ?fd # B) s) - {?fd}" "distinct (fds_used (A @ B) t)"
    "?fd \<in> set (fds_used (A @ ?fd # B) s)"
    using assms(2) by (auto simp: fds_ok_def fds_used_def h(2))
  have "fd_inv (fd_handle t)" using assms(2) fd by (auto simp: h(1) fds_ok_def fd_inv_def)
  moreover have "set (fds_used (A @ B) t) \<union> set (free_fd_pool (fd_handle t)) = {0..<max_fd_num (fd_handle t)}"
    using assms(2) u(1,3) unfolding fds_ok_def h(1) by auto
  moreover have "set (fds_used (A @ B) t) \<inter> set (free_fd_pool (fd_handle t)) = {}"
    using assms(2) u(1) unfolding fds_ok_def h(1) by auto
  ultimately show ?thesis using assms(2) u(2) by (simp add: fds_ok_def h(2-5) alloc_ok_def)
qed

section \<open>The calls as steps\<close>

inductive fs_step :: "fs \<times> BLOCKFS_DIR list \<Rightarrow> fs \<times> BLOCKFS_DIR list \<Rightarrow> bool" where
  step_open: "free_fd_pool (fd_handle s) \<noteq> [] \<Longrightarrow> FileHandle_open p fl s = Some (r, t) \<Longrightarrow> fs_step (s, D) (t, D)"
| step_dup: "free_fd_pool (fd_handle s) \<noteq> [] \<Longrightarrow> FileHandle_dup fd s = (r, t) \<Longrightarrow> fs_step (s, D) (t, D)"
| step_close: "FileHandle_close fd s = Some (r, t) \<Longrightarrow> fs_step (s, D) (t, D)"
| step_fsync: "FileHandle_fsync fd s = (r, t) \<Longrightarrow> fs_step (s, D) (t, D)"
| step_read: "ReadFile fd len buf s = Some (x, t) \<Longrightarrow> fs_step (s, D) (t, D)"
| step_pread: "PreadFile fd len off buf s = Some (x, t) \<Longrightarrow> fs_step (s, D) (t, D)"
| step_pwrite: "PwriteFile fd buf len off s = Some (r, t) \<Longrightarrow> fs_step (s, D) (t, D)"
| step_seek: "SeekFile fd off wh s = (y, t) \<Longrightarrow> fs_step (s, D) (t, D)"
| step_fcntl: "FcntlFile fd l s = (r, t) \<Longrightarrow> fs_step (s, D) (t, D)"
| step_truncate_fd: "TruncateFile_fd fd len s = Some (r, t) \<Longrightarrow> fs_step (s, D) (t, D)"
| step_truncate: "TruncateFile p len s = Some (r, t) \<Longrightarrow> fs_step (s, D) (t, D)"
| step_create: "FileSystem_CreateFile p s = (r, t) \<Longrightarrow> fs_step (s, D) (t, D)"
| step_unlink: "unlink p s = Some (r, t) \<Longrightarrow> fs_step (s, D) (t, D)"
| step_rename: "RenamePath p q s = Some (r, t) \<Longrightarrow> fs_step (s, D) (t, D)"
| step_mkdir: "CreateDirectory p s = Some (r, t) \<Longrightarrow> fs_step (s, D) (t, D)"
| step_rmdir: "DeleteDirectory p b s = (r, t) \<Longrightarrow> fs_step (s, D) (t, D)"
| step_opendir: "OpenDirectory p s = (x, t) \<Longrightarrow> fs_step (s, D) (t, case x of None \<Rightarrow> D | Some d \<Rightarrow> D @ [d])"
| step_readdir: "ReadDirectory d s = Some ((e, d'), t) \<Longrightarrow> fs_step (s, A @ d # B) (t, A @ d' # B)"
| step_closedir: "CloseDirectory d s = (r, t) \<Longrightarrow> fs_step (s, A @ d # B) (t, A @ B)"

lemma fs_step_ok:
  assumes "fs_step (s, D) (t, E)" "fds_ok (map bd_fd D) s"
  shows "fds_ok (map bd_fd E) t"
  using assms
proof (cases rule: fs_step.cases)
  case (step_opendir p x)
  from OpenDirectory_ok [OF this(2) assms(2)] show ?thesis by (auto simp: step_opendir(1) split: option.splits)
next
  case (step_readdir d e d' A B)
  then show ?thesis using assms(2) ReadDirectory_view [OF step_readdir(3)] fds_ok_view by auto
next
  case (step_closedir d r A B)
  then show ?thesis using assms(2) CloseDirectory_ok [OF step_closedir(3)] by auto
qed (use assms(2) in \<open>auto intro: open_call_ok path_call_ok RenamePath_ok
    dest: FileHandle_open_ok FileHandle_dup_ok FileHandle_close_ok\<close>)

end
