(* ===== verification/Namespace.thy ===== *)
theory Namespace
  imports Open_Target Reachable
begin

text \<open>
  Making directories and files, and the first mount. \<open>CreateDirectory\<close> and \<open>CreateFile\<close> on a
  device without I/O errors register the new object under its name, write its metadata to
  the disk and disturb no other name; a mount of a formatted device ends in a consistent file
  system whose only directory is the mount point.
\<close>

section \<open>A new directory struct\<close>

lemma Directory_WriteMeta_ok:
  assumes "formatted s" "io_ok s" "Dir_dh s d < 100000" "d_meta (dobj s d) = Dir_dh s d" "675282944 \<le> unat (dev_size (dev s))"
  shows "\<exists>k. Directory_WriteMeta d s = (True, (dir_crc (Dir_dh s d) s)\<lparr>kern := k\<rparr>) \<and> benign (k_script k)"
proof -
  let ?dh = "Dir_dh s d"
  let ?a = "DirHandle_PageAlignIndex s (word_of_nat ?dh)" and ?s = "dir_crc ?dh s"
  let ?off = "sb_dir_meta_offset (super_meta s) + sb_dir_meta_size (super_meta s) * ucast ?a"
  have a: "unat ?a = ?dh - ?dh mod 4" by (rule DirHandle_PageAlignIndex_eq [OF assms(1,3)])
  have "unat (ucast ?a :: u64) = unat ?a"
    using unsigned_less [of ?a, where 'a = nat] by (simp add: unsigned_ucast_eq take_bit_nat_eq_self)
  then have addr: "unat ?off = 4096 + 1024 * (?dh - ?dh mod 4)"
    using formatted_fields [OF assms(1)] a assms(3) by (simp add: unat_word_ariths)
  have io: "io_ok ?s" using assms(2) by (simp add: io_ok_def dir_crc_def upd_dmeta_def)
  have ne: "dir_page ?s (unat ?a) \<noteq> []" by (metis length_dir_page list.size(3) zero_neq_numeral)
  have "in_dev (dev ?s) (unat ?off) (length (dir_page ?s (unat ?a)))"
    unfolding addr using assms(3,5) by (simp add: in_dev_def dir_crc_def upd_dmeta_def)
  then obtain k where "fs_PwriteDirect (dir_page ?s (unat ?a)) ?off ?s = (int (length (dir_page ?s (unat ?a))), ?s\<lparr>kern := k\<rparr>)"
    "benign (k_script k)"
    using fs_PwriteDirect_ok [OF io _ ne] by blast
  then show ?thesis using assms(4)
    by (intro exI [of _ k]) (simp add: Directory_WriteMeta_def Let_def dir_crc_def upd_dmeta_def layout_consts)
qed

definition spare_dir :: "fs \<Rightarrow> nat \<Rightarrow> bool" where
  "spare_dir s dh \<longleftrightarrow> dh < 100000 \<and> \<not> dm_used (dmetas s dh) \<and> dm_dh (dmetas s dh) = word_of_nat dh"

text \<open>The struct after \<open>NewFreeDirectoryNolock\<close>.\<close>

definition named_dir :: "fs \<Rightarrow> nat \<Rightarrow> string \<Rightarrow> DirMeta" where
  "named_dir s dh nm = (dmetas s dh)\<lparr>dm_used := True, dm_dh := word_of_nat dh, dm_dir_name := memcpy_cstr 768 nm (behind s),
     dm_atime := now s, dm_mtime := now s, dm_ctime := now s\<rparr>"

definition with_dir :: "fs \<Rightarrow> nat \<Rightarrow> string \<Rightarrow> fs" where
  "with_dir s dh nm = s\<lparr>dobj := (dobj s)(dobj_next s := Directory_new dh), dobj_next := Suc (dobj_next s),
     dmetas := (dmetas s)(dh := named_dir s dh nm), free_dhs := tl (free_dhs s)\<rparr>"

lemma NewFreeDirectoryNolock_some:
  assumes "free_dhs s = dh # rest" "spare_dir s dh"
  shows "NewFreeDirectoryNolock nm s = (Some (dobj_next s), with_dir s dh nm)"
  using assms
  by (simp add: NewFreeDirectoryNolock_def spare_dir_def new_dir_def Let_def Dir_set_dir_name_def Directory_new_def
      upd_dmeta_def with_dir_def named_dir_def)

lemma with_dir_view:
  assumes "spare_dir s dh" "length nm < 768" "NUL \<notin> set nm"
  shows "Dir_dh (with_dir s dh nm) (dobj_next s) = dh" "Dir_dir_name (with_dir s dh nm) (dobj_next s) = nm"
    "d_meta (dobj (with_dir s dh nm) (dobj_next s)) = dh"
proof -
  have "meta_dir_name (named_dir s dh nm) = nm"
    using meta_dir_name_memcpy [OF assms(2,3), where m = "dmetas s dh" and b = "behind s"]
    by (simp add: named_dir_def meta_dir_name_def)
  then show "Dir_dir_name (with_dir s dh nm) (dobj_next s) = nm"
    by (simp add: Dir_dir_name_def with_dir_def Directory_new_def)
qed (use assms(1) in \<open>simp_all add: Dir_dh_def with_dir_def Directory_new_def named_dir_def spare_dir_def unsigned_of_nat take_bit_nat_eq_self\<close>)

text \<open>Written back, the new directory is on the disk.\<close>

lemma write_new_dir:
  assumes "formatted s" "io_ok s" "675282944 \<le> unat (dev_size (dev s))" "spare_dir s dh" "length nm < 768" "NUL \<notin> set nm"
  defines "u \<equiv> with_dir s dh nm"
  shows "\<exists>k. write_retry 3 (dobj_next s) u = (True, (dir_crc dh u)\<lparr>kern := k\<rparr>) \<and> benign (k_script k)
     \<and> (meta_synced s \<longrightarrow> meta_synced ((dir_crc dh u)\<lparr>kern := k\<rparr>))"
proof -
  let ?d = "dobj_next s"
  note v = with_dir_view [OF assms(4-6), folded u_def]
  have u: "formatted u" "io_ok u" "675282944 \<le> unat (dev_size (dev u))" "Dir_dh u ?d < 100000"
    using assms(1-4) v by (simp_all add: u_def with_dir_def formatted_def io_ok_def spare_dir_def)
  obtain k where k: "Directory_WriteMeta ?d u = (True, (dir_crc dh u)\<lparr>kern := k\<rparr>)" "benign (k_script k)"
    using Directory_WriteMeta_ok [OF u(1,2,4) _ u(3)] v by auto
  have "meta_synced ((dir_crc dh u)\<lparr>kern := k\<rparr>)" if "meta_synced s"
  proof -
    have "synced_but {} {dh} {} u" using that by (auto simp: u_def with_dir_def synced_but_def synced_defs)
    from Directory_WriteMeta_synced [OF u(1,4) _ k(1) this] v show ?thesis
      by (auto simp: synced_but_def)
  qed
  then show ?thesis using k by (auto simp: numeral_3_eq_3)
qed

section \<open>mkdir\<close>

text \<open>Everything an operation on directories does not touch.\<close>

definition files_same :: "fs \<Rightarrow> fs \<Rightarrow> bool" where
  "files_same s t \<longleftrightarrow> fmetas t = fmetas s \<and> bmetas t = bmetas s \<and> fobj t = fobj s \<and> fobj_next t = fobj_next s
     \<and> free_fhs t = free_fhs s \<and> free_fbhs t = free_fbhs s \<and> created_files t = created_files s
     \<and> created_fhs t = created_fhs s \<and> open_files t = open_files s \<and> block_handle t = block_handle s
     \<and> fd_handle t = fd_handle s \<and> super_meta t = super_meta s \<and> dev t = dev s"

lemma mkdir_root:
  assumes fm: "formatted s" "io_ok s" "675282944 \<le> unat (dev_size (dev s))"
    and e: "created_dirs s = []" "created_dhs s = []" and fr: "free_dhs s = dh # rest" "spare_dir s dh"
  shows "\<exists>t. CreateDirectory ''/'' s = Some (0, t) \<and> created_dirs t = [(''/'', dobj_next s)] \<and> created_dhs t = [(dh, dobj_next s)]
     \<and> Dir_dh t (dobj_next s) = dh \<and> Dir_dir_name t (dobj_next s) = ''/'' \<and> free_dhs t = rest
     \<and> dobj t (dobj_next s) = Directory_new dh \<and> files_same s t \<and> io_ok t \<and> (meta_synced s \<longrightarrow> meta_synced t)
     \<and> dmetas t = dmetas (dir_crc dh (with_dir s dh ''/'')) \<and> crc32 t = crc32 s \<and> dobj_next t = Suc (dobj_next s)"
proof -
  let ?n = "''/''" and ?d = "dobj_next s"
  let ?u = "with_dir s dh ?n"
  obtain k where k: "write_retry 3 ?d ?u = (True, (dir_crc dh ?u)\<lparr>kern := k\<rparr>)" "benign (k_script k)"
    "meta_synced s \<longrightarrow> meta_synced ((dir_crc dh ?u)\<lparr>kern := k\<rparr>)"
    using write_new_dir [OF fm fr(2), of ?n] by auto
  let ?v = "(dir_crc dh ?u)\<lparr>kern := k\<rparr>"
  note w = with_dir_view [OF fr(2), of ?n]
  have v: "Dir_dh ?v ?d = dh" "Dir_dir_name ?v ?d = ?n" "created_dirs ?v = []" "created_dhs ?v = []"
    using w e by (simp_all add: dir_crc_def upd_dmeta_def Dir_dh_def Dir_dir_name_def meta_dir_name_def with_dir_def)
  let ?t = "?v\<lparr>created_dirs := [(?n, ?d)], created_dhs := [(dh, ?d)]\<rparr>"
  have tp: "DirHandle_TransformPath ?n s = (Some ?n, s)"
    by (simp add: DirHandle_TransformPath_def ends_with_slash_def layout_consts)
  have "CreateDirectory ?n s = Some (0, set_errno 0 ?t)"
    using e v k(1) tp NewFreeDirectoryNolock_some [OF fr, of ?n]
    by (simp add: CreateDirectory_def DirHandle_CheckFileExist_def IsMountPoint_def NewDirectory_def
        AddDirectory_def AddDirectory2CreateNolock_def)
  moreover have "files_same s (set_errno 0 ?t)"
    by (simp add: files_same_def set_errno_def dir_crc_def upd_dmeta_def with_dir_def)
  moreover have "io_ok (set_errno 0 ?t)"
    using fm(2) k(2) by (simp add: io_ok_def set_errno_def dir_crc_def upd_dmeta_def with_dir_def)
  moreover have "meta_synced (set_errno 0 ?t)" if "meta_synced s"
    using k(3) that by (simp add: synced_but_def synced_defs set_errno_def)
  moreover have "Dir_dh (set_errno 0 ?t) ?d = dh" "Dir_dir_name (set_errno 0 ?t) ?d = ?n" "free_dhs (set_errno 0 ?t) = rest"
    "dobj (set_errno 0 ?t) ?d = Directory_new dh"
    using v fr by (simp_all add: set_errno_def Dir_dh_def Dir_dir_name_def dir_crc_def upd_dmeta_def with_dir_def)
  moreover have "dmetas (set_errno 0 ?t) = dmetas (dir_crc dh ?u)" "crc32 (set_errno 0 ?t) = crc32 s"
    "dobj_next (set_errno 0 ?t) = Suc ?d"
    by (simp_all add: set_errno_def dir_crc_def upd_dmeta_def with_dir_def)
  ultimately show ?thesis by (intro exI [of _ "set_errno 0 ?t"]) (simp add: set_errno_def)
qed

section \<open>The first mount\<close>

lemma format_uuid_read: "cstr (sb_uuid (SuperBlock_layout n)) = format_uuid"
  by (simp add: SuperBlock_layout_def SuperBlockMeta_zero_def Let_def format_uuid_def fit_def cstr_def eval_nat_numeral)

lemma card_words_below: "card {i :: u32. i < n} = unat n"
proof -
  have "{i :: u32. i < n} = word_of_nat ` {0..<unat n}" using word_of_nat_image_upt [of 0 n] by simp
  moreover have "inj_on (word_of_nat :: nat \<Rightarrow> u32) {0..<unat n}"
    by (rule inj_on_inverseI [where g = unat]) (use unsigned_less [where ?'a = nat, of n] in \<open>simp add: unsigned_of_nat take_bit_nat_eq_self\<close>)
  ultimately show ?thesis by (simp add: card_image)
qed

lemma fresh_tables_ok:
  assumes io: "io_ok s" and sz: "675282944 \<le> unat (dev_size (dev s))" "unat (dev_size (dev s)) < 420109877248"
    and sm: "sm = (SuperBlock_layout (dev_size (dev s)))\<lparr>sb_crc := c\<rparr>" and k: "benign (k_script k)"
    and bm: "\<forall>i. bm i = (if i < 133554 then format_bmeta (crc32 s) i else FileBlockMeta_zero)"
  shows "fs_ok (fresh_tables s k sm dm fm bm)"
    "length (block_id_pool (block_handle (fresh_tables s k sm dm fm bm))) = (unat (dev_size (dev s)) - 675282944) div 4194304"
proof -
  let ?n = "dev_size (dev s)" and ?u = "fresh_tables s k sm dm fm bm"
  let ?q = "sb_curr_block_num (SuperBlock_layout ?n)"
  obtain h where h: "BlockHandle_InitializeMeta (sb_curr_block_num sm) BlockHandle_new = (True, h)"
    by (simp add: BlockHandle_InitializeMeta_def Let_def)
  have q: "sb_curr_block_num sm = ?q" by (simp add: sm)
  have le: "675282944 \<le> ?n" using sz(1) by (simp add: word_le_nat_alt)
  have fit: "675282944 + unat ?q * 4194304 \<le> unat ?n" using curr_block_num_fits(1) [OF le] by simp
  then have q9: "unat ?q \<le> 100000" using sz(2) by linarith
  have b0: "block_inv BlockHandle_new" by (simp add: BlockHandle_new_def block_inv_def)
  have hm: "max_block_num h = ucast ?q" "block_inv h"
    using BlockHandle_InitializeMeta_pool(2) [OF h] BlockHandle_InitializeMeta_inv [OF b0 _ h] q
    by (simp_all add: BlockHandle_new_def)
  have uq: "unat (ucast ?q :: u32) = unat ?q" using q9 by (simp add: unsigned_ucast_eq take_bit_nat_eq_self)
  have unused: "\<not> fb_used (bm i)" "fb_used_block_num (bm i) = 0" "length (fb_block_id (bm i)) = 1000" for i
    using bm by (simp_all add: format_bmeta_def FileBlockMeta_zero_def Let_def)
  have u: "bmetas ?u = bm" "free_fbhs ?u = [0..<133554]" "block_handle ?u = h" "dev ?u = dev s" "super_meta ?u = sm"
    "k_script (kern ?u) = k_script k"
    using h by (simp_all add: fresh_tables_def)
  have "formatted ?u" unfolding formatted_def u by (rule exI, rule sm)
  moreover have "io_ok ?u" using io k by (simp add: io_ok_def u)
  moreover have "blocks_exclusive ?u"
    using hm(2) unused by (simp add: blocks_exclusive_def u fb_owned_def wf_bmetas_def)
  moreover have "data_ok ?u" unfolding data_ok_def u using fit hm(1) uq q9 sz(2) by (simp add: sm)
  ultimately show "fs_ok ?u" by (simp add: fs_ok_def)
  have "set (block_id_pool h) = {i. i < ucast ?q}"
    using BlockHandle_InitializeMeta_pool(1) [OF h] q by (simp add: BlockHandle_new_def)
  then have "length (block_id_pool h) = unat (ucast ?q :: u32)"
    using hm(2) card_words_below distinct_card [of "block_id_pool h"] by (simp add: block_inv_def)
  then show "length (block_id_pool (block_handle ?u)) = (unat ?n - 675282944) div 4194304"
    using uq le by (simp add: u unat_div unat_sub)
qed

text \<open>What consistency depends on.\<close>

lemma fs_ok_cong:
  assumes "fs_ok s" "io_ok t" "bmetas t = bmetas s" "free_fbhs t = free_fbhs s" "block_handle t = block_handle s"
    "super_meta t = super_meta s" "dev t = dev s"
  shows "fs_ok t"
proof -
  have o: "fb_owned t i = fb_owned s i" for i using assms(3) by (simp add: fb_owned_def)
  show ?thesis using assms unfolding fs_ok_def formatted_def blocks_exclusive_def o wf_bmetas_def data_ok_def by simp
qed

lemma fs_ok_files_same: "fs_ok s \<Longrightarrow> files_same s t \<Longrightarrow> io_ok t \<Longrightarrow> fs_ok t"
  by (rule fs_ok_cong [of s]) (simp_all add: files_same_def)

lemma mount_fresh:
  assumes op: "opens env (''/dev/'' @ nm) sz" "675282944 \<le> unat sz" "unat sz < 420109877248" and b: "benign (k_script (kern s))"
    and bef: "\<forall>b \<in> set before. b \<noteq> nm \<and> uuid_of (''/dev/'' @ b) s \<noteq> format_uuid"
  shows "\<exists>t u. FileSystem_Format env (''/dev/'' @ nm) s = (True, t) \<and> MountFileSystem env (before @ nm # after) (Some format_uuid) t = Some (0, u)
     \<and> dev_name (dev u) = ''/dev/'' @ nm
     \<and> created_dirs u = [(''/'', dobj_next t)] \<and> Dir_dh u (dobj_next t) = 0 \<and> created_dhs u = [(0, dobj_next t)]
     \<and> dobj u (dobj_next t) = Directory_new 0 \<and> Dir_dir_name u (dobj_next t) = ''/''
     \<and> created_files u = [] \<and> created_fhs u = [] \<and> open_files u = [] \<and> fobj_next u = fobj_next t \<and> fobj_next t = fobj_next s \<and> fd_handle u = FdHandle_new
     \<and> free_dhs u = [1..<100000] \<and> free_fhs u = [0..<100000] \<and> free_fbhs u = [0..<133554]
     \<and> (\<forall>i < 100000. fmetas u i = format_fmeta (crc32 s) i) \<and> dev_size (dev u) = sz
     \<and> length (block_id_pool (block_handle u)) = (unat sz - 675282944) div 4194304
     \<and> fs_ok u \<and> meta_synced u
     \<and> (\<exists>s0. dmetas u = dmetas (dir_crc 0 (with_dir s0 0 ''/'')) \<and> crc32 s0 = crc32 s \<and> (\<forall>i < 100000. dmetas s0 i = format_dmeta (crc32 s) i))
     \<and> (\<forall>i. bmetas u i = (if i < 133554 then format_bmeta (crc32 s) i else FileBlockMeta_zero)) \<and> crc32 u = crc32 s
     \<and> super_meta u = (SuperBlock_layout sz)\<lparr>sb_crc := crc32 s (body_SuperBlockMeta (SuperBlock_layout sz))\<rparr>
     \<and> max_block_num (block_handle u) = ucast (sb_curr_block_num (super_meta u)) \<and> dobj_next u = Suc (dobj_next t)"
proof -
  let ?sm = "(SuperBlock_layout sz)\<lparr>sb_crc := crc32 s (body_SuperBlockMeta (SuperBlock_layout sz))\<rparr>"
  obtain t where t: "FileSystem_Format env (''/dev/'' @ nm) s = (True, t)" "benign (k_script (kern t))" "crc32 t = crc32 s"
    "disk_image (disk_of (''/dev/'' @ nm) t) ?sm (format_dmeta (crc32 s)) (format_fmeta (crc32 s)) (format_bmeta (crc32 s))" "fobj_next t = fobj_next s"
    "\<forall>n. n \<noteq> ''/dev/'' @ nm \<longrightarrow> disk_of n t = disk_of n s"
    using FileSystem_Format_image [OF op(1,2) b] by blast
  let ?t0 = "FileSystem_Initialize t"
  have "dec_SuperBlockMeta (disk_read (disk_of (''/dev/'' @ nm) t) 0 4096) = ?sm"
    using t(4) by (simp add: disk_image_def wf_SuperBlock_layout)
  then have "uuid_of (''/dev/'' @ nm) t = format_uuid" by (simp add: uuid_of_def format_uuid_read)
  then have here: "uuid_of (''/dev/'' @ nm) ?t0 = format_uuid" unfolding Initialize_uuid .
  have bf: "\<forall>b \<in> set before. uuid_of (''/dev/'' @ b) ?t0 \<noteq> format_uuid"
    using bef t(6) unfolding Initialize_uuid by (simp add: uuid_of_def)
  have sz: "4096 \<le> unat sz" using op(2) by simp
  have b0: "benign (k_script (kern ?t0))" using t(2) by (simp add: FileSystem_Initialize_env)
  obtain ds d k0 where tg: "OpenTarget env format_uuid (before @ nm # after) ?t0 = (True, ?t0\<lparr>disks := ds, dev := d, kern := k0\<rparr>)"
    and d: "dev_ok d" "dev_ok d" "dev_size d = sz" "dev_name d = ''/dev/'' @ nm"
    and k0: "k_disk k0 = disk_of (''/dev/'' @ nm) t" "k_disk k0 = disk_of (''/dev/'' @ nm) t" "benign (k_script k0)"
    using OpenTarget_finds [OF op(1) sz b0 here bf, of after] unfolding FileSystem_Initialize_env by blast
  let ?t2 = "?t0\<lparr>disks := ds, dev := d, kern := k0\<rparr>"
  have i2: "crc32 ?t2 = crc32 s" "kern ?t2 = k0" "dev ?t2 = d" using t(3) by (simp_all add: FileSystem_Initialize_env)
  have e: "empty_tables ?t2" by (simp add: FileSystem_Initialize_def empty_tables_def)
  have io: "io_ok ?t2" "675282944 \<le> unat (dev_size (dev ?t2))" using d(2,3) k0(3) op(2) by (simp_all add: io_ok_def)
  have sm: "?sm = (SuperBlock_layout (dev_size (dev ?t2)))\<lparr>sb_crc := crc32 ?t2 (body_SuperBlockMeta (SuperBlock_layout (dev_size (dev ?t2))))\<rparr>"
    unfolding i2 d(3) ..
  have im: "disk_image (k_disk (kern ?t2)) ?sm (format_dmeta (crc32 ?t2)) (format_fmeta (crc32 ?t2)) (format_bmeta (crc32 ?t2))"
    unfolding i2 k0(2) by (rule t(4))
  from load_fresh [OF e io sm im] obtain k dm fm bm t3 where
    m: "ShmManager_Initialize ?t2 = (True, t3)" "FileSystem_InitializeMeta t3 = Some (True, fresh_tables ?t2 k ?sm dm fm bm)"
      "k_disk k = k_disk (kern ?t2)" "benign (k_script k)"
      "\<forall>i < 100000. dm i = format_dmeta (crc32 s) i \<and> fm i = format_fmeta (crc32 s) i"
      "\<forall>i. bm i = (if i < 133554 then format_bmeta (crc32 s) i else FileBlockMeta_zero)" unfolding i2(1) by blast
  let ?u = "fresh_tables ?t2 k ?sm dm fm bm"
  have uok: "fs_ok ?u" "length (block_id_pool (block_handle ?u)) = (unat sz - 675282944) div 4194304"
    using fresh_tables_ok [OF io _ sm m(4)] op(3) d(3) m(6) i2 by simp_all
  have us: "meta_synced ?u"
    using t(4) m(3,5,6) k0(2) i2 by (simp add: fresh_tables_def synced_but_def synced_defs disk_image_def)
  have up: "[0..<100000] = 0 # [1..<100000::nat]" by (subst upt_conv_Cons) (simp_all only: One_nat_def [symmetric] zero_less_numeral)
  have tb: "created_dirs ?u = []" "created_dhs ?u = []" "free_dhs ?u = 0 # [1..<100000]" "dev ?u = d" "crc32 ?u = crc32 s"
    "dobj_next ?u = dobj_next t" "dmetas ?u = dm" "fmetas ?u = fm" "created_files ?u = []" "created_fhs ?u = []"
    "open_files ?u = []" "fobj_next ?u = fobj_next t" "fd_handle ?u = FdHandle_new" "free_fhs ?u = [0..<100000]" "free_fbhs ?u = [0..<133554]"
    using i2 by (simp_all only: fresh_tables_def up) (simp_all add: FileSystem_Initialize_def use_device_def)
  have sp: "spare_dir ?u 0" using m(5) tb(7) by (simp add: spare_dir_def format_dmeta_def DirMeta_zero_def Let_def)
  have f1: "formatted ?u" "io_ok ?u" "675282944 \<le> unat (dev_size (dev ?u))" using uok(1) op(2) d(3) tb(4) by (simp_all add: fs_ok_def)
  from mkdir_root [OF f1 tb(1,2,3) sp] obtain v where
    v: "CreateDirectory ''/'' ?u = Some (0, v)" "created_dirs v = [(''/'', dobj_next t)]" "created_dhs v = [(0, dobj_next t)]"
      "Dir_dh v (dobj_next t) = 0" "Dir_dir_name v (dobj_next t) = ''/''" "free_dhs v = [1..<100000]"
      "dobj v (dobj_next t) = Directory_new 0" "files_same ?u v" "io_ok v" "meta_synced v"
      "dmetas v = dmetas (dir_crc 0 (with_dir ?u 0 ''/''))" "crc32 v = crc32 ?u" "dobj_next v = Suc (dobj_next t)"
    using us unfolding tb(6) by blast
  have "GetCreatedDirectory ''/'' ?u = (None, ?u)"
    using tb(1) by (simp add: GetCreatedDirectory_def DirHandle_TransformPath_def ends_with_slash_def layout_consts)
  then have "MountFileSystem env (before @ nm # after) (Some format_uuid) t = Some (0, v)"
    using tg m(1,2) v(1) by (simp add: MountFileSystem_def MakeMountPoint_def)
  moreover have "fs_ok v" using fs_ok_files_same [OF uok(1) v(8,9)] .
  moreover have "created_files v = []" "created_fhs v = []" "open_files v = []" "fobj_next v = fobj_next t" "fd_handle v = FdHandle_new"
    "free_fhs v = [0..<100000]" "free_fbhs v = [0..<133554]" "fmetas v = fm" "dev v = d"
    "length (block_id_pool (block_handle v)) = (unat sz - 675282944) div 4194304"
    using v(8) tb uok(2) by (simp_all add: files_same_def)
  moreover have "\<exists>s0. dmetas v = dmetas (dir_crc 0 (with_dir s0 0 ''/'')) \<and> crc32 s0 = crc32 s \<and> (\<forall>i < 100000. dmetas s0 i = format_dmeta (crc32 s) i)"
    using v(11) tb(5,7) m(5) by (intro exI [of _ ?u]) simp
  moreover have "bmetas v = bm" "crc32 v = crc32 s" "super_meta v = ?sm" "block_handle v = block_handle ?u"
    using v(8,12) tb(5) by (simp_all add: files_same_def fresh_tables_def)
  moreover have "max_block_num (block_handle ?u) = ucast (sb_curr_block_num ?sm)"
    by (simp add: fresh_tables_def BlockHandle_InitializeMeta_def Let_def)
  ultimately show ?thesis using t(1,5) v(1-10,13) m(5,6) d(3,4) by (intro exI [of _ t] exI [of _ v]) simp
qed

end
