(* ===== verification/Create_File.thy ===== *)
theory Create_File
  imports Namespace
begin

text \<open>
  \<open>creat\<close>: on a device without I/O errors a new name in an existing directory gets the first
  free file struct, is found by every later lookup, is empty and ready for reading and
  writing, and no other name changes.
\<close>

definition spare_file :: "fs \<Rightarrow> nat \<Rightarrow> bool" where
  "spare_file s fh \<longleftrightarrow> fh < 100000 \<and> \<not> fm_used (fmetas s fh) \<and> fm_fh (fmetas s fh) = word_of_nat fh \<and> fm_size (fmetas s fh) = 0"

text \<open>The struct and the object after \<open>NewFile\<close>.\<close>

definition named_file :: "fs \<Rightarrow> nat \<Rightarrow> nat \<Rightarrow> string \<Rightarrow> FileMeta" where
  "named_file s fh dh nm = (fmetas s fh)\<lparr>fm_used := True, fm_fh := word_of_nat fh, fm_dh := word_of_nat dh,
     fm_file_name := memcpy_cstr 64 nm (behind s), fm_is_temp := False, fm_atime := now s, fm_mtime := now s, fm_ctime := now s\<rparr>"

definition with_file :: "fs \<Rightarrow> nat \<Rightarrow> nat \<Rightarrow> string \<Rightarrow> fs" where
  "with_file s fh dh nm = s\<lparr>fobj := (fobj s)(fobj_next s := File_new fh), fobj_next := Suc (fobj_next s),
     fmetas := (fmetas s)(fh := named_file s fh dh nm), free_fhs := tl (free_fhs s)\<rparr>"

lemma NewFile_some:
  assumes "GetCreatedDirectory d s = (Some dir, s)" "\<not> amap_contains (Dir_dh s dir, nm) (created_files s)"
    and "free_fhs s = fh # rest" "spare_file s fh"
  shows "NewFile d nm False s = (Some (dir, fobj_next s), with_file s fh (Dir_dh s dir) nm)"
  using assms
  by (simp add: NewFile_def NewFreeFileNolock_def new_free_file_def spare_file_def new_file_def Let_def File_set_file_name_def
      File_new_def upd_fmeta_def with_file_def named_file_def)

lemma with_file_view:
  assumes "spare_file s fh" "length nm < 64" "NUL \<notin> set nm" "dh < 2 ^ 64"
  defines "u \<equiv> with_file s fh dh nm"
  shows "File_fh u (fobj_next s) = fh" "File_dh u (fobj_next s) = dh" "File_file_name u (fobj_next s) = nm"
    "File_file_size u (fobj_next s) = 0" "fobj u (fobj_next s) = File_new fh"
proof -
  have "meta_file_name (named_file s fh dh nm) = nm"
    using meta_file_name_memcpy [OF assms(2,3), where m = "fmetas s fh" and b = "behind s"]
    by (simp add: named_file_def meta_file_name_def)
  then show "File_file_name u (fobj_next s) = nm"
    by (simp add: u_def File_file_name_def with_file_def File_new_def)
qed (use assms(1,4) in \<open>simp_all add: u_def obj_acc_defs with_file_def File_new_def named_file_def spare_file_def
    unsigned_of_nat take_bit_nat_eq_self\<close>)

lemma write_new_file:
  fixes nm :: string and dh :: nat
  assumes "formatted s" "io_ok s" "675282944 \<le> unat (dev_size (dev s))" "spare_file s fh"
  defines "u \<equiv> with_file s fh dh nm"
  shows "\<exists>k. File_WriteMeta_fh fh u = (True, (file_crc fh u)\<lparr>kern := k\<rparr>) \<and> benign (k_script k)
     \<and> (\<forall>p \<ge> 675282944. k_disk k p = k_disk (kern s) p)
     \<and> (meta_synced s \<longrightarrow> meta_synced ((file_crc fh u)\<lparr>kern := k\<rparr>))"
proof -
  have u: "formatted u" "io_ok u" "675282944 \<le> unat (dev_size (dev u))" "fh < 100000" "kern u = kern s"
    using assms(1-4) by (simp_all add: u_def with_file_def formatted_def io_ok_def spare_file_def)
  obtain t where t: "File_WriteMeta_fh fh u = (True, t)"
    using File_WriteMeta_fh_ok [OF u(1,2,4,3)] by (metis prod.collapse)
  obtain k where k: "t = (file_crc fh u)\<lparr>kern := k\<rparr>" using File_WriteMeta_fh_disk [OF u(1,4) t] by blast
  have ds: "data_same u t" using File_WriteMeta_fh_data [OF u(1,4)] t by (metis snd_conv)
  have "meta_synced t" if "meta_synced s"
  proof -
    have "synced_but {fh} {} {} u" using that by (auto simp: u_def with_file_def synced_but_def synced_defs)
    from File_WriteMeta_fh_synced(1) [OF u(1,4) t this] show ?thesis by (auto simp: synced_but_def)
  qed
  then show ?thesis using t k ds u(2,5) by (auto simp: data_same_def io_ok_def)
qed

text \<open>Everything an operation on file names does not touch.\<close>

definition blocks_same :: "fs \<Rightarrow> fs \<Rightarrow> bool" where
  "blocks_same s t \<longleftrightarrow> bmetas t = bmetas s \<and> free_fbhs t = free_fbhs s \<and> block_handle t = block_handle s
     \<and> super_meta t = super_meta s \<and> dev t = dev s \<and> (\<forall>p \<ge> 675282944. k_disk (kern t) p = k_disk (kern s) p)"

lemma fs_ok_blocks_same: "fs_ok s \<Longrightarrow> blocks_same s t \<Longrightarrow> io_ok t \<Longrightarrow> fs_ok t"
  by (rule fs_ok_cong [of s]) (simp_all add: blocks_same_def)

lemma CreateFile_some:
  assumes ok: "fs_ok s" "675282944 \<le> unat (dev_size (dev s))"
    and tp: "FileHandle_TransformPath p s = (Some (d, nm), s)" and dir: "GetCreatedDirectory d s = (Some dir, s)"
    and new: "\<not> amap_contains (Dir_dh s dir, nm) (created_files s)"
    and fr: "free_fhs s = fh # rest" "spare_file s fh" and nm: "length nm < 64" "NUL \<notin> set nm"
  shows "\<exists>t. CreateFile p False s = (Some (fobj_next s), t)
     \<and> created_files t = amap_put (Dir_dh s dir, nm) (fobj_next s) (created_files s)
     \<and> fobj t (fobj_next s) = File_new fh \<and> File_file_size t (fobj_next s) = 0 \<and> File_fh t (fobj_next s) = fh
     \<and> created_dirs t = created_dirs s \<and> dmetas t = dmetas s \<and> (\<forall>x. d_meta (dobj t x) = d_meta (dobj s x))
     \<and> (\<forall>g < fobj_next s. fobj t g = fobj s g) \<and> (\<forall>i. i \<noteq> fh \<longrightarrow> fmetas t i = fmetas s i)
     \<and> fobj_next t = Suc (fobj_next s) \<and> free_fhs t = rest \<and> open_files t = open_files s \<and> fd_handle t = fd_handle s
     \<and> blocks_same s t \<and> fs_ok t \<and> (meta_synced s \<longrightarrow> meta_synced t)
     \<and> (\<exists>v. File_WriteMeta_fh fh (with_file s fh (Dir_dh s dir) nm) = (True, v) \<and> t = set_errno 0 (AddFileToDirectory dir (fobj_next s) v))"
proof -
  let ?f = "fobj_next s" and ?dh = "Dir_dh s dir"
  let ?u = "with_file s fh ?dh nm"
  have dh: "?dh < 2 ^ 64" using unsigned_less [where ?'a = nat, of "dm_dh (Dir_meta s dir)"] by (simp add: Dir_dh_def)
  obtain k where k: "File_WriteMeta_fh fh ?u = (True, (file_crc fh ?u)\<lparr>kern := k\<rparr>)" "benign (k_script k)"
    "\<forall>p \<ge> 675282944. k_disk k p = k_disk (kern s) p" "meta_synced s \<longrightarrow> meta_synced ((file_crc fh ?u)\<lparr>kern := k\<rparr>)"
    using write_new_file [OF _ _ ok(2) fr(2)] ok(1) unfolding fs_ok_def by blast
  let ?v = "(file_crc fh ?u)\<lparr>kern := k\<rparr>"
  note w = with_file_view [OF fr(2) nm dh]
  have v: "File_fh ?v ?f = fh" "File_dh ?v ?f = ?dh" "File_file_name ?v ?f = nm" "File_file_size ?v ?f = 0" "fobj ?v ?f = File_new fh"
    using w by (simp_all add: file_crc_def upd_fmeta_def obj_acc_defs meta_file_name_def File_new_def)
  let ?x = "snd (AddChildFile dir ?f ?v)"
  have x: "fmetas ?x = fmetas ?v" "fobj ?x = fobj ?v" "created_files ?x = created_files s" "created_fhs ?x = created_fhs s"
    "dmetas ?x = dmetas s" "created_dirs ?x = created_dirs s" "\<And>y. d_meta (dobj ?x y) = d_meta (dobj s y)"
    "bmetas ?x = bmetas s" "free_fbhs ?x = free_fbhs s" "block_handle ?x = block_handle s" "super_meta ?x = super_meta s"
    "dev ?x = dev s" "kern ?x = k" "open_files ?x = open_files s" "fd_handle ?x = fd_handle s" "fobj_next ?x = Suc ?f" "free_fhs ?x = rest"
    using fr by (simp_all add: AddChildFile_def upd_dir_def file_crc_def upd_fmeta_def with_file_def)
  have fx: "File_fh ?x ?f = fh" "File_dh ?x ?f = ?dh" "File_file_name ?x ?f = nm"
    using v x(1,2) by (simp_all add: obj_acc_defs)
  let ?y = "?x\<lparr>created_fhs := amap_put fh ?f (created_fhs s), created_files := amap_put (?dh, nm) ?f (created_files s)\<rparr>"
  let ?t = "set_errno 0 ?y"
  have "File_WriteMeta ?f ?u = (True, ?v)" using k(1) w(1) by (simp add: File_WriteMeta_def)
  then have "CreateFile p False s = (Some ?f, set_errno 0 (AddFileToDirectory dir ?f ?v))"
    using tp NewFile_some [OF dir new fr] by (simp add: CreateFile_def)
  moreover have "AddFileToDirectory dir ?f ?v = ?y" unfolding AddFileToDirectory_def AddFileNoLock_def fx x(3,4) ..
  ultimately have r: "CreateFile p False s = (Some ?f, ?t)" by simp
  have b: "blocks_same s ?t" using k(3) x by (simp add: blocks_same_def set_errno_def)
  have "io_ok ?t" using ok(1) k(2) x by (simp add: fs_ok_def io_ok_def set_errno_def)
  then have "fs_ok ?t" using fs_ok_blocks_same [OF ok(1) b] by simp
  moreover have "meta_synced ?t" if "meta_synced s"
  proof -
    have "dmetas ?v = dmetas s" "bmetas ?v = bmetas s" "super_meta ?v = super_meta s"
      by (simp_all add: file_crc_def upd_fmeta_def with_file_def)
    then show ?thesis using k(4) that x by (subst synced_but_cong [of _ ?v]) (simp_all add: set_errno_def)
  qed
  moreover have "fobj ?t ?f = File_new fh" "File_file_size ?t ?f = 0" "File_fh ?t ?f = fh" "\<forall>g < ?f. fobj ?t g = fobj s g"
    "\<forall>i. i \<noteq> fh \<longrightarrow> fmetas ?t i = fmetas s i"
    using v x by (simp_all add: set_errno_def obj_acc_defs file_crc_def upd_fmeta_def with_file_def)
  moreover have "\<exists>v. File_WriteMeta_fh fh ?u = (True, v) \<and> ?t = set_errno 0 (AddFileToDirectory dir ?f v)"
    using k(1) \<open>AddFileToDirectory dir ?f ?v = ?y\<close> by (intro exI [of _ ?v]) simp
  ultimately show ?thesis using r b x by (intro exI [of _ ?t]) (simp add: set_errno_def)
qed

end
