(* ===== verification/Mounted.thy ===== *)
theory Mounted
  imports Create_File File_System
begin

text \<open>
  From a formatted device to a file that is written and read: the first mount, the invariant
  of every state it can lead to, and a whole session of calls on a new file.
\<close>

section \<open>Open files\<close>

lemma map_of_add_append_pos:
  "map_of (open_files (add_append_pos fd n s)) fd' = map_option (\<lambda>x. if fd' = fd then x\<lparr>of_append_pos := of_append_pos x + word_of_int n\<rparr> else x) (map_of (open_files s) fd')"
proof -
  have "map_of (map (\<lambda>(k, x). (k, g k x)) m) fd' = map_option (g fd') (map_of m fd')" for g :: "int \<Rightarrow> OpenFile \<Rightarrow> OpenFile" and m
    by (induction m) auto
  then show ?thesis by (simp add: add_append_pos_def)
qed

lemma GetOpenFile_some: "map_of (open_files s) fd = Some x \<Longrightarrow> GetOpenFile fd s = (Some x, s)"
  by (simp add: GetOpenFile_def)

text \<open>What a write through one descriptor stored, a read through any descriptor of the file returns.\<close>

lemma pwrite_pread:
  assumes "map_of (open_files s) fd = Some x" and "ready s (of_file x)" and "sz \<noteq> 0"
    and "length buf = unat sz" and "unat off + unat sz \<le> unat kBlockFsMaxUDiskSize"
    and "can_grow s (of_file x) (unat off + unat sz)"
    and "map_of (open_files s) fd2 = Some y" and "of_file y = of_file x" and "length out = unat sz"
  shows "\<exists>t u. PwriteFile fd buf sz off s = Some (int (unat sz), t)
     \<and> PreadFile fd2 sz off out t = Some ((int (unat sz), buf), u)"
proof -
  obtain t where t: "OpenFile_pwrite fd (of_file x) buf sz off s = Some (int (unat sz), t)" "fs_ok t"
    "file_wf t (of_file x)" "open_files t = open_files (add_append_pos fd (int (unat sz)) s)"
    "unat (File_file_size t (of_file x)) = max (unat (File_file_size s (of_file x))) (unat off + unat sz)"
    "\<forall>i \<in> {unat off..<unat off + unat sz}. file_byte t (of_file x) i = buf ! (i - unat off)"
    using pwrite_file [OF assms(2-5), of fd] assms(6) by auto
  obtain z where z: "map_of (open_files t) fd2 = Some z" "of_file z = of_file x"
    using assms(7,8) t(4) by (cases "fd2 = fd") (auto simp: map_of_add_append_pos)
  have pos: "0 < unat sz" using assms(3) by (simp add: unat_gt_0)
  have mx: "unat off + unat sz \<le> 140737488355328" using assms(5) by (simp add: layout_consts)
  have "off < File_file_size t (of_file x)" using t(5) pos by (simp add: word_less_nat_alt)
  then obtain k where "OpenFile_pread fd2 (of_file x) sz off out t =
      Some ((int (unat sz), map (file_byte t (of_file x)) [unat off..<unat off + unat sz]),
        add_append_pos fd2 (int (unat sz)) (t\<lparr>kern := k\<rparr>))"
    using pread_file [OF t(2,3) assms(3), of off out "unat sz" fd2] mx assms(9) t(5) by auto
  moreover have "map (file_byte t (of_file x)) [unat off..<unat off + unat sz] = buf"
    by (rule nth_equalityI) (use t(6) assms(4) in auto)
  ultimately show ?thesis
    using t(1) GetOpenFile_some [OF assms(1)] GetOpenFile_some [OF z(1)] z(2)
    by (auto simp: PwriteFile_def PreadFile_def)
qed

section \<open>Opening an existing file\<close>

definition names_same :: "fs \<Rightarrow> fs \<Rightarrow> bool" where
  "names_same s t \<longleftrightarrow> created_dirs t = created_dirs s \<and> created_dhs t = created_dhs s \<and> created_files t = created_files s
     \<and> created_fhs t = created_fhs s \<and> dobj t = dobj s \<and> dobj_next t = dobj_next s \<and> fobj_next t = fobj_next s
     \<and> dmetas t = dmetas s \<and> crc32 t = crc32 s \<and> free_fhs t = free_fhs s
     \<and> dev t = dev s"

lemma open_existing:
  assumes dir: "GetCreatedDirectory p s = (None, s)" and f: "GetCreatedFile p s = (Some f, s)"
    and fd: "free_fd_pool (fd_handle s) = fd # rest" and r: "ready s f"
  shows "\<exists>t. FileHandle_open p O_RDWR s = Some (fd, t) \<and> map_of (open_files t) fd = Some \<lparr>of_file = f, of_append_pos = 0\<rparr>
     \<and> ready t f \<and> blocks_same s t \<and> fmetas t = fmetas s \<and> (\<forall>g. f_items (fobj t g) = f_items (fobj s g))
     \<and> (\<forall>g. f_meta (fobj t g) = f_meta (fobj s g)) \<and> k_disk (kern t) = k_disk (kern s) \<and> names_same s t
     \<and> open_files t = amap_put fd \<lparr>of_file = f, of_append_pos = 0\<rparr> (open_files s) \<and> fd_handle t = (fd_handle s)\<lparr>free_fd_pool := rest\<rparr>"
proof -
  let ?h = "(fd_handle s)\<lparr>free_fd_pool := rest\<rparr>"
  let ?t = "set_errno 0 (upd_file f (\<lambda>x. x\<lparr>f_nlink := f_nlink x + 1\<rparr>)
    (AddOpenFile fd \<lparr>of_file = f, of_append_pos = 0\<rparr> (s\<lparr>fd_handle := ?h\<rparr>)))"
  have bits: "(O_RDWR AND O_TMPFILE) = 0" "(O_RDWR AND O_CREAT) = 0" "(O_RDWR AND O_DIRECTORY) = 0"
    "(O_RDWR AND O_TRUNC) = 0" "(O_RDWR AND O_APPEND) = 0" by simp_all
  have "open_file p O_RDWR s = Some (Some f, s)"
    by (simp add: open_file_def IsNeedCreateTempFile_def VerifyOpenExistFileFlag_def dir f)
  moreover have "fs_get_fd s = (fd, s\<lparr>fd_handle := ?h\<rparr>)" by (simp add: fs_get_fd_def get_fd_def fd)
  ultimately have o: "FileHandle_open p O_RDWR s = Some (fd, ?t)" by (simp add: FileHandle_open_def Let_def)
  have b: "blocks_same s ?t" by (simp add: blocks_same_def set_errno_def upd_file_def AddOpenFile_def)
  have "io_ok ?t" using r by (simp add: ready_def fs_ok_def io_ok_def set_errno_def upd_file_def AddOpenFile_def)
  then have ok: "fs_ok ?t" using fs_ok_blocks_same [OF _ b] r by (simp add: ready_def)
  have w: "fmetas ?t = fmetas s" "f_items (fobj ?t g) = f_items (fobj s g)" "f_meta (fobj ?t g) = f_meta (fobj s g)"
    "bmetas ?t = bmetas s" "free_fbhs ?t = free_fbhs s" "k_disk (kern ?t) = k_disk (kern s)" for g
    by (simp_all add: set_errno_def upd_file_def AddOpenFile_def)
  have "ready ?t f"
    using r ok unfolding ready_def file_wf_def fbs_in_range_def File_file_size_def File_fh_def fb_owned_def w by simp
  moreover have "names_same s ?t" by (simp add: names_same_def set_errno_def upd_file_def AddOpenFile_def)
  ultimately show ?thesis using o b w by (intro exI [of _ ?t]) (simp add: set_errno_def upd_file_def AddOpenFile_def)
qed

section \<open>Lookups by path\<close>

lemma dir_path_ends: "dir_path d \<Longrightarrow> ends_with_slash d"
  by (auto simp: dir_path_def ends_with_slash_def)

lemma GetCreatedDirectory_path:
  "dir_path d \<Longrightarrow> length d < 768 \<Longrightarrow> GetCreatedDirectory d s = (map_of (created_dirs s) d, s)"
  by (simp add: GetCreatedDirectory_def DirHandle_TransformPath_def dir_path_ends layout_consts)

lemma FileHandle_TransformPath_path:
  assumes "dir_path d" "plain_name n" "length n < 64"
  shows "FileHandle_TransformPath (d @ n) s = (Some (d, n), s)"
proof -
  have "\<not> ends_with_slash (d @ n)"
    using last_plain_name [OF assms(2)] assms(2) by (simp add: ends_with_slash_def plain_name_def)
  then show ?thesis using GetDirName_file [OF assms(1,2)] assms(3) by (simp add: FileHandle_TransformPath_def layout_consts)
qed

lemma GetCreatedFile_path:
  assumes "dir_path d" "length d < 768" "plain_name n" "length n < 64"
    and "map_of (created_dirs s) d = Some dir" "map_of (created_files s) (Dir_dh s dir, n) = Some f"
  shows "GetCreatedFile (d @ n) s = (Some f, s)"
  using assms by (simp add: GetCreatedFile_def FileHandle_TransformPath_path GetCreatedDirectory_path GetCreatedFile_key_def)

lemma create_path:
  assumes ok: "fs_ok s" "675282944 \<le> unat (dev_size (dev s))"
    and p: "dir_path d" "length d < 768" "plain_name n" "length n < 64"
    and dir: "map_of (created_dirs s) d = Some dir" and new: "map_of (created_files s) (Dir_dh s dir, n) = None"
    and fr: "free_fhs s = fh # rest" "spare_file s fh" "\<forall>x \<in> set (free_fbhs s). x < 133554"
  shows "\<exists>t. FileSystem_CreateFile (d @ n) s = (0, t) \<and> GetCreatedFile (d @ n) t = (Some (fobj_next s), t)
     \<and> File_file_size t (fobj_next s) = 0 \<and> ready t (fobj_next s) \<and> (meta_synced s \<longrightarrow> meta_synced t)
     \<and> (\<forall>k. k \<noteq> (Dir_dh s dir, n) \<longrightarrow> map_of (created_files t) k = map_of (created_files s) k)
     \<and> created_dirs t = created_dirs s \<and> open_files t = open_files s \<and> fd_handle t = fd_handle s \<and> blocks_same s t
     \<and> free_fhs t = rest
     \<and> (\<exists>v. File_WriteMeta_fh fh (with_file s fh (Dir_dh s dir) n) = (True, v) \<and> t = set_errno 0 (AddFileToDirectory dir (fobj_next s) v))"
proof -
  have nm: "NUL \<notin> set n" using p(3) by (simp add: plain_name_def)
  have tp: "FileHandle_TransformPath (d @ n) s = (Some (d, n), s)" by (rule FileHandle_TransformPath_path [OF p(1,3,4)])
  have gd: "GetCreatedDirectory d s = (Some dir, s)" using GetCreatedDirectory_path [OF p(1,2)] dir by simp
  have nw: "\<not> amap_contains (Dir_dh s dir, n) (created_files s)" using new by simp
  obtain t where t: "CreateFile (d @ n) False s = (Some (fobj_next s), t)"
    "created_files t = amap_put (Dir_dh s dir, n) (fobj_next s) (created_files s)"
    "fobj t (fobj_next s) = File_new fh" "File_file_size t (fobj_next s) = 0" "File_fh t (fobj_next s) = fh"
    "created_dirs t = created_dirs s" "dmetas t = dmetas s" "\<forall>x. d_meta (dobj t x) = d_meta (dobj s x)"
    "free_fhs t = rest" "open_files t = open_files s" "fd_handle t = fd_handle s"
    "blocks_same s t" "fs_ok t" "meta_synced s \<longrightarrow> meta_synced t"
    "\<exists>v. File_WriteMeta_fh fh (with_file s fh (Dir_dh s dir) n) = (True, v) \<and> t = set_errno 0 (AddFileToDirectory dir (fobj_next s) v)"
    using CreateFile_some [OF ok tp gd nw fr(1,2) p(4) nm] by blast
  have "Dir_dh t dir = Dir_dh s dir" using t(7,8) by (simp add: Dir_dh_def)
  then have "GetCreatedFile (d @ n) t = (Some (fobj_next s), t)"
    using t(2,6) dir by (intro GetCreatedFile_path [OF p]) auto
  moreover have "ready t (fobj_next s)"
    using t(3-5,12,13) fr(2,3) by (simp add: ready_def file_wf_def fbs_in_range_def File_new_def spare_file_def blocks_same_def)
  ultimately show ?thesis using t by (intro exI [of _ t]) (simp add: FileSystem_CreateFile_def)
qed

section \<open>Descriptors from the mount on\<close>

lemma use_device_view [simp]: "fd_view (use_device d s) = fd_view s"
  by (simp add: fd_view_def open_refs_def use_device_def)

lemma device_view [fdv]:
  "fs_Device_Open env n s = (ok, t) \<Longrightarrow> fd_view t = fd_view s"
  "fs_PreadCache m off s = (x, t) \<Longrightarrow> fd_view t = fd_view s"
  "fs_PreadDirect m off s = (x, t) \<Longrightarrow> fd_view t = fd_view s"
  by (auto simp: fs_Device_Open_def split: prod.splits)
    (auto simp: fs_PreadCache_def fs_PreadDirect_def fd_view_def open_refs_def split: prod.splits)

lemma prefetch_view [fdv]:
  "PrefetchSuperMeta_dev s = (x, t) \<Longrightarrow> fd_view t = fd_view s"
  "PrefetchSuperMeta s = (y, t) \<Longrightarrow> fd_view t = fd_view s"
  by (auto simp: PrefetchSuperMeta_def PrefetchSuperMeta_dev_def split: prod.splits if_splits option.splits dest!: fdv)

lemma dev_view [simp]: "fd_view (s\<lparr>dev := d\<rparr>) = fd_view s"
  by (simp add: fd_view_def open_refs_def)

lemma OpenTarget_view [fdv]: "OpenTarget env uuid names s = (ok, t) \<Longrightarrow> fd_view t = fd_view s"
proof (induction names arbitrary: s)
  case Nil
  then show ?case by simp
next
  case (Cons n names)
  obtain ok1 s1 where o: "fs_Device_Open env (''/dev/'' @ n) s = (ok1, s1)" by fastforce
  obtain m s2 where p: "PrefetchSuperMeta_dev s1 = (m, s2)" by fastforce
  obtain d k where c: "Device_Close (dev s2) (kern s2) = (d, k)" by fastforce
  have v: "fd_view s1 = fd_view s" "fd_view s2 = fd_view s1" using o p by (auto dest!: fdv)
  show ?case
  proof (cases ok1)
    case False
    then show ?thesis using Cons.prems Cons.IH [of s1] o v by simp
  next
    case True
    then show ?thesis using Cons.prems Cons.IH [of "s2\<lparr>dev := d, kern := k\<rparr>"] o p c v
      by (cases m) (auto split: if_splits)
  qed
qed

lemma load_view [fdv]:
  "ShmManager_Initialize s = (ok, t) \<Longrightarrow> fd_view t = fd_view s"
  "SuperBlock_InitializeMeta s = (ok, t) \<Longrightarrow> fd_view t = fd_view s"
proof -
  have "fd_view (regist_meta m bs u) = fd_view u" for m bs u by (simp add: regist_meta_def fd_view_def open_refs_def)
  then show "ShmManager_Initialize s = (ok, t) \<Longrightarrow> fd_view t = fd_view s"
    by (auto simp: ShmManager_Initialize_def fs_PreadDirect_all_def Let_def split: prod.splits if_splits option.splits dest!: fdv)
qed (auto simp: SuperBlock_InitializeMeta_def Let_def split: if_splits)

lemma init_dirs_view [fdv]: "init_dirs ds s = (ok, t) \<Longrightarrow> fd_view t = fd_view s"
proof (induction ds arbitrary: s)
  case Nil
  then show ?case by simp
next
  case (Cons d ds)
  obtain x s1 where n: "new_dir (Directory_new d) s = (x, s1)" by fastforce
  obtain ok1 s2 where a: "AddDirectory2CreateNolock x s1 = (ok1, s2)" by fastforce
  have v: "fd_view s1 = fd_view s" "fd_view s2 = fd_view s1"
    using new_dir_view [of "Directory_new d" s] n a by (auto dest!: fdv)
  show ?case using Cons.prems Cons.IH [of s2] Cons.IH [of "s\<lparr>free_dhs := free_dhs s @ [d]\<rparr>"] n a v
    by (auto simp: Let_def split: if_splits bool.splits)
qed

lemma link_dirs_view [fdv]: "link_dirs ds s = (ok, t) \<Longrightarrow> fd_view t = fd_view s"
proof (induction ds arbitrary: s)
  case Nil
  then show ?case by simp
next
  case (Cons d ds)
  obtain x s1 where g: "GetCreatedDirectory (GetDirName (Dir_dir_name s d)) s = (x, s1)" by fastforce
  have v: "fd_view s1 = fd_view s" using g by (auto dest!: fdv)
  have w: "fd_view v = fd_view u" if "AddChildDirectory p d u = (b, v)" for p u b v using that by (rule fdv)
  show ?case using Cons.prems g v Cons.IH
    by (auto split: if_splits option.splits prod.splits bool.splits dest!: w)
qed

lemma init_files_ext: "init_files fs s = (ok, t) \<Longrightarrow> fd_ext s t"
proof (induction fs arbitrary: s)
  case Nil
  then show ?case by (simp add: fd_view_ext)
next
  case (Cons h fs)
  obtain f s1 where n: "new_file (File_new h) s = (f, s1)" by fastforce
  let ?s2 = "if 0 < s32 (fm_child_fh (fmetas s h)) then s1\<lparr>created_fhs := amap_put (File_fh s1 f) f (created_fhs s1)\<rparr> else AddFileNoLock f s1"
  obtain ok3 s3 where w: "File_WriteMeta_fh (unat (fm_fh (fmetas s h))) (upd_fmeta h File_ClearMeta s) = (ok3, s3)" by fastforce
  have v3: "fd_ext s s3" using w by (auto intro!: fd_view_ext dest!: fdv)
  have f: "f = fobj_next s" "s1 = s\<lparr>fobj := (fobj s)(f := File_new h), fobj_next := Suc f\<rparr>"
    using n by (auto simp: new_file_def)
  have e1: "fd_ext s s1" by (auto simp: f fd_ext_def open_refs_def files_of_def File_new_def)
  have "fd_link {f} s1 ?s2"
    using fd_link_tables(1) [of "created_files s1" "{f}" s1 "amap_put (File_fh s1 f) f (created_fhs s1)"]
      snd_amap_put [of "File_fh s1 f" f "created_fhs s1"] AddFileNoLock_link [of f "{f}" s1]
    by (auto simp: files_of_def)
  then have e2: "fd_ext s ?s2" using e1 by (auto simp: f fd_ext_def fd_link_def)
  have e4: "fd_ext s (snd (AddChildFile d f ?s2))" for d
  proof -
    have "fd_view (snd (AddChildFile d f ?s2)) = fd_view ?s2" using child_view(2) [OF prod.collapse [symmetric]] .
    from fd_ext_trans [OF e2 fd_view_ext [OF this]] show ?thesis .
  qed
  have e5: "fd_ext s (AddFile2FreeNolock h s)" by (simp add: fd_view_ext)
  have r: "fd_ext s t" if "fd_ext s u" "init_files fs u = (ok, t)" for u
    using fd_ext_trans [OF that(1) Cons.IH [OF that(2)]] .
  have s0: "fd_ext s s" by (simp add: fd_view_ext)
  show ?case
    using Cons.prems n w v3 s0 e2 r [OF v3] r [OF e4] r [OF e5]
    by (auto simp: Let_def split: if_splits bool.splits option.splits)
qed

lemma claim_blocks_view [fdv]: "claim_blocks fb is s = Some (ok, t) \<Longrightarrow> fd_view t = fd_view s"
proof (induction "is" arbitrary: s)
  case Nil
  then show ?case by simp
next
  case (Cons i "is")
  from Cons.prems show ?case
    by (auto simp: Let_def split: bind_splits prod.splits if_splits dest!: Cons.IH)
qed

lemma init_fbs_view [fdv]: "init_fbs is s = Some (ok, t) \<Longrightarrow> fd_view t = fd_view s"
proof (induction "is" arbitrary: s)
  case Nil
  then show ?case by simp
next
  case (Cons i "is")
  have w: "fd_view v = fd_view s" if "FileBlock_WriteMeta i (upd_bmeta i FileBlock_ClearMeta s) = (b, v)" for b v
    using that by (auto dest!: fdv)
  have a: "fd_view (s\<lparr>free_fbhs := free_fbhs s @ [i]\<rparr>) = fd_view s" by simp
  from Cons.prems show ?case
    by (auto simp: Let_def a split: bind_splits prod.splits if_splits option.splits bool.splits
        dest!: Cons.IH claim_blocks_view dest: w)
qed

lemma mount_fds_ok:
  assumes "MountFileSystem env names uuid s = Some (0, u)" "fobj_next s = 0"
  shows "fds_ok [] u"
proof -
  have z: "fds_ok [] (FileSystem_Initialize s)"
    using assms(2) fd_inv_new FdHandle_new_full
    by (simp add: fds_ok_def FileSystem_Initialize_def use_device_def fds_used_def open_refs_def alloc_ok_def files_of_def)
  have MetaI: "fds_ok [] t" if "FileSystem_InitializeMeta v = Some (b, t)" "fds_ok [] v" for v t b
  proof -
    obtain b1 v1 where 1: "SuperBlock_InitializeMeta v = (b1, v1)" by fastforce
    obtain b2 h where 2: "BlockHandle_InitializeMeta (sb_curr_block_num (super_meta v1)) (block_handle v1) = (b2, h)" by fastforce
    obtain b3 v3 where 3: "DirHandle_InitializeMeta (v1\<lparr>block_handle := h\<rparr>) = (b3, v3)" by fastforce
    obtain b4 v4 where 4: "FileHandle_InitializeMeta v3 = (b4, v4)" by fastforce
    have "fd_view v1 = fd_view v" "fd_view v3 = fd_view v1" using 1 3
      by (auto simp: DirHandle_InitializeMeta_def split: prod.splits bool.splits dest!: fdv)
    then have ok: "fds_ok [] v1" "fds_ok [] v3" using fds_ok_view that(2) by blast+
    then have ok4: "fds_ok [] v4" using fds_ok_ext init_files_ext 4 unfolding FileHandle_InitializeMeta_def by blast
    have "fds_ok [] w" if "FileBlockHandle_InitializeMeta v4 = Some (b', w)" for b' w
      using that fds_ok_view [OF ok4] by (auto simp: FileBlockHandle_InitializeMeta_def dest!: fdv)
    then show ?thesis using that(1) 1 2 3 4 ok ok4
      by (auto simp: FileSystem_InitializeMeta_def split: bool.splits)
  qed
  obtain b1 s1 where 1: "OpenTarget env (the uuid) names (FileSystem_Initialize s) = (b1, s1)" by fastforce
  obtain b2 s2 where 2: "ShmManager_Initialize s1 = (b2, s2)" by fastforce
  have "fd_view s1 = fd_view (FileSystem_Initialize s)" "fd_view s2 = fd_view s1" using 1 2 by (auto dest!: fdv)
  then have ok2: "fds_ok [] s2" using fds_ok_view z by blast
  obtain s3 where 3: "FileSystem_InitializeMeta s2 = Some (True, s3)" and 4: "MakeMountPoint ''/'' s3 = Some (0, u) \<or> (\<exists>r. MakeMountPoint ''/'' s3 = Some (r, u))"
    using assms(1) 1 2 by (auto simp: MountFileSystem_def split: option.splits bool.splits bind_splits if_splits)
  have ok3: "fds_ok [] s3" by (rule MetaI [OF 3 ok2])
  obtain r where "MakeMountPoint ''/'' s3 = Some (r, u)" using 4 by auto
  then have "fd_view u = fd_view s3"
    by (auto simp: MakeMountPoint_def split: prod.splits option.splits dest!: fdv)
  then show ?thesis using fds_ok_view ok3 by blast
qed

text \<open>Closing a descriptor of a file that has others.\<close>

lemma fsync_frame: "\<exists>r k. File_fsync f s = (r, s\<lparr>kern := k\<rparr>)"
  by (auto simp: File_fsync_def fs_Fsync_def split: prod.splits)

lemma close_shared:
  assumes "map_of (open_files s) fd = Some x" "1 < f_nlink (fobj s (of_file x))"
  shows "\<exists>u. FileHandle_close fd s = Some (0, u) \<and> fd_handle u = put_fd fd (fd_handle s)"
proof -
  obtain r k where f: "File_fsync (of_file x) s = (r, s\<lparr>kern := k\<rparr>)" using fsync_frame by blast
  let ?v = "upd_file (of_file x) (\<lambda>y. y\<lparr>f_locked := False, f_nlink := f_nlink y - 1\<rparr>) (s\<lparr>kern := k\<rparr>)"
  have "f_nlink (fobj ?v (of_file x)) \<noteq> 0" using assms(2) by (simp add: upd_file_def)
  then show ?thesis
    using assms(1) f by (auto simp: FileHandle_close_def GetOpenFile_def Let_def set_errno_def upd_file_def)
qed

text \<open>A file made and opened on a new device.\<close>

lemma first_open:
  assumes "opens env (''/dev/'' @ nm) sz" and "675282944 \<le> unat sz" and "unat sz < 420109877248"
    and "benign (k_script (kern s))" and "plain_name n" and "length n < 64"
  shows "\<exists>t u v w f. FileSystem_Format env (''/dev/'' @ nm) s = (True, t) \<and> fobj_next t = fobj_next s
     \<and> MountFileSystem env (nm # names) (Some format_uuid) t = Some (0, u)
     \<and> FileSystem_CreateFile (''/'' @ n) u = (0, v) \<and> free_fd_pool (fd_handle v) \<noteq> []
     \<and> FileHandle_open (''/'' @ n) O_RDWR v = Some (0, w)
     \<and> map_of (open_files w) 0 = Some \<lparr>of_file = f, of_append_pos = 0\<rparr> \<and> ready w f \<and> File_file_size w f = 0
     \<and> free_fbhs w = [0..<133554] \<and> dev_size (dev w) = sz
     \<and> length (block_id_pool (block_handle w)) = (unat sz - 675282944) div 4194304"
proof -
  obtain t u where t: "FileSystem_Format env (''/dev/'' @ nm) s = (True, t)"
    "MountFileSystem env (nm # names) (Some format_uuid) t = Some (0, u)"
    "created_dirs u = [(''/'', dobj_next t)]" "created_files u = []" "fd_handle u = FdHandle_new"
    "free_fhs u = [0..<100000]" "free_fbhs u = [0..<133554]" "\<forall>i < 100000. fmetas u i = format_fmeta (crc32 s) i"
    "dev_size (dev u) = sz" "length (block_id_pool (block_handle u)) = (unat sz - 675282944) div 4194304" "fs_ok u" "fobj_next t = fobj_next s"
    using mount_fresh [OF assms(1-4), of "[]" names] by auto
  let ?f = "fobj_next u"
  have up: "[0..<100000] = 0 # [1..<100000::nat]" by (subst upt_conv_Cons) (simp_all only: One_nat_def [symmetric] zero_less_numeral)
  have sp: "spare_file u 0"
    using t(8) by (simp add: spare_file_def format_fmeta_def FileMeta_zero_def Let_def)
  have root: "dir_path ''/''" "length ''/'' < 768" by (simp_all add: dir_path_def)
  have lk: "map_of (created_dirs u) ''/'' = Some (dobj_next t)" "map_of (created_files u) (Dir_dh u (dobj_next t), n) = None"
    using t(3,4) by simp_all
  have fb: "\<forall>x \<in> set (free_fbhs u). x < 133554" using t(7) by simp
  have dv: "675282944 \<le> unat (dev_size (dev u))" using t(9) assms(2) by simp
  from create_path [OF t(11) dv root assms(5,6) lk _ sp fb] t(6) up obtain v where
    v: "FileSystem_CreateFile (''/'' @ n) u = (0, v)" "GetCreatedFile (''/'' @ n) v = (Some ?f, v)"
      "File_file_size v ?f = 0" "ready v ?f" "created_dirs v = created_dirs u" "fd_handle v = fd_handle u" "blocks_same u v"
    by metis
  have nd: "GetCreatedDirectory (''/'' @ n) v = (None, v)"
  proof -
    have "\<not> ends_with_slash (''/'' @ n)" "n \<noteq> []"
      using last_plain_name [OF assms(5)] assms(5) by (simp_all add: ends_with_slash_def plain_name_def)
    then show ?thesis using assms(6) t(3) v(5)
      by (simp add: GetCreatedDirectory_def DirHandle_TransformPath_def layout_consts)
  qed
  have "[0..200000 - 1] = 0 # [1..199999::int]" by (subst upto_rec1) simp_all
  moreover have "int (unat (push_bit 1 kMaxFileNum)) = 200000" by (simp add: layout_consts)
  ultimately have "free_fd_pool FdHandle_new = 0 # [1..199999]"
    by (simp only: FdHandle_new_def Let_def FdHandle.simps)
  then have fd: "free_fd_pool (fd_handle v) = 0 # [1..199999]" using v(6) t(5) by simp
  from open_existing [OF nd v(2) fd v(4)] obtain w where
    w: "FileHandle_open (''/'' @ n) O_RDWR v = Some (0, w)" "map_of (open_files w) 0 = Some \<lparr>of_file = ?f, of_append_pos = 0\<rparr>"
      "ready w ?f" "blocks_same v w" "fmetas w = fmetas v" "\<forall>g. f_meta (fobj w g) = f_meta (fobj v g)" by blast
  have "File_file_size w ?f = 0" using w(5,6) v(3) by (simp add: File_file_size_def)
  moreover have "free_fbhs w = [0..<133554]" "dev_size (dev w) = sz"
    "length (block_id_pool (block_handle w)) = (unat sz - 675282944) div 4194304"
    using w(4) v(7) t(7,9,10) by (simp_all add: blocks_same_def)
  moreover have "free_fd_pool (fd_handle v) \<noteq> []" unfolding fd by simp
  ultimately show ?thesis using t(1,2,12) v(1) w(1-3) by blast
qed

section \<open>Properties\<close>

text \<open>
  C16. \<open>CreateFile\<close> on a device without I/O errors: a new name in an existing directory succeeds
  as long as a file struct is free. The new file is found under its path, is empty and ready
  for reading and writing; no other name changes, and the metadata area stays in step with memory.
\<close>

theorem CreateFile_visible:
  assumes "fs_ok s" and "675282944 \<le> unat (dev_size (dev s))"
    and "dir_path d" and "length d < 768" and "plain_name n" and "length n < 64"
    and "map_of (created_dirs s) d = Some dir" and "map_of (created_files s) (Dir_dh s dir, n) = None"
    and "free_fhs s = fh # rest" and "spare_file s fh" and "\<forall>x \<in> set (free_fbhs s). x < 133554"
  shows "\<exists>t f. FileSystem_CreateFile (d @ n) s = (0, t) \<and> GetCreatedFile (d @ n) t = (Some f, t)
     \<and> File_file_size t f = 0 \<and> ready t f \<and> (meta_synced s \<longrightarrow> meta_synced t)
     \<and> (\<forall>k. k \<noteq> (Dir_dh s dir, n) \<longrightarrow> map_of (created_files t) k = map_of (created_files s) k)"
  using create_path [OF assms] by (elim exE conjE) (intro exI conjI; assumption)

text \<open>
  C10. The first mount: a device of up to 100000 blocks that \<open>Format\<close> has formatted is found among
  the listed devices by the uuid in its super block. The devices listed before it, each with a
  content of its own and another uuid, are passed over, whether they open or not, and the mounted
  device is the formatted one, whatever was on it before. The result is a consistent file system
  whose only directory is the mount point, with no file and no open descriptor, and with the
  metadata area on the disk in step with memory.
\<close>

theorem Format_then_Mount:
  assumes "opens env (''/dev/'' @ nm) sz" and "675282944 \<le> unat sz" and "unat sz < 420109877248"
    and "benign (k_script (kern s))" and "\<forall>b \<in> set before. b \<noteq> nm \<and> uuid_of (''/dev/'' @ b) s \<noteq> format_uuid"
  shows "\<exists>t u d. FileSystem_Format env (''/dev/'' @ nm) s = (True, t)
     \<and> MountFileSystem env (before @ nm # after) (Some format_uuid) t = Some (0, u) \<and> dev_name (dev u) = ''/dev/'' @ nm
     \<and> created_dirs u = [(''/'', d)] \<and> Dir_dir_name u d = ''/'' \<and> d_items (dobj u d) = [] \<and> d_childs (dobj u d) = []
     \<and> created_files u = [] \<and> open_files u = [] \<and> fs_ok u \<and> meta_synced u"
proof -
  obtain t u where "FileSystem_Format env (''/dev/'' @ nm) s = (True, t)"
    "MountFileSystem env (before @ nm # after) (Some format_uuid) t = Some (0, u)" "dev_name (dev u) = ''/dev/'' @ nm"
    "created_dirs u = [(''/'', dobj_next t)]" "Dir_dir_name u (dobj_next t) = ''/''" "dobj u (dobj_next t) = Directory_new 0"
    "created_files u = []" "open_files u = []" "fs_ok u" "meta_synced u"
    using mount_fresh [OF assms, of after] by blast
  then show ?thesis
    by (intro exI [of _ t] exI [of _ u] exI [of _ "dobj_next t"]) (simp add: Directory_new_def)
qed

text \<open>
  C5. A whole session on a new device: format, mount, \<open>creat\<close> of a file in the mount point,
  \<open>open\<close>, \<open>pwrite\<close> and \<open>pread\<close>. When the data fits, every call succeeds and the read returns
  the bytes written.
\<close>

theorem first_session:
  assumes "opens env (''/dev/'' @ nm) sz" and "675282944 \<le> unat sz" and "unat sz < 420109877248"
    and "benign (k_script (kern s))" and "plain_name n" and "length n < 64" and "len \<noteq> 0" and "length buf = unat len"
    and "ceil_blocks (unat len) \<le> 1000" and "ceil_blocks (unat len) \<le> (unat sz - 675282944) div 4194304"
  shows "\<exists>t u v w x y. FileSystem_Format env (''/dev/'' @ nm) s = (True, t)
     \<and> MountFileSystem env (nm # names) (Some format_uuid) t = Some (0, u)
     \<and> FileSystem_CreateFile (''/'' @ n) u = (0, v)
     \<and> FileHandle_open (''/'' @ n) O_RDWR v = Some (0, w)
     \<and> PwriteFile 0 buf len 0 w = Some (int (unat len), x)
     \<and> PreadFile 0 len 0 (replicate (unat len) 0) x = Some ((int (unat len), buf), y)"
proof -
  obtain t u v w f where t: "FileSystem_Format env (''/dev/'' @ nm) s = (True, t)"
    "MountFileSystem env (nm # names) (Some format_uuid) t = Some (0, u)" "FileSystem_CreateFile (''/'' @ n) u = (0, v)"
    "FileHandle_open (''/'' @ n) O_RDWR v = Some (0, w)"
    and w: "map_of (open_files w) 0 = Some \<lparr>of_file = f, of_append_pos = 0\<rparr>" "ready w f" "File_file_size w f = 0"
      "free_fbhs w = [0..<133554]" "dev_size (dev w) = sz" "length (block_id_pool (block_handle w)) = (unat sz - 675282944) div 4194304"
    using first_open [OF assms(1-6)] by blast
  have cl: "unat len \<le> ceil_blocks (unat len) * 4194304" by (rule ceil_blocks_enough)
  have cg: "can_grow w f (unat (0::u64) + unat len)"
    using w(3-6) assms(2,9,10) cl by (simp add: can_grow_def ceil_blocks_0)
  have mx: "unat (0::u64) + unat len \<le> unat kBlockFsMaxUDiskSize" using cl assms(9) by (simp add: layout_consts)
  from pwrite_pread [OF w(1) _ assms(7,8) mx _ w(1) refl, of "replicate (unat len) 0"] w(2) cg
  show ?thesis using t by (auto simp: OpenFile.simps)
qed

text \<open>
  C6. Descriptors, in every state that the first mount of a process and then any sequence of calls
  lead to, where \<open>open\<close> and \<open>dup\<close> are called only while a descriptor is free (what \<open>open\<close> does
  otherwise is C32): no descriptor is in use twice, and free descriptors and descriptors in
  use, by open files and by directory streams, partition \<open>{0..<max_fd_num}\<close>, so none is lost; the
  link count of a file is the number of descriptors that refer to it. Before the first mount no
  \<open>File\<close> object exists (\<open>fobj_next\<close> is 0).
\<close>

theorem descriptors_sound:
  assumes "MountFileSystem env names uuid s = Some (0, u)" and "fobj_next s = 0"
    and "rtranclp fs_step (u, []) (t, D)"
  shows "distinct (map fst (open_refs t) @ map bd_fd D)
     \<and> set (map fst (open_refs t) @ map bd_fd D) \<inter> set (free_fd_pool (fd_handle t)) = {}
     \<and> set (map fst (open_refs t) @ map bd_fd D) \<union> set (free_fd_pool (fd_handle t)) = {0..<max_fd_num (fd_handle t)}
     \<and> (\<forall>f < fobj_next t. f_nlink (fobj t f) = int (count_list (map snd (open_refs t)) f))"
proof -
  have "fds_ok (map bd_fd (snd y)) (fst y)" if "rtranclp fs_step x y" "fds_ok (map bd_fd (snd x)) (fst x)" for x y
    using that
  proof (induction rule: rtranclp_induct)
    case base
    then show ?case .
  next
    case (step y z)
    then show ?case using fs_step_ok [of "fst y" "snd y" "fst z" "snd z"] by simp
  qed
  from this [OF assms(3)] mount_fds_ok [OF assms(1,2)] show ?thesis by (simp add: fds_ok_def fds_used_def)
qed

text \<open>
  C17. \<open>unlink\<close> of a file that is open somewhere succeeds but only marks the file: names,
  metadata, blocks, descriptors and the disk stay as they are, so the descriptors go on working.
\<close>

theorem unlink_open_file:
  assumes "fds_ok D s" and "map_of (open_files s) fd = Some x"
    and "dir_path d" and "length (d @ n) < 767" and "plain_name n" and "length n < 64"
    and "map_of (created_dirs s) d = Some dir" and "map_of (created_dirs s) (d @ n @ ''/'') = None"
    and "map_of (created_files s) (Dir_dh s dir, n) = Some (of_file x)"
  shows "unlink (d @ n) s = Some (0, upd_file (of_file x) (\<lambda>y. y\<lparr>f_deleted := True\<rparr>) s)"
proof -
  let ?f = "of_file x"
  have e: "\<not> ends_with_slash (d @ n)"
    using last_plain_name [OF assms(5)] assms(5) by (simp add: ends_with_slash_def plain_name_def)
  have "GetCreatedDirectory (d @ n) s = (None, s)"
    using e assms(4,8) by (simp add: GetCreatedDirectory_def DirHandle_TransformPath_def layout_consts)
  moreover have "FindFile d n s = (Some (dir, ?f), s)"
    using GetCreatedDirectory_path [OF assms(3)] assms(4,7,9) by (simp add: FindFile_def)
  moreover have "0 < f_nlink (fobj s ?f)"
  proof -
    have "?f \<in> set (map snd (open_refs s))" using assms(2) by (force simp: open_refs_def dest!: map_of_SomeD)
    then have "0 < count_list (map snd (open_refs s)) ?f" by (metis count_list_0_iff gr0I)
    then show ?thesis using fds_ok_file [OF assms(1,2)] assms(1) by (simp add: fds_ok_def)
  qed
  ultimately show ?thesis
    by (simp add: unlink_def FileHandle_TransformPath_path [OF assms(3,5,6)])
qed

text \<open>
  C32. With the descriptor pool exhausted, \<open>open\<close> does not fail: it registers the file under
  descriptor -1, counts the link and returns -1 with \<open>errno\<close> 0; closing -1 succeeds and puts -1
  into the pool, where the next \<open>open\<close> finds it.
\<close>

theorem open_exhausted:
  assumes "GetCreatedDirectory p s = (None, s)" and "GetCreatedFile p s = (Some f, s)" and "free_fd_pool (fd_handle s) = []"
    and "0 \<le> max_fd_num (fd_handle s)" and "0 < f_nlink (fobj s f)"
  shows "\<exists>t u. FileHandle_open p O_RDWR s = Some (- 1, t) \<and> errno t = 0
     \<and> map_of (open_files t) (- 1) = Some \<lparr>of_file = f, of_append_pos = 0\<rparr> \<and> f_nlink (fobj t f) = f_nlink (fobj s f) + 1
     \<and> FileHandle_close (- 1) t = Some (0, u) \<and> free_fd_pool (fd_handle u) = [- 1]"
proof -
  have bits: "(O_RDWR AND O_TMPFILE) = 0" "(O_RDWR AND O_CREAT) = 0" "(O_RDWR AND O_DIRECTORY) = 0"
    "(O_RDWR AND O_TRUNC) = 0" "(O_RDWR AND O_APPEND) = 0" by simp_all
  let ?s1 = "set_errno EMFILE s"
  let ?t = "set_errno 0 (upd_file f (\<lambda>x. x\<lparr>f_nlink := f_nlink x + 1\<rparr>) (AddOpenFile (- 1) \<lparr>of_file = f, of_append_pos = 0\<rparr> ?s1))"
  have "open_file p O_RDWR s = Some (Some f, s)"
    by (simp add: open_file_def IsNeedCreateTempFile_def VerifyOpenExistFileFlag_def assms(1,2))
  moreover have "fs_get_fd s = (- 1, ?s1)" by (simp add: fs_get_fd_def get_fd_def assms(3) set_errno_def)
  ultimately have o: "FileHandle_open p O_RDWR s = Some (- 1, ?t)" by (simp add: FileHandle_open_def Let_def)
  have t: "errno ?t = 0" "map_of (open_files ?t) (- 1) = Some \<lparr>of_file = f, of_append_pos = 0\<rparr>"
    "f_nlink (fobj ?t f) = f_nlink (fobj s f) + 1" "fd_handle ?t = fd_handle s"
    by (simp_all add: set_errno_def upd_file_def AddOpenFile_def)
  from close_shared [OF t(2)] t(3) assms(5) obtain u where
    u: "FileHandle_close (- 1) ?t = Some (0, u)" "fd_handle u = put_fd (- 1) (fd_handle ?t)" by auto
  have "free_fd_pool (put_fd (- 1) (fd_handle s)) = [- 1]" using assms(3,4) by (simp add: put_fd_def)
  then show ?thesis using o t u by (intro exI [of _ ?t] exI [of _ u]) (simp del: OpenFile.simps)
qed

end
