(* ===== verification/Fuse_Ops.thy ===== *)
theory Fuse_Ops
  imports File_System
begin

text \<open>
  The FUSE operation table (\<open>lib/bfs_fuse.cc\<close>). A handler gets the path and, unless the file is
  not open, the handle stored in \<open>fuse_file_info\<close> (here an \<open>int option\<close>); it returns 0 or a
  negative error number. The table of open directory streams of \<open>UDiskBFS\<close> is the record
  \<open>bfs\<close>, with a counter in place of the addresses that serve as keys. libfuse itself, the
  directory filler included, is outside: the filler is an argument.
\<close>

record bfs =
  b_fs :: fs
  b_open_dirs :: "(nat, BLOCKFS_DIR) amap"
  b_next :: nat

abbreviation (input) ENOMEM :: int where "ENOMEM \<equiv> 12"

definition to_int :: "int \<Rightarrow> int" where
  "to_int r = sint (word_of_int r :: u32)"

definition ret_errno :: "int \<times> fs \<Rightarrow> int \<times> fs" where
  "ret_errno r = (if fst r < 0 then (- errno (snd r), snd r) else (0, snd r))"

section \<open>Attributes and names\<close>

definition mfs_getattr :: "u32 \<Rightarrow> u32 \<Rightarrow> string \<Rightarrow> int option \<Rightarrow> fs \<Rightarrow> (int \<times> stat option) \<times> fs" where
  "mfs_getattr uid gid path fi s =
     (if path = ''/'' then
        ((0, Some \<lparr>st_ino = 0, st_mode = S_IFDIR OR 0x1ED, st_nlink = 2, st_uid = uid, st_gid = gid,
                   st_blksize = f_bsize (StatVFS s), st_blocks = 1, st_atime = now s,
                   st_mtime = now s, st_ctime = now s, st_size = 1024\<rparr>), s)
      else case (case fi of Some fh \<Rightarrow> StatPath_fd uid gid fh s | None \<Rightarrow> StatPath uid gid path s) of
             (None, s) \<Rightarrow> ((- errno s, None), s)
           | (Some st, s) \<Rightarrow> ((0, Some st), s))"

definition bfs_mknod :: "string \<Rightarrow> fs \<Rightarrow> int \<times> fs" where
  "bfs_mknod path s = ret_errno (FileSystem_CreateFile path s)"

definition mfs_mkdir :: "string \<Rightarrow> fs \<Rightarrow> (int \<times> fs) option" where
  "mfs_mkdir path s = map_option ret_errno (CreateDirectory path s)"

definition fuse_unlink :: "string \<Rightarrow> fs \<Rightarrow> (int \<times> fs) option" where
  "fuse_unlink path s = map_option ret_errno (unlink path s)"

definition bfs_rmdir :: "string \<Rightarrow> fs \<Rightarrow> int \<times> fs" where
  "bfs_rmdir path s = ret_errno (DeleteDirectory path False s)"

definition mfs_rename :: "string \<Rightarrow> string \<Rightarrow> u32 \<Rightarrow> fs \<Rightarrow> (int \<times> fs) option" where
  "mfs_rename from_path to flags s =
     (if flags \<noteq> 0 then Some (- EINVAL, s) else map_option ret_errno (RenamePath from_path to s))"

text \<open>\<open>size\<close> is an \<open>off_t\<close>; a negative one is refused.\<close>

definition mfs_truncate :: "string option \<Rightarrow> u64 \<Rightarrow> int option \<Rightarrow> fs \<Rightarrow> (int \<times> fs) option" where
  "mfs_truncate path sz fi s =
     (case path of
        None \<Rightarrow> Some (- EINVAL, s)
      | Some p \<Rightarrow>
          (if sint sz < 0 then Some (- EINVAL, s)
           else map_option ret_errno
             (case fi of Some fh \<Rightarrow> TruncateFile_fd fh sz s | None \<Rightarrow> TruncateFile p sz s)))"

definition mfs_statfs :: "fs \<Rightarrow> int \<times> statvfs" where
  "mfs_statfs s = (0, StatVFS s)"

section \<open>Files\<close>

text \<open>\<open>open\<close> and \<open>create\<close> store whatever descriptor comes back and report success.\<close>

definition mfs_open :: "string option \<Rightarrow> u32 \<Rightarrow> fs \<Rightarrow> ((int \<times> int option) \<times> fs) option" where
  "mfs_open path flags s =
     (case path of
        None \<Rightarrow> Some ((- EINVAL, None), s)
      | Some p \<Rightarrow> map_option (\<lambda>(fd, s). ((0, Some fd), s)) (FileHandle_open p flags s))"

definition mfs_create :: "string option \<Rightarrow> u32 \<Rightarrow> fs \<Rightarrow> ((int \<times> int option) \<times> fs) option" where
  "mfs_create path flags s =
     (case path of
        None \<Rightarrow> Some ((- EINVAL, None), s)
      | Some p \<Rightarrow> map_option (\<lambda>(fd, s). ((0, Some fd), s)) (FileHandle_open p flags s))"

definition fuse_fd :: "string \<Rightarrow> u32 \<Rightarrow> int option \<Rightarrow> fs \<Rightarrow> (int \<times> fs) option" where
  "fuse_fd path flags fi s = (case fi of None \<Rightarrow> FileHandle_open path flags s | Some fh \<Rightarrow> Some (fh, s))"

definition fuse_close :: "int \<Rightarrow> int option \<Rightarrow> fs \<Rightarrow> fs option" where
  "fuse_close fd fi s = (case fi of None \<Rightarrow> map_option snd (FileHandle_close fd s) | Some _ \<Rightarrow> Some s)"

abbreviation (input) O_RDONLY :: u32 where "O_RDONLY \<equiv> 0"

definition mfs_read :: "string \<Rightarrow> u8 list \<Rightarrow> u64 \<Rightarrow> u64 \<Rightarrow> int option \<Rightarrow> fs \<Rightarrow> ((int \<times> u8 list) \<times> fs) option" where
  "mfs_read path buf sz offset fi s = do {
     (fd, s) \<leftarrow> fuse_fd path O_RDONLY fi s;
     ((r, buf), s) \<leftarrow> PreadFile fd sz offset buf s;
     let res = (if to_int r < 0 then - errno s else to_int r);
     s \<leftarrow> fuse_close fd fi s;
     Some ((res, buf), s)
   }"

definition fuse_write :: "string \<Rightarrow> u8 list \<Rightarrow> u64 \<Rightarrow> u64 \<Rightarrow> int option \<Rightarrow> fs \<Rightarrow> (int \<times> fs) option" where
  "fuse_write path buf sz offset fi s = do {
     (fd, s) \<leftarrow> fuse_fd path O_RDONLY fi s;
     (r, s) \<leftarrow> PwriteFile fd buf sz offset s;
     let res = (if to_int r < 0 then - errno s else to_int r);
     s \<leftarrow> fuse_close fd fi s;
     Some (res, s)
   }"

definition flush :: "string \<Rightarrow> int option \<Rightarrow> fs \<Rightarrow> (int \<times> fs) option" where
  "flush path fi s = do {
     (fd, s) \<leftarrow> fuse_fd path O_RDONLY fi s;
     let (newfd, s) = FileHandle_dup fd s;
     (res, s) \<leftarrow> FileHandle_close newfd s;
     if res < 0 then Some (- errno s, s)
     else do { s \<leftarrow> fuse_close fd fi s; Some (0, s) }
   }"

definition bfs_release :: "int option \<Rightarrow> fs \<Rightarrow> (int \<times> fs) option" where
  "bfs_release fi s =
     (case fi of
        None \<Rightarrow> Some (0, s)
      | Some fh \<Rightarrow> map_option (\<lambda>(res, s). (if res < 0 then - errno s else - res, s)) (FileHandle_close fh s))"

definition mfs_fsync :: "string \<Rightarrow> int option \<Rightarrow> fs \<Rightarrow> (int \<times> fs) option" where
  "mfs_fsync path fi s = do {
     (fd, s) \<leftarrow> fuse_fd path O_RDONLY fi s;
     let (res, s) = FileHandle_fsync fd s;
     if res < 0 then Some (- errno s, s)
     else do { s \<leftarrow> fuse_close fd fi s; Some (0, s) }
   }"

text \<open>
  \<open>lock\<close> takes a write lock whatever the command, and logs \<open>fi->fh\<close> before it tests
  \<open>fi\<close> (\<open>None\<close> without one); \<open>flock\<close> ignores the operation in the same way.
\<close>

definition bfs_lock :: "string \<Rightarrow> int option \<Rightarrow> fs \<Rightarrow> (int \<times> fs) option" where
  "bfs_lock path fi s =
     (case fi of None \<Rightarrow> None | Some fd \<Rightarrow> Some (ret_errno (FcntlFile fd F_WRLCK s)))"

definition bfs_flock :: "string \<Rightarrow> int option \<Rightarrow> fs \<Rightarrow> (int \<times> fs) option" where
  "bfs_flock path fi s = do {
     (fd, s) \<leftarrow> fuse_fd path O_WRONLY fi s;
     let (res, s) = FcntlFile fd F_WRLCK s;
     if res < 0 then Some (- errno s, s)
     else do { s \<leftarrow> fuse_close fd fi s; Some (0, s) }
   }"

definition bfs_lseek :: "string \<Rightarrow> u64 \<Rightarrow> nat \<Rightarrow> int option \<Rightarrow> fs \<Rightarrow> (int \<times> fs) option" where
  "bfs_lseek path off whence fi s = do {
     (fd, s) \<leftarrow> fuse_fd path O_RDONLY fi s;
     let (res, s) = SeekFile fd off whence s;
     if sint res < 0 then Some (- errno s, s)
     else do { s \<leftarrow> fuse_close fd fi s; Some (sint res, s) }
   }"

text \<open>
  \<open>copy_file_range\<close> is the system call of the host, an argument here, which gets the descriptors of
  BlockFS for its own. It reads \<open>fh\<close> of both file infos, also where they are null.
\<close>

definition bfs_copy_file_range ::
  "(int \<Rightarrow> u64 \<Rightarrow> int \<Rightarrow> u64 \<Rightarrow> u64 \<Rightarrow> int \<Rightarrow> int \<times> int) \<Rightarrow> string \<Rightarrow> int option \<Rightarrow> u64 \<Rightarrow> string \<Rightarrow> int option \<Rightarrow> u64 \<Rightarrow> u64 \<Rightarrow> int
     \<Rightarrow> fs \<Rightarrow> (int \<times> fs) option" where
  "bfs_copy_file_range host_copy path_in fi_in offset_in path_out fi_out offset_out sz flags s = do {
     (fd_in, s) \<leftarrow> fuse_fd path_in O_RDONLY fi_in s;
     if to_int fd_in = - 1 then Some (- errno s, s)
     else do {
       (fd_out, s) \<leftarrow> fuse_fd path_out O_WRONLY fi_out s;
       if to_int fd_out = - 1
       then do { (_, s) \<leftarrow> FileHandle_close (to_int fd_in) s; Some (- errno s, s) }
       else case (fi_in, fi_out) of
              (Some fh_in, Some fh_out) \<Rightarrow>
                (case host_copy (to_int fh_in) offset_in (to_int fh_out) offset_out sz flags of
                   (res, e) \<Rightarrow> Some (if res < 0 then (- e, set_errno e s) else (res, s)))
            | _ \<Rightarrow> None
     }
   }"

text \<open>So nothing is ever copied inside the file system, whatever the result says.\<close>

lemma copy_file_range_copies_nothing:
  assumes "bfs_copy_file_range host_copy path_in (Some a) off_in path_out (Some b) off_out sz flags s = Some (r, t)"
    and "to_int a \<noteq> - 1" "to_int b \<noteq> - 1"
  shows "\<exists>e. t = s \<or> t = set_errno e s"
  using assms by (auto simp: bfs_copy_file_range_def fuse_fd_def split: prod.splits if_splits)

section \<open>Directories\<close>

definition GetOpenDirectory :: "nat \<Rightarrow> bfs \<Rightarrow> BLOCKFS_DIR option" where
  "GetOpenDirectory key b = map_of (b_open_dirs b) key"

definition PushOpenDirectory :: "BLOCKFS_DIR \<Rightarrow> bfs \<Rightarrow> nat \<times> bfs" where
  "PushOpenDirectory dp b =
     (b_next b, b\<lparr>b_open_dirs := amap_put (b_next b) dp (b_open_dirs b), b_next := Suc (b_next b)\<rparr>)"

definition PopOpenDirectory :: "nat \<Rightarrow> bfs \<Rightarrow> BLOCKFS_DIR option \<times> bfs" where
  "PopOpenDirectory key b =
     (case map_of (b_open_dirs b) key of
        None \<Rightarrow> (None, b)
      | Some dp \<Rightarrow> (Some dp, b\<lparr>b_open_dirs := amap_del key (b_open_dirs b)\<rparr>))"

definition bfs_opendir :: "string \<Rightarrow> bfs \<Rightarrow> (int \<times> nat option) \<times> bfs" where
  "bfs_opendir path b =
     (case OpenDirectory path (b_fs b) of
        (None, s) \<Rightarrow> ((- errno s, None), b\<lparr>b_fs := s\<rparr>)
      | (Some dp, s) \<Rightarrow> (let (key, b) = PushOpenDirectory dp (b\<lparr>b_fs := s\<rparr>) in ((0, Some key), b)))"

text \<open>
  The \<open>while\<close> loop over \<open>ReadDirectory\<close>. \<open>filler acc n\<close> is true when the filler
  refuses the name \<open>n\<close> after the names \<open>acc\<close>.
\<close>

function readdir_loop ::
  "(string list \<Rightarrow> string \<Rightarrow> bool) \<Rightarrow> string list \<Rightarrow> BLOCKFS_DIR \<Rightarrow> fs
     \<Rightarrow> ((int \<times> string list) \<times> BLOCKFS_DIR \<times> fs) option" where
  "readdir_loop filler names dp s =
     (case ReadDirectory dp s of
        None \<Rightarrow> None
      | Some ((None, dp'), s') \<Rightarrow> Some ((0, names), dp', s')
      | Some ((Some de, dp'), s') \<Rightarrow>
          (if filler names (de_name de) then Some ((- ENOMEM, names), dp', s')
           else readdir_loop filler (names @ [de_name de]) dp' s'))"
  by pat_completeness auto
termination
  by (relation "measure (\<lambda>(_, _, dp, s). if bd_inited dp then length (bd_items dp) - bd_index dp
        else Suc (length (bd_items dp) + length (the (ScanDir s (bd_dir dp)))))")
    (auto simp: ReadDirectory_def split: if_splits bind_splits)

declare readdir_loop.simps [simp del]

definition bfs_readdir ::
  "(string list \<Rightarrow> string \<Rightarrow> bool) \<Rightarrow> string \<Rightarrow> nat \<Rightarrow> bfs \<Rightarrow> ((int \<times> string list) \<times> bfs) option" where
  "bfs_readdir filler path fh b =
     (let root = (path = ''/'')
      in if root \<and> filler [] ''.'' then Some ((0, []), b)
         else if root \<and> filler [''.''] ''..'' then Some ((0, [''.'']), b)
         else case map_of (b_open_dirs b) fh of
           None \<Rightarrow> Some ((- EINVAL, if root then [''.'', ''..''] else []), b)
         | Some dp \<Rightarrow>
             map_option (\<lambda>(r, dp, s). (r, b\<lparr>b_open_dirs := amap_put fh dp (b_open_dirs b), b_fs := s\<rparr>))
               (readdir_loop filler (if root then [''.'', ''..''] else []) dp (b_fs b)))"

definition bfs_releasedir :: "nat option \<Rightarrow> bfs \<Rightarrow> int \<times> bfs" where
  "bfs_releasedir fi b =
     (case fi of
        None \<Rightarrow> (0, b)
      | Some fh \<Rightarrow>
          (case PopOpenDirectory fh b of
             (None, b) \<Rightarrow> (- EINVAL, b)
           | (Some dp, b) \<Rightarrow> (let (r, s) = CloseDirectory dp (b_fs b) in (- r, b\<lparr>b_fs := s\<rparr>))))"

end
