(* ===== verification/Demo_State.thy ===== *)
theory Demo_State
  imports Fuse_Ops
begin

text \<open>
  A small concrete file system on which the hypotheses of the properties hold: a formatted
  1 GiB device, a constant checksum, three free blocks and file blocks, the mount point as
  directory object 0, and an empty file \<open>/a\<close> as file object 0, open under descriptor 7.
\<close>

definition demo_dev :: Device where
  "demo_dev = \<lparr>dev_name = ''/dev/vdb'', dev_fd_direct = 3, dev_fd_cache = 4,
     dev_size = 1073741824, sector_size = 512\<rparr>"

definition demo_kernel :: kernel where
  "demo_kernel = \<lparr>k_disk = (\<lambda>_. 0), k_script = [], k_errno = 0\<rparr>"

definition demo_fmeta :: FileMeta where
  "demo_fmeta = (format_fmeta (\<lambda>_. 0) 1)\<lparr>fm_used := True, fm_file_name := memcpy_cstr 64 ''a'' []\<rparr>"

definition demo_dmeta :: DirMeta where
  "demo_dmeta = (format_dmeta (\<lambda>_. 0) 0)\<lparr>dm_used := True, dm_dir_name := memcpy_cstr 768 ''/'' []\<rparr>"

definition demo_fs :: fs where
  "demo_fs =
     \<lparr>crc32 = (\<lambda>_. 0), now = 100, behind = [], dev = demo_dev, kern = demo_kernel, disks = (\<lambda>_ _. 0),
      super_meta = SuperBlock_layout 1073741824,
      fd_handle = \<lparr>max_fd_num = 10, free_fd_pool = [8, 9]\<rparr>,
      block_handle = \<lparr>max_block_num = 95, block_id_pool = [5, 6, 7]\<rparr>,
      dmetas = (format_dmeta (\<lambda>_. 0))(0 := demo_dmeta),
      fmetas = (format_fmeta (\<lambda>_. 0))(1 := demo_fmeta),
      bmetas = format_bmeta (\<lambda>_. 0),
      free_dhs = [1, 2], created_dirs = [(''/'', 0)], created_dhs = [(0, 0)], open_dirs = [],
      free_fhs = [2, 3], created_files = [((0, ''a''), 0)], created_fhs = [(1, 0)],
      open_files = [(7, \<lparr>of_file = 0, of_append_pos = 0\<rparr>)], parent_files = [],
      free_fbhs = [0, 1, 2],
      fobj = (\<lambda>_. (File_new 1)\<lparr>f_nlink := 1\<rparr>), fobj_next = 1,
      dobj = (\<lambda>_. (Directory_new 0)\<lparr>d_items := [(1, 0)]\<rparr>), dobj_next = 1\<rparr>"

lemma demo_metas:
  "fm_size (format_fmeta c i) = 0" "fm_fh (format_fmeta c i) = word_of_nat i" "fm_used (format_fmeta c i) = False"
  "fb_used (format_bmeta c i) = False" "fb_used_block_num (format_bmeta c i) = 0"
  "length (fb_block_id (format_bmeta c i)) = 1000" "dm_used (format_dmeta c i) = False"
  "dm_dh (format_dmeta c i) = word_of_nat i" "fm_dh (format_fmeta c i) = 0"
  by (simp_all add: format_fmeta_def format_bmeta_def format_dmeta_def FileMeta_zero_def
      FileBlockMeta_zero_def DirMeta_zero_def Let_def)

lemma demo_fobj:
  "f_items (fobj demo_fs f) = []" "File_file_size demo_fs f = 0" "File_fh demo_fs f = 1" "File_dh demo_fs f = 0"
  "File_file_name demo_fs f = ''a''" "f_nlink (fobj demo_fs f) = 1"
  using meta_file_name_memcpy [of "''a''" "[]" "(format_fmeta (\<lambda>_. 0) 1)\<lparr>fm_used := True\<rparr>"]
  by (simp_all add: demo_fs_def File_new_def obj_acc_defs demo_fmeta_def demo_metas)

lemma demo_dobj: "Dir_dh demo_fs d = 0" "Dir_dir_name demo_fs d = ''/''"
  using meta_dir_name_memcpy [of "''/''" "[]" "(format_dmeta (\<lambda>_. 0) 0)\<lparr>dm_used := True\<rparr>"]
  by (simp_all add: demo_fs_def Directory_new_def obj_acc_defs demo_dmeta_def demo_metas)

lemma demo_owned: "fb_owned demo_fs i = []"
  by (simp add: fb_owned_def demo_fs_def demo_metas)

lemma demo_exclusive: "blocks_exclusive demo_fs"
proof -
  have "block_inv (block_handle demo_fs)" by (simp add: demo_fs_def block_inv_def)
  moreover have "wf_bmetas demo_fs" by (simp add: demo_fs_def wf_bmetas_def demo_metas)
  moreover have "distinct (free_fbhs demo_fs)" by (simp add: demo_fs_def)
  moreover have "\<forall>i \<in> set (free_fbhs demo_fs). \<not> fb_used (bmetas demo_fs i) \<and> fb_used_block_num (bmetas demo_fs i) = 0"
    by (simp add: demo_fs_def demo_metas)
  ultimately show ?thesis by (simp add: blocks_exclusive_def demo_owned)
qed

lemma demo_io: "io_ok demo_fs"
  by (simp add: io_ok_def demo_fs_def demo_dev_def demo_kernel_def dev_ok_def benign_def)

lemma demo_formatted: "formatted demo_fs"
proof -
  have "SuperBlock_layout n = (SuperBlock_layout n)\<lparr>sb_crc := 0\<rparr>" for n
    by (simp add: SuperBlock_layout_def SuperBlockMeta_zero_def Let_def)
  moreover have "super_meta demo_fs = SuperBlock_layout (dev_size (dev demo_fs))"
    by (simp add: demo_fs_def demo_dev_def)
  ultimately show ?thesis unfolding formatted_def by metis
qed

lemma demo_data: "data_ok demo_fs"
  by (simp add: data_ok_def demo_fs_def demo_dev_def)

lemma demo_ready: "ready demo_fs 0"
  using demo_formatted demo_io demo_exclusive demo_data
  by (simp add: ready_def fs_ok_def file_wf_def demo_fobj fbs_in_range_def) (simp add: demo_fs_def)

section \<open>A second file\<close>

text \<open>
  The same state with a second file, object 1, of one byte in block 3, open under descriptor 8.
\<close>

definition demo_fs1 :: fs where
  "demo_fs1 = demo_fs\<lparr>fmetas := (fmetas demo_fs)(2 := (format_fmeta (\<lambda>_. 0) 2)\<lparr>fm_used := True, fm_size := 1\<rparr>),
     bmetas := (bmetas demo_fs)(9 := (format_bmeta (\<lambda>_. 0) 9)\<lparr>fb_used := True, fb_used_block_num := 1,
       fb_block_id := 3 # replicate 999 0\<rparr>),
     fobj := (fobj demo_fs)(1 := (File_new 2)\<lparr>f_nlink := 1, f_items := [(0, 9)]\<rparr>),
     open_files := [(7, \<lparr>of_file = 0, of_append_pos = 0\<rparr>), (8, \<lparr>of_file = 1, of_append_pos = 0\<rparr>)]\<rparr>"

lemma demo1_owned: "fb_owned demo_fs1 i = (if i = 9 then [3] else [])"
  by (simp add: fb_owned_def demo_fs1_def demo_fs_def demo_metas)

lemma demo1_open:
  "map_of (open_files demo_fs1) 7 = Some \<lparr>of_file = 0, of_append_pos = 0\<rparr>"
  "map_of (open_files demo_fs1) 8 = Some \<lparr>of_file = 1, of_append_pos = 0\<rparr>"
  by (simp_all add: demo_fs1_def)

lemma demo1_items: "f_items (fobj demo_fs1 f) = (if f = 1 then [(0, 9)] else [])"
  by (simp add: demo_fs1_def demo_fobj)

lemma demo1_file1: "File_file_size demo_fs1 1 = 1" "file_wf demo_fs1 1"
proof -
  show sz: "File_file_size demo_fs1 1 = 1" by (simp add: demo_fs1_def obj_acc_defs File_new_def)
  have "fb_used (bmetas demo_fs1 9)" "ceil_blocks 1 = 1"
    by (simp_all add: demo_fs1_def ceil_blocks_def)
  then show "file_wf demo_fs1 1" using sz by (simp add: file_wf_def demo1_owned demo1_items)
qed

lemma demo1_exclusive: "blocks_exclusive demo_fs1"
proof -
  have "block_inv (block_handle demo_fs1)" by (simp add: demo_fs1_def demo_fs_def block_inv_def)
  moreover have "wf_bmetas demo_fs1" by (simp add: demo_fs1_def demo_fs_def wf_bmetas_def demo_metas)
  moreover have "distinct (free_fbhs demo_fs1)" by (simp add: demo_fs1_def demo_fs_def)
  moreover have "\<forall>i \<in> set (free_fbhs demo_fs1). \<not> fb_used (bmetas demo_fs1 i) \<and> fb_used_block_num (bmetas demo_fs1 i) = 0"
    by (simp add: demo_fs1_def demo_fs_def demo_metas)
  moreover have "3 \<notin> set (block_id_pool (block_handle demo_fs1))" "3 < max_block_num (block_handle demo_fs1)"
    by (simp_all add: demo_fs1_def demo_fs_def)
  ultimately show ?thesis by (auto simp: blocks_exclusive_def demo1_owned)
qed

lemma demo1_ok: "fs_ok demo_fs1"
  using demo_formatted demo_io demo_data demo1_exclusive
  by (simp add: fs_ok_def formatted_def io_ok_def data_ok_def demo_fs1_def)

lemma demo1_file0: "File_file_size demo_fs1 0 = 0" "File_fh demo_fs1 0 = 1"
  using demo_fobj(2,3) [of 0] by (simp_all add: demo_fs1_def obj_acc_defs demo_fs_def File_new_def)

lemma demo1_ready: "ready demo_fs1 0"
  using demo1_ok
  by (simp add: ready_def file_wf_def demo1_items demo1_file0 fbs_in_range_def)
    (simp add: demo_fs1_def demo_fs_def)

lemma demo1_can_grow: "can_grow demo_fs1 0 (unat (0::u64) + unat (3::u64))"
  by (simp add: can_grow_def demo1_file0) (simp add: demo_fs1_def demo_fs_def demo_dev_def ceil_blocks_def)

lemma demo1_apart: "apart demo_fs1 0 1"
  by (simp add: apart_def demo1_items)

end
