(* ===== verification/Demo_Device.thy ===== *)
theory Demo_Device
  imports Mounted Demo_State
begin

text \<open>
  The device of \<open>Demo_State\<close> as the operating system presents it, and the hypotheses of the
  properties about formatting, mounting and durability discharged on it.
\<close>

definition demo_env :: blk_env where
  "demo_env = \<lparr>be_is_blk = (\<lambda>_. Some True), be_open_direct = (\<lambda>_. Some 3), be_open_cache = (\<lambda>_. Some 4),
     be_size = (\<lambda>_ _. Some 1073741824), be_sector_size = (\<lambda>_ _. Some 512)\<rparr>"

lemma demo_opens: "opens demo_env (''/dev/'' @ ''vdb'') 1073741824"
  by (simp add: opens_def demo_env_def)

text \<open>A process that has just started.\<close>

definition demo_start :: fs where
  "demo_start = demo_fs\<lparr>fobj_next := 0, dobj_next := 0\<rparr>"

lemma demo_start_benign: "benign (k_script (kern demo_start))"
  by (simp add: demo_start_def demo_fs_def demo_kernel_def benign_def)

lemma demo_size: "675282944 \<le> unat (1073741824 :: u64)" "unat (1073741824 :: u64) < 420109877248"
  by simp_all

section \<open>Formatting and mounting\<close>

theorem Format_then_Check_witness:
  "\<exists>t u. FileSystem_Format demo_env (''/dev/'' @ ''vdb'') demo_start = (True, t)
     \<and> FileSystem_Check demo_env (''/dev/'' @ ''vdb'') t = Some (True, u) \<and> free_fhs u = [0..<100000]"
  using Format_then_Check [OF demo_opens demo_size(1) demo_start_benign] by blast

text \<open>Every disk is blank, so no device but the one that \<open>Format\<close> writes has the uuid.\<close>

lemma demo_uuid: "uuid_of n demo_start = []"
proof -
  have "disk_of n demo_start = (\<lambda>_. 0)"
    by (rule ext) (simp add: disk_of_def demo_start_def demo_fs_def demo_kernel_def)
  moreover have "disk_read (\<lambda>_. 0) 0 4096 = replicate 4096 (0::u8)" by (simp add: disk_read_def map_replicate_const)
  moreover have "cstr (sb_uuid (dec_SuperBlockMeta (replicate 4096 0))) = []"
    by (simp add: dec_SuperBlockMeta_def gets_def get32_def cstr_def char_of_byte_def char_of_def Let_def split_beta)
  ultimately show ?thesis by (simp only: uuid_of_def)
qed

lemma demo_others: "\<forall>b \<in> set [''vdc'', ''sdb'']. b \<noteq> ''vdb'' \<and> uuid_of (''/dev/'' @ b) demo_start \<noteq> format_uuid"
  by (simp only: demo_uuid) (simp add: format_uuid_def)

theorem mount_needs_uuid_witness:
  "\<exists>t. MountFileSystem demo_env [''vdc'', ''vdb''] (Some format_uuid) demo_start = Some (- 1, t) \<and> created_dirs t = []"
proof -
  have "\<forall>n \<in> set [''vdc'', ''vdb'']. uuid_of (''/dev/'' @ n) demo_start \<noteq> format_uuid"
    by (simp only: demo_uuid) (simp add: format_uuid_def)
  from mount_needs_uuid [OF this] show ?thesis by blast
qed

theorem Format_then_Mount_witness:
  "\<exists>t u d. FileSystem_Format demo_env ''/dev/vdb'' demo_start = (True, t)
     \<and> MountFileSystem demo_env [''vdc'', ''sdb'', ''vdb'', ''vdd''] (Some format_uuid) t = Some (0, u)
     \<and> dev_name (dev u) = ''/dev/vdb'' \<and> created_dirs u = [(''/'', d)] \<and> fs_ok u"
  using Format_then_Mount [OF demo_opens demo_size demo_start_benign demo_others, of "[''vdd'']"] by auto

theorem first_session_witness:
  "\<exists>x y. PreadFile 0 3 0 (replicate (unat (3::u64)) 0) x = Some ((3, [1, 2, 3]), y)"
proof -
  have "plain_name ''a''" "length ''a'' < 64" "(3::u64) \<noteq> 0" "length [1, 2, 3 :: u8] = unat (3::u64)"
    "ceil_blocks (unat (3::u64)) \<le> 1000" "ceil_blocks (unat (3::u64)) \<le> (unat (1073741824 :: u64) - 675282944) div 4194304"
    by (simp_all add: plain_name_def ceil_blocks_def)
  from first_session [OF demo_opens demo_size demo_start_benign this, of "[]"] show ?thesis by auto
qed

section \<open>A formatted device\<close>

text \<open>\<open>demo_fs\<close> with the metadata that a format leaves, in memory and on the disk.\<close>

definition demo_formatted_fs :: fs where
  "demo_formatted_fs = (snd (FileSystem_FormatAll demo_fs))
     \<lparr>dmetas := format_dmeta (\<lambda>_. 0), fmetas := format_fmeta (\<lambda>_. 0), bmetas := format_bmeta (\<lambda>_. 0)\<rparr>"

lemma demo_dev_size: "dev_size (dev demo_fs) = 1073741824" "crc32 demo_fs = (\<lambda>_. 0)"
  by (simp_all add: demo_fs_def demo_dev_def)

lemma demo_image:
  "\<exists>k. demo_formatted_fs = demo_fs\<lparr>super_meta := format_super demo_fs, kern := k, dmetas := format_dmeta (\<lambda>_. 0),
       fmetas := format_fmeta (\<lambda>_. 0), bmetas := format_bmeta (\<lambda>_. 0)\<rparr> \<and> benign (k_script k)
     \<and> FileSystem_FormatAll demo_fs = (True, demo_fs\<lparr>super_meta := format_super demo_fs, kern := k\<rparr>)
     \<and> disk_image (k_disk k) (format_super demo_fs) (format_dmeta (\<lambda>_. 0)) (format_fmeta (\<lambda>_. 0)) (format_bmeta (\<lambda>_. 0))"
proof -
  have "675282944 \<le> unat (dev_size (dev demo_fs))" by (simp add: demo_dev_size)
  from FileSystem_FormatAll_image [OF demo_io this] show ?thesis
    by (auto simp: demo_formatted_fs_def demo_dev_size)
qed

lemma demo_f_synced: "meta_synced demo_formatted_fs"
proof -
  obtain k where k: "demo_formatted_fs = demo_fs\<lparr>super_meta := format_super demo_fs, kern := k, dmetas := format_dmeta (\<lambda>_. 0),
       fmetas := format_fmeta (\<lambda>_. 0), bmetas := format_bmeta (\<lambda>_. 0)\<rparr>"
    "disk_image (k_disk k) (format_super demo_fs) (format_dmeta (\<lambda>_. 0)) (format_fmeta (\<lambda>_. 0)) (format_bmeta (\<lambda>_. 0))"
    using demo_image by blast
  show ?thesis using k(2) by (simp add: meta_synced_image k(1))
qed

lemma demo_f_fields:
  "super_meta demo_formatted_fs = format_super demo_fs" "dmetas demo_formatted_fs = format_dmeta (\<lambda>_. 0)"
  "fmetas demo_formatted_fs = format_fmeta (\<lambda>_. 0)" "bmetas demo_formatted_fs = format_bmeta (\<lambda>_. 0)"
  "dev demo_formatted_fs = demo_dev" "crc32 demo_formatted_fs = (\<lambda>_. 0)" "block_handle demo_formatted_fs = block_handle demo_fs"
  "free_fbhs demo_formatted_fs = [0, 1, 2]" "fobj demo_formatted_fs = fobj demo_fs"
proof -
  obtain k where k: "demo_formatted_fs = demo_fs\<lparr>super_meta := format_super demo_fs, kern := k, dmetas := format_dmeta (\<lambda>_. 0),
       fmetas := format_fmeta (\<lambda>_. 0), bmetas := format_bmeta (\<lambda>_. 0)\<rparr>"
    using demo_image by blast
  have f: "dev demo_fs = demo_dev" "crc32 demo_fs = (\<lambda>_. 0)" "free_fbhs demo_fs = [0, 1, 2]" by (simp_all add: demo_fs_def)
  show "super_meta demo_formatted_fs = format_super demo_fs" "dmetas demo_formatted_fs = format_dmeta (\<lambda>_. 0)"
    "fmetas demo_formatted_fs = format_fmeta (\<lambda>_. 0)" "bmetas demo_formatted_fs = format_bmeta (\<lambda>_. 0)"
    "dev demo_formatted_fs = demo_dev" "crc32 demo_formatted_fs = (\<lambda>_. 0)" "block_handle demo_formatted_fs = block_handle demo_fs"
    "free_fbhs demo_formatted_fs = [0, 1, 2]" "fobj demo_formatted_fs = fobj demo_fs"
    by (simp_all add: k f)
qed

lemma demo_f_io: "io_ok demo_formatted_fs"
proof -
  obtain k where k: "demo_formatted_fs = demo_fs\<lparr>super_meta := format_super demo_fs, kern := k, dmetas := format_dmeta (\<lambda>_. 0),
       fmetas := format_fmeta (\<lambda>_. 0), bmetas := format_bmeta (\<lambda>_. 0)\<rparr>" "benign (k_script k)"
    using demo_image by blast
  show ?thesis using demo_io k(2) by (simp add: io_ok_def k(1))
qed

lemma demo_f_formatted: "formatted demo_formatted_fs"
  by (auto simp: formatted_def demo_f_fields format_super_def demo_fs_def)

theorem remount_metadata_witness:
  "\<exists>t. ShmManager_Initialize demo_formatted_fs = (True, t) \<and> fmetas t 7 = format_fmeta (\<lambda>_. 0) 7"
proof -
  have "wf_metas (super_meta demo_formatted_fs) (dmetas demo_formatted_fs) (fmetas demo_formatted_fs) (bmetas demo_formatted_fs)"
    by (simp add: wf_metas_def demo_f_fields wf_format format_super_def wf_SuperBlock_layout)
  moreover have "675282944 \<le> unat (dev_size (dev demo_formatted_fs))" by (simp add: demo_f_fields demo_dev_def)
  moreover have "super_meta demo_formatted_fs = format_super demo_formatted_fs"
    by (simp add: demo_f_fields format_super_def demo_dev_size) (simp add: demo_dev_def)
  ultimately obtain t where "ShmManager_Initialize demo_formatted_fs = (True, t)" "fmetas t 7 = fmetas demo_formatted_fs 7"
    using remount_metadata [OF demo_f_synced _ demo_f_io] by auto
  then show ?thesis by (simp add: demo_f_fields)
qed

lemma demo_f_file: "f_items (fobj demo_formatted_fs 0) = []" "File_file_size demo_formatted_fs 0 = 0" "File_fh demo_formatted_fs 0 = 1"
  "f_meta (fobj demo_formatted_fs 0) = 1"
  using demo_fobj(1) [of 0] by (simp_all add: demo_f_fields obj_acc_defs demo_metas) (simp_all add: demo_fs_def File_new_def demo_metas)

lemma demo_f_exclusive: "blocks_exclusive demo_formatted_fs"
proof -
  have o: "fb_owned demo_formatted_fs i = fb_owned demo_fs i" for i by (simp add: fb_owned_def demo_f_fields) (simp add: demo_fs_def)
  have b: "bmetas demo_fs = format_bmeta (\<lambda>_. 0)" "free_fbhs demo_fs = [0, 1, 2]" by (simp_all add: demo_fs_def)
  show ?thesis using demo_exclusive unfolding blocks_exclusive_def o wf_bmetas_def demo_f_fields b .
qed

theorem ExtendFile_durable_witness:
  "\<exists>t. ExtendFile 0 5 demo_formatted_fs = Some (0, t) \<and> meta_synced t \<and> File_file_size t 0 = 5"
proof -
  have wf: "file_wf demo_formatted_fs 0" by (simp add: file_wf_def demo_f_file)
  have fh: "File_fh demo_formatted_fs 0 < 100000" "f_meta (fobj demo_formatted_fs 0) = File_fh demo_formatted_fs 0"
    "fbs_in_range demo_formatted_fs 0"
    using demo_f_file by (simp_all add: fbs_in_range_def demo_f_fields(8))
  have lt: "File_file_size demo_formatted_fs 0 < 5" "5 \<le> kBlockFsMaxUDiskSize" by (simp_all add: demo_f_file layout_consts)
  have dv: "675282944 \<le> unat (dev_size (dev demo_formatted_fs))" by (simp add: demo_f_fields demo_dev_def)
  have cg: "can_grow demo_formatted_fs 0 (unat (5::u64))"
    by (simp add: can_grow_def demo_f_file demo_f_fields) (simp add: demo_fs_def demo_dev_def ceil_blocks_def)
  obtain r t where e: "ExtendFile 0 5 demo_formatted_fs = Some (r, t)" using ExtendFile_defined [OF demo_f_exclusive] by blast
  have "r = 0" using ExtendFile_succeeds [OF demo_f_formatted demo_f_io demo_f_exclusive wf fh(1,3) lt dv cg] e by auto
  then show ?thesis
    using ExtendFile_durable [OF demo_f_formatted demo_f_synced demo_f_exclusive wf fh lt, of t] e by simp
qed

text \<open>
  The three kinds of damage, one at a time: a checksum that does not match, a wrong magic number
  under a checksum that matches, and one directory struct with a wrong checksum.
\<close>

theorem InitializeMeta_rejects_witness:
  "(\<exists>t. FileSystem_InitializeMeta (demo_formatted_fs\<lparr>crc32 := \<lambda>_. 1\<rparr>) = Some (False, t))
   \<and> (\<exists>t. FileSystem_InitializeMeta (demo_formatted_fs\<lparr>super_meta := (super_meta demo_formatted_fs)\<lparr>sb_magic := 0\<rparr>\<rparr>) = Some (False, t))
   \<and> sb_crc ((super_meta demo_formatted_fs)\<lparr>sb_magic := 0\<rparr>)
       = crc32 demo_formatted_fs (body_SuperBlockMeta ((super_meta demo_formatted_fs)\<lparr>sb_magic := 0\<rparr>))
   \<and> (\<exists>t. FileSystem_InitializeMeta (upd_dmeta 5 (\<lambda>m. m\<lparr>dm_crc := 1\<rparr>) demo_formatted_fs) = Some (False, t))"
proof -
  have c: "sb_crc (super_meta demo_formatted_fs) = 0" "crc32 demo_formatted_fs = (\<lambda>_. 0)"
    by (simp_all add: demo_f_fields format_super_def demo_dev_size)
  have "\<exists>t. FileSystem_InitializeMeta (demo_formatted_fs\<lparr>crc32 := \<lambda>_. 1\<rparr>) = Some (False, t)"
    by (rule InitializeMeta_rejects) (simp add: c)
  moreover have "\<exists>t. FileSystem_InitializeMeta (demo_formatted_fs\<lparr>super_meta := (super_meta demo_formatted_fs)\<lparr>sb_magic := 0\<rparr>\<rparr>) = Some (False, t)"
    by (rule InitializeMeta_rejects) (simp add: layout_consts)
  moreover have "\<exists>t. FileSystem_InitializeMeta (upd_dmeta 5 (\<lambda>m. m\<lparr>dm_crc := 1\<rparr>) demo_formatted_fs) = Some (False, t)"
    by (rule InitializeMeta_rejects [of _ 5]) (use formatted_fields(9) [OF demo_f_formatted] in \<open>simp add: upd_dmeta_def c(2)\<close>)
  ultimately show ?thesis using c by simp
qed

theorem format_super_block_witness:
  "\<exists>t. SuperBlock_FormatAllMeta demo_fs = (True, t) \<and> sb_device_size (super_meta t) = 1073741824"
proof -
  obtain t where "SuperBlock_FormatAllMeta demo_fs = (True, t)"
    using demo_image by (auto simp: FileSystem_FormatAll_def split: prod.splits bool.splits)
  then show ?thesis using format_super_block [of demo_fs t] demo_dev_size by simp
qed

section \<open>Files and descriptors\<close>

lemma demo_names: "dir_path ''/''" "plain_name ''a''" "plain_name ''b''"
  by (simp_all add: dir_path_def plain_name_def)

lemma demo_tables:
  "map_of (created_dirs demo_fs) ''/'' = Some 0" "map_of (created_dirs demo_fs) ''/a/'' = None"
  "map_of (created_files demo_fs) (0, ''a'') = Some 0" "map_of (created_files demo_fs) (0, ''b'') = None"
  by (simp_all add: demo_fs_def)

lemma demo_fs_ok: "fs_ok demo_fs"
  using demo_ready by (simp add: ready_def)

theorem CreateFile_visible_witness:
  "\<exists>t f. FileSystem_CreateFile ''/b'' demo_fs = (0, t) \<and> GetCreatedFile ''/b'' t = (Some f, t) \<and> ready t f
     \<and> map_of (created_files t) (0, ''a'') = Some 0"
proof -
  have dv: "675282944 \<le> unat (dev_size (dev demo_fs))" by (simp add: demo_dev_size)
  have l: "length ''/'' < 768" "length ''b'' < 64" by simp_all
  have n: "map_of (created_files demo_fs) (Dir_dh demo_fs 0, ''b'') = None" by (simp add: demo_dobj demo_tables)
  have fr: "free_fhs demo_fs = 2 # [3]" by (simp add: demo_fs_def)
  have sp: "spare_file demo_fs 2" by (simp add: spare_file_def demo_fs_def demo_metas)
  have fb: "\<forall>x \<in> set (free_fbhs demo_fs). x < 133554" by (simp add: demo_fs_def)
  obtain t f where t: "FileSystem_CreateFile (''/'' @ ''b'') demo_fs = (0, t)" "GetCreatedFile (''/'' @ ''b'') t = (Some f, t)"
    "ready t f" "\<forall>k. k \<noteq> (Dir_dh demo_fs 0, ''b'') \<longrightarrow> map_of (created_files t) k = map_of (created_files demo_fs) k"
    using CreateFile_visible [OF demo_fs_ok dv demo_names(1) l(1) demo_names(3) l(2) demo_tables(1) n fr sp fb] by blast
  have "map_of (created_files t) (0, ''a'') = Some 0" using t(4) demo_dobj(1) [of 0] demo_tables(3) by simp
  then show ?thesis using t by auto
qed

theorem descriptors_sound_witness:
  "\<exists>t u w. MountFileSystem demo_env [''vdb''] (Some format_uuid) t = Some (0, u) \<and> rtranclp fs_step (u, []) (w, [])
     \<and> map_of (open_files w) 0 \<noteq> None \<and> 0 \<notin> set (free_fd_pool (fd_handle w))
     \<and> set (map fst (open_refs w)) \<union> set (free_fd_pool (fd_handle w)) = {0..<max_fd_num (fd_handle w)}"
proof -
  have "plain_name ''a''" "length ''a'' < 64" by (simp_all add: plain_name_def)
  from first_open [OF demo_opens demo_size demo_start_benign this, of "[]"] obtain t u v w where
    m: "MountFileSystem demo_env [''vdb''] (Some format_uuid) t = Some (0, u)" "fobj_next t = 0"
    and s: "FileSystem_CreateFile (''/'' @ ''a'') u = (0, v)" "free_fd_pool (fd_handle v) \<noteq> []"
      "FileHandle_open (''/'' @ ''a'') O_RDWR v = Some (0, w)"
    and w: "map_of (open_files w) 0 \<noteq> None" by (auto simp: demo_start_def)
  have "fs_step (u, []) (v, [])" "fs_step (v, []) (w, [])" using step_create [OF s(1)] step_open [OF s(2,3)] by blast+
  then have r: "rtranclp fs_step (u, []) (w, [])" by (meson converse_rtranclp_into_rtranclp r_into_rtranclp)
  note d = descriptors_sound [OF m r]
  have "0 \<in> set (map fst (open_refs w))" using w by (force simp: open_refs_def dest!: map_of_SomeD)
  with d have "0 \<notin> set (free_fd_pool (fd_handle w))" by auto
  with d m(1) r w show ?thesis by auto
qed

lemma demo_fds: "fds_ok [0, 1, 2, 3, 4, 5, 6] demo_fs"
proof -
  have "{0..<10} = {0, 1, 2, 3, 4, 5, 6, 7, 8, 9 :: int}"
    by (intro set_eqI iffI; simp only: atLeastLessThan_iff insert_iff empty_iff; presburger)
  then show ?thesis
    by (simp add: fds_ok_def fds_used_def open_refs_def demo_fs_def fd_inv_def alloc_ok_def files_of_def File_new_def) blast
qed

theorem unlink_open_file_witness:
  "unlink ''/a'' demo_fs = Some (0, upd_file 0 (\<lambda>y. y\<lparr>f_deleted := True\<rparr>) demo_fs)"
proof -
  have o: "map_of (open_files demo_fs) 7 = Some \<lparr>of_file = 0, of_append_pos = 0\<rparr>" by (simp add: demo_fs_def)
  show ?thesis
    using unlink_open_file [OF demo_fds o demo_names(1) _ demo_names(2), of 0] demo_tables by (simp add: demo_dobj)
qed

theorem open_exhausted_witness:
  "\<exists>t u. FileHandle_open ''/a'' O_RDWR (demo_fs\<lparr>fd_handle := \<lparr>max_fd_num = 10, free_fd_pool = []\<rparr>\<rparr>) = Some (- 1, t)
     \<and> FileHandle_close (- 1) t = Some (0, u)"
proof -
  let ?s = "demo_fs\<lparr>fd_handle := \<lparr>max_fd_num = 10, free_fd_pool = []\<rparr>\<rparr>"
  have d: "GetCreatedDirectory ''/a'' ?s = (None, ?s)"
    using demo_tables(2) by (simp add: GetCreatedDirectory_def DirHandle_TransformPath_def ends_with_slash_def layout_consts)
  have "Dir_dh ?s 0 = 0" using demo_dobj(1) [of 0] by (simp add: Dir_dh_def)
  then have "GetCreatedFile (''/'' @ ''a'') ?s = (Some 0, ?s)"
    using demo_tables(1,3) by (intro GetCreatedFile_path [OF demo_names(1) _ demo_names(2), where dir = 0]) simp_all
  then have f: "GetCreatedFile ''/a'' ?s = (Some 0, ?s)" by simp
  have "0 < f_nlink (fobj ?s 0)" using demo_fobj(6) [of 0] by simp
  then show ?thesis using open_exhausted [OF d f] by (auto simp: FdHandle.simps)
qed

end
