(* ===== verification/Removal.thy ===== *)
theory Removal
  imports Mounted
begin

text \<open>
  \<open>unlink\<close> of a file that is not open: on a device without I/O errors its blocks go back to the
  pool, its structs are cleared on the disk and in memory, and its name is gone. The handle of
  the file struct, though, is not given back to \<open>free_fhs\<close>.
\<close>

section \<open>Giving back a file block\<close>

text \<open>What the release of file blocks leaves alone.\<close>

definition names_same :: "fs \<Rightarrow> fs \<Rightarrow> bool" where
  "names_same s t \<longleftrightarrow> fmetas t = fmetas s \<and> dmetas t = dmetas s \<and> fobj t = fobj s \<and> dobj t = dobj s
     \<and> created_files t = created_files s \<and> created_fhs t = created_fhs s \<and> created_dirs t = created_dirs s
     \<and> free_fhs t = free_fhs s \<and> super_meta t = super_meta s \<and> dev t = dev s \<and> crc32 t = crc32 s \<and> now t = now s
     \<and> open_files t = open_files s \<and> fd_handle t = fd_handle s"

lemma ReleaseAll_done:
  assumes ok: "fs_ok s" "675282944 \<le> unat (dev_size (dev s))" and fb: "fb < 133554" "fb_used (bmetas s fb)"
  shows "\<exists>t. ReleaseAll fb s = Some (True, t) \<and> names_same s t \<and> fs_ok t \<and> (meta_synced s \<longrightarrow> meta_synced t)
     \<and> set (block_id_pool (block_handle t)) = set (fb_owned s fb) \<union> set (block_id_pool (block_handle s))
     \<and> fb \<in> set (free_fbhs t) \<and> (\<forall>i. i \<noteq> fb \<longrightarrow> fb_owned t i = fb_owned s i)"
proof -
  let ?ids = "take (unat (fb_used_block_num (bmetas s fb))) (fb_block_id (bmetas s fb))"
  have ex: "blocks_exclusive s" and fm: "formatted s" "io_ok s" using ok(1) by (simp_all add: fs_ok_def)
  then have le: "unat (fb_used_block_num (bmetas s fb)) \<le> 1000" by (simp add: blocks_exclusive_def wf_bmetas_def)
  obtain b h where put: "PutFreeBlockIdLock ?ids (block_handle s) = (b, h)" by fastforce
  let ?s1 = "upd_bmeta fb FileBlock_ClearMeta (s\<lparr>block_handle := h\<rparr>)"
  obtain w u where w: "FileBlock_WriteMeta fb ?s1 = (w, u)" by fastforce
  have f1: "formatted ?s1" "io_ok ?s1" "675282944 \<le> unat (dev_size (dev ?s1))"
    using fm ok(2) by (simp_all add: formatted_def io_ok_def upd_bmeta_def)
  have "w" using FileBlock_WriteMeta_ok [OF f1(1,2) fb(1) f1(3)] w by simp
  then have W: "FileBlock_WriteMeta fb ?s1 = (True, u)" using w by simp
  let ?t = "PutFileBlockLock fb u"
  have r: "ReleaseAll fb s = Some (True, ?t)"
    using le put W by (simp add: ReleaseAll_def used_block_ids_def blk_op_defs Let_def word_less_nat_alt)
  note R = ReleaseAll_blocks [OF ex fb(2) r]
  obtain c k where u: "u = upd_bmeta fb (\<lambda>m. m\<lparr>fb_crc := c\<rparr>) ?s1\<lparr>kern := k\<rparr>"
    using FileBlock_WriteMeta_frame [OF W] by blast
  have n: "names_same s ?t" by (simp add: names_same_def u upd_bmeta_def PutFileBlockLock_def)
  have ds: "data_same ?s1 u" using FileBlock_WriteMeta_data [OF f1(1) fb(1)] W by (metis snd_conv)
  have own: "fb_owned s fb = ?ids" using fb(2) by (simp add: fb_owned_def)
  have bi: "block_inv (block_handle s)" and mx: "\<forall>i \<in> set ?ids. i < max_block_num (block_handle s)"
    using ex unfolding blocks_exclusive_def own [symmetric] by blast+
  have mb: "max_block_num (block_handle ?t) = max_block_num (block_handle s)"
    using block_inv_put(3) [OF bi mx put] by (simp add: u upd_bmeta_def PutFileBlockLock_def)
  have "io_ok ?t" using ds f1(2) by (simp add: data_same_def io_ok_def PutFileBlockLock_def)
  then have "fs_ok ?t"
    using ok(1) R(1) n mb unfolding fs_ok_def formatted_def data_ok_def names_same_def by simp
  moreover have "meta_synced ?t" if "meta_synced s"
  proof -
    have "synced_but {} {} {fb} ?s1" using that by (auto simp: synced_but_def synced_defs upd_bmeta_def)
    from FileBlock_WriteMeta_synced [OF f1(1) fb(1) W this] show ?thesis
      by (simp add: PutFileBlockLock_def synced_but_def synced_defs)
  qed
  ultimately show ?thesis using r n R(3,4,5) by blast
qed

section \<open>Removing a file\<close>

text \<open>A file is registered under this name, in all three tables that know it.\<close>

definition linked :: "fs \<Rightarrow> nat \<Rightarrow> string \<Rightarrow> nat \<Rightarrow> bool" where
  "linked s dir n f \<longleftrightarrow> map_of (created_files s) (Dir_dh s dir, n) = Some f \<and> File_dh s f = Dir_dh s dir \<and> File_file_name s f = n
     \<and> map_of (created_fhs s) (File_fh s f) = Some f \<and> map_of (d_items (dobj s dir)) (File_fh s f) = Some f"

lemma RemoveAllFileBlock_done:
  assumes ok: "fs_ok s" "675282944 \<le> unat (dev_size (dev s))" and f: "file_wf s f" "fbs_in_range s f"
  shows "\<exists>v. RemoveAllFileBlock f s = Some (True, upd_file f (\<lambda>x. x\<lparr>f_items := []\<rparr>) v) \<and> names_same s v \<and> fs_ok v
     \<and> (meta_synced s \<longrightarrow> meta_synced v)
     \<and> set (block_id_pool (block_handle v)) = set (file_ids s f) \<union> set (block_id_pool (block_handle s))"
proof (cases "f_items (fobj s f)")
  case Nil
  then show ?thesis using ok(1) by (intro exI [of _ s]) (simp add: RemoveAllFileBlock_def names_same_def file_ids_def)
next
  case (Cons e es)
  then obtain fb where fb: "f_items (fobj s f) = [(0, fb)]" "fb_used (bmetas s fb)"
    using f(1) by (cases e; cases es) (auto simp: file_wf_def)
  then have "fb < 133554" using f(2) by (simp add: fbs_in_range_def)
  from ReleaseAll_done [OF ok this fb(2)] obtain t where
    "ReleaseAll fb s = Some (True, t)" "names_same s t" "fs_ok t" "meta_synced s \<longrightarrow> meta_synced t"
    "set (block_id_pool (block_handle t)) = set (fb_owned s fb) \<union> set (block_id_pool (block_handle s))" by blast
  then show ?thesis using fb(1) by (intro exI [of _ t]) (simp add: RemoveAllFileBlock_def file_ids_def)
qed

lemma ReleaseNolock_done:
  assumes ok: "formatted s" "io_ok s" "675282944 \<le> unat (dev_size (dev s))" and f: "File_fh s f < 100000" "f_meta (fobj s f) = File_fh s f"
  shows "\<exists>m k. ReleaseNolock f s = (True, s\<lparr>fmetas := (fmetas s)(File_fh s f := m), kern := k\<rparr>) \<and> benign (k_script k)
     \<and> m = (File_ClearMeta (fmetas s (File_fh s f)))\<lparr>fm_crc := fm_crc m\<rparr>
     \<and> (meta_synced s \<longrightarrow> meta_synced (s\<lparr>fmetas := (fmetas s)(File_fh s f := m), kern := k\<rparr>))"
proof -
  let ?h = "File_fh s f"
  let ?u = "upd_fmeta ?h File_ClearMeta s"
  have u: "formatted ?u" "io_ok ?u" "675282944 \<le> unat (dev_size (dev ?u))" "File_fh ?u f = ?h"
    using ok f(2) by (simp_all add: formatted_def io_ok_def upd_fmeta_def File_fh_def File_ClearMeta_def)
  obtain t where t: "File_WriteMeta_fh ?h ?u = (True, t)"
    using File_WriteMeta_fh_ok [OF u(1,2) f(1) u(3)] by (metis prod.collapse)
  obtain c k where k: "t = upd_fmeta ?h (\<lambda>m. m\<lparr>fm_crc := c\<rparr>) ?u\<lparr>kern := k\<rparr>" using File_WriteMeta_fh_frame [OF t] by blast
  have ds: "data_same ?u t" using File_WriteMeta_fh_data [OF u(1) f(1)] t by (metis snd_conv)
  let ?m = "(File_ClearMeta (fmetas s ?h))\<lparr>fm_crc := c\<rparr>"
  have e: "t = s\<lparr>fmetas := (fmetas s)(?h := ?m), kern := k\<rparr>" by (simp add: k upd_fmeta_def)
  have "ReleaseNolock f s = (True, t)" using t u(4) f(2) by (simp add: ReleaseNolock_def File_WriteMeta_def)
  moreover have "benign (k_script k)" using ds u(2) by (simp add: data_same_def io_ok_def k)
  moreover have "meta_synced t" if "meta_synced s"
  proof -
    have "synced_but {?h} {} {} ?u" using that by (rule synced_but_upd(1) [of "{}", simplified])
    from File_WriteMeta_fh_synced(1) [OF u(1) f(1) t this] show ?thesis by (auto simp: synced_but_def)
  qed
  ultimately show ?thesis unfolding e by (intro exI [of _ ?m] exI [of _ k]) simp
qed

text \<open>
  C11. \<open>unlink\<close> of a file that is not open, on a device without I/O errors: the call returns 0, the
  name is gone, exactly the blocks of the file are back in the pool, its struct is cleared and
  the metadata area is in step with memory. The list of free file structs does not get the
  handle back.
\<close>

theorem unlink_frees:
  assumes "fs_ok s" and "675282944 \<le> unat (dev_size (dev s))" and "file_wf s f" and "fbs_in_range s f"
    and "File_fh s f < 100000" and "f_meta (fobj s f) = File_fh s f" and "f_nlink (fobj s f) \<le> 0"
    and "dir_path d" and "length (d @ n) < 767" and "plain_name n" and "length n < 64"
    and "map_of (created_dirs s) d = Some dir" and "map_of (created_dirs s) (d @ n @ ''/'') = None" and "linked s dir n f"
  shows "\<exists>t. unlink (d @ n) s = Some (0, t) \<and> fst (GetCreatedFile (d @ n) t) = None
     \<and> set (block_id_pool (block_handle t)) = set (file_ids s f) \<union> set (block_id_pool (block_handle s))
     \<and> fm_used (fmetas t (File_fh s f)) = False \<and> fs_ok t \<and> (meta_synced s \<longrightarrow> meta_synced t) \<and> free_fhs t = free_fhs s"
proof -
  define h where "h = File_fh s f"
  have hf: "h < 100000" "f_meta (fobj s f) = h" "File_fh s f = h" using assms(5,6) by (simp_all add: h_def)
  have hm: "unat (fm_fh (fmetas s h)) = h" using hf(2,3) by (simp add: File_fh_def)
  have e: "\<not> ends_with_slash (d @ n)"
    using last_plain_name [OF assms(10)] assms(10) by (simp add: ends_with_slash_def plain_name_def)
  have nd: "GetCreatedDirectory (d @ n) s = (None, s)"
    using e assms(9,13) by (simp add: GetCreatedDirectory_def DirHandle_TransformPath_def layout_consts)
  have ff: "FindFile d n s = (Some (dir, f), s)"
    using GetCreatedDirectory_path [OF assms(8)] assms(9,12,14) by (simp add: FindFile_def linked_def)
  obtain v where v: "RemoveAllFileBlock f s = Some (True, upd_file f (\<lambda>x. x\<lparr>f_items := []\<rparr>) v)" "names_same s v" "fs_ok v"
    "meta_synced s \<longrightarrow> meta_synced v" "set (block_id_pool (block_handle v)) = set (file_ids s f) \<union> set (block_id_pool (block_handle s))"
    using RemoveAllFileBlock_done [OF assms(1-4)] by blast
  let ?v = "upd_file f (\<lambda>x. x\<lparr>f_items := []\<rparr>) v"
  have v2: "formatted ?v" "io_ok ?v" "675282944 \<le> unat (dev_size (dev ?v))" "File_fh ?v f = h" "f_meta (fobj ?v f) = h"
    using v(2,3) assms(2) hf(2) hm by (simp_all add: fs_ok_def formatted_def io_ok_def upd_file_def names_same_def File_fh_def)
  have "synced_but {} {} {} ?v" if "meta_synced s"
    using v(4) that by (simp add: synced_but_def synced_defs upd_file_def)
  then obtain m k where w: "ReleaseNolock f ?v = (True, ?v\<lparr>fmetas := (fmetas ?v)(h := m), kern := k\<rparr>)" "benign (k_script k)"
    "m = (File_ClearMeta (fmetas ?v h))\<lparr>fm_crc := fm_crc m\<rparr>"
    "meta_synced s \<longrightarrow> meta_synced (?v\<lparr>fmetas := (fmetas ?v)(h := m), kern := k\<rparr>)"
    using ReleaseNolock_done [OF v2(1-3), of f] v2(4,5) hf(1) by auto
  let ?w = "?v\<lparr>fmetas := (fmetas ?v)(h := m), kern := k\<rparr>"
  have mf: "fm_fh m = fm_fh (fmetas s h)" "fm_dh m = fm_dh (fmetas s h)" "meta_file_name m = meta_file_name (fmetas s h)"
    "fm_used m = False"
  proof -
    obtain c where c: "m = (File_ClearMeta (fmetas ?v h))\<lparr>fm_crc := c\<rparr>" using w(3) by blast
    have "fmetas ?v = fmetas s" using v(2) by (simp add: upd_file_def names_same_def)
    then show "fm_fh m = fm_fh (fmetas s h)" "fm_dh m = fm_dh (fmetas s h)" "meta_file_name m = meta_file_name (fmetas s h)"
      "fm_used m = False" by (simp_all add: c File_ClearMeta_def meta_file_name_def)
  qed
  have acc: "File_fh ?w f = h" "File_dh ?w f = File_dh s f" "File_file_name ?w f = File_file_name s f"
  proof -
    have fm: "File_meta ?w f = m" "File_meta s f = fmetas s h" using v2(5) hf(2) by simp_all
    show "File_fh ?w f = h" unfolding File_fh_def fm by (simp add: mf hm)
    show "File_dh ?w f = File_dh s f" unfolding File_dh_def fm by (simp add: mf)
    show "File_file_name ?w f = File_file_name s f" unfolding File_file_name_def fm by (simp add: mf)
  qed
  have tb: "created_files ?w = created_files s" "created_fhs ?w = created_fhs s" "d_items (dobj ?w dir) = d_items (dobj s dir)"
    "created_dirs ?w = created_dirs s" "free_fhs ?w = free_fhs s" "dmetas ?w = dmetas s" "dobj ?w = dobj s"
    using v(2) by (simp_all add: upd_file_def names_same_def)
  let ?a = "amap_del (File_dh s f, n) (created_files s)" and ?b = "amap_del h (created_fhs s)"
  let ?t = "(upd_dir dir (\<lambda>x. x\<lparr>d_items := amap_del h (d_items x)\<rparr>) ?w)\<lparr>created_files := ?a, created_fhs := ?b\<rparr>"
  have "RemoveFileFromoDirectory dir f ?w = (True, ?t)"
  proof -
    let ?x = "upd_dir dir (\<lambda>x. x\<lparr>d_items := amap_del h (d_items x)\<rparr>) ?w"
    have x: "File_fh ?x f = h" "File_dh ?x f = File_dh s f" "File_file_name ?x f = n" "created_files ?x = created_files s"
      "created_fhs ?x = created_fhs s"
    proof -
      have "fmetas ?x = fmetas ?w" "fobj ?x = fobj ?w" by (simp_all add: upd_dir_def)
      then show "File_fh ?x f = h" "File_dh ?x f = File_dh s f" "File_file_name ?x f = n"
        using acc assms(14) by (simp_all add: File_fh_def File_dh_def File_file_name_def linked_def)
    qed (use tb(1,2) in \<open>simp_all add: upd_dir_def\<close>)
    have rc: "RemoveChildFile dir f ?w = (True, ?x)"
      using acc(1) tb(3) assms(14) by (simp add: RemoveChildFile_def linked_def hf(3))
    have rn: "RemoveFileNoLock f ?x = (True, ?t)"
      proof -
      have y: "File_fh (u\<lparr>created_files := q\<rparr>) f = File_fh u f" for u q by (simp add: File_fh_def)
      show ?thesis using x assms(14) by (simp add: RemoveFileNoLock_def Let_def linked_def hf(3) y)
    qed
    show ?thesis unfolding RemoveFileFromoDirectory_def rc prod.case bool.case by (rule rn)
  qed
  then have u: "unlink (d @ n) s = Some (0, set_errno 0 ?t)"
    using nd FileHandle_TransformPath_path [OF assms(8,10,11)] ff assms(7) v(1) w(1) by (simp add: unlink_def)
  let ?z = "set_errno 0 ?t"
  have z: "created_dirs ?z = created_dirs s" "created_files ?z = ?a" "free_fhs ?z = free_fhs s" "Dir_dh ?z dir = Dir_dh s dir"
    "fmetas ?z h = m" "block_handle ?z = block_handle v" "bmetas ?z = bmetas v" "free_fbhs ?z = free_fbhs v"
    "super_meta ?z = super_meta v" "dev ?z = dev v" "k_script (kern ?z) = k_script k"
    using tb by (simp_all add: set_errno_def upd_dir_def Dir_dh_def upd_file_def)
  have "fst (GetCreatedFile (d @ n) ?z) = None"
    using FileHandle_TransformPath_path [OF assms(8,10,11)] GetCreatedDirectory_path [OF assms(8)] assms(9,12,14) z(1,2,4)
    by (simp add: GetCreatedFile_def GetCreatedFile_key_def linked_def)
  moreover have "io_ok ?z" using v(3) z(10,11) w(2) by (simp add: fs_ok_def io_ok_def)
  then have "fs_ok ?z"
    using z(6-10) by (intro fs_ok_cong [OF v(3)])
  moreover have "meta_synced ?z" if "meta_synced s"
    using w(4) that by (simp add: synced_but_def synced_defs set_errno_def upd_dir_def)
  ultimately show ?thesis using u v(5) mf(4) z(3,5,6) by (intro exI [of _ ?z]) (simp add: hf(3))
qed

end
