(* ===== verification/Directories.thy ===== *)
theory Directories
  imports Removal Fuse_Ops
begin

text \<open>
  \<open>mkdir\<close>, \<open>rmdir\<close> and \<open>readdir\<close>: a new directory is found under its path and can be removed
  again without a trace in the name tables; a directory stream lists every child directory and
  every file exactly once, under its last path component.
\<close>

section \<open>mkdir\<close>

lemma set_errno_twice [simp]: "set_errno e (set_errno e' s) = set_errno e s"
  by (simp add: set_errno_def)

lemma lookup_errno:
  "DirHandle_TransformPath p s = (x, t) \<Longrightarrow> \<exists>k. t = s\<lparr>kern := (kern s)\<lparr>k_errno := k\<rparr>\<rparr>"
  "GetCreatedDirectory p s = (y, t) \<Longrightarrow> \<exists>k. t = s\<lparr>kern := (kern s)\<lparr>k_errno := k\<rparr>\<rparr>"
  "FileHandle_TransformPath p s = (z, t) \<Longrightarrow> \<exists>k. t = s\<lparr>kern := (kern s)\<lparr>k_errno := k\<rparr>\<rparr>"
  "GetCreatedFile_key q s = (u, t) \<Longrightarrow> \<exists>k. t = s\<lparr>kern := (kern s)\<lparr>k_errno := k\<rparr>\<rparr>"
proof -
  have id: "\<exists>k. s = s\<lparr>kern := (kern s)\<lparr>k_errno := k\<rparr>\<rparr>" for s :: fs by (rule exI [of _ "errno s"]) simp
  have er: "\<exists>k. set_errno e s = s\<lparr>kern := (kern s)\<lparr>k_errno := k\<rparr>\<rparr>" for e s by (auto simp: set_errno_def)
  show "DirHandle_TransformPath p s = (x, t) \<Longrightarrow> \<exists>k. t = s\<lparr>kern := (kern s)\<lparr>k_errno := k\<rparr>\<rparr>"
    "GetCreatedDirectory p s = (y, t) \<Longrightarrow> \<exists>k. t = s\<lparr>kern := (kern s)\<lparr>k_errno := k\<rparr>\<rparr>"
    "FileHandle_TransformPath p s = (z, t) \<Longrightarrow> \<exists>k. t = s\<lparr>kern := (kern s)\<lparr>k_errno := k\<rparr>\<rparr>"
    "GetCreatedFile_key q s = (u, t) \<Longrightarrow> \<exists>k. t = s\<lparr>kern := (kern s)\<lparr>k_errno := k\<rparr>\<rparr>"
    using id er
    by (auto simp: DirHandle_TransformPath_def GetCreatedDirectory_def FileHandle_TransformPath_def GetCreatedFile_key_def
        Let_def split: if_splits option.splits prod.splits)
qed

lemma errno_trans:
  "\<exists>k. t = s\<lparr>kern := (kern s)\<lparr>k_errno := k\<rparr>\<rparr> \<Longrightarrow> \<exists>k. u = t\<lparr>kern := (kern t)\<lparr>k_errno := k\<rparr>\<rparr>
     \<Longrightarrow> \<exists>k. u = s\<lparr>kern := (kern s)\<lparr>k_errno := k\<rparr>\<rparr>"
  by auto

lemma GetCreatedFile_errno: "GetCreatedFile p s = (x, t) \<Longrightarrow> \<exists>k. t = s\<lparr>kern := (kern s)\<lparr>k_errno := k\<rparr>\<rparr>"
  by (auto simp: GetCreatedFile_def split: option.splits prod.splits dest!: lookup_errno)

lemma CheckFileExist_errno: "DirHandle_CheckFileExist p b s = (x, t) \<Longrightarrow> \<exists>k. t = set_errno k s"
proof -
  assume a: "DirHandle_CheckFileExist p b s = (x, t)"
  have id: "\<exists>k. s = set_errno k s" for s by (rule exI [of _ "errno s"]) (simp add: set_errno_def)
  have g: "\<exists>k. v = set_errno k u" if "GetCreatedFile q u = (y, v)" for q u v y
    using GetCreatedFile_errno [OF that] by (auto simp: set_errno_def)
  show ?thesis using a id
    by (auto simp: DirHandle_CheckFileExist_def Let_def split: if_splits option.splits prod.splits dest!: g)
qed

lemma mkdir_path:
  assumes ok: "fs_ok s" "675282944 \<le> unat (dev_size (dev s))"
    and p: "dir_path d" "plain_name n" "length (d @ n) < 767" "NUL \<notin> set d" and c: "fst (DirHandle_CheckFileExist (d @ n) True s)"
    and par: "map_of (created_dirs s) d = Some pd" "pd < dobj_next s" and new: "map_of (created_dirs s) (d @ n @ ''/'') = None"
    and fr: "free_dhs s = dh # rest" "spare_dir s dh"
    and fresh: "map_of (created_dhs s) dh = None" "map_of (d_childs (dobj s pd)) dh = None"
  shows "\<exists>t. CreateDirectory (d @ n) s = Some (0, t) \<and> fs_ok t \<and> (meta_synced s \<longrightarrow> meta_synced t) \<and> files_same s t
     \<and> created_dirs t = amap_put (d @ n @ ''/'') (dobj_next s) (created_dirs s)
     \<and> created_dhs t = amap_put dh (dobj_next s) (created_dhs s)
     \<and> dobj t = (dobj s)(dobj_next s := Directory_new dh, pd := (dobj s pd)\<lparr>d_childs := amap_put dh (dobj_next s) (d_childs (dobj s pd))\<rparr>)
     \<and> Dir_dh t (dobj_next s) = dh \<and> Dir_dir_name t (dobj_next s) = d @ n @ ''/'' \<and> free_dhs t = rest
     \<and> (\<forall>i. i \<noteq> dh \<longrightarrow> dmetas t i = dmetas s i)"
proof -
  let ?n = "d @ n @ ''/''"
  obtain e where e: "DirHandle_CheckFileExist (d @ n) True s = (True, set_errno e s)"
    using CheckFileExist_errno [OF prod.collapse [symmetric], of "d @ n" True s] c by (metis prod.collapse)
  define s1 where "s1 = set_errno e s"
  have s1: "formatted s1" "io_ok s1" "675282944 \<le> unat (dev_size (dev s1))" "spare_dir s1 dh" "free_dhs s1 = dh # rest"
    "dobj_next s1 = dobj_next s" "created_dirs s1 = created_dirs s" "created_dhs s1 = created_dhs s" "dobj s1 = dobj s" "dmetas s1 = dmetas s"
    "fs_ok s1" "files_same s s1" "meta_synced s \<longrightarrow> meta_synced s1"
    using ok fr fs_ok_cong [of s s1] unfolding s1_def
    by (simp_all add: set_errno_def fs_ok_def formatted_def io_ok_def spare_dir_def files_same_def synced_but_def synced_defs)
  have nm: "length ?n < 768" "NUL \<notin> set ?n"
    using p by (auto simp: plain_name_def dir_path_def)
  have pn: "?n \<noteq> ''/''" using p(2) by (cases d; cases n) (auto simp: plain_name_def)
  let ?d = "dobj_next s" and ?u = "with_dir s1 dh ?n"
  obtain k where k: "write_retry 3 ?d ?u = (True, (dir_crc dh ?u)\<lparr>kern := k\<rparr>)" "benign (k_script k)"
    "meta_synced s1 \<longrightarrow> meta_synced ((dir_crc dh ?u)\<lparr>kern := k\<rparr>)"
    using write_new_dir [OF s1(1-4) nm] s1(6) by auto
  let ?v = "(dir_crc dh ?u)\<lparr>kern := k\<rparr>"
  note w = with_dir_view [OF s1(4) nm, unfolded s1(6)]
  have v: "Dir_dh ?v ?d = dh" "Dir_dir_name ?v ?d = ?n" "created_dirs ?v = created_dirs s" "created_dhs ?v = created_dhs s"
    "dobj ?v = (dobj s)(?d := Directory_new dh)"
    using w s1 by (simp_all add: dir_crc_def upd_dmeta_def Dir_dh_def Dir_dir_name_def meta_dir_name_def with_dir_def)
  let ?x = "upd_dir pd (\<lambda>x. x\<lparr>d_childs := amap_put dh ?d (d_childs x)\<rparr>) ?v"
  have pdd: "pd \<noteq> ?d" using par(2) by simp
  have dm: "d_meta (dobj ?v ?d) = dh" using v(5) by (simp add: Directory_new_def)
  have x: "Dir_dh ?x ?d = dh" "Dir_dir_name ?x ?d = ?n" "created_dirs ?x = created_dirs s" "created_dhs ?x = created_dhs s"
    using v pdd by (simp_all add: upd_dir_def Dir_dh_def Dir_dir_name_def)
  let ?t = "?x\<lparr>created_dirs := amap_put ?n ?d (created_dirs s), created_dhs := amap_put dh ?d (created_dhs s)\<rparr>"
  have ac: "AddChildDirectory pd ?d ?v = (True, ?x)"
    using v(1,5) pdd fresh(2) by (simp add: AddChildDirectory_def)
  have ad: "AddDirectory2CreateNolock ?d ?x = (True, ?t)"
    using x new fresh(1) by (simp add: AddDirectory2CreateNolock_def)
  have tp: "DirHandle_TransformPath (d @ n) s1 = (Some ?n, s1)"
  proof -
    have "\<not> ends_with_slash (d @ n)" using last_plain_name [OF p(2)] p(2) by (simp add: ends_with_slash_def plain_name_def)
    then show ?thesis using p(3) by (simp add: DirHandle_TransformPath_def layout_consts)
  qed
  have nd: "NewDirectory ?n s1 = (Some (Some pd, ?d), ?u)"
    using NewFreeDirectoryNolock_some [OF s1(5,4), of ?n] new par(1) GetDirName_dir [OF p(1,2)] pn s1(6,7)
    by (simp add: NewDirectory_def IsMountPoint_def)
  have "CreateDirectory (d @ n) s = Some (0, set_errno 0 ?t)"
    using e [folded s1_def] tp nd k(1) v(2) pn ac ad by (simp add: CreateDirectory_def AddDirectory_def IsMountPoint_def)
  moreover have "files_same s (set_errno 0 ?t)"
    using s1(12) by (simp add: files_same_def set_errno_def dir_crc_def upd_dmeta_def with_dir_def upd_dir_def)
  moreover have "io_ok (set_errno 0 ?t)"
    using s1(2) k(2) by (simp add: io_ok_def set_errno_def dir_crc_def upd_dmeta_def with_dir_def upd_dir_def)
  ultimately have r: "CreateDirectory (d @ n) s = Some (0, set_errno 0 ?t)" "files_same s (set_errno 0 ?t)" "fs_ok (set_errno 0 ?t)"
    using fs_ok_files_same [OF ok(1)] by blast+
  have "meta_synced (set_errno 0 ?t)" if "meta_synced s"
    using k(3) s1(13) that by (simp add: synced_but_def synced_defs set_errno_def upd_dir_def)
  moreover have "Dir_dh (set_errno 0 ?t) ?d = dh" "Dir_dir_name (set_errno 0 ?t) ?d = ?n"
    using x by (simp_all add: set_errno_def Dir_dh_def Dir_dir_name_def)
  moreover have "free_dhs (set_errno 0 ?t) = rest" "\<forall>i. i \<noteq> dh \<longrightarrow> dmetas (set_errno 0 ?t) i = dmetas s i"
    "created_dirs (set_errno 0 ?t) = amap_put ?n ?d (created_dirs s)" "created_dhs (set_errno 0 ?t) = amap_put dh ?d (created_dhs s)"
    "dobj (set_errno 0 ?t) = (dobj s)(?d := Directory_new dh, pd := (dobj s pd)\<lparr>d_childs := amap_put dh ?d (d_childs (dobj s pd))\<rparr>)"
    using s1 v(5) pdd by (simp_all add: set_errno_def upd_dir_def dir_crc_def upd_dmeta_def with_dir_def)
  ultimately show ?thesis using r by (intro exI [of _ "set_errno 0 ?t"]) blast
qed

section \<open>rmdir\<close>

lemma suicide_done:
  assumes "formatted s" "io_ok s" "675282944 \<le> unat (dev_size (dev s))" "Dir_dh s d < 100000" "d_meta (dobj s d) = Dir_dh s d"
  shows "\<exists>k m. SuicideNolock d s = (True, s\<lparr>dmetas := (dmetas s)(Dir_dh s d := m), kern := k\<rparr>) \<and> benign (k_script k)
     \<and> dm_dh m = dm_dh (Dir_meta s d) \<and> meta_dir_name m = Dir_dir_name s d \<and> \<not> dm_used m
     \<and> (meta_synced s \<longrightarrow> meta_synced (s\<lparr>dmetas := (dmetas s)(Dir_dh s d := m), kern := k\<rparr>))"
proof -
  define h where "h = Dir_dh s d"
  let ?u = "Directory_ClearMeta d s"
  have hm: "d_meta (dobj s d) = h" using assms(5) by (simp add: h_def)
  have hh: "unat (dm_dh (dmetas s h)) = h" using h_def [unfolded Dir_dh_def hm] by simp
  have ud: "Dir_dh ?u d = h" "d_meta (dobj ?u d) = h" "meta_dir_name (dmetas ?u h) = meta_dir_name (dmetas s h)"
    "dm_dh (dmetas ?u h) = dm_dh (dmetas s h)" "\<not> dm_used (dmetas ?u h)" "\<And>i. i \<noteq> h \<Longrightarrow> dmetas ?u i = dmetas s i"
    using hm hh by (simp_all add: Directory_ClearMeta_def dir_crc_def upd_dmeta_def Dir_dh_def meta_dir_name_def Let_def)
  have u: "formatted ?u" "io_ok ?u" "675282944 \<le> unat (dev_size (dev ?u))"
    using assms(1-3) by (simp_all add: formatted_def io_ok_def Directory_ClearMeta_def dir_crc_def upd_dmeta_def Let_def)
  have lt: "Dir_dh ?u d < 100000" using ud(1) assms(4) h_def by simp
  obtain k where k: "Directory_WriteMeta d ?u = (True, (dir_crc h ?u)\<lparr>kern := k\<rparr>)" "benign (k_script k)"
    using Directory_WriteMeta_ok [OF u(1,2) lt _ u(3)] ud by auto
  let ?t = "(dir_crc h ?u)\<lparr>kern := k\<rparr>"
  have e: "?t = s\<lparr>dmetas := (dmetas s)(h := dmetas ?t h), kern := k\<rparr>"
    using hm by (simp add: Directory_ClearMeta_def dir_crc_def upd_dmeta_def Let_def)
  have "meta_synced ?t" if "meta_synced s"
  proof -
    have "synced_but {} {h} {} ?u"
      using that ud(6) by (auto simp: synced_but_def synced_defs Directory_ClearMeta_def dir_crc_def upd_dmeta_def Let_def)
    from Directory_WriteMeta_synced [OF u(1) lt _ k(1) this] ud show ?thesis by (auto simp: synced_but_def)
  qed
  moreover have "SuicideNolock d s = (True, ?t)" using k(1) by (simp add: SuicideNolock_def)
  moreover have "dm_dh (dmetas ?t h) = dm_dh (Dir_meta s d)" "meta_dir_name (dmetas ?t h) = Dir_dir_name s d" "\<not> dm_used (dmetas ?t h)"
    using ud hm by (simp_all add: dir_crc_def upd_dmeta_def meta_dir_name_def Dir_dir_name_def)
  ultimately show ?thesis using k(2) e h_def by (intro exI [of _ k] exI [of _ "dmetas ?t h"]) simp
qed

lemma mountpoint_path: "dir_path d \<Longrightarrow> plain_name n \<Longrightarrow> \<not> IsMountPoint (d @ n)"
  by (cases d; cases n) (auto simp: IsMountPoint_def dir_path_def plain_name_def)

text \<open>The checks of \<open>rmdir\<close> are among those of \<open>mkdir\<close>, on the same tables.\<close>

lemma CheckFileExist_iff:
  assumes "dir_path d" "length d < 768" "plain_name n" "map_of (created_dirs s) d = Some pd"
  shows "fst (DirHandle_CheckFileExist (d @ n) False s) \<longleftrightarrow> 64 \<le> length n \<or> map_of (created_files s) (Dir_dh s pd, n) = None"
    and "fst (DirHandle_CheckFileExist (d @ n) True s) \<Longrightarrow> 64 \<le> length n \<or> map_of (created_files s) (Dir_dh s pd, n) = None"
proof -
  have e: "\<not> ends_with_slash (d @ n)"
    using last_plain_name [OF assms(3)] assms(3) by (simp add: ends_with_slash_def plain_name_def)
  have tp: "FileHandle_TransformPath (d @ n) s = (if 64 \<le> length n then (None, set_errno ENAMETOOLONG s) else (Some (d, n), s))"
    using e GetDirName_file [OF assms(1,3)] by (simp add: FileHandle_TransformPath_def layout_consts)
  have g: "fst (GetCreatedFile (d @ n) s) = (if 64 \<le> length n then None else map_of (created_files s) (Dir_dh s pd, n))"
    using tp GetCreatedDirectory_path [OF assms(1,2)] assms(4)
    by (simp add: GetCreatedFile_def GetCreatedFile_key_def split: option.splits)
  have c: "fst (DirHandle_CheckFileExist (d @ n) b s) \<Longrightarrow> fst (GetCreatedFile (d @ n) s) = None" for b
    using mountpoint_path [OF assms(1,3)] e
    by (auto simp: DirHandle_CheckFileExist_def strip_slash_def split: prod.splits option.splits)
  have "fst (GetCreatedFile (d @ n) s) = None \<Longrightarrow> fst (DirHandle_CheckFileExist (d @ n) False s)"
    using mountpoint_path [OF assms(1,3)] e
    by (auto simp: DirHandle_CheckFileExist_def strip_slash_def split: prod.splits option.splits)
  then show "fst (DirHandle_CheckFileExist (d @ n) False s) \<longleftrightarrow> 64 \<le> length n \<or> map_of (created_files s) (Dir_dh s pd, n) = None"
    using c [of False] g by (auto split: if_splits)
  show "fst (DirHandle_CheckFileExist (d @ n) True s) \<Longrightarrow> 64 \<le> length n \<or> map_of (created_files s) (Dir_dh s pd, n) = None"
    using c [of True] g by (auto split: if_splits)
qed

lemma rmdir_path:
  assumes ok: "fs_ok s" "675282944 \<le> unat (dev_size (dev s))"
    and p: "dir_path d" "plain_name n" "length (d @ n) < 767" and c: "fst (DirHandle_CheckFileExist (d @ n) False s)"
    and par: "map_of (created_dirs s) d = Some pd" and x: "map_of (created_dirs s) (d @ n @ ''/'') = Some x"
    and em: "d_items (dobj s x) = []" "d_childs (dobj s x) = []" "d_nlink (dobj s x) = 0"
    and h: "Dir_dh s x < 100000" "d_meta (dobj s x) = Dir_dh s x" "Dir_dir_name s x = d @ n @ ''/''"
    and reg: "map_of (created_dhs s) (Dir_dh s x) = Some x" "map_of (d_childs (dobj s pd)) (Dir_dh s x) = Some x"
  shows "\<exists>t. DeleteDirectory (d @ n) False s = (0, t)
     \<and> created_dirs t = amap_del (d @ n @ ''/'') (created_dirs s) \<and> created_dhs t = amap_del (Dir_dh s x) (created_dhs s)
     \<and> dobj t = (dobj s)(pd := (dobj s pd)\<lparr>d_childs := amap_del (Dir_dh s x) (d_childs (dobj s pd))\<rparr>)
     \<and> fs_ok t \<and> (meta_synced s \<longrightarrow> meta_synced t) \<and> files_same s t \<and> free_dhs t = free_dhs s"
proof -
  let ?n = "d @ n @ ''/''" and ?h = "Dir_dh s x"
  obtain e where e: "DirHandle_CheckFileExist (d @ n) False s = (True, set_errno e s)"
    using CheckFileExist_errno [OF prod.collapse [symmetric], of "d @ n" False s] c by (metis prod.collapse)
  define s1 where "s1 = set_errno e s"
  have s1: "formatted s1" "io_ok s1" "675282944 \<le> unat (dev_size (dev s1))" "created_dirs s1 = created_dirs s"
    "created_dhs s1 = created_dhs s" "dobj s1 = dobj s" "dmetas s1 = dmetas s" "Dir_dh s1 x = ?h" "Dir_dir_name s1 x = ?n"
    "free_dhs s1 = free_dhs s" "files_same s s1" "meta_synced s \<longrightarrow> meta_synced s1"
    using ok h(3) unfolding s1_def
    by (simp_all add: set_errno_def fs_ok_def formatted_def io_ok_def files_same_def synced_but_def synced_defs Dir_dh_def Dir_dir_name_def)
  have tp: "DirHandle_TransformPath (d @ n) s1 = (Some ?n, s1)"
  proof -
    have "\<not> ends_with_slash (d @ n)" using last_plain_name [OF p(2)] p(2) by (simp add: ends_with_slash_def plain_name_def)
    then show ?thesis using p(3) by (simp add: DirHandle_TransformPath_def layout_consts)
  qed
  have fd: "FindDirectory ?n s1 = (Some (pd, x), s1)"
    using par x s1(4) GetDirName_dir [OF p(1,2)] by (simp add: FindDirectory_def)
  have da: "delete_allowed x s1 = (True, s1)"
    using em s1(6) by (simp add: delete_allowed_def ChildCount_def)
  have hx: "Dir_dh s1 x < 100000" "d_meta (dobj s1 x) = Dir_dh s1 x" using h s1(6,8) by simp_all
  from suicide_done [OF s1(1-3) hx, unfolded s1(8)] obtain k m where
    k: "SuicideNolock x s1 = (True, s1\<lparr>dmetas := (dmetas s1)(?h := m), kern := k\<rparr>)" "benign (k_script k)"
      "dm_dh m = dm_dh (Dir_meta s1 x)" "meta_dir_name m = ?n"
      "meta_synced s1 \<longrightarrow> meta_synced (s1\<lparr>dmetas := (dmetas s1)(?h := m), kern := k\<rparr>)"
    using s1(9) by auto
  let ?v = "s1\<lparr>dmetas := (dmetas s1)(?h := m), kern := k\<rparr>"
  have mv: "d_meta (dobj ?v x) = ?h" "dmetas ?v ?h = m" using hx(2) s1(8) by simp_all
  have dh: "unat (dm_dh m) = ?h" using s1(8) unfolding k(3) Dir_dh_def by simp
  have v: "Dir_dh ?v x = ?h" "Dir_dir_name ?v x = ?n" unfolding Dir_dh_def [of ?v] Dir_dir_name_def mv by (simp_all add: dh k(4))
  let ?w = "upd_dir pd (\<lambda>y. y\<lparr>d_childs := amap_del ?h (d_childs y)\<rparr>) ?v"
  have dmw: "d_meta (dobj ?w y) = d_meta (dobj ?v y)" for y by (simp add: upd_dir_def)
  have w: "Dir_dh ?w x = ?h" "Dir_dir_name ?w x = ?n"
    using v unfolding Dir_dh_def [of ?w] Dir_dir_name_def dmw by (simp_all add: upd_dir_def Dir_dh_def Dir_dir_name_def)
  let ?t = "?w\<lparr>created_dirs := amap_del ?n (created_dirs s), created_dhs := amap_del ?h (created_dhs s)\<rparr>"
  have rc: "RemovChildDirectory pd x ?v = (True, ?w)"
    using reg(2) s1(6) v(1) by (simp add: RemovChildDirectory_def)
  have wd: "Dir_dh (?w\<lparr>created_dirs := q\<rparr>) x = ?h" for q using w(1) by (simp add: Dir_dh_def)
  have rm: "RemoveDirectoryFromCreateNolock x ?w = (True, ?t)"
    using x reg(1) w wd s1(4,5) by (simp add: RemoveDirectoryFromCreateNolock_def Let_def upd_dir_def)
  have r: "DeleteDirectory (d @ n) False s = (0, set_errno 0 ?t)"
    using e [folded s1_def] tp fd da k(1) rc rm mountpoint_path [OF p(1,2)] by (simp add: DeleteDirectory_def RemoveDirectory_def)
  have f: "files_same s (set_errno 0 ?t)" using s1(11) by (simp add: files_same_def set_errno_def upd_dir_def)
  moreover have "io_ok (set_errno 0 ?t)" using s1(2) k(2) by (simp add: io_ok_def set_errno_def upd_dir_def)
  ultimately have "fs_ok (set_errno 0 ?t)" using fs_ok_files_same [OF ok(1)] by blast
  moreover have "meta_synced (set_errno 0 ?t)" if "meta_synced s"
    using k(5) s1(12) that by (simp add: synced_but_def synced_defs set_errno_def upd_dir_def)
  moreover have "created_dirs (set_errno 0 ?t) = amap_del ?n (created_dirs s)" "created_dhs (set_errno 0 ?t) = amap_del ?h (created_dhs s)"
    "dobj (set_errno 0 ?t) = (dobj s)(pd := (dobj s pd)\<lparr>d_childs := amap_del ?h (d_childs (dobj s pd))\<rparr>)" "free_dhs (set_errno 0 ?t) = free_dhs s"
    using s1(6,10) by (simp_all add: set_errno_def upd_dir_def)
  ultimately show ?thesis using r f by (intro exI [of _ "set_errno 0 ?t"]) blast
qed

text \<open>
  C12. \<open>mkdir\<close> followed by \<open>rmdir\<close> of the same path, on a device without I/O errors: both return
  0; in between the path names a new empty directory that is a child of its parent, and
  afterwards every lookup, by name, by handle and in the parent, is what it was before.
  The handle of the directory struct is not given back to the free list.
\<close>

theorem mkdir_rmdir:
  assumes "fs_ok s" and "675282944 \<le> unat (dev_size (dev s))"
    and "dir_path d" and "plain_name n" and "length (d @ n) < 767" and "NUL \<notin> set d" and "fst (DirHandle_CheckFileExist (d @ n) True s)"
    and "map_of (created_dirs s) d = Some pd" and "pd < dobj_next s" and "map_of (created_dirs s) (d @ n @ ''/'') = None"
    and "free_dhs s = dh # rest" and "spare_dir s dh"
    and "map_of (created_dhs s) dh = None" and "map_of (d_childs (dobj s pd)) dh = None" and "d_meta (dobj s pd) \<noteq> dh"
  shows "\<exists>t u. CreateDirectory (d @ n) s = Some (0, t) \<and> fs_ok t \<and> (meta_synced s \<longrightarrow> meta_synced t)
     \<and> (\<exists>x. map_of (created_dirs t) (d @ n @ ''/'') = Some x \<and> map_of (d_childs (dobj t pd)) dh = Some x
          \<and> d_items (dobj t x) = [] \<and> d_childs (dobj t x) = [])
     \<and> DeleteDirectory (d @ n) False t = (0, u)
     \<and> map_of (created_dirs u) = map_of (created_dirs s) \<and> map_of (created_dhs u) = map_of (created_dhs s)
     \<and> map_of (d_childs (dobj u pd)) = map_of (d_childs (dobj s pd)) \<and> fs_ok u \<and> free_dhs u = rest"
proof -
  let ?n = "d @ n @ ''/''" and ?x = "dobj_next s"
  obtain t where t: "CreateDirectory (d @ n) s = Some (0, t)" "fs_ok t" "meta_synced s \<longrightarrow> meta_synced t" "files_same s t"
    "created_dirs t = amap_put ?n ?x (created_dirs s)" "created_dhs t = amap_put dh ?x (created_dhs s)"
    "dobj t = (dobj s)(?x := Directory_new dh, pd := (dobj s pd)\<lparr>d_childs := amap_put dh ?x (d_childs (dobj s pd))\<rparr>)"
    "Dir_dh t ?x = dh" "Dir_dir_name t ?x = ?n" "free_dhs t = rest"
    "\<forall>i. i \<noteq> dh \<longrightarrow> dmetas t i = dmetas s i"
    using mkdir_path [OF assms(1-6) assms(7-14)] by blast
  have pdx: "pd \<noteq> ?x" using assms(9) by simp
  have dv: "675282944 \<le> unat (dev_size (dev t))" using t(4) assms(2) by (simp add: files_same_def)
  have dn: "d \<noteq> ?n" by simp
  have l: "map_of (created_dirs t) d = Some pd" "map_of (created_dirs t) ?n = Some ?x" "map_of (created_dhs t) dh = Some ?x"
    "map_of (d_childs (dobj t pd)) dh = Some ?x" "d_items (dobj t ?x) = []" "d_childs (dobj t ?x) = []" "d_nlink (dobj t ?x) = 0"
    "d_meta (dobj t ?x) = Dir_dh t ?x"
    using t(5-8) assms(8) dn pdx by (simp_all add: Directory_new_def)
  have "dh < 100000" using assms(12) by (simp add: spare_dir_def)
  then have lt: "Dir_dh t ?x < 100000" using t(8) by simp
  have reg: "map_of (created_dhs t) (Dir_dh t ?x) = Some ?x" "map_of (d_childs (dobj t pd)) (Dir_dh t ?x) = Some ?x"
    using l(3,4) t(8) by simp_all
  have dhs: "Dir_dh t pd = Dir_dh s pd" using t(7,11) pdx assms(15) by (simp add: Dir_dh_def)
  have "length d < 768" using assms(5) by simp
  note ce = CheckFileExist_iff [OF assms(3) this assms(4)]
  have c: "fst (DirHandle_CheckFileExist (d @ n) False t)"
    using ce(2) [OF assms(8,7)] dhs t(4) unfolding ce(1) [OF l(1)] by (simp add: files_same_def)
  obtain u where u: "DeleteDirectory (d @ n) False t = (0, u)" "created_dirs u = amap_del ?n (created_dirs t)"
    "created_dhs u = amap_del dh (created_dhs t)"
    "dobj u = (dobj t)(pd := (dobj t pd)\<lparr>d_childs := amap_del dh (d_childs (dobj t pd))\<rparr>)" "fs_ok u" "free_dhs u = free_dhs t"
    using rmdir_path [OF t(2) dv assms(3-5) c l(1,2,5,6,7) lt l(8) t(9) reg] t(8) by auto
  have "map_of (created_dirs u) = map_of (created_dirs s)" "map_of (created_dhs u) = map_of (created_dhs s)"
    "map_of (d_childs (dobj u pd)) = map_of (d_childs (dobj s pd))"
    using u(2-4) t(5-7) assms(10,13,14) by (auto simp: fun_eq_iff)
  then show ?thesis using u t(1-3,10) l by (intro exI [of _ t] exI [of _ u]) auto
qed

section \<open>readdir\<close>

text \<open>A stream that has read its directory hands out the rest of its entries.\<close>

lemma readdir_rest:
  assumes "bd_inited dp"
  shows "\<exists>dp'. readdir_loop (\<lambda>_ _. False) names dp s = Some ((0, names @ map de_name (drop (bd_index dp) (bd_items dp))), dp', s)"
  using assms
proof (induction "length (bd_items dp) - bd_index dp" arbitrary: names dp)
  case 0
  then have "ReadDirectory dp s = Some ((None, dp), s)" by (simp add: ReadDirectory_def)
  then show ?case using 0 by (subst readdir_loop.simps) simp
next
  case (Suc k)
  let ?dp = "dp\<lparr>bd_index := Suc (bd_index dp)\<rparr>" and ?e = "bd_items dp ! bd_index dp"
  have lt: "bd_index dp < length (bd_items dp)" using Suc.hyps(2) by simp
  have k: "k = length (bd_items ?dp) - bd_index ?dp" using Suc.hyps(2) by simp
  have "ReadDirectory dp s = Some ((Some ?e, ?dp), s)" using lt Suc.prems by (simp add: ReadDirectory_def)
  moreover obtain dp' where "readdir_loop (\<lambda>_ _. False) (names @ [de_name ?e]) ?dp s
      = Some ((0, (names @ [de_name ?e]) @ map de_name (drop (Suc (bd_index dp)) (bd_items dp))), dp', s)"
    using Suc.hyps(1) [OF k, of "names @ [de_name ?e]"] Suc.prems by auto
  moreover have "drop (bd_index dp) (bd_items dp) = ?e # drop (Suc (bd_index dp)) (bd_items dp)"
    using lt by (rule Cons_nth_drop_Suc [symmetric])
  ultimately show ?case by (subst readdir_loop.simps) simp
qed

lemma readdir_fresh:
  assumes "\<not> bd_inited dp" "bd_items dp = []" "bd_index dp = 0" "ScanDir s (bd_dir dp) = Some items"
  shows "\<exists>dp' t. readdir_loop (\<lambda>_ _. False) names dp s = Some ((0, names @ map de_name items), dp', t)"
proof -
  let ?dp = "dp\<lparr>bd_items := items, bd_inited := True\<rparr>" and ?t = "Directory_UpdateTimeStamp False True True (bd_dir dp) s"
  have "ReadDirectory dp s = ReadDirectory ?dp ?t" using assms by (simp add: ReadDirectory_def)
  then have "readdir_loop (\<lambda>_ _. False) names dp s = readdir_loop (\<lambda>_ _. False) names ?dp ?t"
    by (subst (1 2) readdir_loop.simps) simp
  then show ?thesis using readdir_rest [of ?dp names ?t] assms(3) by auto
qed

text \<open>A stored directory name shows its last component.\<close>

lemma scan_name_path:
  assumes "dir_path d" "plain_name n"
  shows "scan_name (d @ n @ ''/'') = n @ [NUL]" "cstr (scan_name (d @ n @ ''/'')) = n"
proof -
  have n: "SLASH \<notin> set (n @ [NUL])" "NUL \<notin> set n" using assms(2) by (simp_all add: plain_name_def)
  obtain x where x: "d = x @ ''/''" using assms(1) by (rule dir_path_cases)
  have "scan_name (d @ n @ ''/'') = GetFileName (d @ n @ [NUL])"
    by (simp add: scan_name_def ends_with_slash_def butlast_append)
  also have "\<dots> = n @ [NUL]" using GetFileName_append [OF n(1), of x] x by simp
  finally show e: "scan_name (d @ n @ ''/'') = n @ [NUL]" .
  have "takeWhile (\<lambda>c. c \<noteq> NUL) (n @ NUL # []) = n" using n(2) by (subst takeWhile_append2) auto
  then show "cstr (scan_name (d @ n @ ''/'')) = n" by (simp add: e cstr_def)
qed

text \<open>
  C19. \<open>readdir\<close> through FUSE, with a filler that takes every name: a freshly opened stream lists
  every child directory under its last path component and every file under its name, each once,
  in the order of the child maps, after \<open>.\<close> and \<open>..\<close> in the root directory. The loop ends.
\<close>

theorem readdir_lists_children:
  assumes "map_of (b_open_dirs b) fh = Some dp" and "\<not> bd_inited dp" and "bd_items dp = []" and "bd_index dp = 0"
    and "\<forall>(k, c) \<in> set (d_childs (dobj (b_fs b) (bd_dir dp))). \<exists>d. dir_path d \<and> plain_name (nm c) \<and> length (nm c) < 256
       \<and> Dir_dir_name (b_fs b) c = d @ nm c @ ''/''"
  shows "\<exists>b'. bfs_readdir (\<lambda>_ _. False) path fh b =
     Some ((0, (if path = ''/'' then [''.'', ''..''] else []) @ map (nm \<circ> snd) (d_childs (dobj (b_fs b) (bd_dir dp)))
              @ map (File_file_name (b_fs b) \<circ> snd) (d_items (dobj (b_fs b) (bd_dir dp)))), b')"
proof -
  let ?s = "b_fs b" and ?o = "dobj (b_fs b) (bd_dir dp)"
  have sn: "length (scan_name (Dir_dir_name ?s c)) \<le> 256 \<and> cstr (scan_name (Dir_dir_name ?s c)) = nm c"
    if kc: "(k, c) \<in> set (d_childs ?o)" for k c
  proof -
    obtain d where "dir_path d" "plain_name (nm c)" "length (nm c) < 256" "Dir_dir_name ?s c = d @ nm c @ ''/''"
      using bspec [OF assms(5) kc] by auto
    then show ?thesis using scan_name_path [of d "nm c"] by simp
  qed
  have "\<forall>(_, c) \<in> set (d_childs ?o). length (scan_name (Dir_dir_name ?s c)) \<le> 256" using sn by auto
  then obtain items where it: "ScanDir ?s (bd_dir dp) = Some items"
    "map de_name items = map (\<lambda>(_, c). cstr (scan_name (Dir_dir_name ?s c))) (d_childs ?o) @ map (\<lambda>(_, f). File_file_name ?s f) (d_items ?o)"
    by (auto simp: ScanDir_def o_def case_prod_unfold)
  moreover have "map (\<lambda>(_, c). cstr (scan_name (Dir_dir_name ?s c))) (d_childs ?o) = map (nm \<circ> snd) (d_childs ?o)"
    using sn by (intro map_cong) auto
  moreover have "map (\<lambda>(_, f). File_file_name ?s f) (d_items ?o) = map (File_file_name ?s \<circ> snd) (d_items ?o)"
    by (intro map_cong) auto
  ultimately show ?thesis
    using readdir_fresh [OF assms(2-4) it(1), of "if path = ''/'' then [''.'', ''..''] else []"] assms(1)
    by (auto simp: bfs_readdir_def Let_def)
qed

section \<open>Locks\<close>

text \<open>
  C20. A lock is held by the file, not by a descriptor: once taken through any descriptor it is
  refused with \<open>EACCES\<close> through every descriptor of the file, for reading and for writing, until
  it is given up through any descriptor of the file, after which it can be taken again; giving it
  up twice fails with \<open>ENOLCK\<close>.
\<close>

theorem lock_protocol:
  assumes "map_of (open_files s) fd1 = Some x" and "map_of (open_files s) fd2 = Some y" and "of_file x = of_file y"
    and "\<not> f_locked (fobj s (of_file x))" and "a \<in> {F_RDLCK, F_WRLCK}" and "b \<in> {F_RDLCK, F_WRLCK}"
  shows "\<exists>t u. FcntlFile fd1 a s = (0, t) \<and> f_locked (fobj t (of_file x))
     \<and> FcntlFile fd2 b t = (- 1, set_errno EACCES t)
     \<and> FcntlFile fd2 F_UNLCK t = (0, u) \<and> FcntlFile fd1 F_UNLCK u = (- 1, set_errno ENOLCK u)
     \<and> fst (FcntlFile fd2 b u) = 0"
  using assms by (auto simp: FcntlFile_def GetOpenFile_def Let_def upd_file_def)

end
