(* ===== verification/Demo_Calls.thy ===== *)
theory Demo_Calls
  imports Demo_Device Directories
begin

text \<open>
  Calls on the small file system of \<open>Demo_State\<close>: \<open>unlink\<close>, \<open>mkdir\<close>, \<open>readdir\<close> and locks, each
  as an instance of its property.
\<close>

text \<open>The same file system with the file not open.\<close>

definition demo_closed :: fs where
  "demo_closed = demo_fs\<lparr>fobj := (\<lambda>_. File_new 1)\<rparr>"

lemma demo_closed_ok: "fs_ok demo_closed"
proof (rule fs_ok_cong [OF demo_fs_ok])
  show "io_ok demo_closed" using demo_io by (simp add: io_ok_def demo_closed_def)
qed (simp_all add: demo_closed_def)

lemma demo_closed_acc:
  "File_file_size demo_closed 0 = 0" "File_fh demo_closed 0 = 1" "File_dh demo_closed 0 = 0" "File_file_name demo_closed 0 = ''a''"
  "Dir_dh demo_closed d = 0" "f_items (fobj demo_closed 0) = []" "f_nlink (fobj demo_closed 0) = 0" "f_meta (fobj demo_closed 0) = 1"
proof -
  have f: "f_meta (fobj demo_fs 0) = 1" "fmetas demo_closed = fmetas demo_fs" "f_meta (fobj demo_closed 0) = 1"
    "dobj demo_closed = dobj demo_fs" "dmetas demo_closed = dmetas demo_fs"
    by (simp_all add: demo_closed_def File_new_def) (simp add: demo_fs_def File_new_def)
  show "File_file_size demo_closed 0 = 0" "File_fh demo_closed 0 = 1" "File_dh demo_closed 0 = 0" "File_file_name demo_closed 0 = ''a''"
    "Dir_dh demo_closed d = 0"
    using demo_fobj(2-5) [of 0] demo_dobj(1) [of d] by (simp_all add: obj_acc_defs f)
qed (simp_all add: demo_closed_def File_new_def)

theorem unlink_frees_witness:
  "\<exists>t. unlink ''/a'' demo_closed = Some (0, t) \<and> fst (GetCreatedFile ''/a'' t) = None"
proof -
  have dv: "675282944 \<le> unat (dev_size (dev demo_closed))" by (simp add: demo_closed_def demo_dev_size)
  have wf: "file_wf demo_closed 0" "fbs_in_range demo_closed 0"
    by (simp add: file_wf_def demo_closed_acc) (simp add: fbs_in_range_def demo_closed_acc, simp add: demo_closed_def demo_fs_def)
  have h: "File_fh demo_closed 0 < 100000" "f_meta (fobj demo_closed 0) = File_fh demo_closed 0" "f_nlink (fobj demo_closed 0) \<le> 0"
    by (simp_all add: demo_closed_acc)
  have t: "map_of (created_dirs demo_closed) ''/'' = Some 0" "map_of (created_dirs demo_closed) (''/'' @ ''a'' @ ''/'') = None"
    using demo_tables by (simp_all add: demo_closed_def)
  have "map_of (created_fhs demo_closed) 1 = Some 0" "map_of (d_items (dobj demo_closed 0)) 1 = Some 0"
    "map_of (created_files demo_closed) (0, ''a'') = Some 0"
    by (simp_all add: demo_closed_def demo_fs_def)
  then have l: "linked demo_closed 0 ''a'' 0" by (simp add: linked_def demo_closed_acc)
  have len: "length (''/'' @ ''a'') < 767" "length ''a'' < 64" by simp_all
  from unlink_frees [OF demo_closed_ok dv wf h demo_names(1) len(1) demo_names(2) len(2) t l] show ?thesis by auto
qed

theorem mkdir_rmdir_witness:
  "\<exists>t u. CreateDirectory ''/b'' demo_fs = Some (0, t) \<and> DeleteDirectory ''/b'' False t = (0, u)"
proof -
  have dv: "675282944 \<le> unat (dev_size (dev demo_fs))" by (simp add: demo_dev_size)
  have len: "length (''/'' @ ''b'') < 767" "NUL \<notin> set ''/''" by simp_all
  have c: "fst (DirHandle_CheckFileExist (''/'' @ ''b'') True demo_fs)"
  proof -
    have g: "GetCreatedFile ''/b'' demo_fs = (None, set_errno ENOENT demo_fs)"
      using FileHandle_TransformPath_path [OF demo_names(1,3), of demo_fs] GetCreatedDirectory_path [OF demo_names(1), of demo_fs]
        demo_dobj(1) [of 0] demo_tables by (simp add: GetCreatedFile_def GetCreatedFile_key_def)
    have "GetDirName (''/'' @ ''b'') = ''/''" by (rule GetDirName_file [OF demo_names(1,3)])
    then show ?thesis using g
      by (simp add: DirHandle_CheckFileExist_def IsMountPoint_def strip_slash_def ends_with_slash_def)
  qed
  have t: "map_of (created_dirs demo_fs) ''/'' = Some 0" "0 < dobj_next demo_fs" "map_of (created_dirs demo_fs) (''/'' @ ''b'' @ ''/'') = None"
    "free_dhs demo_fs = 1 # [2]" "spare_dir demo_fs 1" "map_of (created_dhs demo_fs) 1 = None"
    "map_of (d_childs (dobj demo_fs 0)) 1 = None" "d_meta (dobj demo_fs 0) \<noteq> 1"
    by (simp_all add: spare_dir_def demo_metas demo_fs_def Directory_new_def)
  from mkdir_rmdir [OF demo_fs_ok dv demo_names(1,3) len c t] show ?thesis by auto
qed

text \<open>A stream of the root directory, just opened.\<close>

definition demo_stream :: bfs where
  "demo_stream = \<lparr>b_fs = demo_fs, b_open_dirs = [(5, \<lparr>bd_inited = False, bd_fd = 8, bd_index = 0, bd_dir = 0, bd_items = []\<rparr>)], b_next = 6\<rparr>"

theorem readdir_lists_children_witness:
  "\<exists>b'. bfs_readdir (\<lambda>_ _. False) ''/'' 5 demo_stream = Some ((0, [''.'', ''..'', ''a'']), b')"
proof -
  have d: "d_childs (dobj demo_fs 0) = []" "d_items (dobj demo_fs 0) = [(1, 0)]" by (simp_all add: demo_fs_def Directory_new_def)
  have "map_of (b_open_dirs demo_stream) 5 = Some \<lparr>bd_inited = False, bd_fd = 8, bd_index = 0, bd_dir = 0, bd_items = []\<rparr>"
    "b_fs demo_stream = demo_fs" by (simp_all add: demo_stream_def)
  with readdir_lists_children [OF this(1), of undefined "''/''"] show ?thesis
    by (simp add: d demo_fobj)
qed

theorem lock_protocol_witness:
  "\<exists>t. FcntlFile 7 F_WRLCK demo_fs = (0, t) \<and> FcntlFile 7 F_RDLCK t = (- 1, set_errno EACCES t)"
proof -
  have o: "map_of (open_files demo_fs) 7 = Some \<lparr>of_file = 0, of_append_pos = 0\<rparr>" by (simp add: demo_fs_def)
  have "\<not> f_locked (fobj demo_fs (of_file \<lparr>of_file = 0, of_append_pos = 0\<rparr>))" by (simp add: demo_fs_def File_new_def)
  from lock_protocol [OF o o refl this, of F_WRLCK F_RDLCK] show ?thesis by auto
qed

end
