(* ===== verification/File_Spec.thy ===== *)
theory File_Spec
  imports Mounted
begin

text \<open>
  What a file promises: a list of bytes, with \<open>pwrite\<close> and \<open>pread\<close> as the obvious operations on
  it. A sequence of calls through a descriptor refines the same sequence on the list: the abstraction
  function reads the bytes off the device, through the block table of the file.
\<close>

section \<open>The specification\<close>

definition spec_write :: "nat \<Rightarrow> u8 list \<Rightarrow> u8 list \<Rightarrow> u8 list" where
  "spec_write off buf xs = take off xs @ buf @ drop (off + length buf) xs"

definition spec_read :: "nat \<Rightarrow> nat \<Rightarrow> u8 list \<Rightarrow> u8 list" where
  "spec_read off n xs = take n (drop off xs)"

datatype io_call = Wr u64 "u8 list" | Rd u64 u64

datatype io_out = Written int | Got "u8 list"

fun spec_run :: "io_call list \<Rightarrow> u8 list \<Rightarrow> io_out list \<times> u8 list" where
  "spec_run [] xs = ([], xs)"
| "spec_run (Wr off buf # cs) xs =
     (let (os, ys) = spec_run cs (spec_write (unat off) buf xs) in (Written (int (length buf)) # os, ys))"
| "spec_run (Rd off n # cs) xs =
     (let (os, ys) = spec_run cs xs in (Got (spec_read (unat off) (unat n) xs) # os, ys))"

text \<open>
  Requests within the limits of the code that leave no hole: a write starts at or before the end of the file,
  unless it is empty.
\<close>

fun calls_ok :: "io_call list \<Rightarrow> nat \<Rightarrow> bool" where
  "calls_ok [] len \<longleftrightarrow> True"
| "calls_ok (Wr off buf # cs) len \<longleftrightarrow> (buf \<noteq> [] \<longrightarrow> unat off \<le> len \<and> unat off + length buf \<le> unat kBlockFsMaxUDiskSize)
     \<and> calls_ok cs (if buf = [] then len else max len (unat off + length buf))"
| "calls_ok (Rd off n # cs) len \<longleftrightarrow> unat off + unat n < 2 ^ 64 \<and> calls_ok cs len"

section \<open>The code\<close>

text \<open>The same calls through a descriptor; a failing write ends the run.\<close>

fun code_run :: "int \<Rightarrow> io_call list \<Rightarrow> fs \<Rightarrow> (io_out list \<times> fs) option" where
  "code_run fd [] s = Some ([], s)"
| "code_run fd (Wr off buf # cs) s = do {
     (r, s) \<leftarrow> PwriteFile fd buf (word_of_nat (length buf)) off s;
     if r < 0 then Some ([Written r], s)
     else do { (os, s) \<leftarrow> code_run fd cs s; Some (Written r # os, s) }
   }"
| "code_run fd (Rd off n # cs) s = do {
     ((r, buf), s) \<leftarrow> PreadFile fd n off (replicate (unat n) 0) s;
     (os, s) \<leftarrow> code_run fd cs s;
     Some (Got (take (nat r) buf) # os, s)
   }"

definition file_content :: "fs \<Rightarrow> nat \<Rightarrow> u8 list" where
  "file_content s f = map (file_byte s f) [0..<unat (File_file_size s f)]"

lemma length_file_content [simp]: "length (file_content s f) = unat (File_file_size s f)"
  by (simp add: file_content_def)

lemma write_refines:
  assumes "ready s f" "buf \<noteq> []" "unat off \<le> unat (File_file_size s f)" "unat off + length buf \<le> unat kBlockFsMaxUDiskSize"
    and "map_of (open_files s) fd = Some x" "of_file x = f"
  shows "\<exists>r t. PwriteFile fd buf (word_of_nat (length buf)) off s = Some (r, t)
     \<and> (r = - 1 \<and> unat (File_file_size s f) < unat off + length buf \<and> \<not> can_grow s f (unat off + length buf)
       \<or> r = int (length buf) \<and> ready t f \<and> file_content t f = spec_write (unat off) buf (file_content s f)
          \<and> (\<exists>y. map_of (open_files t) fd = Some y \<and> of_file y = f))"
proof -
  let ?sz = "word_of_nat (length buf) :: u64" and ?off = "unat off" and ?n = "length buf"
  have "?n < 2 ^ 64" using assms(4) by (simp add: layout_consts)
  then have sz: "unat ?sz = ?n" by (simp add: unsigned_of_nat take_bit_nat_eq_self)
  have nz: "?sz \<noteq> 0" using sz assms(2) by (metis length_0_conv unat_0)
  have mx: "?off + unat ?sz \<le> unat kBlockFsMaxUDiskSize" using assms(4) sz by simp
  obtain r t where w: "OpenFile_pwrite fd f buf ?sz off s = Some (r, t)" and
    c: "r = - 1 \<and> unat (File_file_size s f) < ?off + ?n \<and> \<not> can_grow s f (?off + ?n)
       \<or> r = int ?n \<and> ready t f \<and> open_files t = open_files (add_append_pos fd (int ?n) s)
         \<and> unat (File_file_size t f) = max (unat (File_file_size s f)) (?off + ?n)
         \<and> (\<forall>i \<in> {?off..<?off + ?n}. file_byte t f i = buf ! (i - ?off))
         \<and> (\<forall>i < unat (File_file_size s f). i \<notin> {?off..<?off + ?n} \<longrightarrow> file_byte t f i = file_byte s f i)"
    using pwrite_file [OF assms(1) nz sz [symmetric] mx, of fd] unfolding sz by blast
  have p: "PwriteFile fd buf ?sz off s = Some (r, t)"
    using w assms(5,6) by (simp add: PwriteFile_def GetOpenFile_some)
  from c show ?thesis
  proof
    assume "r = - 1 \<and> unat (File_file_size s f) < ?off + ?n \<and> \<not> can_grow s f (?off + ?n)"
    then show ?thesis using p by blast
  next
    assume a: "r = int ?n \<and> ready t f \<and> open_files t = open_files (add_append_pos fd (int ?n) s)
         \<and> unat (File_file_size t f) = max (unat (File_file_size s f)) (?off + ?n)
         \<and> (\<forall>i \<in> {?off..<?off + ?n}. file_byte t f i = buf ! (i - ?off))
         \<and> (\<forall>i < unat (File_file_size s f). i \<notin> {?off..<?off + ?n} \<longrightarrow> file_byte t f i = file_byte s f i)"
    have "file_content t f = spec_write ?off buf (file_content s f)"
    proof (rule nth_equalityI)
      show len: "length (file_content t f) = length (spec_write ?off buf (file_content s f))"
        using a assms(3) by (simp add: spec_write_def max_def)
      fix i
      assume i: "i < length (file_content t f)"
      then have it: "file_content t f ! i = file_byte t f i" by (simp add: file_content_def)
      show "file_content t f ! i = spec_write ?off buf (file_content s f) ! i"
      proof (cases "i \<in> {?off..<?off + ?n}")
        case True
        then have "i - unat off < length buf" by auto
        then show ?thesis using True it a assms(3) by (simp add: spec_write_def nth_append)
      next
        case False
        then have "i < unat (File_file_size s f)" using i a assms(3) by (auto simp: max_def split: if_splits)
        then have "file_byte t f i = file_content s f ! i" using a False by (simp add: file_content_def)
        then show ?thesis using it False assms(3) \<open>i < unat (File_file_size s f)\<close>
          by (cases "i < ?off") (auto simp: spec_write_def nth_append)
      qed
    qed
    moreover have "\<exists>y. map_of (open_files t) fd = Some y \<and> of_file y = f"
      using a assms(5,6) by (simp add: map_of_add_append_pos)
    ultimately show ?thesis using p a by blast
  qed
qed

text \<open>An empty write does nothing.\<close>

lemma spec_write_Nil [simp]: "spec_write n [] xs = xs"
  by (simp add: spec_write_def)

lemma write_nothing:
  assumes "map_of (open_files s) fd = Some x"
  shows "PwriteFile fd [] (word_of_nat (length [])) off s = Some (0, s)"
  using assms by (simp add: PwriteFile_def GetOpenFile_some OpenFile_pwrite_def)

lemma read_refines:
  assumes "ready s f" "unat off + unat n < 2 ^ 64"
    and "map_of (open_files s) fd = Some x" "of_file x = f"
  shows "\<exists>r buf t. PreadFile fd n off (replicate (unat n) 0) s = Some ((r, buf), t)
     \<and> take (nat r) buf = spec_read (unat off) (unat n) (file_content s f)
     \<and> ready t f \<and> file_content t f = file_content s f \<and> (\<exists>y. map_of (open_files t) fd = Some y \<and> of_file y = f)"
proof (cases "n = 0 \<or> unat (File_file_size s f) \<le> unat off")
  case True
  then have "spec_read (unat off) (unat n) (file_content s f) = []" by (auto simp: spec_read_def)
  moreover have "n = 0 \<or> File_file_size s f \<le> off" using True by (simp add: word_le_nat_alt)
  then have "PreadFile fd n off (replicate (unat n) 0) s = Some ((0, replicate (unat n) 0), s)"
    using assms(3,4) by (simp add: PreadFile_def GetOpenFile_some OpenFile_pread_def)
  ultimately show ?thesis using assms by (intro exI conjI) (assumption | simp)+
next
  case nt: False
  let ?m = "min (unat n) (unat (File_file_size s f) - unat off)" and ?z = "replicate (unat n) (0 :: u8)"
  have ok: "fs_ok s" "file_wf s f" using assms(1) by (simp_all add: ready_def)
  have lt: "off < File_file_size s f" using nt by (simp add: word_less_nat_alt)
  obtain k where k: "OpenFile_pread fd f n off ?z s = Some ((int ?m, map (file_byte s f) [unat off..<unat off + ?m] @ drop ?m ?z),
      add_append_pos fd (int ?m) (s\<lparr>kern := k\<rparr>))" "k_disk k = k_disk (kern s)" "benign (k_script k)"
    using pread_file [OF ok _ lt assms(2), of ?z ?m fd] nt by auto
  let ?t = "add_append_pos fd (int ?m) (s\<lparr>kern := k\<rparr>)"
  have sf: "same_file s ?t f" by (rule same_file_append_pos)
  have kt: "kern ?t = k" by (simp add: add_append_pos_def)
  have fo: "fs_ok ?t" using same_file_fs_ok [OF sf] k(3) kt ok(1) by simp
  have "take ?m (map (file_byte s f) [unat off..<unat off + ?m] @ drop ?m ?z) = map (file_byte s f) [unat off..<unat off + ?m]" by simp
  also have "\<dots> = spec_read (unat off) (unat n) (file_content s f)"
    by (rule nth_equalityI) (auto simp: spec_read_def file_content_def)
  finally have rd: "take ?m (map (file_byte s f) [unat off..<unat off + ?m] @ drop ?m ?z) = spec_read (unat off) (unat n) (file_content s f)" .
  have "file_content ?t f = file_content s f"
  proof -
    have "file_byte ?t f i = file_byte s f i" for i
      using same_file_ids [OF sf] same_file_pos [OF sf] kt k(2) by (simp add: file_byte_def)
    moreover have "File_file_size ?t f = File_file_size s f" using sf by (simp add: same_file_def)
    ultimately show ?thesis by (simp add: file_content_def)
  qed
  moreover have "\<exists>y. map_of (open_files ?t) fd = Some y \<and> of_file y = f"
    using assms(3,4) by (simp add: map_of_add_append_pos)
  moreover have "PreadFile fd n off ?z s = Some ((int ?m, map (file_byte s f) [unat off..<unat off + ?m] @ drop ?m ?z), ?t)"
    using k(1) assms(3,4) by (simp add: PreadFile_def GetOpenFile_some)
  moreover have "take (nat (int ?m)) (map (file_byte s f) [unat off..<unat off + ?m] @ drop ?m ?z) = spec_read (unat off) (unat n) (file_content s f)"
    unfolding nat_int by (rule rd)
  ultimately show ?thesis using same_file_ready [OF sf assms(1) fo] by blast
qed

section \<open>Refinement\<close>

lemma length_spec_write: "off \<le> length xs \<Longrightarrow> length (spec_write off buf xs) = max (length xs) (off + length buf)"
  by (simp add: spec_write_def max_def)

text \<open>
  A run that stops because a write finds no room: everything before it was as specified, and at that point
  the file would have to grow and cannot.
\<close>

definition out_of_room :: "int \<Rightarrow> nat \<Rightarrow> io_call list \<Rightarrow> fs \<Rightarrow> io_out list \<Rightarrow> bool" where
  "out_of_room fd f cs s os \<longleftrightarrow> (\<exists>k off buf t. k < length cs \<and> cs ! k = Wr off buf
     \<and> code_run fd (take k cs) s = Some (fst (spec_run (take k cs) (file_content s f)), t)
     \<and> file_content t f = snd (spec_run (take k cs) (file_content s f))
     \<and> length (file_content t f) < unat off + length buf \<and> \<not> can_grow t f (unat off + length buf)
     \<and> os = fst (spec_run (take k cs) (file_content s f)) @ [Written (- 1)])"

lemma out_of_room_now:
  assumes "unat (File_file_size s f) < unat off + length buf" "\<not> can_grow s f (unat off + length buf)"
  shows "out_of_room fd f (Wr off buf # cs) s [Written (- 1)]"
  unfolding out_of_room_def
  by (rule exI [of _ 0], rule exI [of _ off], rule exI [of _ buf], rule exI [of _ s]) (use assms in simp)

text \<open>A call that went well leaves the rest of the run.\<close>

lemma out_of_room_later:
  assumes "out_of_room fd f cs t os"
    and "\<And>ds os' u. code_run fd ds t = Some (os', u) \<Longrightarrow> code_run fd (c # ds) s = Some (x # os', u)"
    and "\<And>ds. spec_run (c # ds) (file_content s f) = (let (os, ys) = spec_run ds (file_content t f) in (x # os, ys))"
  shows "out_of_room fd f (c # cs) s (x # os)"
proof -
  obtain k off buf u where k: "k < length cs" "cs ! k = Wr off buf"
    "code_run fd (take k cs) t = Some (fst (spec_run (take k cs) (file_content t f)), u)"
    "file_content u f = snd (spec_run (take k cs) (file_content t f))"
    "length (file_content u f) < unat off + length buf" "\<not> can_grow u f (unat off + length buf)"
    "os = fst (spec_run (take k cs) (file_content t f)) @ [Written (- 1)]"
    using assms(1) unfolding out_of_room_def by blast
  have t: "take (Suc k) (c # cs) = c # take k cs" by simp
  have sp: "spec_run (c # take k cs) (file_content s f)
      = (x # fst (spec_run (take k cs) (file_content t f)), snd (spec_run (take k cs) (file_content t f)))"
    by (simp add: assms(3) split_beta)
  show ?thesis unfolding out_of_room_def
    by (rule exI [of _ "Suc k"], rule exI [of _ off], rule exI [of _ buf], rule exI [of _ u])
      (use k assms(2) [OF k(3)] in \<open>simp only: t sp\<close>, simp)
qed

lemma code_refines:
  assumes "ready s f" "calls_ok cs (unat (File_file_size s f))" "map_of (open_files s) fd = Some x" "of_file x = f"
  shows "\<exists>os t. code_run fd cs s = Some (os, t)
     \<and> (os = fst (spec_run cs (file_content s f)) \<and> file_content t f = snd (spec_run cs (file_content s f)) \<and> ready t f
       \<or> out_of_room fd f cs s os)"
  using assms
proof (induction cs arbitrary: s x)
  case Nil
  then show ?case by simp
next
  case (Cons c cs)
  let ?xs = "file_content s f"
  show ?case
  proof (cases c)
    case (Wr off buf)
    have ok: "calls_ok cs (if buf = [] then unat (File_file_size s f) else max (unat (File_file_size s f)) (unat off + length buf))"
      using Cons.prems(2) Wr by simp
    obtain r t where
      w: "PwriteFile fd buf (word_of_nat (length buf)) off s = Some (r, t)" and
      c: "r = - 1 \<and> unat (File_file_size s f) < unat off + length buf \<and> \<not> can_grow s f (unat off + length buf)
        \<or> r = int (length buf) \<and> ready t f \<and> file_content t f = spec_write (unat off) buf ?xs
          \<and> (\<exists>y. map_of (open_files t) fd = Some y \<and> of_file y = f)"
    proof (cases "buf = []")
      case True
      then show ?thesis using that [of 0 s] write_nothing [OF Cons.prems(3)] Cons.prems(1,3,4) by simp
    next
      case False
      then have "unat off \<le> unat (File_file_size s f)" "unat off + length buf \<le> unat kBlockFsMaxUDiskSize"
        using Cons.prems(2) Wr by simp_all
      from write_refines [OF Cons.prems(1) False this Cons.prems(3,4)] that show ?thesis by blast
    qed
    from c show ?thesis
    proof
      assume a: "r = - 1 \<and> unat (File_file_size s f) < unat off + length buf \<and> \<not> can_grow s f (unat off + length buf)"
      then have "code_run fd (c # cs) s = Some ([Written (- 1)], t)" using w Wr by simp
      then show ?thesis using a out_of_room_now Wr by blast
    next
      assume a: "r = int (length buf) \<and> ready t f \<and> file_content t f = spec_write (unat off) buf ?xs
          \<and> (\<exists>y. map_of (open_files t) fd = Some y \<and> of_file y = f)"
      then obtain y where y: "map_of (open_files t) fd = Some y" "of_file y = f" by blast
      have "unat (File_file_size t f) = length (file_content t f)" by simp
      also have "\<dots> = (if buf = [] then unat (File_file_size s f) else max (unat (File_file_size s f)) (unat off + length buf))"
        using a length_spec_write [of "unat off" ?xs buf] Cons.prems(2) Wr by simp
      finally have co: "calls_ok cs (unat (File_file_size t f))" using ok by simp
      have rt: "ready t f" and ct: "file_content t f = spec_write (unat off) buf ?xs" using a by simp_all
      have run: "code_run fd (c # ds) s = Some (Written r # os', u)" if "code_run fd ds t = Some (os', u)" for ds os' u
        using w a that Wr by simp
      have sp: "spec_run (c # ds) ?xs = (let (os, ys) = spec_run ds (file_content t f) in (Written r # os, ys))" for ds
        using Wr ct a by simp
      from Cons.IH [OF rt co y] obtain os' u where u: "code_run fd cs t = Some (os', u)"
        "os' = fst (spec_run cs (file_content t f)) \<and> file_content u f = snd (spec_run cs (file_content t f)) \<and> ready u f
          \<or> out_of_room fd f cs t os'" by blast
      then show ?thesis using run [OF u(1)] out_of_room_later [OF _ run sp] by (auto simp: sp split_beta)
    qed
  next
    case (Rd off n)
    have ok: "unat off + unat n < 2 ^ 64" "calls_ok cs (unat (File_file_size s f))" using Cons.prems(2) Rd by simp_all
    from read_refines [OF Cons.prems(1) ok(1) Cons.prems(3,4)] obtain r buf t where
      w: "PreadFile fd n off (replicate (unat n) 0) s = Some ((r, buf), t)"
      and a: "take (nat r) buf = spec_read (unat off) (unat n) ?xs" and rt: "ready t f" and ct: "file_content t f = ?xs"
      and "\<exists>y. map_of (open_files t) fd = Some y \<and> of_file y = f" by blast
    then obtain y where y: "map_of (open_files t) fd = Some y" "of_file y = f" by blast
    have "unat (File_file_size t f) = unat (File_file_size s f)"
      using arg_cong [OF ct, of length] by simp
    then have co: "calls_ok cs (unat (File_file_size t f))" using ok(2) by simp
    have run: "code_run fd (c # ds) s = Some (Got (take (nat r) buf) # os', u)" if "code_run fd ds t = Some (os', u)" for ds os' u
      using w that Rd by simp
    have sp: "spec_run (c # ds) ?xs = (let (os, ys) = spec_run ds (file_content t f) in (Got (take (nat r) buf) # os, ys))" for ds
      using Rd ct a by simp
    from Cons.IH [OF rt co y] obtain os' u where u: "code_run fd cs t = Some (os', u)"
      "os' = fst (spec_run cs (file_content t f)) \<and> file_content u f = snd (spec_run cs (file_content t f)) \<and> ready u f
        \<or> out_of_room fd f cs t os'" by blast
    then show ?thesis using run [OF u(1)] out_of_room_later [OF _ run sp] by (auto simp: sp split_beta)
  qed
qed

end
