(* ===== verification/Config_Parser.thy ===== *)
theory Config_Parser
  imports Comm_Utils
begin

text \<open>
  The configuration file (\<open>lib/config_parser.h\<close>, \<open>lib/config_parser.cc\<close>): an INI file of sections
  with \<open>key=value\<close> items, each with the comment lines above it and the comment at the end of its
  line. A section pointer of the source is the position of the section in \<open>sections_vt\<close>. The
  file system outside is a function from paths to contents. Output parameters are returned.
\<close>

section \<open>Strings\<close>

definition isspace :: "char \<Rightarrow> bool" where
  "isspace c \<longleftrightarrow> c \<in> set [CHR '' '', CHR 0x09, CHR 0x0A, CHR 0x0B, CHR 0x0C, CHR 0x0D]"

abbreviation NEWLINE :: char where "NEWLINE \<equiv> CHR 0x0A"

definition trim :: "string \<Rightarrow> string" where
  "trim str = (let str = dropWhile (\<lambda>c. isspace c \<and> c \<noteq> NUL) str in rev (dropWhile isspace (rev str)))"

definition trimleft :: "char \<Rightarrow> string \<Rightarrow> string" where
  "trimleft c str = dropWhile (\<lambda>x. x = c \<and> x \<noteq> NUL) str"

definition trimright :: "char \<Rightarrow> string \<Rightarrow> string" where
  "trimright c str = rev (dropWhile (\<lambda>x. x = c) (rev str))"

text \<open>\<open>std::string::find\<close>.\<close>

fun find_sub :: "string \<Rightarrow> string \<Rightarrow> nat option" where
  "find_sub sep str =
     (if take (length sep) str = sep then Some 0
      else case str of [] \<Rightarrow> None | c # cs \<Rightarrow> map_option Suc (find_sub sep cs))"

declare find_sub.simps [simp del]

text \<open>
  The part to the right starts one character after the separator, whatever its length. (With an
  empty separator and an empty string the source throws; no call does this.)
\<close>

definition split :: "string \<Rightarrow> string \<Rightarrow> bool \<times> string \<times> string" where
  "split str sep =
     (case find_sub sep str of
        Some pos \<Rightarrow> (True, trim (take pos str), trim (drop (pos + 1) str))
      | None \<Rightarrow> (False, trim str, ''''))"

text \<open>\<open>strncmp (a, b, n) == 0\<close>, on the C strings of \<open>a\<close> and \<open>b\<close>.\<close>

fun strncmp_eq :: "nat \<Rightarrow> string \<Rightarrow> string \<Rightarrow> bool" where
  "strncmp_eq 0 a b = True"
| "strncmp_eq (Suc n) a b =
     (let x = (case a of [] \<Rightarrow> NUL | c # _ \<Rightarrow> c); y = (case b of [] \<Rightarrow> NUL | c # _ \<Rightarrow> c)
      in x = y \<and> (x = NUL \<or> strncmp_eq n (tl a) (tl b)))"

definition StartWith :: "string \<Rightarrow> string \<Rightarrow> bool" where
  "StartWith str prefix = strncmp_eq (length prefix) str prefix"

definition towupper :: "char \<Rightarrow> char" where
  "towupper c = (let n = of_char c :: nat in if 97 \<le> n \<and> n \<le> 122 then char_of (n - 32) else c)"

definition StringCmpIgnoreCase :: "string \<Rightarrow> string \<Rightarrow> bool" where
  "StringCmpIgnoreCase str1 str2 \<longleftrightarrow> map towupper str1 = map towupper str2"

text \<open>\<open>std::getline\<close> until it fails: the last line may lack its newline.\<close>

function getlines :: "string \<Rightarrow> string list" where
  "getlines s =
     (if s = [] then []
      else takeWhile (\<lambda>c. c \<noteq> NEWLINE) s #
        (case dropWhile (\<lambda>c. c \<noteq> NEWLINE) s of [] \<Rightarrow> [] | _ # r \<Rightarrow> getlines r))"
  by pat_completeness auto
termination
  by (relation "measure length") (auto, metis length_Cons length_dropWhile_le less_eq_Suc_le)

declare getlines.simps [simp del]

text \<open>\<open>atoi\<close>; \<open>None\<close> when the number does not fit, which is undefined.\<close>

definition isdigit :: "char \<Rightarrow> bool" where
  "isdigit c \<longleftrightarrow> 48 \<le> (of_char c :: nat) \<and> of_char c \<le> (57 :: nat)"

definition digits_val :: "string \<Rightarrow> int" where
  "digits_val ds = foldl (\<lambda>a c. 10 * a + (of_char c - 48)) 0 ds"

definition atoi :: "string \<Rightarrow> int option" where
  "atoi str =
     (let s = dropWhile isspace (takeWhile (\<lambda>c. c \<noteq> NUL) str);
          (neg, s) = (case s of [] \<Rightarrow> (False, [])
             | c # cs \<Rightarrow> if c = CHR ''-'' then (True, cs) else if c = CHR ''+'' then (False, cs) else (False, s));
          v = digits_val (takeWhile isdigit s); r = (if neg then - v else v)
      in if - (2 ^ 31) \<le> r \<and> r < 2 ^ 31 then Some r else None)"

section \<open>The parsed file\<close>

record IniItem =
  it_key :: string
  it_value :: string
  it_comment :: string
  it_rightComment :: string

record IniSection =
  sc_name :: string
  sc_comment :: string
  sc_rightComment :: string
  sc_items :: "IniItem list"

record ConfigParser =
  cp_sections :: "IniSection list"
  cp_path :: string
  cp_delim :: string
  cp_errMsg :: string

definition IniSection_new :: IniSection where
  "IniSection_new = \<lparr>sc_name = '''', sc_comment = '''', sc_rightComment = '''', sc_items = []\<rparr>"

definition ConfigParser_new :: ConfigParser where
  "ConfigParser_new = \<lparr>cp_sections = [], cp_path = '''', cp_delim = ''#'', cp_errMsg = ''''\<rparr>"

definition release :: "ConfigParser \<Rightarrow> ConfigParser" where
  "release cp = cp\<lparr>cp_path := '''', cp_sections := []\<rparr>"

abbreviation (input) RET_OK :: int where "RET_OK \<equiv> 0"
abbreviation (input) ERR_UNMATCHED_BRACKETS :: int where "ERR_UNMATCHED_BRACKETS \<equiv> 2"
abbreviation (input) ERR_SECTION_EMPTY :: int where "ERR_SECTION_EMPTY \<equiv> 3"
abbreviation (input) ERR_SECTION_ALREADY_EXISTS :: int where "ERR_SECTION_ALREADY_EXISTS \<equiv> 4"
abbreviation (input) ERR_PARSE_KEY_VALUE_FAILED :: int where "ERR_PARSE_KEY_VALUE_FAILED \<equiv> 5"
abbreviation (input) ERR_OPEN_FILE_FAILED :: int where "ERR_OPEN_FILE_FAILED \<equiv> 6"
abbreviation (input) ERR_NOT_FOUND_KEY :: int where "ERR_NOT_FOUND_KEY \<equiv> 8"
abbreviation (input) ERR_NOT_FOUND_SECTION :: int where "ERR_NOT_FOUND_SECTION \<equiv> 9"

definition getSection :: "string \<Rightarrow> ConfigParser \<Rightarrow> IniSection option" where
  "getSection section cp = find (\<lambda>s. sc_name s = section) (cp_sections cp)"

section \<open>Load\<close>

definition parse :: "string \<Rightarrow> bool \<times> string \<times> string" where
  "parse content = split content ''=''"

text \<open>The current section is an index; \<open>UpdateSection\<close> sets it to the section it appends.\<close>

definition UpdateSection :: "string \<Rightarrow> string \<Rightarrow> string \<Rightarrow> nat \<Rightarrow> ConfigParser \<Rightarrow> int \<times> nat \<times> ConfigParser" where
  "UpdateSection cleanLine comment rightComment sect cp =
     (if CHR '']'' \<notin> set cleanLine then (ERR_UNMATCHED_BRACKETS, sect, cp)
      else let len = int (length (takeWhile (\<lambda>c. c \<noteq> CHR '']'') cleanLine)) - 1 in
      if len \<le> 0 then (ERR_SECTION_EMPTY, sect, cp)
      else let s = trim (take (nat len) (drop 1 cleanLine)) in
      if getSection s cp \<noteq> None then (ERR_SECTION_ALREADY_EXISTS, sect, cp)
      else let newSection = \<lparr>sc_name = s, sc_comment = comment, sc_rightComment = rightComment, sc_items = []\<rparr>
           in (0, length (cp_sections cp), cp\<lparr>cp_sections := cp_sections cp @ [newSection]\<rparr>))"

definition AddKeyValuePair :: "string \<Rightarrow> string \<Rightarrow> string \<Rightarrow> nat \<Rightarrow> ConfigParser \<Rightarrow> int \<times> ConfigParser" where
  "AddKeyValuePair cleanLine comment rightComment sect cp =
     (case parse cleanLine of
        (False, _, _) \<Rightarrow> (ERR_PARSE_KEY_VALUE_FAILED, cp)
      | (True, key, val) \<Rightarrow>
          let item = \<lparr>it_key = key, it_value = val, it_comment = comment, it_rightComment = rightComment\<rparr>;
              s = cp_sections cp ! sect
          in (0, cp\<lparr>cp_sections := (cp_sections cp)[sect := s\<lparr>sc_items := sc_items s @ [item]\<rparr>]\<rparr>))"

definition IsCommentLine :: "string \<Rightarrow> ConfigParser \<Rightarrow> bool" where
  "IsCommentLine str cp = StartWith str (cp_delim cp)"

text \<open>The loop over the lines of the file, with the comment lines collected so far.\<close>

fun load_lines :: "string list \<Rightarrow> string \<Rightarrow> nat \<Rightarrow> ConfigParser \<Rightarrow> int \<times> ConfigParser" where
  "load_lines [] comment sect cp = (0, cp)"
| "load_lines (line # ls) comment sect cp =
     (let line = trim line in
      if line = [] then load_lines ls (comment @ [NEWLINE]) sect cp
      else if IsCommentLine line cp then load_lines ls (comment @ line @ [NEWLINE]) sect cp
      else let (_, cleanLine, rightComment) = split line (cp_delim cp);
               (err, sect, cp) =
                 (if cleanLine \<noteq> [] \<and> hd cleanLine = CHR ''['' then UpdateSection cleanLine comment rightComment sect cp
                  else let (err, cp) = AddKeyValuePair cleanLine comment rightComment sect cp in (err, sect, cp))
           in if err \<noteq> 0 then (err, cp) else load_lines ls '''' sect cp)"

definition Load :: "(string \<Rightarrow> string option) \<Rightarrow> string \<Rightarrow> ConfigParser \<Rightarrow> int \<times> ConfigParser" where
  "Load files filePath cp =
     (let cp = (release cp)\<lparr>cp_path := filePath\<rparr> in
      case files filePath of
        None \<Rightarrow> (ERR_OPEN_FILE_FAILED, cp)
      | Some content \<Rightarrow> load_lines (getlines content) '''' 0 (cp\<lparr>cp_sections := [IniSection_new]\<rparr>))"

section \<open>Save\<close>

definition ends_line :: "string \<Rightarrow> string" where
  "ends_line data = (if last data \<noteq> NEWLINE then data @ [NEWLINE] else data)"

definition render_item :: "string \<Rightarrow> string \<Rightarrow> IniItem \<Rightarrow> string" where
  "render_item dl data item =
     (let data = (if it_comment item \<noteq> '''' then ends_line (data @ it_comment item) else data);
          data = data @ it_key item @ ''='' @ it_value item;
          data = (if it_rightComment item \<noteq> '''' then data @ '' '' @ dl @ it_rightComment item else data)
      in ends_line data)"

definition render_section :: "string \<Rightarrow> string \<Rightarrow> IniSection \<Rightarrow> string" where
  "render_section dl data sect =
     (let data = (if sc_comment sect \<noteq> '''' then data @ sc_comment sect else data);
          data = (if sc_name sect \<noteq> '''' then data @ ''['' @ sc_name sect @ '']'' @ [NEWLINE] else data);
          data = (if sc_rightComment sect \<noteq> '''' then data @ '' '' @ dl @ sc_rightComment sect else data)
      in foldl (render_item dl) data (sc_items sect))"

definition render :: "ConfigParser \<Rightarrow> string" where
  "render cp = foldl (render_section (cp_delim cp)) '''' (cp_sections cp)"

text \<open>A path that cannot be opened for writing is left as it is; the result is 0 all the same.\<close>

definition SaveAs :: "(string \<Rightarrow> bool) \<Rightarrow> string \<Rightarrow> ConfigParser \<Rightarrow> (string \<Rightarrow> string option) \<Rightarrow> int \<times> (string \<Rightarrow> string option)" where
  "SaveAs writable filePath cp files =
     (0, if writable filePath then files(filePath \<mapsto> render cp) else files)"

definition Save :: "(string \<Rightarrow> bool) \<Rightarrow> ConfigParser \<Rightarrow> (string \<Rightarrow> string option) \<Rightarrow> int \<times> (string \<Rightarrow> string option)" where
  "Save writable cp files = SaveAs writable (cp_path cp) cp files"

section \<open>Reading values\<close>

text \<open>\<open>None\<close> with an error: the output parameters keep their values.\<close>

definition getValue :: "string \<Rightarrow> string \<Rightarrow> ConfigParser \<Rightarrow> int \<times> (string \<times> string) option" where
  "getValue section key cp =
     (case getSection section cp of
        None \<Rightarrow> (ERR_NOT_FOUND_SECTION, None)
      | Some sect \<Rightarrow>
         (case find (\<lambda>i. it_key i = key) (sc_items sect) of
            Some i \<Rightarrow> (RET_OK, Some (it_value i, it_comment i))
          | None \<Rightarrow> (ERR_NOT_FOUND_KEY, None)))"

definition GetStringValue :: "string \<Rightarrow> string \<Rightarrow> string \<Rightarrow> ConfigParser \<Rightarrow> int \<times> string" where
  "GetStringValue section key val cp =
     (case getValue section key cp of (err, Some (v, _)) \<Rightarrow> (err, v) | (err, None) \<Rightarrow> (err, val))"

definition GetIntValue :: "string \<Rightarrow> string \<Rightarrow> ConfigParser \<Rightarrow> (int \<times> int) option" where
  "GetIntValue section key cp =
     (let (err, strValue) = GetStringValue section key '''' cp in map_option (\<lambda>v. (err, v)) (atoi strValue))"

definition GetBoolValue :: "string \<Rightarrow> string \<Rightarrow> bool \<Rightarrow> ConfigParser \<Rightarrow> int \<times> bool" where
  "GetBoolValue section key val cp =
     (let (err, strValue) = GetStringValue section key '''' cp
      in (err, if StringCmpIgnoreCase strValue ''true'' \<or> StringCmpIgnoreCase strValue ''1'' then True
               else if StringCmpIgnoreCase strValue ''false'' \<or> StringCmpIgnoreCase strValue ''0'' then False
               else val))"

definition GetStringValueOrDefault :: "string \<Rightarrow> string \<Rightarrow> string \<Rightarrow> string \<Rightarrow> ConfigParser \<Rightarrow> string" where
  "GetStringValueOrDefault section key val dflt cp =
     (let (err, v) = GetStringValue section key val cp in if err \<noteq> 0 then dflt else v)"

definition GetIntValueOrDefault :: "string \<Rightarrow> string \<Rightarrow> int \<Rightarrow> ConfigParser \<Rightarrow> int option" where
  "GetIntValueOrDefault section key dflt cp =
     map_option (\<lambda>(err, v). if err \<noteq> 0 then dflt else v) (GetIntValue section key cp)"

definition GetBoolValueOrDefault :: "string \<Rightarrow> string \<Rightarrow> bool \<Rightarrow> bool \<Rightarrow> ConfigParser \<Rightarrow> bool" where
  "GetBoolValueOrDefault section key val dflt cp =
     (let (err, v) = GetBoolValue section key val cp in if err \<noteq> 0 then dflt else v)"

definition GetValues :: "string \<Rightarrow> string \<Rightarrow> ConfigParser \<Rightarrow> int \<times> string list \<times> string list" where
  "GetValues section key cp =
     (case getSection section cp of
        None \<Rightarrow> (ERR_NOT_FOUND_SECTION, [], [])
      | Some sect \<Rightarrow>
         (let is = filter (\<lambda>i. it_key i = key) (sc_items sect)
          in (if is = [] then ERR_NOT_FOUND_KEY else RET_OK, map it_value is, map it_comment is)))"

definition GetSections :: "string list \<Rightarrow> ConfigParser \<Rightarrow> int \<times> string list" where
  "GetSections sections cp =
     (let sections = sections @ map sc_name (cp_sections cp) in (int (length sections), sections))"

definition GetSectionNum :: "ConfigParser \<Rightarrow> int" where
  "GetSectionNum cp = int (length (cp_sections cp))"

definition HasSection :: "string \<Rightarrow> ConfigParser \<Rightarrow> bool" where
  "HasSection section cp \<longleftrightarrow> getSection section cp \<noteq> None"

definition HasKey :: "string \<Rightarrow> string \<Rightarrow> ConfigParser \<Rightarrow> bool" where
  "HasKey section key cp =
     (case getSection section cp of
        None \<Rightarrow> False | Some sect \<Rightarrow> list_ex (\<lambda>i. it_key i = key) (sc_items sect))"

text \<open>An empty key asks for the comment of the section.\<close>

definition GetComment :: "string \<Rightarrow> string \<Rightarrow> string \<Rightarrow> ConfigParser \<Rightarrow> (int \<times> string) \<times> ConfigParser" where
  "GetComment section key comment cp =
     (case getSection section cp of
        None \<Rightarrow> ((ERR_NOT_FOUND_SECTION, comment), cp\<lparr>cp_errMsg := ''not find the section '' @ section\<rparr>)
      | Some sect \<Rightarrow>
         (if key = '''' then ((RET_OK, sc_comment sect), cp)
          else case find (\<lambda>i. it_key i = key) (sc_items sect) of
            Some i \<Rightarrow> ((RET_OK, it_comment i), cp)
          | None \<Rightarrow> ((ERR_NOT_FOUND_KEY, comment), cp\<lparr>cp_errMsg := ''not find the key '' @ section\<rparr>)))"

definition GetRightComment :: "string \<Rightarrow> string \<Rightarrow> string \<Rightarrow> ConfigParser \<Rightarrow> (int \<times> string) \<times> ConfigParser" where
  "GetRightComment section key rightComment cp =
     (case getSection section cp of
        None \<Rightarrow> ((ERR_NOT_FOUND_SECTION, rightComment), cp\<lparr>cp_errMsg := ''not find the section '' @ section\<rparr>)
      | Some sect \<Rightarrow>
         (if key = '''' then ((RET_OK, sc_rightComment sect), cp)
          else case find (\<lambda>i. it_key i = key) (sc_items sect) of
            Some i \<Rightarrow> ((RET_OK, it_rightComment i), cp)
          | None \<Rightarrow> ((ERR_NOT_FOUND_KEY, rightComment), cp)))"

definition GetErrMsg :: "ConfigParser \<Rightarrow> string" where
  "GetErrMsg cp = cp_errMsg cp"

section \<open>Changing values\<close>

text \<open>An assignment through the iterator of the first element that satisfies \<open>P\<close>.\<close>

fun update_first :: "('a \<Rightarrow> bool) \<Rightarrow> ('a \<Rightarrow> 'a) \<Rightarrow> 'a list \<Rightarrow> 'a list" where
  "update_first P f [] = []"
| "update_first P f (x # xs) = (if P x then f x # xs else x # update_first P f xs)"

fun remove_first :: "('a \<Rightarrow> bool) \<Rightarrow> 'a list \<Rightarrow> 'a list" where
  "remove_first P [] = []"
| "remove_first P (x # xs) = (if P x then xs else x # remove_first P xs)"

definition upd_section :: "string \<Rightarrow> (IniSection \<Rightarrow> IniSection) \<Rightarrow> ConfigParser \<Rightarrow> ConfigParser" where
  "upd_section section f cp = cp\<lparr>cp_sections := update_first (\<lambda>s. sc_name s = section) f (cp_sections cp)\<rparr>"

definition set_item :: "string \<Rightarrow> string \<Rightarrow> string \<Rightarrow> IniItem list \<Rightarrow> IniItem list" where
  "set_item key val comt is =
     (if list_ex (\<lambda>i. it_key i = key) is
      then update_first (\<lambda>i. it_key i = key) (\<lambda>i. i\<lparr>it_value := val, it_comment := comt\<rparr>) is
      else is @ [\<lparr>it_key = key, it_value = val, it_comment = comt, it_rightComment = ''''\<rparr>])"

definition setValue :: "string \<Rightarrow> string \<Rightarrow> string \<Rightarrow> string \<Rightarrow> ConfigParser \<Rightarrow> int \<times> ConfigParser" where
  "setValue section key val comment cp =
     (let comt = (if comment \<noteq> '''' then cp_delim cp @ comment else comment);
          sect = IniSection_new\<lparr>sc_name := section\<rparr>;
          cp = (if getSection section cp \<noteq> None then cp
                else cp\<lparr>cp_sections := (if section = '''' then sect # cp_sections cp else cp_sections cp @ [sect])\<rparr>)
      in (RET_OK, upd_section section (\<lambda>s. s\<lparr>sc_items := set_item key val comt (sc_items s)\<rparr>) cp))"

definition SetStringValue :: "string \<Rightarrow> string \<Rightarrow> string \<Rightarrow> ConfigParser \<Rightarrow> int \<times> ConfigParser" where
  "SetStringValue section key val cp = setValue section key val '''' cp"

text \<open>\<open>snprintf\<close> with \<open>%d\<close>; 64 bytes hold every \<open>int\<close>.\<close>

definition int_to_string :: "int \<Rightarrow> string" where
  "int_to_string v = (if v < 0 then ''-'' @ to_string (nat (- v)) else to_string (nat v))"

definition SetIntValue :: "string \<Rightarrow> string \<Rightarrow> int \<Rightarrow> ConfigParser \<Rightarrow> int \<times> ConfigParser" where
  "SetIntValue section key v cp = setValue section key (int_to_string v) '''' cp"

definition SetBoolValue :: "string \<Rightarrow> string \<Rightarrow> bool \<Rightarrow> ConfigParser \<Rightarrow> int \<times> ConfigParser" where
  "SetBoolValue section key v cp = setValue section key (if v then ''true'' else ''false'') '''' cp"

definition SetComment :: "string \<Rightarrow> string \<Rightarrow> string \<Rightarrow> ConfigParser \<Rightarrow> int \<times> ConfigParser" where
  "SetComment section key comment cp =
     (case getSection section cp of
        None \<Rightarrow> (ERR_NOT_FOUND_SECTION, cp)
      | Some sect \<Rightarrow>
         (if key = '''' then (RET_OK, upd_section section (\<lambda>s. s\<lparr>sc_comment := comment\<rparr>) cp)
          else if list_ex (\<lambda>i. it_key i = key) (sc_items sect)
          then (RET_OK, upd_section section (\<lambda>s. s\<lparr>sc_items :=
                  update_first (\<lambda>i. it_key i = key) (\<lambda>i. i\<lparr>it_comment := comment\<rparr>) (sc_items s)\<rparr>) cp)
          else (ERR_NOT_FOUND_KEY, cp)))"

definition SetRightComment :: "string \<Rightarrow> string \<Rightarrow> string \<Rightarrow> ConfigParser \<Rightarrow> int \<times> ConfigParser" where
  "SetRightComment section key rightComment cp =
     (case getSection section cp of
        None \<Rightarrow> (ERR_NOT_FOUND_SECTION, cp)
      | Some sect \<Rightarrow>
         (if key = '''' then (RET_OK, upd_section section (\<lambda>s. s\<lparr>sc_rightComment := rightComment\<rparr>) cp)
          else if list_ex (\<lambda>i. it_key i = key) (sc_items sect)
          then (RET_OK, upd_section section (\<lambda>s. s\<lparr>sc_items :=
                  update_first (\<lambda>i. it_key i = key) (\<lambda>i. i\<lparr>it_rightComment := rightComment\<rparr>) (sc_items s)\<rparr>) cp)
          else (ERR_NOT_FOUND_KEY, cp)))"

definition SetCommentDelimiter :: "string \<Rightarrow> ConfigParser \<Rightarrow> ConfigParser" where
  "SetCommentDelimiter delimiter cp = cp\<lparr>cp_delim := delimiter\<rparr>"

definition DeleteSection :: "string \<Rightarrow> ConfigParser \<Rightarrow> ConfigParser" where
  "DeleteSection section cp = cp\<lparr>cp_sections := remove_first (\<lambda>s. sc_name s = section) (cp_sections cp)\<rparr>"

definition DeleteKey :: "string \<Rightarrow> string \<Rightarrow> ConfigParser \<Rightarrow> ConfigParser" where
  "DeleteKey section key cp =
     (if getSection section cp = None then cp
      else upd_section section (\<lambda>s. s\<lparr>sc_items := remove_first (\<lambda>i. it_key i = key) (sc_items s)\<rparr>) cp)"

end
