(* ===== verification/Config_Text.thy ===== *)
theory Config_Text
  imports Config_Parser
begin

text \<open>
  Saving and loading. \<open>config_lines\<close> is the text of a configuration as a list of lines; on a
  well-formed configuration it is what \<open>SaveAs\<close> writes, and the loop of \<open>Load\<close> turns it back into
  the same sections. Everything \<open>Load\<close> accepts is well formed.
\<close>

section \<open>Trimming and splitting\<close>

lemma isspace_NUL [simp]: "\<not> isspace NUL" "isspace NEWLINE" "isspace CHR '' ''" "\<not> isspace CHR ''#''"
    "\<not> isspace CHR ''=''" "\<not> isspace CHR ''[''" "\<not> isspace CHR '']''"
  by (simp_all add: isspace_def)

lemma trim_eq: "trim s = rev (dropWhile isspace (rev (dropWhile isspace s)))"
proof -
  have "(\<lambda>c. isspace c \<and> c \<noteq> NUL) = isspace" by auto
  then show ?thesis by (simp add: trim_def)
qed

definition trimmed :: "string \<Rightarrow> bool" where
  "trimmed s \<longleftrightarrow> s = [] \<or> \<not> isspace (hd s) \<and> \<not> isspace (last s)"

lemma trimmed_dropWhile: "trimmed s \<Longrightarrow> dropWhile isspace s = s" "trimmed s \<Longrightarrow> dropWhile isspace (rev s) = rev s"
  by (auto simp: trimmed_def dropWhile_eq_self_iff hd_rev)

lemma trim_trimmed [simp]: "trimmed s \<Longrightarrow> trim s = s"
  by (auto simp: trim_eq trimmed_dropWhile)

lemma trimmed_trim [simp]: "trimmed (trim s)"
proof -
  let ?t = "dropWhile isspace s" let ?u = "dropWhile isspace (rev ?t)"
  show ?thesis
  proof (cases "?u = []")
    case True
    then show ?thesis by (simp add: trim_eq trimmed_def)
  next
    case False
    have l: "\<not> isspace (hd ?u)" using False by (rule hd_dropWhile)
    have "rev ?t = takeWhile isspace (rev ?t) @ ?u" by simp
    then have "?t = rev ?u @ rev (takeWhile isspace (rev ?t))" by (metis rev_append rev_rev_ident)
    then have "hd ?t = last ?u" using False by (metis hd_append2 hd_rev rev_is_Nil_conv)
    moreover have "?t \<noteq> []" using False by (metis dropWhile.simps(1) rev.simps(1))
    then have "\<not> isspace (hd ?t)" by (rule hd_dropWhile)
    ultimately have "\<not> isspace (last ?u)" by metis
    then show ?thesis using False l by (simp add: trim_eq trimmed_def hd_rev last_rev)
  qed
qed

lemma set_trim: "set (trim s) \<subseteq> set s"
  by (metis set_dropWhileD set_rev subsetI trim_eq)

lemma trim_snoc_space:
  assumes "trimmed s" "isspace c"
  shows "trim (s @ [c]) = s"
proof (cases "s = []")
  case True
  then show ?thesis using assms(2) by (simp add: trim_eq)
next
  case False
  then have "dropWhile isspace (s @ [c]) = s @ [c]" using assms(1) by (simp add: dropWhile_eq_self_iff trimmed_def)
  then show ?thesis using assms by (simp add: trim_eq trimmed_dropWhile)
qed

lemma takeWhile_stop: "c \<notin> set xs \<Longrightarrow> takeWhile (\<lambda>x. x \<noteq> c) (xs @ c # ys) = xs"
  by (induction xs) auto

lemma find_sub_char: "find_sub [c] s = (if c \<in> set s then Some (length (takeWhile (\<lambda>x. x \<noteq> c) s)) else None)"
proof (induction s)
  case Nil
  then show ?case by (simp add: find_sub.simps)
next
  case (Cons x s)
  then show ?case by (subst find_sub.simps) auto
qed

lemma split_char:
  "split s [c] = (if c \<in> set s then (True, trim (takeWhile (\<lambda>x. x \<noteq> c) s), trim (tl (dropWhile (\<lambda>x. x \<noteq> c) s)))
     else (False, trim s, ''''))"
  by (simp add: split_def find_sub_char takeWhile_eq_take [symmetric] dropWhile_eq_drop drop_Suc drop_tl)

lemma StartWith_char: "c \<noteq> NUL \<Longrightarrow> StartWith s [c] \<longleftrightarrow> s \<noteq> [] \<and> hd s = c"
  by (auto simp: StartWith_def split: list.splits)

section \<open>Lines\<close>

definition unlines :: "string list \<Rightarrow> string" where
  "unlines ls = concat (map (\<lambda>l. l @ [NEWLINE]) ls)"

lemma unlines_simps [simp]: "unlines [] = []" "unlines (l # ls) = l @ NEWLINE # unlines ls" "unlines (xs @ ys) = unlines xs @ unlines ys"
  by (simp_all add: unlines_def)

lemma getlines_unlines: "\<forall>l \<in> set ls. NEWLINE \<notin> set l \<Longrightarrow> getlines (unlines ls) = ls"
proof (induction ls)
  case Nil
  then show ?case by (simp add: getlines.simps)
next
  case (Cons l ls)
  then have "takeWhile (\<lambda>c. c \<noteq> NEWLINE) (l @ NEWLINE # unlines ls) = l"
    "dropWhile (\<lambda>c. c \<noteq> NEWLINE) (l @ NEWLINE # unlines ls) = NEWLINE # unlines ls"
    by (auto simp: takeWhile_append dropWhile_append)
  then show ?case using Cons by (subst getlines.simps) simp
qed

lemma getlines_newline: "l \<in> set (getlines s) \<Longrightarrow> NEWLINE \<notin> set l"
proof (induction s arbitrary: l rule: getlines.induct)
  case (1 s)
  show ?case
  proof (cases "s = []")
    case True
    then show ?thesis using 1(2) by (simp add: getlines.simps)
  next
    case False
    show ?thesis
    proof (cases "l = takeWhile (\<lambda>c. c \<noteq> NEWLINE) s")
      case True
      then show ?thesis by (auto dest: set_takeWhileD)
    next
      case l: False
      with 1(2) False obtain c r where d: "dropWhile (\<lambda>c. c \<noteq> NEWLINE) s = c # r" "l \<in> set (getlines r)"
        using 1(2) [unfolded getlines.simps [of s]] by (cases "dropWhile (\<lambda>c. c \<noteq> NEWLINE) s") auto
      then show ?thesis using 1(1) False by auto
    qed
  qed
qed

section \<open>Well-formed configurations\<close>

text \<open>A comment above a line is a sequence of blank lines and lines that start with the delimiter.\<close>

definition comment_line :: "string \<Rightarrow> bool" where
  "comment_line l \<longleftrightarrow> trimmed l \<and> NEWLINE \<notin> set l \<and> (l = [] \<or> hd l = CHR ''#'')"

definition wf_comment :: "string \<Rightarrow> bool" where
  "wf_comment c \<longleftrightarrow> unlines (getlines c) = c \<and> list_all comment_line (getlines c)"

definition plain :: "char list \<Rightarrow> string \<Rightarrow> bool" where
  "plain cs s \<longleftrightarrow> trimmed s \<and> NEWLINE \<notin> set s \<and> list_all (\<lambda>c. c \<notin> set s) cs"

definition wf_item :: "IniItem \<Rightarrow> bool" where
  "wf_item i \<longleftrightarrow> plain ''#='' (it_key i) \<and> (it_key i = [] \<or> hd (it_key i) \<noteq> CHR ''['') \<and> plain ''#'' (it_value i)
     \<and> wf_comment (it_comment i) \<and> plain [] (it_rightComment i)"

definition wf_section :: "IniSection \<Rightarrow> bool" where
  "wf_section s \<longleftrightarrow> plain ''#]'' (sc_name s) \<and> wf_comment (sc_comment s) \<and> list_all wf_item (sc_items s)"

definition wf_config :: "ConfigParser \<Rightarrow> bool" where
  "wf_config cp \<longleftrightarrow> cp_delim cp = ''#'' \<and> distinct (map sc_name (cp_sections cp)) \<and> list_all wf_section (cp_sections cp)
     \<and> (case cp_sections cp of [] \<Rightarrow> False | s # _ \<Rightarrow> sc_name s = [] \<and> sc_comment s = [] \<and> sc_rightComment s = [])"

definition item_line :: "IniItem \<Rightarrow> string" where
  "item_line i = it_key i @ ''='' @ it_value i @ (if it_rightComment i = [] then [] else '' #'' @ it_rightComment i)"

definition item_lines :: "IniItem \<Rightarrow> string list" where
  "item_lines i = getlines (it_comment i) @ [item_line i]"

definition section_lines :: "IniSection \<Rightarrow> string list" where
  "section_lines s = getlines (sc_comment s) @ (if sc_name s = [] then [] else [''['' @ sc_name s @ '']''])
     @ concat (map item_lines (sc_items s))"

lemma wf_comment_Nil [simp]: "wf_comment []"
  by (simp add: wf_comment_def getlines.simps)

lemma wf_comment_unlines: "list_all comment_line ls \<Longrightarrow> wf_comment (unlines ls)"
  by (subst wf_comment_def, subst (1 2) getlines_unlines) (auto simp: list_all_iff comment_line_def)

lemma wf_comment_snoc: "wf_comment c \<Longrightarrow> comment_line l \<Longrightarrow> wf_comment (c @ l @ [NEWLINE])"
  using wf_comment_unlines [of "getlines c @ [l]"] by (simp add: wf_comment_def)

section \<open>What SaveAs writes\<close>

lemma ends_line_newline [simp]: "ends_line (xs @ [NEWLINE]) = xs @ [NEWLINE]"
  by (simp add: ends_line_def)

lemma ends_line_other: "last xs \<noteq> NEWLINE \<Longrightarrow> ends_line xs = xs @ [NEWLINE]"
  by (simp add: ends_line_def)

lemma unlines_last: "ls \<noteq> [] \<Longrightarrow> \<exists>xs. unlines ls = xs @ [NEWLINE]"
  by (cases ls rule: rev_cases) simp_all

lemma last_item_line: "wf_item i \<Longrightarrow> last (item_line i) \<noteq> NEWLINE"
  by (auto simp: item_line_def wf_item_def plain_def dest: last_in_set)

lemma render_item_lines:
  assumes "wf_item i"
  shows "render_item ''#'' data i = data @ unlines (item_lines i)"
proof -
  have c: "it_comment i \<noteq> [] \<Longrightarrow> ends_line (data @ it_comment i) = data @ it_comment i"
  proof -
    assume ne: "it_comment i \<noteq> []"
    have u: "unlines (getlines (it_comment i)) = it_comment i" using assms by (simp add: wf_item_def wf_comment_def)
    then have "getlines (it_comment i) \<noteq> []" using ne by auto
    from unlines_last [OF this] u obtain xs where "it_comment i = xs @ [NEWLINE]" by auto
    then show ?thesis using ends_line_newline [of "data @ xs"] by simp
  qed
  have u: "unlines (getlines (it_comment i)) = it_comment i" using assms by (simp add: wf_item_def wf_comment_def)
  have "last (d @ item_line i) = last (item_line i)" for d by (simp add: item_line_def)
  then have e: "ends_line (d @ item_line i) = d @ item_line i @ [NEWLINE]" for d
    using last_item_line [OF assms] by (simp add: ends_line_other)
  show ?thesis using c u e [of data] e [of "data @ it_comment i"]
    by (auto simp: render_item_def item_lines_def item_line_def Let_def)
qed

lemma render_items_lines:
  "list_all wf_item is \<Longrightarrow> foldl (render_item ''#'') data is = data @ unlines (concat (map item_lines is))"
  by (induction "is" arbitrary: data) (simp_all add: render_item_lines)

lemma render_section_lines:
  assumes "wf_section s" "sc_rightComment s = []"
  shows "render_section ''#'' data s = data @ unlines (section_lines s)"
  using assms by (auto simp: render_section_def section_lines_def wf_section_def wf_comment_def render_items_lines Let_def)

lemma render_sections_lines:
  "list_all wf_section ss \<Longrightarrow> list_all (\<lambda>s. sc_rightComment s = []) ss \<Longrightarrow>
    foldl (render_section ''#'') data ss = data @ unlines (concat (map section_lines ss))"
  by (induction ss arbitrary: data) (simp_all add: render_section_lines)

definition config_lines :: "ConfigParser \<Rightarrow> string list" where
  "config_lines cp = concat (map section_lines (cp_sections cp))"

lemma render_lines:
  assumes "wf_config cp" "list_all (\<lambda>s. sc_rightComment s = []) (cp_sections cp)"
  shows "render cp = unlines (config_lines cp)"
  using assms by (simp add: render_def config_lines_def wf_config_def render_sections_lines)

section \<open>What Load makes of it\<close>

lemma load_comments:
  assumes "cp_delim cp = ''#''" "list_all comment_line ls"
  shows "load_lines (ls @ rest) c sect cp = load_lines rest (c @ unlines ls) sect cp"
  using assms(2)
proof (induction ls arbitrary: c)
  case Nil
  then show ?case by simp
next
  case (Cons l ls)
  then have "trim l = l" "l = [] \<or> l \<noteq> [] \<and> hd l = CHR ''#''" by (auto simp: comment_line_def)
  then show ?case using Cons by (auto simp: IsCommentLine_def assms(1) StartWith_char)
qed

lemma split_item_line:
  assumes "wf_item i"
  shows "trimmed (item_line i)" "item_line i \<noteq> []" "hd (item_line i) \<noteq> CHR ''#''"
    and "\<exists>b. split (item_line i) ''#'' = (b, it_key i @ ''='' @ it_value i, it_rightComment i)"
    and "parse (it_key i @ ''='' @ it_value i) = (True, it_key i, it_value i)"
    and "hd (it_key i @ ''='' @ it_value i) \<noteq> CHR ''[''"
proof -
  let ?kv = "it_key i @ ''='' @ it_value i"
  have w: "plain ''#='' (it_key i)" "plain ''#'' (it_value i)" "plain [] (it_rightComment i)"
    "it_key i = [] \<or> hd (it_key i) \<noteq> CHR ''[''"
    using assms by (auto simp: wf_item_def)
  have kv: "trimmed ?kv" "hd ?kv \<noteq> CHR ''#''" "CHR ''#'' \<notin> set ?kv"
    using w by (cases "it_key i"; auto simp: plain_def trimmed_def)+
  show "trimmed (item_line i)" "item_line i \<noteq> []" "hd (item_line i) \<noteq> CHR ''#''"
    using w by (cases "it_key i"; auto simp: plain_def trimmed_def item_line_def)+
  show "hd ?kv \<noteq> CHR ''[''" using w(4) by (cases "it_key i") auto
  show "parse ?kv = (True, it_key i, it_value i)"
    using w by (auto simp: parse_def split_char plain_def takeWhile_append dropWhile_append)
  show "\<exists>b. split (item_line i) ''#'' = (b, ?kv, it_rightComment i)"
  proof (cases "it_rightComment i = []")
    case True
    then show ?thesis using kv by (auto simp: item_line_def split_char)
  next
    case False
    have l: "item_line i = (?kv @ '' '') @ ''#'' @ it_rightComment i" using False by (simp add: item_line_def)
    have "takeWhile (\<lambda>x. x \<noteq> CHR ''#'') (item_line i) = ?kv @ '' ''"
      "dropWhile (\<lambda>x. x \<noteq> CHR ''#'') (item_line i) = ''#'' @ it_rightComment i"
      unfolding l using kv(3) by (subst takeWhile_append2 dropWhile_append2; auto)+
    moreover have "trim (?kv @ '' '') = ?kv" using trim_snoc_space [OF kv(1)] by simp
    moreover have "CHR ''#'' \<in> set (item_line i)" using l by simp
    ultimately show ?thesis using w(3) by (auto simp: split_char plain_def)
  qed
qed

lemma load_item:
  assumes "cp_delim cp = ''#''" "wf_item i"
  shows "load_lines (item_line i # rest) (it_comment i) sect cp = load_lines rest '''' sect
    (cp\<lparr>cp_sections := (cp_sections cp)[sect := (cp_sections cp ! sect)\<lparr>sc_items := sc_items (cp_sections cp ! sect) @ [i]\<rparr>]\<rparr>)"
proof -
  let ?kv = "it_key i @ ''='' @ it_value i"
  obtain b where b: "split (item_line i) ''#'' = (b, ?kv, it_rightComment i)" using split_item_line(4) [OF assms(2)] by blast
  have "AddKeyValuePair ?kv (it_comment i) (it_rightComment i) sect cp =
     (0, cp\<lparr>cp_sections := (cp_sections cp)[sect := (cp_sections cp ! sect)\<lparr>sc_items := sc_items (cp_sections cp ! sect) @ [i]\<rparr>]\<rparr>)"
    using split_item_line(5) [OF assms(2)] by (cases i) (simp add: AddKeyValuePair_def Let_def)
  then show ?thesis
    using split_item_line(1-3,6) [OF assms(2)] b assms(1)
    by (simp add: IsCommentLine_def StartWith_char)
qed

lemma load_items:
  assumes "cp_delim cp = ''#''" "list_all wf_item is" "cp_sections cp = ss @ [s]"
  shows "load_lines (concat (map item_lines is) @ rest) '''' (length ss) cp =
    load_lines rest '''' (length ss) (cp\<lparr>cp_sections := ss @ [s\<lparr>sc_items := sc_items s @ is\<rparr>]\<rparr>)"
  using assms
proof (induction "is" arbitrary: cp s)
  case Nil
  then have "cp\<lparr>cp_sections := ss @ [s\<lparr>sc_items := sc_items s @ []\<rparr>]\<rparr> = cp" by simp
  then show ?case by simp
next
  case (Cons i "is")
  then have i: "wf_item i" "list_all comment_line (getlines (it_comment i))" "unlines (getlines (it_comment i)) = it_comment i"
    by (simp_all add: wf_item_def wf_comment_def)
  let ?cp = "cp\<lparr>cp_sections := ss @ [s\<lparr>sc_items := sc_items s @ [i]\<rparr>]\<rparr>"
  have "load_lines (item_lines i @ concat (map item_lines is) @ rest) '''' (length ss) cp
      = load_lines (concat (map item_lines is) @ rest) '''' (length ss) ?cp"
    using Cons.prems(1,3) i(2,3) load_comments [OF Cons.prems(1) i(2)] load_item [OF Cons.prems(1) i(1)]
    by (simp add: item_lines_def)
  also have "\<dots> = load_lines rest '''' (length ss)
      (?cp\<lparr>cp_sections := ss @ [s\<lparr>sc_items := sc_items s @ [i]\<rparr>\<lparr>sc_items := sc_items (s\<lparr>sc_items := sc_items s @ [i]\<rparr>) @ is\<rparr>]\<rparr>)"
    by (rule Cons.IH) (use Cons.prems in simp_all)
  finally show ?case by simp
qed

lemma load_header:
  assumes "cp_delim cp = ''#''" "plain ''#]'' name" "name \<noteq> []" "name \<notin> set (map sc_name (cp_sections cp))"
  shows "load_lines ((''['' @ name @ '']'') # rest) c sect cp = load_lines rest '''' (length (cp_sections cp))
    (cp\<lparr>cp_sections := cp_sections cp @ [\<lparr>sc_name = name, sc_comment = c, sc_rightComment = '''', sc_items = []\<rparr>]\<rparr>)"
proof -
  let ?l = "''['' @ name @ '']''"
  have n: "CHR ''#'' \<notin> set name" "CHR '']'' \<notin> set name" "trim name = name" using assms(2) by (simp_all add: plain_def)
  have l: "trim ?l = ?l" by (rule trim_trimmed) (simp add: trimmed_def)
  have s: "split ?l ''#'' = (False, ?l, '''')" using n(1) l by (simp add: split_char)
  have "getSection name cp = None" using assms(4) by (auto simp: getSection_def find_None_iff)
  moreover have "takeWhile (\<lambda>c. c \<noteq> CHR '']'') ?l = ''['' @ name" using takeWhile_stop [OF n(2), of "[]"] by simp
  ultimately have "UpdateSection ?l c '''' sect cp = (0, length (cp_sections cp),
      cp\<lparr>cp_sections := cp_sections cp @ [\<lparr>sc_name = name, sc_comment = c, sc_rightComment = '''', sc_items = []\<rparr>]\<rparr>)"
    using assms(3) n(3) by (simp add: UpdateSection_def Let_def)
  then show ?thesis using l s by (simp add: IsCommentLine_def StartWith_char assms(1))
qed

lemma load_section:
  assumes "cp_delim cp = ''#''" "wf_section s" "sc_name s \<noteq> []" "sc_name s \<notin> set (map sc_name (cp_sections cp))"
    and "sc_rightComment s = []"
  shows "load_lines (section_lines s @ rest) '''' sect cp =
    load_lines rest '''' (length (cp_sections cp)) (cp\<lparr>cp_sections := cp_sections cp @ [s]\<rparr>)"
proof -
  have s: "plain ''#]'' (sc_name s)" "list_all comment_line (getlines (sc_comment s))"
    "unlines (getlines (sc_comment s)) = sc_comment s" "list_all wf_item (sc_items s)"
    using assms(2) by (simp_all add: wf_section_def wf_comment_def)
  let ?s = "s\<lparr>sc_items := []\<rparr>"
  have "\<lparr>sc_name = sc_name s, sc_comment = sc_comment s, sc_rightComment = '''', sc_items = []\<rparr> = ?s"
    using assms(5) by simp
  then have "load_lines (section_lines s @ rest) '''' sect cp = load_lines (concat (map item_lines (sc_items s)) @ rest)
      '''' (length (cp_sections cp)) (cp\<lparr>cp_sections := cp_sections cp @ [?s]\<rparr>)"
    using load_comments [OF assms(1) s(2)] load_header [OF assms(1) s(1) assms(3,4)] assms(3) s(3)
    by (simp add: section_lines_def)
  also have "\<dots> = load_lines rest '''' (length (cp_sections cp))
      (cp\<lparr>cp_sections := cp_sections cp @ [?s]\<rparr>\<lparr>cp_sections := cp_sections cp @ [?s\<lparr>sc_items := sc_items ?s @ sc_items s\<rparr>]\<rparr>)"
    by (rule load_items) (use assms(1) s(4) in simp_all)
  finally show ?thesis by simp
qed

lemma load_trailing:
  assumes "cp_delim cp = ''#''" "list_all comment_line cs"
  shows "load_lines cs c sect cp = (0, cp)"
  using load_comments [OF assms, of "[]"] by simp

text \<open>Comment lines at the end of the file belong to nothing and are dropped.\<close>

lemma load_sections:
  assumes "cp_delim cp = ''#''" "list_all wf_section ss" "list_all (\<lambda>s. sc_rightComment s = []) ss"
    and "distinct (map sc_name (cp_sections cp @ ss))" "'''' \<in> set (map sc_name (cp_sections cp))" "list_all comment_line cs"
  shows "load_lines (concat (map section_lines ss) @ cs) '''' sect cp = (0, cp\<lparr>cp_sections := cp_sections cp @ ss\<rparr>)"
  using assms
proof (induction ss arbitrary: cp sect)
  case Nil
  then show ?case by (simp add: load_trailing)
next
  case (Cons s ss)
  then have s: "sc_name s \<noteq> []" "sc_name s \<notin> set (map sc_name (cp_sections cp))" by auto
  let ?cp = "cp\<lparr>cp_sections := cp_sections cp @ [s]\<rparr>"
  have "load_lines (section_lines s @ concat (map section_lines ss) @ cs) '''' sect cp
      = load_lines (concat (map section_lines ss) @ cs) '''' (length (cp_sections cp)) ?cp"
    by (rule load_section) (use Cons.prems s in simp_all)
  also have "\<dots> = (0, ?cp\<lparr>cp_sections := cp_sections ?cp @ ss\<rparr>)"
    by (rule Cons.IH) (use Cons.prems in auto)
  finally show ?case by simp
qed

text \<open>The lines of a well-formed configuration load back into its sections.\<close>

lemma load_config:
  assumes wf: "wf_config cp" and rc: "list_all (\<lambda>s. sc_rightComment s = []) (cp_sections cp)"
    and d: "cp_delim cp2 = ''#''" and cs: "list_all comment_line cs"
  shows "load_lines (config_lines cp @ cs) '''' 0 (cp2\<lparr>cp_path := p, cp_sections := [IniSection_new]\<rparr>)
    = (0, cp2\<lparr>cp_path := p, cp_sections := cp_sections cp\<rparr>)"
proof -
  obtain s ss where c: "cp_sections cp = s # ss" "sc_name s = []" "sc_comment s = []" "sc_rightComment s = []"
    using wf by (auto simp: wf_config_def split: list.splits)
  have wfs: "list_all wf_section (s # ss)" "distinct (map sc_name (s # ss))" using wf c(1) by (auto simp: wf_config_def)
  let ?cp = "cp2\<lparr>cp_path := p, cp_sections := [IniSection_new]\<rparr>"
  have cl: "config_lines cp @ cs = concat (map item_lines (sc_items s)) @ concat (map section_lines ss) @ cs"
    using c by (simp add: config_lines_def section_lines_def getlines.simps)
  have "load_lines (config_lines cp @ cs) '''' (length ([]::IniSection list)) ?cp = load_lines (concat (map section_lines ss) @ cs) '''' (length ([]::IniSection list))
      (?cp\<lparr>cp_sections := [] @ [IniSection_new\<lparr>sc_items := sc_items IniSection_new @ sc_items s\<rparr>]\<rparr>)"
    unfolding cl by (rule load_items) (use d wfs(1) in \<open>simp_all add: wf_section_def\<close>)
  also have "IniSection_new\<lparr>sc_items := sc_items IniSection_new @ sc_items s\<rparr> = s"
    using c by (simp add: IniSection_new_def)
  also have "load_lines (concat (map section_lines ss) @ cs) '''' (length ([]::IniSection list)) (?cp\<lparr>cp_sections := [] @ [s]\<rparr>)
      = (0, ?cp\<lparr>cp_sections := [] @ [s]\<rparr>\<lparr>cp_sections := cp_sections (?cp\<lparr>cp_sections := [] @ [s]\<rparr>) @ ss\<rparr>)"
    by (rule load_sections) (use d wfs rc c cs in auto)
  finally show ?thesis using c(1) by simp
qed

lemma config_lines_newline:
  assumes "list_all wf_section ss" "l \<in> set (concat (map section_lines ss))"
  shows "NEWLINE \<notin> set l"
proof -
  from assms obtain s where s: "wf_section s" "l \<in> set (section_lines s)" by (auto simp: list_all_iff)
  have "NEWLINE \<notin> set (item_line i)" if "wf_item i" for i
    using that by (auto simp: wf_item_def plain_def item_line_def)
  then show ?thesis using s getlines_newline
    by (auto simp: section_lines_def item_lines_def wf_section_def list_all_iff plain_def split: if_splits)
qed

lemma Load_render:
  assumes "writable p"
  shows "Load (snd (SaveAs writable p cp files)) p cp2
    = load_lines (getlines (render cp)) '''' 0 (cp2\<lparr>cp_path := p, cp_sections := [IniSection_new]\<rparr>)"
  using assms by (simp add: Load_def SaveAs_def release_def)

lemma getlines_config:
  assumes "wf_config cp" "list_all (\<lambda>s. sc_rightComment s = []) (cp_sections cp)"
  shows "getlines (render cp) = config_lines cp"
  unfolding render_lines [OF assms]
  by (rule getlines_unlines) (use assms(1) config_lines_newline in \<open>auto simp: config_lines_def wf_config_def\<close>)

lemma Load_SaveAs:
  assumes wf: "wf_config cp" and rc: "list_all (\<lambda>s. sc_rightComment s = []) (cp_sections cp)"
    and w: "writable p" and d: "cp_delim cp2 = ''#''"
  shows "Load (snd (SaveAs writable p cp files)) p cp2 = (0, cp2\<lparr>cp_path := p, cp_sections := cp_sections cp\<rparr>)"
  using load_config [OF wf rc d, of "[]" p] by (simp add: Load_render [where writable = writable and p = p, OF w] getlines_config [OF wf rc])

section \<open>What Load accepts is well formed\<close>

lemma plain_trim: "NEWLINE \<notin> set s \<Longrightarrow> list_all (\<lambda>c. c \<notin> set s) cs \<Longrightarrow> plain cs (trim s)"
  using set_trim [of s] by (auto simp: plain_def list_all_iff)

lemma hd_trim:
  assumes "s \<noteq> []" "\<not> isspace (hd s)"
  shows "trim s \<noteq> []" "hd (trim s) = hd s"
proof -
  have d: "dropWhile isspace s = s" using assms by (simp add: dropWhile_eq_self_iff)
  have "rev (dropWhile isspace (rev s)) @ rev (takeWhile isspace (rev s)) = s"
    by (metis rev_append rev_rev_ident takeWhile_dropWhile_id)
  moreover have ne: "dropWhile isspace (rev s) \<noteq> []" using assms by (auto simp: dropWhile_eq_Nil_conv)
  ultimately show "trim s \<noteq> []" "hd (trim s) = hd s" unfolding trim_eq d by (auto, metis hd_append2 rev_is_Nil_conv)
qed

lemma in_set_tl: "x \<in> set (tl xs) \<Longrightarrow> x \<in> set xs"
  by (cases xs) auto

lemma split_comment:
  assumes "split l ''#'' = (b, cl, rc)" "NEWLINE \<notin> set l"
  shows "plain ''#'' cl" "plain [] rc"
proof -
  let ?t = "takeWhile (\<lambda>x. x \<noteq> CHR ''#'') l" and ?d = "tl (dropWhile (\<lambda>x. x \<noteq> CHR ''#'') l)"
  have "NEWLINE \<notin> set ?t" "CHR ''#'' \<notin> set ?t" "NEWLINE \<notin> set ?d"
    using assms(2) by (auto dest!: in_set_tl set_dropWhileD set_takeWhileD)
  then have "plain ''#'' (trim ?t)" "plain [] (trim ?d)" by (auto intro!: plain_trim)
  moreover have "CHR ''#'' \<notin> set l \<Longrightarrow> plain ''#'' (trim l)" using assms(2) by (intro plain_trim) auto
  moreover have "plain [] []" by (simp add: plain_def trimmed_def)
  ultimately show "plain ''#'' cl" "plain [] rc" using assms(1) by (auto simp: split_char split: if_splits)
qed

lemma parse_item:
  assumes "parse cl = (True, k, v)" "plain ''#'' cl" "cl = [] \<or> hd cl \<noteq> CHR ''[''"
  shows "plain ''#='' k" "k = [] \<or> hd k \<noteq> CHR ''[''" "plain ''#'' v"
proof -
  let ?t = "takeWhile (\<lambda>x. x \<noteq> CHR ''='') cl"
  have e: "CHR ''='' \<in> set cl" "k = trim ?t" "v = trim (tl (dropWhile (\<lambda>x. x \<noteq> CHR ''='') cl))"
    using assms(1) by (auto simp: parse_def split_char split: if_splits)
  have c: "NEWLINE \<notin> set cl" "CHR ''#'' \<notin> set cl" "trimmed cl" using assms(2) by (simp_all add: plain_def)
  show "plain ''#='' k" unfolding e(2) by (rule plain_trim) (use c in \<open>auto dest: set_takeWhileD\<close>)
  show "plain ''#'' v" unfolding e(3)
    by (rule plain_trim) (use c in \<open>auto dest!: in_set_tl set_dropWhileD\<close>)
  show "k = [] \<or> hd k \<noteq> CHR ''[''"
  proof (cases "?t = []")
    case True
    then show ?thesis by (simp add: e(2) trim_eq)
  next
    case False
    then have h: "cl \<noteq> []" "hd ?t = hd cl" by (cases cl; auto split: if_splits)+
    then have "\<not> isspace (hd ?t)" using c(3) by (simp add: trimmed_def)
    from hd_trim(2) [OF False this] show ?thesis using h assms(3) e(2) by simp
  qed
qed

lemma wf_config_item:
  assumes "wf_config cp" "wf_item i" "sect < length (cp_sections cp)"
  shows "wf_config (cp\<lparr>cp_sections := (cp_sections cp)[sect := (cp_sections cp ! sect)\<lparr>sc_items := sc_items (cp_sections cp ! sect) @ [i]\<rparr>]\<rparr>)"
proof -
  let ?s = "cp_sections cp ! sect" and ?ss = "cp_sections cp"
  have s: "wf_section ?s" using assms(1,3) by (simp add: wf_config_def list_all_length)
  have "map sc_name (?ss[sect := ?s\<lparr>sc_items := sc_items ?s @ [i]\<rparr>]) = map sc_name ?ss"
    by (simp add: map_update) (metis list_update_id map_update)
  moreover have "list_all wf_section (?ss[sect := ?s\<lparr>sc_items := sc_items ?s @ [i]\<rparr>])"
    using assms s by (auto simp: wf_config_def list_all_iff wf_section_def dest!: subsetD [OF set_update_subset_insert])
  ultimately show ?thesis
    using assms(1) by (cases ?ss; cases sect) (auto simp: wf_config_def)
qed

lemma UpdateSection_wf:
  assumes u: "UpdateSection cl c rc sect cp = (0, sect', cp')"
    and wf: "wf_config cp" "wf_comment c" "plain ''#'' cl" "hd cl = CHR ''[''"
  shows "wf_config cp'" "sect' < length (cp_sections cp')"
proof -
  let ?n = "length (takeWhile (\<lambda>c. c \<noteq> CHR '']'') cl)"
  define s where "s = trim (take (?n - 1) (drop 1 cl))"
  have d: "CHR '']'' \<in> set cl" "getSection s cp = None" "sect' = length (cp_sections cp)"
    "cp' = cp\<lparr>cp_sections := cp_sections cp @ [\<lparr>sc_name = s, sc_comment = c, sc_rightComment = rc, sc_items = []\<rparr>]\<rparr>"
    using u by (auto simp: UpdateSection_def Let_def s_def nat_diff_distrib split: if_splits)
  have n: "s \<notin> sc_name ` set (cp_sections cp)" using d(2) by (auto simp: getSection_def find_None_iff)
  have sub: "set (take (?n - 1) (drop 1 cl)) \<subseteq> set (takeWhile (\<lambda>c. c \<noteq> CHR '']'') cl)"
    by (cases cl) (auto simp: takeWhile_eq_take [symmetric] dest: in_set_takeD)
  have out: "a \<notin> set (take (?n - 1) (drop 1 cl))" if "a \<notin> set cl \<or> a = CHR '']''" for a
    using that subsetD [OF sub, of a] set_takeWhileD [of a "\<lambda>c. c \<noteq> CHR '']''" cl] by blast
  have "plain ''#]'' s" unfolding s_def
    by (intro plain_trim) (use wf(3) out in \<open>simp_all add: plain_def\<close>)
  then have "wf_section \<lparr>sc_name = s, sc_comment = c, sc_rightComment = rc, sc_items = []\<rparr>"
    using wf(2) by (simp add: wf_section_def)
  then show "wf_config cp'" "sect' < length (cp_sections cp')"
    using wf(1) n by (auto simp: d wf_config_def split: list.splits)
qed

lemma load_lines_wf:
  assumes "load_lines ls c sect cp = (0, cp')" "wf_config cp" "wf_comment c" "\<forall>l \<in> set ls. NEWLINE \<notin> set l"
    and "sect < length (cp_sections cp)"
  shows "wf_config cp'"
  using assms
proof (induction ls arbitrary: c sect cp)
  case Nil
  then show ?case by simp
next
  case (Cons l ls)
  let ?l = "trim l"
  have d: "cp_delim cp = ''#''" using Cons.prems(2) by (simp add: wf_config_def)
  have nl: "NEWLINE \<notin> set ?l" using Cons.prems(4) set_trim [of l] by auto
  consider (blank) "?l = []" | (comment) "?l \<noteq> []" "IsCommentLine ?l cp" | (content) "?l \<noteq> []" "\<not> IsCommentLine ?l cp" by blast
  then show ?case
  proof cases
    case blank
    show ?thesis
      by (rule Cons.IH [of "c @ [NEWLINE]" sect cp]) (use Cons.prems blank wf_comment_snoc [of c "[]"] in \<open>simp_all add: comment_line_def trimmed_def\<close>)
  next
    case comment
    then have "comment_line ?l" using nl d by (simp add: comment_line_def IsCommentLine_def StartWith_char)
    then show ?thesis
      using Cons.prems comment wf_comment_snoc [of c ?l] by (intro Cons.IH [of "c @ ?l @ [NEWLINE]" sect cp]) simp_all
  next
    case content
    obtain b cl rc where sp: "split ?l ''#'' = (b, cl, rc)" by (metis surj_pair)
    note cl = split_comment [OF sp nl]
    show ?thesis
    proof (cases "cl \<noteq> [] \<and> hd cl = CHR ''[''")
      case True
      obtain e sect2 cp2 where u: "UpdateSection cl c rc sect cp = (e, sect2, cp2)" by (metis surj_pair)
      have e: "e = 0" "load_lines ls '''' sect2 cp2 = (0, cp')"
        using Cons.prems(1) content d sp True u by (auto simp: Let_def split: if_splits)
      from UpdateSection_wf [OF u [unfolded e(1)] Cons.prems(2,3) cl(1)] True
      show ?thesis using Cons.IH [OF e(2)] Cons.prems(4) by simp
    next
      case False
      obtain e cp2 where u: "AddKeyValuePair cl c rc sect cp = (e, cp2)" by (metis surj_pair)
      have e: "e = 0" "load_lines ls '''' sect cp2 = (0, cp')"
        using Cons.prems(1) content d sp False u by (auto simp: Let_def split: if_splits)
      obtain k v where p: "parse cl = (True, k, v)"
        and cp2: "cp2 = cp\<lparr>cp_sections := (cp_sections cp)[sect := (cp_sections cp ! sect)\<lparr>sc_items := sc_items (cp_sections cp ! sect)
            @ [\<lparr>it_key = k, it_value = v, it_comment = c, it_rightComment = rc\<rparr>]\<rparr>]\<rparr>"
        using u e(1) by (auto simp: AddKeyValuePair_def Let_def split: prod.splits bool.splits)
      have "wf_item \<lparr>it_key = k, it_value = v, it_comment = c, it_rightComment = rc\<rparr>"
        using parse_item [OF p cl(1)] False cl(2) Cons.prems(3) by (auto simp: wf_item_def)
      from wf_config_item [OF Cons.prems(2) this Cons.prems(5)]
      show ?thesis using Cons.IH [OF e(2)] Cons.prems(4,5) by (simp add: cp2)
    qed
  qed
qed

lemma Load_wf:
  assumes "Load files p cp = (0, cp')" "cp_delim cp = ''#''"
  shows "wf_config cp'"
proof -
  obtain content where c: "files p = Some content"
    "load_lines (getlines content) '''' 0 (cp\<lparr>cp_path := p, cp_sections := [IniSection_new]\<rparr>) = (0, cp')"
    using assms(1) by (auto simp: Load_def release_def Let_def split: option.splits)
  show ?thesis
    by (rule load_lines_wf [OF c(2)])
      (use assms(2) in \<open>auto simp: wf_config_def IniSection_new_def wf_section_def plain_def trimmed_def dest: getlines_newline\<close>)
qed

end
