(* ===== verification/Config_Store.thy ===== *)
theory Config_Store
  imports Config_Text
begin

text \<open>
  The configuration as a store of values. The locale \<open>key_value\<close> is the contract of a store with a
  lookup and an assignment; the configuration satisfies it, as does the association list that stands
  for an unordered map. What a sequence of assignments leaves is proved once. Integers survive
  being written as text and read back.
\<close>

section \<open>Stores\<close>

locale key_value =
  fixes lookup :: "'k \<Rightarrow> 's \<Rightarrow> 'v option" and assign :: "'k \<Rightarrow> 'v \<Rightarrow> 's \<Rightarrow> 's"
  assumes lookup_assign: "lookup k' (assign k v s) = (if k' = k then Some v else lookup k' s)"
begin

text \<open>The last assignment to a key counts; other keys keep their values.\<close>

lemma lookup_assigns:
  "lookup k (fold (\<lambda>(k, v). assign k v) kvs s) = (case map_of (rev kvs) k of Some v \<Rightarrow> Some v | None \<Rightarrow> lookup k s)"
proof (induction kvs arbitrary: s)
  case Nil
  then show ?case by simp
next
  case (Cons x kvs)
  then show ?case by (cases x) (auto simp: lookup_assign map_of_append map_add_def split: option.splits)
qed

lemma assign_twice: "lookup k' (assign k w (assign k v s)) = lookup k' (assign k w s)"
  by (simp add: lookup_assign)

lemma assign_commute: "k \<noteq> l \<Longrightarrow> lookup k' (assign k v (assign l w s)) = lookup k' (assign l w (assign k v s))"
  by (simp add: lookup_assign)

end

interpretation amap: key_value "\<lambda>k m. map_of m k" amap_put
  by unfold_locales simp

section \<open>The configuration as a store\<close>

definition conf_get :: "string \<times> string \<Rightarrow> ConfigParser \<Rightarrow> string option" where
  "conf_get = (\<lambda>(section, key) cp. map_option fst (snd (getValue section key cp)))"

definition conf_set :: "string \<times> string \<Rightarrow> string \<Rightarrow> ConfigParser \<Rightarrow> ConfigParser" where
  "conf_set = (\<lambda>(section, key) val cp. snd (SetStringValue section key val cp))"

lemma find_update_first:
  assumes "\<And>x. P x \<Longrightarrow> P (f x)"
  shows "find P (update_first P f xs) = map_option f (find P xs)"
  by (induction xs) (auto simp: assms)

lemma find_update_other:
  assumes "\<And>x. P x \<Longrightarrow> \<not> Q x \<and> \<not> Q (f x)"
  shows "find Q (update_first P f xs) = find Q xs"
  by (induction xs) (auto simp: assms)

lemma find_some_ex: "find P xs = None \<longleftrightarrow> \<not> list_ex P xs"
  by (induction xs) auto

lemma find_append: "find P (xs @ ys) = (case find P xs of Some x \<Rightarrow> Some x | None \<Rightarrow> find P ys)"
  by (induction xs) auto

lemma find_set_item:
  "map_option it_value (find (\<lambda>i. it_key i = k) (set_item key val comt is)) =
     (if k = key then Some val else map_option it_value (find (\<lambda>i. it_key i = k) is))"
proof (cases "list_ex (\<lambda>i. it_key i = key) is")
  case True
  then obtain i where i: "find (\<lambda>i. it_key i = key) is = Some i" using find_some_ex [of "\<lambda>i. it_key i = key" "is"] by auto
  let ?f = "\<lambda>i. i\<lparr>it_value := val, it_comment := comt\<rparr>"
  have "k \<noteq> key \<Longrightarrow> find (\<lambda>i. it_key i = k) (update_first (\<lambda>i. it_key i = key) ?f is) = find (\<lambda>i. it_key i = k) is"
    by (rule find_update_other) auto
  then show ?thesis using True i find_update_first [of "\<lambda>i. it_key i = key" ?f "is"] by (simp add: set_item_def)
next
  case False
  then have "find (\<lambda>i. it_key i = key) is = None" by (simp add: find_some_ex)
  then show ?thesis using False by (auto simp: set_item_def find_append split: option.splits)
qed

lemma conf_get_section:
  "conf_get (section, key) cp = (case getSection section cp of None \<Rightarrow> None
     | Some s \<Rightarrow> map_option it_value (find (\<lambda>i. it_key i = key) (sc_items s)))"
  by (auto simp: conf_get_def getValue_def split: option.splits)

text \<open>The item behind a key, with its comments.\<close>

definition conf_item :: "string \<times> string \<Rightarrow> ConfigParser \<Rightarrow> IniItem option" where
  "conf_item = (\<lambda>(section, key) cp. case getSection section cp of None \<Rightarrow> None
     | Some s \<Rightarrow> find (\<lambda>i. it_key i = key) (sc_items s))"

lemma conf_get_item: "conf_get k cp = map_option it_value (conf_item k cp)"
  by (cases k) (simp add: conf_get_section conf_item_def split: option.split)

lemma getSection_upd:
  assumes "\<And>s. sc_name (f s) = sc_name s"
  shows "getSection n (upd_section section f cp) =
    (if n = section then map_option f (getSection n cp) else getSection n cp)"
proof (cases "n = section")
  case True
  then show ?thesis using find_update_first [of "\<lambda>s. sc_name s = section" f] assms by (simp add: getSection_def upd_section_def)
next
  case False
  then have "find (\<lambda>s. sc_name s = n) (update_first (\<lambda>s. sc_name s = section) f (cp_sections cp)) = find (\<lambda>s. sc_name s = n) (cp_sections cp)"
    by (intro find_update_other) (auto simp: assms)
  then show ?thesis using False by (simp add: getSection_def upd_section_def)
qed

lemma getSection_create:
  assumes "getSection section cp = None"
  shows "getSection n (cp\<lparr>cp_sections := (if section = '''' then IniSection_new\<lparr>sc_name := section\<rparr> # cp_sections cp
      else cp_sections cp @ [IniSection_new\<lparr>sc_name := section\<rparr>])\<rparr>)
    = (if n = section then Some (IniSection_new\<lparr>sc_name := section\<rparr>) else getSection n cp)"
  using assms by (auto simp: getSection_def find_append split: option.splits)

lemma conf_set_section:
  "\<exists>c. conf_set (sec, key) v cp = upd_section sec (\<lambda>s. s\<lparr>sc_items := set_item key v '''' (sc_items s)\<rparr>) c
     \<and> (\<forall>n. getSection n c = (if n = sec \<and> getSection sec cp = None then Some (IniSection_new\<lparr>sc_name := sec\<rparr>) else getSection n cp))"
proof (cases "getSection sec cp")
  case None
  define c where "c = cp\<lparr>cp_sections := (if sec = '''' then IniSection_new\<lparr>sc_name := sec\<rparr> # cp_sections cp
    else cp_sections cp @ [IniSection_new\<lparr>sc_name := sec\<rparr>])\<rparr>"
  have g: "getSection n c = (if n = sec then Some (IniSection_new\<lparr>sc_name := sec\<rparr>) else getSection n cp)" for n
    using getSection_create [OF None, of n] unfolding c_def .
  have "conf_set (sec, key) v cp = upd_section sec (\<lambda>s. s\<lparr>sc_items := set_item key v '''' (sc_items s)\<rparr>) c"
    using None by (simp add: conf_set_def SetStringValue_def setValue_def c_def)
  then show ?thesis using g None by auto
next
  case (Some s)
  then show ?thesis by (intro exI [of _ cp]) (simp add: conf_set_def SetStringValue_def setValue_def)
qed

lemma sc_items_new [simp]: "sc_items IniSection_new = []"
  by (simp add: IniSection_new_def)

interpretation conf: key_value conf_get conf_set
proof unfold_locales
  fix k' k :: "string \<times> string" and v cp
  obtain sec key where k: "k = (sec, key)" by (cases k)
  obtain sec' key' where k': "k' = (sec', key')" by (cases k')
  obtain c where c: "conf_set (sec, key) v cp = upd_section sec (\<lambda>s. s\<lparr>sc_items := set_item key v '''' (sc_items s)\<rparr>) c"
    "\<forall>n. getSection n c = (if n = sec \<and> getSection sec cp = None then Some (IniSection_new\<lparr>sc_name := sec\<rparr>) else getSection n cp)"
    using conf_set_section [of sec key v cp] by blast
  show "conf_get k' (conf_set k v cp) = (if k' = k then Some v else conf_get k' cp)"
  proof (cases "sec' = sec")
    case True
    then show ?thesis
      by (cases "getSection sec cp") (simp_all add: k k' c(1) conf_get_section getSection_upd c(2) find_set_item)
  next
    case False
    then show ?thesis by (simp add: k k' c(1) conf_get_section getSection_upd c(2))
  qed
qed

text \<open>
  An assignment to an item keeps the comment behind its value and drops the one above it.
\<close>

definition edited :: "string \<Rightarrow> string \<Rightarrow> IniItem option \<Rightarrow> IniItem" where
  "edited key v old = \<lparr>it_key = key, it_value = v, it_comment = [],
     it_rightComment = (case old of None \<Rightarrow> [] | Some i \<Rightarrow> it_rightComment i)\<rparr>"

lemma find_set_item_item:
  "find (\<lambda>i. it_key i = k) (set_item key v '''' is) =
     (if k = key then Some (edited key v (find (\<lambda>i. it_key i = key) is)) else find (\<lambda>i. it_key i = k) is)"
proof (cases "list_ex (\<lambda>i. it_key i = key) is")
  case True
  then obtain i where i: "find (\<lambda>i. it_key i = key) is = Some i" using find_some_ex [of "\<lambda>i. it_key i = key" "is"] by auto
  let ?f = "\<lambda>i. i\<lparr>it_value := v, it_comment := ''''\<rparr>"
  have "it_key i = key" using i by (auto simp: find_Some_iff)
  then have "?f i = edited key v (Some i)" by (cases i) (simp add: edited_def)
  moreover have "k \<noteq> key \<Longrightarrow> find (\<lambda>i. it_key i = k) (update_first (\<lambda>i. it_key i = key) ?f is) = find (\<lambda>i. it_key i = k) is"
    by (rule find_update_other) auto
  ultimately show ?thesis using True i find_update_first [of "\<lambda>i. it_key i = key" ?f "is"] by (simp add: set_item_def)
next
  case False
  then have "find (\<lambda>i. it_key i = key) is = None" by (simp add: find_some_ex)
  then show ?thesis using False by (auto simp: set_item_def find_append edited_def split: option.splits)
qed

lemma conf_item_set: "conf_item k' (conf_set k v cp) = (if k' = k then Some (edited (snd k) v (conf_item k cp)) else conf_item k' cp)"
proof -
  obtain sec key where k: "k = (sec, key)" by (cases k)
  obtain sec' key' where k': "k' = (sec', key')" by (cases k')
  obtain c where c: "conf_set (sec, key) v cp = upd_section sec (\<lambda>s. s\<lparr>sc_items := set_item key v '''' (sc_items s)\<rparr>) c"
    "\<forall>n. getSection n c = (if n = sec \<and> getSection sec cp = None then Some (IniSection_new\<lparr>sc_name := sec\<rparr>) else getSection n cp)"
    using conf_set_section [of sec key v cp] by blast
  show ?thesis
  proof (cases "sec' = sec")
    case True
    then show ?thesis
      by (cases "getSection sec cp") (simp_all add: k k' c(1) conf_item_def getSection_upd c(2) find_set_item_item)
  next
    case False
    then show ?thesis by (simp add: k k' c(1) conf_item_def getSection_upd c(2))
  qed
qed

lemma edited_twice: "edited key w (Some (edited key v i)) = edited key w i"
  by (simp add: edited_def)

lemma conf_item_sets:
  "conf_item k (fold (\<lambda>(k, v). conf_set k v) es cp) = (case map_of (rev es) k of
     Some v \<Rightarrow> Some (edited (snd k) v (conf_item k cp)) | None \<Rightarrow> conf_item k cp)"
proof (induction es arbitrary: cp)
  case Nil
  then show ?case by simp
next
  case (Cons e es)
  then show ?case
    by (cases e) (auto simp: conf_item_set edited_twice map_of_append map_add_def split: option.splits)
qed

text \<open>The titles of the sections, with the comments above and behind them.\<close>

definition section_title :: "IniSection \<Rightarrow> string \<times> string \<times> string" where
  "section_title s = (sc_name s, sc_comment s, sc_rightComment s)"

lemma getSection_conf_set: "getSection n cp \<noteq> None \<Longrightarrow> getSection n (conf_set k v cp) \<noteq> None"
proof -
  assume n: "getSection n cp \<noteq> None"
  obtain sec key where k: "k = (sec, key)" by (cases k)
  obtain c where "conf_set (sec, key) v cp = upd_section sec (\<lambda>s. s\<lparr>sc_items := set_item key v '''' (sc_items s)\<rparr>) c"
    "\<forall>n. getSection n c = (if n = sec \<and> getSection sec cp = None then Some (IniSection_new\<lparr>sc_name := sec\<rparr>) else getSection n cp)"
    using conf_set_section [of sec key v cp] by blast
  then show ?thesis using n by (simp add: k getSection_upd)
qed

section \<open>Assignments keep the configuration well formed\<close>

definition edit_ok :: "(string \<times> string) \<times> string \<Rightarrow> bool" where
  "edit_ok = (\<lambda>((section, key), val). plain ''#]'' section \<and> plain ''#='' key \<and> (key = [] \<or> hd key \<noteq> CHR ''['') \<and> plain ''#'' val)"

definition no_section_comment :: "ConfigParser \<Rightarrow> bool" where
  "no_section_comment cp \<longleftrightarrow> list_all (\<lambda>s. sc_rightComment s = []) (cp_sections cp)"

lemma set_update_first: "x \<in> set (update_first P f xs) \<Longrightarrow> x \<in> set xs \<or> (\<exists>y \<in> set xs. P y \<and> x = f y)"
  by (induction xs) (auto split: if_splits)

lemma map_update_first: "(\<And>x. P x \<Longrightarrow> g (f x) = g x) \<Longrightarrow> map g (update_first P f xs) = map g xs"
  by (induction xs) auto

lemma set_item_wf:
  assumes "list_all wf_item is" "edit_ok ((section, key), val)"
  shows "list_all wf_item (set_item key val '''' is)"
proof -
  have "plain [] []" by (simp add: plain_def trimmed_def)
  then show ?thesis using assms
    by (auto simp: set_item_def edit_ok_def list_all_iff wf_item_def dest!: set_update_first)
qed

lemma conf_set_wf:
  assumes "wf_config cp" "edit_ok (k, val)"
  shows "wf_config (conf_set k val cp)" and "no_section_comment cp \<Longrightarrow> no_section_comment (conf_set k val cp)"
proof -
  obtain sec key where k: "k = (sec, key)" by (cases k)
  let ?f = "\<lambda>s. s\<lparr>sc_items := set_item key val '''' (sc_items s)\<rparr>"
  let ?P = "\<lambda>s. sc_name s = sec"
  define ss where "ss = (if getSection sec cp \<noteq> None then cp_sections cp
      else if sec = '''' then IniSection_new\<lparr>sc_name := sec\<rparr> # cp_sections cp
      else cp_sections cp @ [IniSection_new\<lparr>sc_name := sec\<rparr>])"
  have e: "conf_set k val cp = cp\<lparr>cp_sections := update_first ?P ?f ss\<rparr>"
    by (simp add: k conf_set_def SetStringValue_def setValue_def Let_def upd_section_def ss_def)
  have dfl: "getSection '''' cp \<noteq> None"
    using assms(1) by (auto simp: wf_config_def getSection_def split: list.splits)
  then have ss: "ss = cp_sections cp \<and> getSection sec cp \<noteq> None
      \<or> ss = cp_sections cp @ [IniSection_new\<lparr>sc_name := sec\<rparr>] \<and> getSection sec cp = None"
    by (auto simp: ss_def)
  have new: "wf_section (IniSection_new\<lparr>sc_name := sec\<rparr>)"
    using assms(2) by (simp add: k edit_ok_def wf_section_def IniSection_new_def)
  then have w: "list_all wf_section ss" "distinct (map sc_name ss)"
    using assms(1) ss by (auto simp: wf_config_def getSection_def find_None_iff list_all_iff IniSection_new_def)
  have hd: "case ss of [] \<Rightarrow> False | s # _ \<Rightarrow> sc_name s = [] \<and> sc_comment s = [] \<and> sc_rightComment s = []"
    using assms(1) ss by (auto simp: wf_config_def split: list.splits)
  have "wf_section s \<Longrightarrow> wf_section (?f s)" for s
    using set_item_wf assms(2) by (auto simp: k wf_section_def)
  then have "list_all wf_section (update_first ?P ?f ss)"
    using w(1) by (auto simp: list_all_iff dest!: set_update_first)
  moreover have "map sc_name (update_first ?P ?f ss) = map sc_name ss" by (rule map_update_first) simp
  moreover have "case update_first ?P ?f ss of [] \<Rightarrow> False | s # _ \<Rightarrow> sc_name s = [] \<and> sc_comment s = [] \<and> sc_rightComment s = []"
    using hd by (cases ss) auto
  ultimately show "wf_config (conf_set k val cp)" using assms(1) w(2) by (simp add: e wf_config_def)
  show "no_section_comment (conf_set k val cp)" if "no_section_comment cp"
  proof -
    have "list_all (\<lambda>s. sc_rightComment s = []) ss"
      using that ss by (auto simp: no_section_comment_def IniSection_new_def)
    then show ?thesis by (auto simp: e no_section_comment_def list_all_iff dest!: set_update_first)
  qed
qed

lemma conf_set_titles:
  assumes "wf_config cp"
  shows "\<exists>new. map section_title (cp_sections (conf_set k val cp)) = map section_title (cp_sections cp) @ new"
proof -
  obtain sec key where k: "k = (sec, key)" by (cases k)
  let ?f = "\<lambda>s. s\<lparr>sc_items := set_item key val '''' (sc_items s)\<rparr>"
  have t: "map section_title (update_first (\<lambda>s. sc_name s = sec) ?f ss) = map section_title ss" for ss
    by (rule map_update_first) (simp add: section_title_def)
  have "getSection '''' cp \<noteq> None"
    using assms by (auto simp: wf_config_def getSection_def split: list.splits)
  then show ?thesis
    by (auto simp: k conf_set_def SetStringValue_def setValue_def Let_def upd_section_def t)
qed

lemma conf_sets_wf:
  assumes "wf_config cp" "no_section_comment cp" "list_all edit_ok es"
  shows "wf_config (fold (\<lambda>(k, v). conf_set k v) es cp) \<and> no_section_comment (fold (\<lambda>(k, v). conf_set k v) es cp)"
  using assms
proof (induction es arbitrary: cp)
  case Nil
  then show ?case by simp
next
  case (Cons e es)
  obtain k v where "e = (k, v)" by (cases e)
  then show ?case using Cons.IH [of "conf_set k v cp"] Cons.prems conf_set_wf [of cp k v] by simp
qed

section \<open>Integers as text\<close>

lemma digit_char:
  assumes "n < 10"
  shows "isdigit (char_of (48 + n))" "(of_char (char_of (48 + n) :: char) :: int) = int n + 48"
proof -
  have e: "(of_char (char_of (48 + n) :: char) :: nat) = 48 + n" using assms by simp
  then show "isdigit (char_of (48 + n))" using assms by (simp add: isdigit_def)
  have "(of_char (char_of (48 + n) :: char) :: int) = int (of_char (char_of (48 + n) :: char))" by (simp only: of_nat_of_char)
  then show "(of_char (char_of (48 + n) :: char) :: int) = int n + 48" using e by simp
qed

lemma to_string_digits: "list_all isdigit (to_string n)" "to_string n \<noteq> []"
proof -
  have "list_all isdigit (to_string n) \<and> to_string n \<noteq> []"
  proof (induction n rule: to_string.induct)
    case (1 n)
    show ?case
    proof (cases "n < 10")
      case True
      then have "to_string n = [char_of (48 + n)]" by (subst to_string.simps) simp
      then show ?thesis using digit_char [OF True] by simp
    next
      case False
      then have "to_string n = to_string (n div 10) @ [char_of (48 + n mod 10)]" by (subst to_string.simps) simp
      then show ?thesis using 1 [OF False] digit_char [of "n mod 10"] by simp
    qed
  qed
  then show "list_all isdigit (to_string n)" "to_string n \<noteq> []" by simp_all
qed

lemma digits_val_snoc: "digits_val (ds @ [d]) = 10 * digits_val ds + (of_char d - 48)"
  by (simp add: digits_val_def)

lemma digits_val_to_string: "digits_val (to_string n) = int n"
proof (induction n rule: to_string.induct)
  case (1 n)
  show ?case
  proof (cases "n < 10")
    case True
    then show ?thesis using digit_char [of n] by (subst to_string.simps) (simp add: digits_val_def)
  next
    case False
    have "digits_val (to_string n) = 10 * int (n div 10) + int (n mod 10)"
      using False 1 digit_char [of "n mod 10"] by (subst to_string.simps) (simp add: digits_val_snoc)
    also have "\<dots> = int n" by (metis div_mult_mod_eq mult.commute of_nat_add of_nat_mult of_nat_numeral)
    finally show ?thesis .
  qed
qed

lemma isdigit_other: "isdigit c \<Longrightarrow> c \<noteq> NUL \<and> \<not> isspace c \<and> c \<noteq> CHR ''-'' \<and> c \<noteq> CHR ''+'' \<and> c \<noteq> CHR ''#''"
  by (auto simp: isdigit_def isspace_def)

lemma atoi_int_to_string:
  assumes "- (2 ^ 31) \<le> v" "v < 2 ^ 31"
  shows "atoi (int_to_string v) = Some v"
proof -
  have d: "takeWhile (\<lambda>c. c \<noteq> NUL) (to_string n) = to_string n" "takeWhile isdigit (to_string n) = to_string n"
    "dropWhile isspace (to_string n) = to_string n" for n
    using to_string_digits [of n] isdigit_other by (auto simp: list_all_iff takeWhile_eq_all_conv dropWhile_eq_self_iff)
  obtain c cs where c: "to_string (nat v) = c # cs" "isdigit c"
    using to_string_digits [of "nat v"] by (cases "to_string (nat v)") auto
  show ?thesis
  proof (cases "v < 0")
    case True
    define ds where "ds = to_string (nat (- v))"
    have i: "int_to_string v = CHR ''-'' # ds" using True by (simp add: int_to_string_def ds_def)
    have n: "takeWhile (\<lambda>c. c \<noteq> NUL) ds = ds" "takeWhile isdigit ds = ds" "digits_val ds = - v"
      using d [of "nat (- v)"] digits_val_to_string [of "nat (- v)"] True by (simp_all add: ds_def)
    have "\<not> isspace CHR ''-''" by (simp add: isspace_def)
    then show ?thesis using assms by (simp add: i atoi_def n Let_def del: takeWhile_eq_all_conv)
  next
    case False
    have n: "takeWhile (\<lambda>c. c \<noteq> NUL) cs = cs" "takeWhile isdigit cs = cs" "digits_val (c # cs) = v"
      using d [of "nat v"] digits_val_to_string [of "nat v"] c False by (simp_all split: if_splits)
    have "int_to_string v = c # cs" using False c by (simp add: int_to_string_def)
    then show ?thesis using assms c(2) isdigit_other [OF c(2)] by (simp add: atoi_def n Let_def del: takeWhile_eq_all_conv)
  qed
qed

lemma plain_int_to_string: "plain ''#'' (int_to_string v)"
proof -
  have "plain ''#'' (to_string n)" for n
    using to_string_digits [of n] isdigit_other
    by (auto simp: plain_def trimmed_def list_all_iff isspace_def dest: hd_in_set last_in_set)
  then show ?thesis
    using to_string_digits(2) by (auto simp: int_to_string_def plain_def trimmed_def isspace_def)
qed

section \<open>Editing a configuration file\<close>

lemma config_reload:
  assumes "Load files p cp = (0, cp1)" and "cp_delim cp = ''#''" and "no_section_comment cp1"
    and "list_all edit_ok es" and "writable q" and "cp_delim cp2 = ''#''"
  shows "Load (snd (SaveAs writable q (fold (\<lambda>(k, v). conf_set k v) es cp1) files)) q cp2
    = (0, cp2\<lparr>cp_path := q, cp_sections := cp_sections (fold (\<lambda>(k, v). conf_set k v) es cp1)\<rparr>)"
  using conf_sets_wf [OF Load_wf [OF assms(1,2)] assms(3,4)] assms(5,6)
  by (intro Load_SaveAs) (simp_all add: no_section_comment_def)

lemma conf_get_cong: "cp_sections cp = cp_sections cp' \<Longrightarrow> conf_get k cp = conf_get k cp'"
  by (cases k) (simp add: conf_get_section getSection_def)

section \<open>Properties\<close>

lemma conf_sets_titles:
  assumes "wf_config cp" "no_section_comment cp" "list_all edit_ok es"
  shows "\<exists>new. map section_title (cp_sections (fold (\<lambda>(k, v). conf_set k v) es cp)) = map section_title (cp_sections cp) @ new"
  using assms
proof (induction es arbitrary: cp)
  case Nil
  then show ?case by simp
next
  case (Cons e es)
  obtain k v where e: "e = (k, v)" by (cases e)
  obtain new where "map section_title (cp_sections (conf_set k v cp)) = map section_title (cp_sections cp) @ new"
    using conf_set_titles [OF Cons.prems(1)] by blast
  then show ?case using Cons.IH [of "conf_set k v cp"] Cons.prems conf_set_wf [of cp k v] by (auto simp: e)
qed

text \<open>
  C34. Editing a configuration file in which no section title has a comment behind it: a file that
  loads, with any sequence of values set, saved under any path and loaded again, succeeds; the
  names, keys and values set are plain text (\<open>edit_ok\<close>: no newline, comment or key separator, no white
  space at either end). Every key that
  was set has the value last set and the comment behind it, if any, but not the comment lines above it,
  which an assignment drops; every other key has its item unchanged, with both comments; and the titles of
  the sections, with the comments above them, are the old ones, in the same order, before any new ones.
  So a file that is not edited comes back as it was.
\<close>

theorem config_edits:
  assumes "Load files p cp = (0, cp1)" and "cp_delim cp = ''#''" and "no_section_comment cp1"
    and "list_all edit_ok es" and "writable q" and "cp_delim cp2 = ''#''"
  shows "\<exists>cp3 new. Load (snd (SaveAs writable q (fold (\<lambda>(k, v). conf_set k v) es cp1) files)) q cp2 = (0, cp3)
     \<and> (\<forall>k. conf_get k cp3 = (case map_of (rev es) k of Some v \<Rightarrow> Some v | None \<Rightarrow> conf_get k cp1))
     \<and> (\<forall>k. conf_item k cp3 = (case map_of (rev es) k of
            None \<Rightarrow> conf_item k cp1
          | Some v \<Rightarrow> Some \<lparr>it_key = snd k, it_value = v, it_comment = [],
              it_rightComment = (case conf_item k cp1 of None \<Rightarrow> [] | Some i \<Rightarrow> it_rightComment i)\<rparr>))
     \<and> map section_title (cp_sections cp3) = map section_title (cp_sections cp1) @ new
     \<and> (es = [] \<longrightarrow> cp_sections cp3 = cp_sections cp1)"
proof -
  let ?e = "fold (\<lambda>(k, v). conf_set k v) es cp1" and ?cp3 = "cp2\<lparr>cp_path := q, cp_sections := cp_sections (fold (\<lambda>(k, v). conf_set k v) es cp1)\<rparr>"
  have wf: "wf_config cp1" by (rule Load_wf [OF assms(1,2)])
  obtain new where n: "map section_title (cp_sections ?e) = map section_title (cp_sections cp1) @ new"
    using conf_sets_titles [OF wf assms(3,4)] by blast
  have i: "conf_item k ?cp3 = conf_item k ?e" for k by (cases k) (simp add: conf_item_def getSection_def)
  then have g: "conf_get k ?cp3 = conf_get k ?e" for k by (simp add: conf_get_item)
  show ?thesis
    by (intro exI [of _ ?cp3] exI [of _ new] conjI allI)
      (use config_reload [OF assms(1-4), of writable q cp2] assms(5,6) n in \<open>simp_all add: i g conf.lookup_assigns conf_item_sets edited_def split: option.split\<close>)
qed

definition demo_files :: "string \<Rightarrow> string option" where
  "demo_files p = (if p = ''/c'' then Some (''[common] '' @ [NEWLINE] @ ''[bfs]'' @ [NEWLINE] @ ''# uuid'' @ [NEWLINE]
     @ '' device_uuid = 1 # old'' @ [NEWLINE] @ ''[fuse]'' @ [NEWLINE]) else None)"

definition demo_config :: ConfigParser where
  "demo_config = snd (Load demo_files ''/c'' ConfigParser_new)"

lemma demo_config_loads: "Load demo_files ''/c'' ConfigParser_new = (0, demo_config)" "no_section_comment demo_config"
    "HasSection ''common'' demo_config" "HasSection ''bfs'' demo_config" "HasSection ''fuse'' demo_config"
    "conf_get (''bfs'', ''device_uuid'') demo_config = Some ''1''"
  by code_simp+

lemma demo_edit: "list_all edit_ok [((''bfs'', ''device_uuid''), ''2''), ((''new'', ''k''), int_to_string (- 7))]"
  by code_simp

theorem config_edits_witness:
  "\<exists>cp3. Load (snd (SaveAs (\<lambda>_. True) ''/d'' (conf_set (''new'', ''k'') (int_to_string (- 7))
       (conf_set (''bfs'', ''device_uuid'') ''2'' demo_config)) demo_files)) ''/d'' ConfigParser_new = (0, cp3)
     \<and> conf_get (''bfs'', ''device_uuid'') cp3 = Some ''2''
     \<and> conf_item (''bfs'', ''device_uuid'') cp3
       = Some \<lparr>it_key = ''device_uuid'', it_value = ''2'', it_comment = [], it_rightComment = ''old''\<rparr>"
proof -
  have "conf_item (''bfs'', ''device_uuid'') demo_config
      = Some \<lparr>it_key = ''device_uuid'', it_value = ''1'', it_comment = ''# uuid'' @ [NEWLINE], it_rightComment = ''old''\<rparr>"
    by code_simp
  then show ?thesis
    using config_edits [OF demo_config_loads(1) _ demo_config_loads(2) demo_edit, of "\<lambda>_. True" "''/d''" ConfigParser_new]
    by (auto simp: ConfigParser_new_def)
qed

end
