(* ===== verification/Config_Comment.thy ===== *)
theory Config_Comment
  imports Config_Store
begin

text \<open>
  What \<open>SaveAs\<close> does with the comment behind a section title: it writes it after the newline that ends
  the title, so the comment and the first item of the section become one line, a comment line. All the
  rest of the file survives.
\<close>

section \<open>Lines up to white space\<close>

lemma load_lines_trim:
  "map trim xs = map trim ys \<Longrightarrow> load_lines xs c sect cp = load_lines ys c sect cp"
proof (induction xs arbitrary: ys c sect cp)
  case Nil
  then show ?case by simp
next
  case (Cons x xs)
  then obtain y ys' where y: "ys = y # ys'" "trim x = trim y" "map trim xs = map trim ys'" by (cases ys) auto
  have e: "load_lines xs = load_lines ys'" using Cons.IH [OF y(3)] by (intro ext)
  show ?case unfolding y(1) load_lines.simps y(2) e ..
qed

section \<open>Keys and values\<close>

definition content :: "IniSection list \<Rightarrow> (string \<times> (string \<times> string) list) list" where
  "content = map (\<lambda>s. (sc_name s, map (\<lambda>i. (it_key i, it_value i)) (sc_items s)))"

lemma find_key: "map_option it_value (find (\<lambda>i. it_key i = k) is) = map_of (map (\<lambda>i. (it_key i, it_value i)) is) k"
  by (induction "is") auto

lemma conf_get_content:
  "conf_get (n, k) cp = (case map_of (content (cp_sections cp)) n of None \<Rightarrow> None | Some kvs \<Rightarrow> map_of kvs k)"
proof -
  have "map_option (\<lambda>s. map (\<lambda>i. (it_key i, it_value i)) (sc_items s)) (find (\<lambda>s. sc_name s = n) ss) = map_of (content ss) n" for ss
    by (induction ss) (auto simp: content_def)
  from this [of "cp_sections cp"] show ?thesis
    by (auto simp: conf_get_section getSection_def find_key split: option.splits)
qed

text \<open>Without one item, a configuration has all values but that of the item.\<close>

lemma conf_get_lost:
  assumes "content (cp_sections cp) = as @ (n, (k, v) # kvs) # bs" "content (cp_sections cp3) = as @ (n, kvs) # bs"
    and "n \<notin> fst ` set as" "k \<notin> fst ` set kvs"
  shows "conf_get (n, k) cp = Some v" "conf_get x cp3 = (if x = (n, k) then None else conf_get x cp)"
proof -
  have a: "map_of as n = None" "map_of kvs k = None" using assms(3,4) by (simp_all add: map_of_eq_None_iff)
  show "conf_get (n, k) cp = Some v" by (simp add: conf_get_content assms(1) map_add_def a split: option.split)
  show "conf_get x cp3 = (if x = (n, k) then None else conf_get x cp)"
    using a by (cases x) (auto simp: conf_get_content assms(1,2) map_of_append map_add_def split: option.splits)
qed

section \<open>The saved text\<close>

text \<open>The comment of the title and the first item share a line.\<close>

definition lost_line :: "IniSection \<Rightarrow> IniItem \<Rightarrow> string" where
  "lost_line s i = ''#'' @ sc_rightComment s @ item_line i"

lemma render_commented:
  assumes "wf_section s" "sc_name s \<noteq> []" "sc_rightComment s \<noteq> []" "sc_items s = i # is" "it_comment i = []"
  shows "render_section ''#'' data s = data @ unlines (getlines (sc_comment s) @ [''['' @ sc_name s @ '']'', '' '' @ lost_line s i]
    @ concat (map item_lines is))"
proof -
  have w: "wf_item i" "list_all wf_item is" "unlines (getlines (sc_comment s)) = sc_comment s"
    using assms(1,4) by (simp_all add: wf_section_def wf_comment_def)
  have "item_lines i = [item_line i]" using assms(5) by (simp add: item_lines_def getlines.simps)
  then show ?thesis
    using assms w by (auto simp: render_section_def Let_def render_item_lines render_items_lines lost_line_def)
qed

lemma comment_lost_line: "wf_item i \<Longrightarrow> NEWLINE \<notin> set (sc_rightComment s) \<Longrightarrow> comment_line (lost_line s i)"
  using split_item_line(1,2) [of i] by (auto simp: comment_line_def lost_line_def trimmed_def item_line_def wf_item_def plain_def)

text \<open>A comment line in front of an item or a section belongs to it.\<close>

lemma getlines_Cons: "NEWLINE \<notin> set l \<Longrightarrow> getlines (l @ NEWLINE # c) = l # getlines c"
  by (subst getlines.simps) (simp add: takeWhile_append dropWhile_append)

lemma wf_comment_Cons: "comment_line l \<Longrightarrow> wf_comment c \<Longrightarrow> wf_comment (l @ NEWLINE # c)"
  by (simp add: wf_comment_def getlines_Cons comment_line_def)

lemma item_lines_Cons: "NEWLINE \<notin> set l \<Longrightarrow> item_lines (j\<lparr>it_comment := l @ NEWLINE # it_comment j\<rparr>) = l # item_lines j"
  by (simp add: item_lines_def getlines_Cons item_line_def)

lemma section_lines_Cons: "NEWLINE \<notin> set l \<Longrightarrow> section_lines (s\<lparr>sc_comment := l @ NEWLINE # sc_comment s\<rparr>) = l # section_lines s"
  by (simp add: section_lines_def getlines_Cons)

text \<open>The saved text is that of a configuration without the comment and the item.\<close>

lemma commented_lines:
  assumes l: "comment_line l" and wi: "list_all wf_item is" and wp: "list_all wf_section post" and rp: "list_all (\<lambda>s. sc_rightComment s = []) post"
    and ws: "wf_section s" and sn: "sc_name s \<noteq> []"
  shows "\<exists>ss cs. getlines (sc_comment s) @ [''['' @ sc_name s @ '']''] @ l # concat (map item_lines is) @ concat (map section_lines post)
      = concat (map section_lines ss) @ cs
    \<and> list_all comment_line cs \<and> list_all wf_section ss \<and> list_all (\<lambda>s. sc_rightComment s = []) ss
    \<and> content ss = (sc_name s, map (\<lambda>i. (it_key i, it_value i)) is) # content post"
proof -
  have nl: "NEWLINE \<notin> set l" using l by (simp add: comment_line_def)
  have wc: "wf_comment (sc_comment s)" "plain ''#]'' (sc_name s)" using ws by (simp_all add: wf_section_def)
  let ?s = "\<lambda>js. s\<lparr>sc_rightComment := [], sc_items := js\<rparr>"
  have sl: "section_lines (?s js) = getlines (sc_comment s) @ [''['' @ sc_name s @ '']''] @ concat (map item_lines js)" for js
    using sn by (simp add: section_lines_def)
  show ?thesis
  proof (cases "is")
    case (Cons j js)
    let ?j = "j\<lparr>it_comment := l @ NEWLINE # it_comment j\<rparr>"
    have "wf_item ?j" using wi l Cons wf_comment_Cons by (simp add: wf_item_def)
    then show ?thesis using wi wp rp wc Cons sl item_lines_Cons [OF nl]
      by (intro exI [of _ "?s (?j # js) # post"] exI [of _ "[]"]) (simp add: wf_section_def content_def)
  next
    case Nil
    show ?thesis
    proof (cases post)
      case (Cons p ps)
      let ?p = "p\<lparr>sc_comment := l @ NEWLINE # sc_comment p\<rparr>"
      have "wf_section ?p" using wp l Cons wf_comment_Cons by (simp add: wf_section_def)
      then show ?thesis using wp rp wc Cons Nil sl section_lines_Cons [OF nl]
        by (intro exI [of _ "?s [] # ?p # ps"] exI [of _ "[]"]) (simp add: wf_section_def content_def)
    next
      case Nil
      then show ?thesis using \<open>is = []\<close> wc sl l
        by (intro exI [of _ "[?s []]"] exI [of _ "[l]"]) (simp add: wf_section_def content_def)
    qed
  qed
qed

section \<open>Property\<close>

text \<open>
  C35. A section title with a comment behind it, in a well-formed configuration, where the first item of the
  section has no comment of its own above it and a key that the section does not repeat: \<open>SaveAs\<close> writes the comment in front of the item, on one line.
  Loading the saved file succeeds and finds every section, but that item is gone, and it is the only one
  that is.
\<close>

theorem section_comment_loses_item:
  assumes "wf_config cp" and "cp_sections cp = pre @ s # post"
    and "list_all (\<lambda>s. sc_rightComment s = []) (pre @ post)" and "sc_rightComment s \<noteq> []" and "NEWLINE \<notin> set (sc_rightComment s)"
    and "sc_items s = i # is" and "it_comment i = []" and "it_key i \<notin> it_key ` set is"
    and "writable q" and "cp_delim cp2 = ''#''"
  shows "conf_get (sc_name s, it_key i) cp = Some (it_value i)
     \<and> (\<exists>cp3. Load (snd (SaveAs writable q cp files)) q cp2 = (0, cp3)
          \<and> map sc_name (cp_sections cp3) = map sc_name (cp_sections cp)
          \<and> (\<forall>k. conf_get k cp3 = (if k = (sc_name s, it_key i) then None else conf_get k cp)))"
proof -
  have wf: "cp_delim cp = ''#''" "distinct (map sc_name (pre @ s # post))" "list_all wf_section (pre @ s # post)"
    "case pre @ s # post of [] \<Rightarrow> False | s # _ \<Rightarrow> sc_name s = [] \<and> sc_comment s = [] \<and> sc_rightComment s = []"
    using assms(1,2) by (simp_all add: wf_config_def)
  obtain p0 pre' where p0: "pre = p0 # pre'" "sc_name p0 = []" using wf(4) assms(4) by (cases pre) auto
  then have sn: "sc_name s \<noteq> []" using wf(2) by auto
  have w: "wf_item i" "list_all wf_item is" "wf_section s" using wf(3) assms(6) by (simp_all add: wf_section_def)
  let ?l = "lost_line s i" and ?title = "getlines (sc_comment s) @ [''['' @ sc_name s @ '']'']"
  have cl: "comment_line ?l" by (rule comment_lost_line [OF w(1) assms(5)])
  obtain ss cs where ss: "?title @ ?l # concat (map item_lines is) @ concat (map section_lines post) = concat (map section_lines ss) @ cs"
    "list_all comment_line cs" "list_all wf_section ss" "list_all (\<lambda>s. sc_rightComment s = []) ss"
    "content ss = (sc_name s, map (\<lambda>i. (it_key i, it_value i)) is) # content post"
    using commented_lines [OF cl w(2) _ _ w(3) sn, of post] wf(3) assms(3) by auto
  let ?cp = "cp\<lparr>cp_sections := pre @ ss\<rparr>" and ?cp3 = "cp2\<lparr>cp_path := q, cp_sections := pre @ ss\<rparr>"
  have names: "map sc_name ss = sc_name s # map sc_name post"
    using arg_cong [OF ss(5), of "map fst"] by (simp add: content_def comp_def)
  have wf': "wf_config ?cp" "list_all (\<lambda>s. sc_rightComment s = []) (cp_sections ?cp)"
    using wf ss(3,4) names p0 assms(3) by (simp_all add: wf_config_def)
  let ?ls = "concat (map section_lines pre) @ ?title @ ('' '' @ ?l) # concat (map item_lines is) @ concat (map section_lines post)"
  have "render cp = unlines ?ls"
    using wf(1,3) assms(2,3) by (simp add: render_def render_sections_lines render_commented [OF w(3) sn assms(4,6,7)])
  moreover have "\<forall>l \<in> set (?title @ ?l # concat (map item_lines is) @ concat (map section_lines post)). NEWLINE \<notin> set l"
    unfolding ss(1) using config_lines_newline [OF ss(3)] ss(2) by (auto simp: list_all_iff comment_line_def)
  then have "\<forall>l \<in> set ?ls. NEWLINE \<notin> set l" using config_lines_newline [of pre] wf(3) by auto
  ultimately have g: "getlines (render cp) = ?ls" by (simp only: getlines_unlines)
  have "trim ('' '' @ ?l) = trim ?l" by (simp add: trim_eq)
  then have "map trim ?ls = map trim (config_lines ?cp @ cs)" using ss(1) [symmetric] by (simp add: config_lines_def)
  from load_lines_trim [OF this] have "load_lines (getlines (render cp)) '''' 0 (cp2\<lparr>cp_path := q, cp_sections := [IniSection_new]\<rparr>) = (0, ?cp3)"
    unfolding g using load_config [OF wf' assms(10) ss(2), of q] by simp
  then have L: "Load (snd (SaveAs writable q cp files)) q cp2 = (0, ?cp3)"
    by (simp add: Load_render [where writable = writable and p = q, OF assms(9)])
  have ct: "content (cp_sections cp) = content pre @ (sc_name s, (it_key i, it_value i) # map (\<lambda>i. (it_key i, it_value i)) is) # content post"
    "content (cp_sections ?cp3) = content pre @ (sc_name s, map (\<lambda>i. (it_key i, it_value i)) is) # content post"
    using assms(2,6) ss(5) by (simp_all add: content_def)
  have "sc_name s \<notin> fst ` set (content pre)" "it_key i \<notin> fst ` set (map (\<lambda>i. (it_key i, it_value i)) is)"
    using wf(2) assms(8) by (auto simp: content_def)
  from conf_get_lost [OF ct this] L names show ?thesis using assms(2) by (intro conjI exI [of _ ?cp3]) simp_all
qed

definition demo_commented :: ConfigParser where
  "demo_commented = snd (Load (\<lambda>p. Some (''[s] # c'' @ [NEWLINE] @ ''k = v'' @ [NEWLINE] @ ''k2 = v2'' @ [NEWLINE])) ''/c'' ConfigParser_new)"

theorem section_comment_loses_item_witness:
  "\<exists>cp3. Load (snd (SaveAs (\<lambda>_. True) ''/d'' demo_commented Map.empty)) ''/d'' ConfigParser_new = (0, cp3)
     \<and> conf_get (''s'', ''k'') demo_commented = Some ''v'' \<and> conf_get (''s'', ''k'') cp3 = None \<and> conf_get (''s'', ''k2'') cp3 = Some ''v2''"
proof -
  let ?i = "\<lparr>it_key = ''k'', it_value = ''v'', it_comment = [], it_rightComment = []\<rparr>"
    and ?j = "\<lparr>it_key = ''k2'', it_value = ''v2'', it_comment = [], it_rightComment = []\<rparr>"
  let ?s = "\<lparr>sc_name = ''s'', sc_comment = [], sc_rightComment = ''c'', sc_items = [?i, ?j]\<rparr>"
  have d: "cp_sections demo_commented = [IniSection_new] @ ?s # []" "conf_get (''s'', ''k2'') demo_commented = Some ''v2''"
    "cp_delim ConfigParser_new = ''#''"
    by code_simp+
  have w: "wf_config demo_commented" by code_simp
  have r: "list_all (\<lambda>s. sc_rightComment s = []) ([IniSection_new] @ [])" by (simp add: IniSection_new_def)
  from section_comment_loses_item [OF w d(1) r, of ?i "[?j]" "\<lambda>_. True" "''/d''" ConfigParser_new Map.empty] d(2,3)
  show ?thesis by auto
qed

end
