(* ===== verification/Logging.thy ===== *)
theory Logging
  imports Config_Parser
begin

text \<open>
  The logger (\<open>lib/logging.cc\<close>, \<open>lib/logging.h\<close>): the levels, and the 4096 byte buffer in which a
  \<open>LOG\<close> statement puts its line together. The bytes of a buffer on the stack before it is written are
  an argument, \<open>filler\<close>; the time of day, which the standard library formats, is an argument too. The
  operators for \<open>double\<close> and \<open>float\<close> are left out.
\<close>

section \<open>Log levels\<close>

datatype LogLevel = TRACE | DEBUG | INFO | WARNING | ERROR | FATAL | NUM_LOG_LEVELS

definition kLevelTable :: "(LogLevel \<times> string) list" where
  "kLevelTable = [(TRACE, ''TRACE''), (DEBUG, ''DEBUG''), (INFO, ''INFO''), (WARNING, ''WARN''), (ERROR, ''ERROR''),
     (FATAL, ''FATAL''), (NUM_LOG_LEVELS, ''NUM_LOG_LEVELS'')]"

definition LogLevelConvert :: "string \<Rightarrow> LogLevel" where
  "LogLevelConvert pLevel = (case find (\<lambda>e. snd e = pLevel) kLevelTable of Some e \<Rightarrow> fst e | None \<Rightarrow> INFO)"

definition LogLevelName :: "LogLevel \<Rightarrow> string" where
  "LogLevelName level = (case find (\<lambda>e. fst e = level) kLevelTable of Some e \<Rightarrow> snd e | None \<Rightarrow> ''INFO'')"

lemma LogLevel_roundtrip: "LogLevelConvert (LogLevelName l) = l"
  by (cases l) (simp_all add: LogLevelConvert_def LogLevelName_def kLevelTable_def)

text \<open>The enumeration is compared by its numbers.\<close>

fun level_number :: "LogLevel \<Rightarrow> nat" where
  "level_number TRACE = 0" | "level_number DEBUG = 1" | "level_number INFO = 2" | "level_number WARNING = 3"
| "level_number ERROR = 4" | "level_number FATAL = 5" | "level_number NUM_LOG_LEVELS = 6"

instantiation LogLevel :: linorder
begin

definition less_eq_LogLevel :: "LogLevel \<Rightarrow> LogLevel \<Rightarrow> bool" where
  "a \<le> b \<longleftrightarrow> level_number a \<le> level_number b"

definition less_LogLevel :: "LogLevel \<Rightarrow> LogLevel \<Rightarrow> bool" where
  "a < b \<longleftrightarrow> level_number a < level_number b"

instance
proof
  fix a b :: LogLevel
  show "a \<le> b \<Longrightarrow> b \<le> a \<Longrightarrow> a = b" by (cases a; cases b) (simp_all add: less_eq_LogLevel_def)
qed (auto simp: less_eq_LogLevel_def less_LogLevel_def)

end

section \<open>Hexadecimal numbers\<close>

definition digitsHex :: string where
  "digitsHex = ''0123456789ABCDEF''"

text \<open>The loop writes the digits from the last to the first; \<open>ConvertHex\<close> turns them around.\<close>

function hex_loop :: "u64 \<Rightarrow> string" where
  "hex_loop i = digitsHex ! unat (i mod 16) # (if i div 16 = 0 then [] else hex_loop (i div 16))"
  by auto
termination
  by (relation "measure unat") (auto simp: unat_div word_unat_eq_iff)

declare hex_loop.simps [simp del]

definition ConvertHex :: "u64 \<Rightarrow> string" where
  "ConvertHex value = rev (hex_loop value)"

section \<open>The buffer\<close>

record Logger =
  lg_level :: LogLevel
  lg_buffer :: string

text \<open>\<open>strlen\<close> of a buffer without a terminating NUL reads on behind it.\<close>

definition strlen :: "string \<Rightarrow> nat option" where
  "strlen b = (if NUL \<in> set b then Some (length (takeWhile (\<lambda>c. c \<noteq> NUL) b)) else None)"

text \<open>\<open>snprintf\<close> with a limit of \<open>sizeof(buffer_) - 1\<close>, into a buffer of zeros.\<close>

definition Logger_new :: "LogLevel \<Rightarrow> string \<Rightarrow> nat \<Rightarrow> string \<Rightarrow> LogLevel \<Rightarrow> string \<Rightarrow> Logger" where
  "Logger_new logLevel file line now min_level filler =
     \<lparr>lg_level = logLevel,
      lg_buffer = (if min_level \<le> logLevel
        then fit 4096 NUL (take 4094 (now @ '' '' @ LogLevelName logLevel @ '' '' @ file @ '':'' @ to_string line @ '' - ''))
        else filler)\<rparr>"

text \<open>\<open>len\<close> is an \<open>unsigned int\<close>; \<open>buf\<close> is the memory at the pointer, and \<open>memcpy\<close> past its end is undefined.\<close>

definition Append :: "string \<Rightarrow> nat \<Rightarrow> Logger \<Rightarrow> Logger option" where
  "Append buf len l = do {
     n \<leftarrow> strlen (lg_buffer l);
     if n + len \<le> 4096
     then if len \<le> length buf
          then Some (l\<lparr>lg_buffer := take n (lg_buffer l) @ take len buf @ drop (n + len) (lg_buffer l)\<rparr>)
          else None
     else Some l
   }"

definition ResetBuffer :: "Logger \<Rightarrow> Logger" where
  "ResetBuffer l = l\<lparr>lg_buffer := replicate 4096 NUL\<rparr>"

section \<open>The operators\<close>

text \<open>A C string is the text with the NUL behind it; \<open>None\<close> is the null pointer.\<close>

definition put_cstring :: "string option \<Rightarrow> Logger \<Rightarrow> Logger option" where
  "put_cstring v = (case v of Some s \<Rightarrow> Append (s @ [NUL]) (length s mod 2 ^ 32) | None \<Rightarrow> Append (''(null)'' @ [NUL]) 6)"

definition put_string :: "string \<Rightarrow> Logger \<Rightarrow> Logger option" where
  "put_string v = Append (v @ [NUL]) (length v mod 2 ^ 32)"

definition put_bool :: "bool \<Rightarrow> Logger \<Rightarrow> Logger option" where
  "put_bool v = put_cstring (Some (if v then ''true'' else ''false''))"

definition put_int :: "int \<Rightarrow> Logger \<Rightarrow> Logger option" where
  "put_int v = put_cstring (Some (int_to_string v))"

text \<open>\<open>ConvertHex\<close> writes into an array of 16 zero bytes, its NUL included.\<close>

definition put_pointer :: "u64 \<Rightarrow> Logger \<Rightarrow> Logger option" where
  "put_pointer p l =
     (if p = 0 then Some l
      else do {
        l \<leftarrow> Append (''0x'' @ [NUL]) 2 l;
        let h = ConvertHex p;
        if 16 \<le> length h then None else Append (fit 16 NUL h) (length h + 2) l
      })"

datatype log_item = LCstr "string option" | LStr string | LBool bool | LInt int | LPtr u64

fun put_item :: "log_item \<Rightarrow> Logger \<Rightarrow> Logger option" where
  "put_item (LCstr v) l = put_cstring v l"
| "put_item (LStr v) l = put_string v l"
| "put_item (LBool v) l = put_bool v l"
| "put_item (LInt v) l = put_int v l"
| "put_item (LPtr v) l = put_pointer v l"

fun put_items :: "log_item list \<Rightarrow> Logger \<Rightarrow> Logger option" where
  "put_items [] l = Some l"
| "put_items (x # xs) l = do { l \<leftarrow> put_item x l; put_items xs l }"

text \<open>The destructor prints the buffer up to its NUL, and a line break.\<close>

definition Logger_done :: "LogLevel \<Rightarrow> Logger \<Rightarrow> string option" where
  "Logger_done min_level l =
     (if min_level \<le> lg_level l then map_option (\<lambda>n. take n (lg_buffer l) @ [CHR 0x0A]) (strlen (lg_buffer l)) else Some [])"

text \<open>A whole statement \<open>LOG(level) << x << ...\<close>, with what it prints.\<close>

definition LOG :: "LogLevel \<Rightarrow> string \<Rightarrow> nat \<Rightarrow> log_item list \<Rightarrow> string \<Rightarrow> LogLevel \<Rightarrow> string \<Rightarrow> string option" where
  "LOG level file line xs now min_level filler = do {
     l \<leftarrow> put_items xs (Logger_new level file line now min_level filler);
     Logger_done min_level l
   }"

section \<open>What is printed\<close>

text \<open>The value of a hexadecimal number.\<close>

definition hex_digit :: "char \<Rightarrow> nat" where
  "hex_digit c = length (takeWhile (\<lambda>x. x \<noteq> c) digitsHex)"

definition hex_value :: "string \<Rightarrow> nat" where
  "hex_value = foldl (\<lambda>n c. 16 * n + hex_digit c) 0"

lemma hex_digit_digitsHex: "d < 16 \<Longrightarrow> hex_digit (digitsHex ! d) = d"
proof -
  have "\<forall>d \<in> {0..<16}. hex_digit (digitsHex ! d) = d" unfolding hex_digit_def digitsHex_def by code_simp
  then show "d < 16 \<Longrightarrow> hex_digit (digitsHex ! d) = d" by simp
qed

lemma hex_value_rev: "hex_value (rev (c # cs)) = 16 * hex_value (rev cs) + hex_digit c"
  by (simp add: hex_value_def)

lemma hex_loop_value: "hex_value (rev (hex_loop i)) = unat i"
proof (induction i rule: hex_loop.induct)
  case (1 i)
  have m: "unat (i mod 16) = unat i mod 16" "unat (i div 16) = unat i div 16" by (simp_all add: unat_mod unat_div)
  have d: "hex_digit (digitsHex ! unat (i mod 16)) = unat i mod 16" unfolding m by (rule hex_digit_digitsHex) simp
  show ?case
  proof (cases "i div 16 = 0")
    case True
    then have "unat i div 16 = 0" using m(2) by simp
    then show ?thesis unfolding hex_loop.simps [of i] hex_value_rev d using True by (simp add: hex_value_def)
  next
    case False
    then show ?thesis unfolding hex_loop.simps [of i] hex_value_rev d using 1 m(2) by simp
  qed
qed

lemma hex_loop_length: "unat i < 16 ^ n \<Longrightarrow> 0 < n \<Longrightarrow> length (hex_loop i) \<le> n"
proof (induction i arbitrary: n rule: hex_loop.induct)
  case (1 i)
  obtain k where n: "n = Suc k" using 1(3) by (cases n) auto
  show ?case
  proof (cases "i div 16 = 0")
    case True
    then show ?thesis using n by (simp add: hex_loop.simps [of i])
  next
    case False
    have "unat (i div 16) < 16 ^ k" using 1(2) n by (simp add: unat_div less_mult_imp_div_less)
    moreover have "0 < k"
    proof (rule ccontr)
      assume "\<not> 0 < k"
      then have "unat (i div 16) = 0" using \<open>unat (i div 16) < 16 ^ k\<close> by simp
      then show False using False by (simp only: unat_eq_0)
    qed
    ultimately have "length (hex_loop (i div 16)) \<le> k" by (rule 1(1) [OF False])
    then show ?thesis using n False by (simp add: hex_loop.simps [of i])
  qed
qed

lemma ConvertHex_value: "hex_value (ConvertHex v) = unat v" "length (ConvertHex v) \<le> 16"
proof -
  show "hex_value (ConvertHex v) = unat v" by (simp add: ConvertHex_def hex_loop_value)
  have "unat v < 16 ^ 16" using unsigned_less [where ?'a = nat, of v] by simp
  then show "length (ConvertHex v) \<le> 16" using hex_loop_length [of v 16] by (simp add: ConvertHex_def)
qed

text \<open>A buffer that holds a text: the text, a NUL, and the rest of the array.\<close>

definition holds :: "string \<Rightarrow> Logger \<Rightarrow> bool" where
  "holds t l \<longleftrightarrow> length (lg_buffer l) = 4096 \<and> NUL \<notin> set t \<and> length t < 4096
     \<and> take (length t) (lg_buffer l) = t \<and> (\<forall>i \<in> {length t..<4096}. lg_buffer l ! i = NUL)"

lemma holds_strlen:
  assumes "holds t l"
  shows "strlen (lg_buffer l) = Some (length t)"
proof -
  have b: "lg_buffer l = t @ drop (length t) (lg_buffer l)" using assms by (metis append_take_drop_id holds_def)
  have "drop (length t) (lg_buffer l) \<noteq> []" "hd (drop (length t) (lg_buffer l)) = NUL"
    using assms by (auto simp: holds_def hd_drop_conv_nth)
  then obtain r where "drop (length t) (lg_buffer l) = NUL # r" by (metis list.exhaust_sel)
  then have b: "lg_buffer l = t @ NUL # r" using b by simp
  have "takeWhile (\<lambda>c. c \<noteq> NUL) (t @ NUL # r) = t" using assms by (auto simp: holds_def takeWhile_append)
  then show ?thesis unfolding b by (simp add: strlen_def)
qed

lemma Append_fits:
  assumes h: "holds t l" and x: "NUL \<notin> set x" "length t + length x < 4096" and z: "set z \<subseteq> {NUL}" "length t + length x + length z \<le> 4096"
  shows "\<exists>l'. Append (x @ z @ r) (length x + length z) l = Some l' \<and> holds (t @ x) l' \<and> lg_level l' = lg_level l"
proof -
  let ?b = "take (length t) (lg_buffer l) @ (x @ z) @ drop (length t + (length x + length z)) (lg_buffer l)"
  have t: "take (length t) (lg_buffer l) = t" "length (lg_buffer l) = 4096" using h by (simp_all add: holds_def)
  have "?b ! i = NUL" if i: "i \<in> {length (t @ x)..<4096}" for i
  proof (cases "i < length t + length x + length z")
    case True
    then have "?b ! i = z ! (i - length t - length x)" using i t by (auto simp: nth_append)
    moreover have "z ! (i - length t - length x) \<in> set z" using True i by (intro nth_mem) auto
    ultimately show ?thesis using z(1) by auto
  next
    case False
    then show ?thesis using h i z(2) by (auto simp: nth_append holds_def)
  qed
  moreover have "length ?b = 4096" using t z(2) by simp
  moreover have "take (length (t @ x)) ?b = t @ x" using t by simp
  ultimately have "holds (t @ x) (l\<lparr>lg_buffer := ?b\<rparr>)" using h x by (simp add: holds_def)
  moreover have "Append (x @ z @ r) (length x + length z) l = Some (l\<lparr>lg_buffer := ?b\<rparr>)"
    using holds_strlen [OF h] z(2) by (simp add: Append_def)
  ultimately show ?thesis by (intro exI [of _ "l\<lparr>lg_buffer := ?b\<rparr>"]) simp
qed

text \<open>What an item adds to the line, and items whose text has no NUL (and pointers of up to 56 bits).\<close>

fun item_text :: "log_item \<Rightarrow> string" where
  "item_text (LCstr v) = (case v of Some s \<Rightarrow> s | None \<Rightarrow> ''(null)'')"
| "item_text (LStr v) = v"
| "item_text (LBool v) = (if v then ''true'' else ''false'')"
| "item_text (LInt v) = int_to_string v"
| "item_text (LPtr p) = (if p = 0 then [] else ''0x'' @ ConvertHex p)"

fun item_fine :: "log_item \<Rightarrow> bool" where
  "item_fine (LPtr p) \<longleftrightarrow> unat p < 2 ^ 56"
| "item_fine x \<longleftrightarrow> NUL \<notin> set (item_text x)"

lemma ConvertHex_digits: "NUL \<notin> set (ConvertHex v)"
proof -
  have "set (hex_loop i) \<subseteq> set digitsHex" for i
  proof (induction i rule: hex_loop.induct)
    case (1 i)
    have "unat (i mod 16) < length digitsHex" by (simp add: unat_mod digitsHex_def)
    then show ?case using 1 by (subst hex_loop.simps) simp
  qed
  moreover have "NUL \<notin> set digitsHex" by (simp add: digitsHex_def)
  ultimately show ?thesis by (auto simp: ConvertHex_def)
qed

lemma put_item_fits:
  assumes h: "holds t l" and x: "item_fine x" "length t + length (item_text x) \<le> 4094"
  shows "\<exists>l'. put_item x l = Some l' \<and> holds (t @ item_text x) l' \<and> lg_level l' = lg_level l"
proof -
  have str: "\<exists>l'. Append (s @ [NUL]) (length s mod 2 ^ 32) l = Some l' \<and> holds (t @ s) l' \<and> lg_level l' = lg_level l"
    if "NUL \<notin> set s" "length t + length s \<le> 4094" for s
    using Append_fits [OF h that(1), of "[]" "[NUL]"] that(2) by simp
  show ?thesis
  proof (cases x)
    case (LCstr v)
    then show ?thesis using str [of "item_text x"] x by (cases v) (simp_all add: put_cstring_def)
  next
    case (LStr v)
    then show ?thesis using str [of v] x by (simp add: put_string_def)
  next
    case (LBool v)
    then show ?thesis using str [of "item_text x"] x by (simp add: put_bool_def put_cstring_def)
  next
    case (LInt v)
    then show ?thesis using str [of "item_text x"] x by (simp add: put_int_def put_cstring_def)
  next
    case (LPtr p)
    let ?h = "ConvertHex p"
    show ?thesis
    proof (cases "p = 0")
      case True
      then show ?thesis using LPtr h by (simp add: put_pointer_def)
    next
      case False
      have len: "length t + (2 + length ?h) \<le> 4094" using x(2) LPtr False by simp
      have l14: "length ?h \<le> 14" using hex_loop_length [of p 14] x(1) LPtr by (simp add: ConvertHex_def)
      from Append_fits [OF h, of "''0x''" "[]" "[NUL]"] len obtain l1 where
        l1: "Append (''0x'' @ [NUL]) 2 l = Some l1" "holds (t @ ''0x'') l1" "lg_level l1 = lg_level l"
        by (auto simp: numeral_2_eq_2)
      obtain m where m: "16 - length ?h = Suc (Suc m)" using l14 that [of "14 - length ?h"] by simp
      have f: "fit 16 NUL ?h = ?h @ [NUL, NUL] @ replicate m NUL" using l14 by (simp add: fit_def m)
      have "\<exists>l2. Append (?h @ [NUL, NUL] @ replicate m NUL) (length ?h + length [NUL, NUL]) l1 = Some l2
          \<and> holds ((t @ ''0x'') @ ?h) l2 \<and> lg_level l2 = lg_level l1"
        by (rule Append_fits [OF l1(2) ConvertHex_digits]) (use len in simp_all)
      then obtain l2 where l2: "Append (fit 16 NUL ?h) (length ?h + 2) l1 = Some l2" "holds ((t @ ''0x'') @ ?h) l2" "lg_level l2 = lg_level l1"
        unfolding f by auto
      show ?thesis using LPtr False l1 l2 l14 by (simp add: put_pointer_def)
    qed
  qed
qed

lemma put_items_fit:
  assumes "holds t l" "list_all item_fine xs" "length t + length (concat (map item_text xs)) \<le> 4094"
  shows "\<exists>l'. put_items xs l = Some l' \<and> holds (t @ concat (map item_text xs)) l' \<and> lg_level l' = lg_level l"
  using assms
proof (induction xs arbitrary: t l)
  case (Cons x xs)
  have x: "item_fine x" "length t + length (item_text x) \<le> 4094" using Cons.prems by simp_all
  from put_item_fits [OF Cons.prems(1) this] obtain l1 where l1: "put_item x l = Some l1" "holds (t @ item_text x) l1" "lg_level l1 = lg_level l" by blast
  from Cons.IH [OF l1(2)] Cons.prems show ?case using l1 by simp
qed simp

text \<open>The text in front of every line.\<close>

definition log_header :: "LogLevel \<Rightarrow> string \<Rightarrow> nat \<Rightarrow> string \<Rightarrow> string" where
  "log_header level file line now = now @ '' '' @ LogLevelName level @ '' '' @ file @ '':'' @ to_string line @ '' - ''"

lemma Logger_new_holds:
  assumes "min_level \<le> level" "NUL \<notin> set (log_header level file line now)" "length (log_header level file line now) \<le> 4094"
  shows "holds (log_header level file line now) (Logger_new level file line now min_level filler)"
proof -
  have "lg_buffer (Logger_new level file line now min_level filler) = fit 4096 NUL (log_header level file line now)"
    using assms by (simp add: Logger_new_def log_header_def)
  then show ?thesis using assms(2,3) by (auto simp: holds_def fit_def nth_append)
qed

lemma Logger_done_holds: "holds t l \<Longrightarrow> Logger_done min_level l = Some (if min_level \<le> lg_level l then t @ [CHR 0x0A] else [])"
  using holds_strlen by (simp add: Logger_done_def) (simp add: holds_def)

section \<open>Properties\<close>

text \<open>
  C39. A \<open>LOG\<close> statement at or above the minimal level prints one line: time, level, file and line
  number, and then the text of every item, numbers in decimal and pointers in hexadecimal, as long
  as all of it fits into 4094 bytes; the hexadecimal digits denote the number.
\<close>

theorem LOG_prints:
  assumes "min_level \<le> level" and "NUL \<notin> set (log_header level file line now)" and "list_all item_fine xs"
    and "length (log_header level file line now @ concat (map item_text xs)) \<le> 4094"
  shows "LOG level file line xs now min_level filler
      = Some (log_header level file line now @ concat (map item_text xs) @ [CHR 0x0A])
     \<and> (\<forall>v. hex_value (ConvertHex v) = unat v)"
proof -
  let ?h = "log_header level file line now"
  have "holds ?h (Logger_new level file line now min_level filler)" using Logger_new_holds [OF assms(1,2)] assms(4) by simp
  from put_items_fit [OF this assms(3)] assms(4) obtain l where
    l: "put_items xs (Logger_new level file line now min_level filler) = Some l" "holds (?h @ concat (map item_text xs)) l" "lg_level l = level"
    by (auto simp: Logger_new_def)
  then show ?thesis using Logger_done_holds [OF l(2), of min_level] assms(1) ConvertHex_value(1) by (simp add: LOG_def)
qed

theorem LOG_prints_witness:
  "LOG WARNING ''file.cc'' 7 [LStr ''fd '', LInt (- 3), LPtr 0xBEEF] ''12:00'' INFO [] = Some (''12:00 WARN file.cc:7 - fd -30xBEEF'' @ [CHR 0x0A])"
proof -
  have n: "to_string 7 = ''7''" "to_string 3 = ''3''" by code_simp+
  have x: "ConvertHex 0xBEEF = ''BEEF''" unfolding ConvertHex_def by (simp add: hex_loop.simps digitsHex_def)
  have "INFO \<le> WARNING" by (simp add: less_eq_LogLevel_def)
  moreover have h: "log_header WARNING ''file.cc'' 7 ''12:00'' = ''12:00 WARN file.cc:7 - ''"
    by (simp add: log_header_def n LogLevelName_def kLevelTable_def)
  ultimately show ?thesis
    using LOG_prints [of INFO WARNING "''file.cc''" 7 "''12:00''" "[LStr ''fd '', LInt (- 3), LPtr 0xBEEF]" "[]"]
    by (simp add: int_to_string_def n x)
qed

text \<open>
  C40. Where \<open>LOG\<close> goes wrong: an item that fills the buffer to its last byte passes the check of
  \<open>Append\<close>, which leaves no room for the NUL, so printing the line reads on behind the buffer; and
  below the minimal level, where nothing is to be printed, the items are appended all the same, to
  a buffer that was never written.
\<close>

theorem LOG_undefined:
  assumes "NUL \<notin> set (log_header level file line now)" and "NUL \<notin> set v"
    and "min_level \<le> level \<and> length (log_header level file line now) \<le> 4094 \<and> length (log_header level file line now @ v) = 4096
      \<or> level < min_level \<and> NUL \<notin> set filler"
  shows "LOG level file line [LStr v] now min_level filler = None"
  using assms(3)
proof
  let ?h = "log_header level file line now" and ?l = "Logger_new level file line now min_level filler"
  assume a: "min_level \<le> level \<and> length ?h \<le> 4094 \<and> length (?h @ v) = 4096"
  then have h: "holds ?h ?l" using Logger_new_holds assms(1) by blast
  have v: "length v mod 2 ^ 32 = length v" "length ?h + length v = 4096" using a by simp_all
  have "take (length ?h) (lg_buffer ?l) = ?h" "length (lg_buffer ?l) = 4096" using h by (simp_all add: holds_def)
  then have "put_string v ?l = Some (?l\<lparr>lg_buffer := ?h @ v\<rparr>)"
    using holds_strlen [OF h] v unfolding put_string_def v(1) by (simp add: Append_def)
  then show ?thesis using assms(1,2) a by (simp add: LOG_def Logger_done_def strlen_def Logger_new_def)
next
  assume "level < min_level \<and> NUL \<notin> set filler"
  then have "strlen (lg_buffer (Logger_new level file line now min_level filler)) = None"
    by (auto simp: Logger_new_def strlen_def)
  then show ?thesis by (simp add: LOG_def put_string_def Append_def)
qed

theorem LOG_undefined_witness:
  "LOG DEBUG ''file.cc'' 7 [LStr ''x''] ''12:00'' INFO (replicate 4096 CHR 0x41) = None"
proof -
  have n: "to_string 7 = ''7''" by code_simp
  have "NUL \<notin> set (log_header DEBUG ''file.cc'' 7 ''12:00'')" by (simp add: log_header_def n LogLevelName_def kLevelTable_def)
  moreover have "DEBUG < INFO" by (simp add: less_LogLevel_def)
  ultimately show ?thesis using LOG_undefined [of DEBUG "''file.cc''" 7 "''12:00''" "''x''" INFO "replicate 4096 CHR 0x41"] by simp
qed

end
