(* ===== verification/Config_Load.thy ===== *)
theory Config_Load
  imports Config_Store Mounted Logging
begin

text \<open>
  Loading the mount options (\<open>lib/config_load.cc\<close>) and the entry
  point \<open>MountFileSystem\<close> of \<open>lib/file_system.cc\<close>, which finds the device by the uuid of the
  configuration. Creating the spdlog logger is outside: the flag \<open>logger_ok\<close> says whether it succeeds,
  and \<open>None\<close> is the exception it throws otherwise.
\<close>

section \<open>The mount options\<close>

record bfs_config_info =
  ci_log_level :: string
  ci_log_path :: string
  ci_device :: string
  ci_device_uuid :: string
  ci_fuse_mount_point :: string

definition ParseConfig ::
  "bool \<Rightarrow> (string \<Rightarrow> string option) \<Rightarrow> string \<Rightarrow> bfs_config_info \<Rightarrow> LogLevel \<Rightarrow> (bool \<times> bfs_config_info \<times> LogLevel) option" where
  "ParseConfig logger_ok files config_path config min_level =
     (if config_path = '''' then Some (False, config, min_level)
      else let (err, ini) = Load files config_path ConfigParser_new in
      if err \<noteq> 0 then Some (False, config, min_level)
      else if \<not> HasSection ''common'' ini \<or> \<not> HasSection ''bfs'' ini \<or> \<not> HasSection ''fuse'' ini
      then Some (False, config, min_level)
      else let (err, v) = GetStringValue ''common'' ''log_level'' (ci_log_level config) ini;
               config = config\<lparr>ci_log_level := if err \<noteq> 0 then ''INFO'' else v\<rparr>;
               (err, v) = GetStringValue ''common'' ''log_path'' (ci_log_path config) ini;
               config = config\<lparr>ci_log_path := if err \<noteq> 0 then ''/var/log/mfs/'' else v\<rparr>
           in if \<not> logger_ok then None
              else let min_level = LogLevelConvert (ci_log_level config);
                       (err, v) = GetStringValue ''bfs'' ''device_uuid'' (ci_device_uuid config) ini;
                       config = config\<lparr>ci_device_uuid := v\<rparr>
                   in Some (err = 0, config, min_level))"

definition MountFileSystem_path ::
  "blk_env \<Rightarrow> string list \<Rightarrow> bool \<Rightarrow> (string \<Rightarrow> string option) \<Rightarrow> string \<Rightarrow> bfs_config_info \<Rightarrow> LogLevel \<Rightarrow> fs
     \<Rightarrow> ((int \<times> bfs_config_info \<times> LogLevel) \<times> fs) option" where
  "MountFileSystem_path env names logger_ok files config_path config min_level s =
     (if config_path = '''' then Some ((- 1, config, min_level), s)
      else do {
        (ok, config, min_level) \<leftarrow> ParseConfig logger_ok files config_path config min_level;
        (r, s) \<leftarrow> MountFileSystem env names (if ok then Some (ci_device_uuid config) else None) s;
        Some ((r, config, min_level), s)
      })"

section \<open>Mounting by a configuration file\<close>

lemma GetStringValue_conf: "conf_get (section, key) cp = Some v \<Longrightarrow> GetStringValue section key d cp = (0, v)"
  by (auto simp: conf_get_def GetStringValue_def getValue_def split: option.splits)

lemma ParseConfig_edited:
  assumes "Load files p cp = (0, cp1)" and "cp_delim cp = ''#''" and "no_section_comment cp1"
    and "HasSection ''common'' cp1" "HasSection ''bfs'' cp1" "HasSection ''fuse'' cp1"
    and "plain ''#'' uuid" "writable q" "q \<noteq> ''''"
  shows "\<exists>conf' lv'. ParseConfig True (snd (SaveAs writable q (conf_set (''bfs'', ''device_uuid'') uuid cp1) files)) q conf lv
    = Some (True, conf', lv') \<and> ci_device_uuid conf' = uuid"
proof -
  let ?k = "(''bfs'', ''device_uuid'')"
  let ?cp = "conf_set ?k uuid cp1"
  have es: "list_all edit_ok [(?k, uuid)]"
    using assms(7) by (simp add: edit_ok_def plain_def trimmed_def isspace_def)
  have l: "Load (snd (SaveAs writable q ?cp files)) q ConfigParser_new = (0, ConfigParser_new\<lparr>cp_path := q, cp_sections := cp_sections ?cp\<rparr>)"
    using config_reload [OF assms(1-3) es, of writable q ConfigParser_new] assms(8) by (simp add: ConfigParser_new_def)
  let ?ini = "ConfigParser_new\<lparr>cp_path := q, cp_sections := cp_sections ?cp\<rparr>"
  have s: "getSection n ?ini = getSection n ?cp" for n by (simp add: getSection_def)
  have h: "HasSection ''common'' ?ini" "HasSection ''bfs'' ?ini" "HasSection ''fuse'' ?ini"
    using getSection_conf_set assms(4-6) by (simp_all add: HasSection_def s)
  have "conf_get ?k ?ini = Some uuid"
    using conf_get_cong [of ?ini ?cp] conf.lookup_assign [of ?k ?k uuid cp1] by simp
  from GetStringValue_conf [OF this] show ?thesis
    using assms(9) l h by (simp add: ParseConfig_def Let_def split: prod.split)
qed

section \<open>Property\<close>

text \<open>
  C36. Mounting by configuration: take a configuration file that loads, has the three sections and no
  comment on a section title, and set in it the uuid of a formatted device, save it and hand it to
  \<open>MountFileSystem\<close>. The devices listed before, which have other contents and other uuids, are passed
  over and the formatted device is mounted, whatever uuid the file named before; the mounted file
  system is empty but for the mount point.
\<close>

theorem config_mount:
  assumes "Load files p cp = (0, cp1)" and "cp_delim cp = ''#''" and "no_section_comment cp1"
    and "HasSection ''common'' cp1" and "HasSection ''bfs'' cp1" and "HasSection ''fuse'' cp1"
    and "writable q" and "q \<noteq> ''''"
    and "opens env (''/dev/'' @ nm) sz" and "675282944 \<le> unat sz" and "unat sz < 420109877248"
    and "benign (k_script (kern s))" and "\<forall>b \<in> set before. b \<noteq> nm \<and> uuid_of (''/dev/'' @ b) s \<noteq> format_uuid"
  shows "\<exists>t conf' lv' u d. FileSystem_Format env (''/dev/'' @ nm) s = (True, t)
     \<and> MountFileSystem_path env (before @ nm # after) True
         (snd (SaveAs writable q (conf_set (''bfs'', ''device_uuid'') format_uuid cp1) files)) q conf lv t = Some ((0, conf', lv'), u)
     \<and> ci_device_uuid conf' = format_uuid \<and> dev_name (dev u) = ''/dev/'' @ nm \<and> created_dirs u = [(''/'', d)] \<and> created_files u = []"
proof -
  have "plain ''#'' format_uuid" by (simp add: format_uuid_def plain_def trimmed_def isspace_def)
  from ParseConfig_edited [OF assms(1-6) this, of writable q conf lv] assms(7,8) obtain conf' lv' where
    c: "ParseConfig True (snd (SaveAs writable q (conf_set (''bfs'', ''device_uuid'') format_uuid cp1) files)) q conf lv
      = Some (True, conf', lv')" "ci_device_uuid conf' = format_uuid" by blast
  obtain t u where "FileSystem_Format env (''/dev/'' @ nm) s = (True, t)"
    "MountFileSystem env (before @ nm # after) (Some format_uuid) t = Some (0, u)" "dev_name (dev u) = ''/dev/'' @ nm"
    "created_dirs u = [(''/'', dobj_next t)]" "created_files u = []"
    using mount_fresh [OF assms(9-13), of after] by blast
  then show ?thesis
    using c assms(8) by (intro exI [of _ t] exI [of _ conf'] exI [of _ lv'] exI [of _ u] exI [of _ "dobj_next t"])
      (simp add: MountFileSystem_path_def)
qed

end
