(* ===== verification/Demo_Config.thy ===== *)
theory Demo_Config
  imports Config_Load Demo_Device
begin

text \<open>
  A device and a configuration file on which the hypotheses of the properties about mounting by
  configuration hold.
\<close>

theorem config_mount_witness:
  "\<exists>t conf' lv' u. MountFileSystem_path demo_env [''vdc'', ''sdb'', ''vdb'', ''vdd''] True
       (snd (SaveAs (\<lambda>_. True) ''/d'' (conf_set (''bfs'', ''device_uuid'') format_uuid demo_config) demo_files))
       ''/d'' \<lparr>ci_log_level = '''', ci_log_path = '''', ci_device = '''', ci_device_uuid = '''', ci_fuse_mount_point = ''''\<rparr> INFO t
     = Some ((0, conf', lv'), u) \<and> dev_name (dev u) = ''/dev/vdb'' \<and> created_files u = []"
proof -
  have d: "cp_delim ConfigParser_new = ''#''" "''/d'' \<noteq> ''''" by (simp_all add: ConfigParser_new_def)
  have l: "[''vdc'', ''sdb''] @ ''vdb'' # [''vdd''] = [''vdc'', ''sdb'', ''vdb'', ''vdd'']" "''/dev/'' @ ''vdb'' = ''/dev/vdb''" by simp_all
  show ?thesis
    using config_mount [OF demo_config_loads(1) d(1) demo_config_loads(2-5), of "\<lambda>_. True" "''/d''", OF TrueI d(2) demo_opens demo_size demo_start_benign demo_others,
      of "[''vdd'']", unfolded l]
    by (metis (no_types))
qed

end
