(* ===== verification/Loader.thy ===== *)
theory Loader
  imports Mounted
begin

text \<open>
  What a mount builds. \<open>indexed\<close> relates a table of objects by handle with a table of the same
  objects by name; \<open>tables_ok\<close> says that the directory, file and file block tables in memory are
  those the metadata structs describe. The loops of the \<open>InitializeMeta\<close> methods establish it from
  metadata that is sound (\<open>dirs_sound\<close>, \<open>files_sound\<close>, \<open>fbs_sound\<close>).
\<close>

section \<open>Tables by handle and by name\<close>

definition indexed :: "(nat \<Rightarrow> 'k) \<Rightarrow> nat set \<Rightarrow> (nat, nat) amap \<Rightarrow> ('k, nat) amap \<Rightarrow> bool" where
  "indexed key A ids names \<longleftrightarrow> (\<forall>i. map_of ids i \<noteq> None \<longleftrightarrow> i \<in> A)
     \<and> (\<forall>i x. map_of ids i = Some x \<longrightarrow> map_of names (key i) = Some x)
     \<and> (\<forall>k x. map_of names k = Some x \<longrightarrow> (\<exists>i. map_of ids i = Some x \<and> key i = k))
     \<and> distinct (map fst names)"

lemma indexed_empty [simp]: "indexed key {} [] []"
  by (simp add: indexed_def)

lemma indexedD:
  assumes "indexed key A ids names"
  shows "map_of ids i \<noteq> None \<longleftrightarrow> i \<in> A" "map_of ids i = Some x \<Longrightarrow> map_of names (key i) = Some x"
    "map_of names k = Some x \<Longrightarrow> \<exists>i \<in> A. map_of ids i = Some x \<and> key i = k" "distinct (map fst names)"
  using assms unfolding indexed_def by blast+

lemma indexed_new_name:
  assumes "indexed key A ids names" "key i \<notin> key ` A"
  shows "map_of names (key i) = None"
proof (cases "map_of names (key i)")
  case (Some y)
  then obtain j where "j \<in> A" "key j = key i" using indexedD(3) [OF assms(1) Some] by blast
  then show ?thesis using assms(2) by (metis image_eqI)
qed

lemma indexed_put:
  assumes "indexed key A ids names" "i \<notin> A" "key i \<notin> key ` A"
  shows "indexed key (insert i A) (amap_put i x ids) (amap_put (key i) x names)"
  unfolding indexed_def
proof (intro conjI allI impI)
  note D = indexedD [OF assms(1)]
  have ni: "map_of ids i = None" using D(1) assms(2) by blast
  fix j k y
  show "(map_of (amap_put i x ids) j \<noteq> None) = (j \<in> insert i A)" using D(1) by simp
  show "map_of (amap_put (key i) x names) (key j) = Some y" if "map_of (amap_put i x ids) j = Some y"
  proof (cases "j = i")
    case False
    then have j: "map_of ids j = Some y" using that by simp
    then have "key j \<noteq> key i" using D(1) [of j] assms(3) by (metis image_eqI option.distinct(1))
    then show ?thesis using D(2) [OF j] by simp
  qed (use that in simp)
  show "\<exists>j. map_of (amap_put i x ids) j = Some y \<and> key j = k" if "map_of (amap_put (key i) x names) k = Some y"
  proof (cases "k = key i")
    case True
    then show ?thesis using that by (intro exI [of _ i]) simp
  next
    case False
    then have "map_of names k = Some y" using that by simp
    from D(3) [OF this] obtain j where "map_of ids j = Some y" "key j = k" by blast
    then show ?thesis using ni by (intro exI [of _ j]) auto
  qed
  show "distinct (map fst (amap_put (key i) x names))" using D(4) by (rule amap_put_distinct)
qed

lemma indexed_cong:
  assumes "indexed key A ids names" "\<And>i. i \<in> A \<Longrightarrow> key' i = key i"
  shows "indexed key' A ids names"
proof -
  note D = indexedD [OF assms(1)]
  have k: "key' i = key i" if "map_of ids i = Some x" for i x using that D(1) [of i] assms(2) by simp
  show ?thesis unfolding indexed_def
  proof (intro conjI allI impI)
    fix i y
    show "(map_of ids i \<noteq> None) = (i \<in> A)" by (rule D(1))
    show "map_of names (key' i) = Some y" if "map_of ids i = Some y" using k [OF that] D(2) [OF that] by simp
  next
    fix n y
    assume "map_of names n = Some y"
    then obtain i where "map_of ids i = Some y" "key i = n" using D(3) by blast
    then show "\<exists>i. map_of ids i = Some y \<and> key' i = n" using k by (intro exI [of _ i]) simp
  qed (rule D(4))
qed

text \<open>The struct an object was made for, and the name it is found under.\<close>

definition made_for :: "(nat \<Rightarrow> nat) \<Rightarrow> (nat, nat) amap \<Rightarrow> bool" where
  "made_for meta ids \<longleftrightarrow> (\<forall>i x. map_of ids i = Some x \<longrightarrow> meta x = i)"

lemma indexed_lookup:
  assumes "indexed key A ids names" "made_for meta ids"
  shows "map_of names k = Some x \<longleftrightarrow> map_of ids (meta x) = Some x \<and> key (meta x) = k"
  using assms unfolding indexed_def made_for_def by metis

lemma indexed_distinct:
  assumes "indexed key A ids names" "made_for meta ids"
  shows "distinct (map snd names)"
proof -
  note D = indexedD [OF assms(1)]
  have k: "key (meta (snd r)) = fst r" if "r \<in> set names" for r
  proof -
    have "map_of names (fst r) = Some (snd r)" using D(4) that by simp
    then show ?thesis using indexed_lookup [OF assms] by blast
  qed
  have "inj_on snd (set names)"
  proof (rule inj_onI)
    fix p q
    assume "p \<in> set names" "q \<in> set names" "snd p = snd q"
    then show "p = q" using k [of p] k [of q] by (simp add: prod_eq_iff)
  qed
  moreover have "distinct names" using D(4) by (simp add: distinct_map)
  ultimately show ?thesis by (simp add: distinct_map)
qed

section \<open>Directories\<close>

definition used_dirs :: "(nat \<Rightarrow> DirMeta) \<Rightarrow> nat set" where
  "used_dirs dm = {i. i < 100000 \<and> dm_used (dm i)}"

text \<open>What the checks of the mount look at, and names that are all different.\<close>

definition dirs_sound :: "(u8 list \<Rightarrow> u32) \<Rightarrow> (nat \<Rightarrow> DirMeta) \<Rightarrow> bool" where
  "dirs_sound c dm \<longleftrightarrow>
     (\<forall>i < 100000. dm_crc (dm i) = c (body_DirMeta (dm i))
        \<and> (dm_used (dm i) \<longrightarrow> cstr (dm_dir_name (dm i)) \<noteq> [] \<and> dm_dh (dm i) = word_of_nat i))
     \<and> inj_on (\<lambda>i. meta_dir_name (dm i)) (used_dirs dm)
     \<and> (\<forall>i \<in> used_dirs dm. IsMountPoint (meta_dir_name (dm i))
          \<or> dir_path (GetDirName (meta_dir_name (dm i))) \<and> length (GetDirName (meta_dir_name (dm i))) < 768
            \<and> (\<exists>j \<in> used_dirs dm. meta_dir_name (dm j) = GetDirName (meta_dir_name (dm i))))"

lemma unat_handle: "i < 100000 \<Longrightarrow> unat (word_of_nat i :: u64) = i"
  by (simp add: unsigned_of_nat take_bit_nat_eq_self)

lemma init_dirs_loads:
  assumes "\<forall>i \<in> set is. i < 100000 \<and> dm_crc (dmetas s i) = crc32 s (body_DirMeta (dmetas s i))
      \<and> (dm_used (dmetas s i) \<longrightarrow> cstr (dm_dir_name (dmetas s i)) \<noteq> [] \<and> dm_dh (dmetas s i) = word_of_nat i)"
    and "distinct is" and "set is \<inter> A = {}" and "inj_on (\<lambda>i. meta_dir_name (dmetas s i)) (A \<union> {i \<in> set is. dm_used (dmetas s i)})"
    and "indexed (\<lambda>i. meta_dir_name (dmetas s i)) A (created_dhs s) (created_dirs s)"
    and "\<forall>i d. map_of (created_dhs s) i = Some d \<longrightarrow> d < dobj_next s \<and> dobj s d = Directory_new i"
  shows "\<exists>cd ch ob nx. init_dirs is s = (True, s\<lparr>free_dhs := free_dhs s @ filter (\<lambda>i. \<not> dm_used (dmetas s i)) is,
      created_dirs := cd, created_dhs := ch, dobj := ob, dobj_next := nx\<rparr>)
    \<and> indexed (\<lambda>i. meta_dir_name (dmetas s i)) (A \<union> {i \<in> set is. dm_used (dmetas s i)}) ch cd
    \<and> (\<forall>i d. map_of ch i = Some d \<longrightarrow> d < nx \<and> ob d = Directory_new i)"
  using assms
proof (induction "is" arbitrary: s A)
  case Nil
  then show ?case
    by (intro exI [of _ "created_dirs s"] exI [of _ "created_dhs s"] exI [of _ "dobj s"] exI [of _ "dobj_next s"]) simp
next
  case (Cons i "is")
  let ?m = "dmetas s i" and ?key = "\<lambda>i. meta_dir_name (dmetas s i)"
  have i: "i < 100000" "dm_crc ?m = crc32 s (body_DirMeta ?m)" "i \<notin> A" "i \<notin> set is" "distinct is" using Cons.prems(1-3) by auto
  show ?case
  proof (cases "dm_used ?m")
    case False
    let ?s = "s\<lparr>free_dhs := free_dhs s @ [i]\<rparr>"
    have e: "{j \<in> set (i # is). dm_used (dmetas s j)} = {j \<in> set is. dm_used (dmetas s j)}" using False by auto
    have "\<exists>cd ch ob nx. init_dirs is ?s = (True, ?s\<lparr>free_dhs := free_dhs ?s @ filter (\<lambda>i. \<not> dm_used (dmetas ?s i)) is,
        created_dirs := cd, created_dhs := ch, dobj := ob, dobj_next := nx\<rparr>)
      \<and> indexed (\<lambda>i. meta_dir_name (dmetas ?s i)) (A \<union> {i \<in> set is. dm_used (dmetas ?s i)}) ch cd
      \<and> (\<forall>i d. map_of ch i = Some d \<longrightarrow> d < nx \<and> ob d = Directory_new i)"
      by (rule Cons.IH) (use Cons.prems i e in auto)
    then show ?thesis unfolding e using False i(2) by (simp add: Let_def)
  next
    case True
    let ?d = "dobj_next s"
    let ?s1 = "s\<lparr>dobj := (dobj s)(?d := Directory_new i), dobj_next := Suc ?d\<rparr>"
    let ?s = "?s1\<lparr>created_dirs := amap_put (?key i) ?d (created_dirs s), created_dhs := amap_put i ?d (created_dhs s)\<rparr>"
    have nk: "?key i \<notin> ?key ` A" using Cons.prems(4) i(3) True by (auto simp: inj_on_def)
    have nm: "map_of (created_dirs s) (?key i) = None" "map_of (created_dhs s) i = None"
      using indexed_new_name [OF Cons.prems(5) nk] Cons.prems(5) i(3) by (auto simp: indexed_def)
    have acc: "Dir_dir_name ?s1 ?d = ?key i" "Dir_dh ?s1 ?d = i"
      using Cons.prems(1) True i(1) unat_handle [of i] by (simp_all add: Dir_dir_name_def Dir_dh_def Directory_new_def)
    have a: "AddDirectory2CreateNolock ?d ?s1 = (True, ?s)"
      using nm by (simp add: AddDirectory2CreateNolock_def acc)
    have e: "A \<union> {j \<in> set (i # is). dm_used (dmetas s j)} = insert i A \<union> {j \<in> set is. dm_used (dmetas s j)}" using True by auto
    have "\<exists>cd ch ob nx. init_dirs is ?s = (True, ?s\<lparr>free_dhs := free_dhs ?s @ filter (\<lambda>i. \<not> dm_used (dmetas ?s i)) is,
        created_dirs := cd, created_dhs := ch, dobj := ob, dobj_next := nx\<rparr>)
      \<and> indexed (\<lambda>i. meta_dir_name (dmetas ?s i)) (insert i A \<union> {i \<in> set is. dm_used (dmetas ?s i)}) ch cd
      \<and> (\<forall>i d. map_of ch i = Some d \<longrightarrow> d < nx \<and> ob d = Directory_new i)"
    proof (rule Cons.IH)
      show "indexed (\<lambda>i. meta_dir_name (dmetas ?s i)) (insert i A) (created_dhs ?s) (created_dirs ?s)"
        using indexed_put [OF Cons.prems(5) i(3) nk] by simp
      show "inj_on (\<lambda>i. meta_dir_name (dmetas ?s i)) (insert i A \<union> {i \<in> set is. dm_used (dmetas ?s i)})"
        using Cons.prems(4) unfolding e by simp
      show "\<forall>j d. map_of (created_dhs ?s) j = Some d \<longrightarrow> d < dobj_next ?s \<and> dobj ?s d = Directory_new j"
        using Cons.prems(6) by (auto simp: less_Suc_eq)
    qed (use Cons.prems(1-3) i in auto)
    moreover have "init_dirs (i # is) s = init_dirs is ?s"
      using True i(2) Cons.prems(1) a by (simp add: Let_def new_dir_def)
    ultimately show ?thesis unfolding e using True by simp
  qed
qed

text \<open>Linking the directories to their parents: every directory becomes a child of its own.\<close>

definition parent_of :: "fs \<Rightarrow> nat \<Rightarrow> nat option" where
  "parent_of s d = (if IsMountPoint (Dir_dir_name s d) then None else map_of (created_dirs s) (GetDirName (Dir_dir_name s d)))"

lemma link_dirs_loads:
  assumes "\<forall>d \<in> set ds. IsMountPoint (Dir_dir_name s d) \<or> (dir_path (GetDirName (Dir_dir_name s d))
      \<and> length (GetDirName (Dir_dir_name s d)) < 768 \<and> parent_of s d \<noteq> None)"
    and "distinct (map (Dir_dh s) ds)"
    and "\<forall>n x. map_of (created_dirs s) n = Some x \<longrightarrow> (\<forall>d \<in> set ds. map_of (d_childs (dobj s x)) (Dir_dh s d) = None)"
  shows "\<exists>ob. link_dirs ds s = (True, s\<lparr>dobj := ob\<rparr>)
    \<and> (\<forall>x. d_meta (ob x) = d_meta (dobj s x) \<and> d_items (ob x) = d_items (dobj s x))
    \<and> (\<forall>x k c. map_of (d_childs (ob x)) k = Some c \<longleftrightarrow>
        map_of (d_childs (dobj s x)) k = Some c \<or> c \<in> set ds \<and> k = Dir_dh s c \<and> parent_of s c = Some x)"
  using assms
proof (induction ds arbitrary: s)
  case Nil
  then show ?case by (intro exI [of _ "dobj s"]) simp
next
  case (Cons d ds)
  show ?case
  proof (cases "IsMountPoint (Dir_dir_name s d)")
    case True
    then have "parent_of s d = None" "link_dirs (d # ds) s = link_dirs ds s" by (simp_all add: parent_of_def)
    then show ?thesis using Cons.IH [of s] Cons.prems by auto
  next
    case False
    then obtain p where p: "parent_of s d = Some p" "dir_path (GetDirName (Dir_dir_name s d))"
      "length (GetDirName (Dir_dir_name s d)) < 768" using Cons.prems(1) by auto
    have g: "GetCreatedDirectory (GetDirName (Dir_dir_name s d)) s = (Some p, s)"
      using GetCreatedDirectory_path [OF p(2,3)] p(1) False by (simp add: parent_of_def)
    let ?s = "upd_dir p (\<lambda>x. x\<lparr>d_childs := amap_put (Dir_dh s d) d (d_childs x)\<rparr>) s"
    have pn: "map_of (d_childs (dobj s p)) (Dir_dh s d) = None" using Cons.prems(3) p(1) False by (simp add: parent_of_def)
    then have a: "AddChildDirectory p d s = (True, ?s)" by (simp add: AddChildDirectory_def)
    have v: "Dir_dir_name ?s x = Dir_dir_name s x" "Dir_dh ?s x = Dir_dh s x" "parent_of ?s x = parent_of s x" for x
      by (simp_all add: Dir_dir_name_def Dir_dh_def parent_of_def upd_dir_def)
    have dn: "Dir_dh s d \<notin> Dir_dh s ` set ds" using Cons.prems(2) by simp
    have cn: "map_of (d_childs (dobj ?s x)) (Dir_dh ?s c) = None" if "c \<in> set ds" "map_of (created_dirs ?s) n = Some x" for x c n
    proof -
      have "Dir_dh s c \<noteq> Dir_dh s d" using dn that by (metis image_eqI)
      moreover have "map_of (d_childs (dobj s x)) (Dir_dh s c) = None" using Cons.prems(3) that by (simp add: upd_dir_def)
      ultimately show ?thesis unfolding v by (auto simp: upd_dir_def)
    qed
    have "\<exists>ob. link_dirs ds ?s = (True, ?s\<lparr>dobj := ob\<rparr>)
      \<and> (\<forall>x. d_meta (ob x) = d_meta (dobj ?s x) \<and> d_items (ob x) = d_items (dobj ?s x))
      \<and> (\<forall>x k c. map_of (d_childs (ob x)) k = Some c \<longleftrightarrow>
          map_of (d_childs (dobj ?s x)) k = Some c \<or> c \<in> set ds \<and> k = Dir_dh ?s c \<and> parent_of ?s c = Some x)"
    proof (rule Cons.IH)
      show "distinct (map (Dir_dh ?s) ds)" using Cons.prems(2) unfolding v(2) by simp
      show "\<forall>n x. map_of (created_dirs ?s) n = Some x \<longrightarrow> (\<forall>d \<in> set ds. map_of (d_childs (dobj ?s x)) (Dir_dh ?s d) = None)"
        using cn by blast
    qed (use Cons.prems(1) v in simp)
    then obtain ob where ob: "link_dirs ds ?s = (True, ?s\<lparr>dobj := ob\<rparr>)"
      "\<forall>x. d_meta (ob x) = d_meta (dobj ?s x) \<and> d_items (ob x) = d_items (dobj ?s x)"
      "\<forall>x k c. map_of (d_childs (ob x)) k = Some c \<longleftrightarrow>
          map_of (d_childs (dobj ?s x)) k = Some c \<or> c \<in> set ds \<and> k = Dir_dh s c \<and> parent_of s c = Some x"
      unfolding v by blast
    have "map_of (d_childs (dobj ?s x)) k = Some c \<longleftrightarrow>
        map_of (d_childs (dobj s x)) k = Some c \<or> c = d \<and> k = Dir_dh s d \<and> x = p" for x k c
      using pn by (auto simp: upd_dir_def)
    then have "map_of (d_childs (ob x)) k = Some c \<longleftrightarrow>
        map_of (d_childs (dobj s x)) k = Some c \<or> c \<in> set (d # ds) \<and> k = Dir_dh s c \<and> parent_of s c = Some x" for x k c
      using ob(3) p(1) by auto
    moreover have "link_dirs (d # ds) s = (True, s\<lparr>dobj := ob\<rparr>)" using False g a ob(1) by (simp add: upd_dir_def)
    moreover have "d_meta (ob x) = d_meta (dobj s x) \<and> d_items (ob x) = d_items (dobj s x)" for x
      using ob(2) by (simp add: upd_dir_def)
    ultimately show ?thesis by blast
  qed
qed

section \<open>Files\<close>

definition used_files :: "(nat \<Rightarrow> FileMeta) \<Rightarrow> nat set" where
  "used_files fm = {i. i < 100000 \<and> fm_used (fm i)}"

definition file_key :: "FileMeta \<Rightarrow> nat \<times> string" where
  "file_key m = (unat (fm_dh m), meta_file_name m)"

definition file_sound :: "(u8 list \<Rightarrow> u32) \<Rightarrow> nat \<Rightarrow> FileMeta \<Rightarrow> bool" where
  "file_sound c i m \<longleftrightarrow> fm_crc m = c (body_FileMeta m) \<and> fm_fh m = word_of_nat i \<and> \<not> 0 < s32 (fm_child_fh m)
     \<and> (if fm_used m then \<not> fm_is_temp m \<and> cstr (fm_file_name m) \<noteq> [] else fm_size m = 0)"

definition files_sound :: "(u8 list \<Rightarrow> u32) \<Rightarrow> (nat \<Rightarrow> DirMeta) \<Rightarrow> (nat \<Rightarrow> FileMeta) \<Rightarrow> bool" where
  "files_sound c dm fm \<longleftrightarrow> (\<forall>i < 100000. file_sound c i (fm i)) \<and> inj_on (\<lambda>i. file_key (fm i)) (used_files fm)
     \<and> (\<forall>i \<in> used_files fm. unat (fm_dh (fm i)) \<in> used_dirs dm)"

lemma init_files_loads:
  assumes "\<forall>i \<in> set is. i < 100000 \<and> file_sound (crc32 s) i (fmetas s i)
      \<and> (fm_used (fmetas s i) \<longrightarrow> map_of (created_dhs s) (unat (fm_dh (fmetas s i))) \<noteq> None)"
    and "distinct is" and "set is \<inter> A = {}" and "inj_on (\<lambda>i. file_key (fmetas s i)) (A \<union> {i \<in> set is. fm_used (fmetas s i)})"
    and "indexed (\<lambda>i. file_key (fmetas s i)) A (created_fhs s) (created_files s)"
    and "\<forall>i f. map_of (created_fhs s) i = Some f \<longrightarrow> f < fobj_next s \<and> fobj s f = File_new i"
    and "\<forall>j x. map_of (created_dhs s) j = Some x \<longrightarrow> (\<forall>i \<in> set is. map_of (d_items (dobj s x)) i = None)"
  shows "\<exists>cf ch fo nx ob. init_files is s = (True, s\<lparr>free_fhs := free_fhs s @ filter (\<lambda>i. \<not> fm_used (fmetas s i)) is,
      created_files := cf, created_fhs := ch, fobj := fo, fobj_next := nx, dobj := ob\<rparr>)
    \<and> indexed (\<lambda>i. file_key (fmetas s i)) (A \<union> {i \<in> set is. fm_used (fmetas s i)}) ch cf
    \<and> (\<forall>i f. map_of ch i = Some f \<longrightarrow> f < nx \<and> fo f = File_new i) \<and> (\<forall>j. j \<notin> set is \<longrightarrow> map_of ch j = map_of (created_fhs s) j)
    \<and> (\<forall>x. d_meta (ob x) = d_meta (dobj s x) \<and> d_childs (ob x) = d_childs (dobj s x))
    \<and> (\<forall>x i f. map_of (d_items (ob x)) i = Some f \<longleftrightarrow> map_of (d_items (dobj s x)) i = Some f
        \<or> i \<in> set is \<and> map_of ch i = Some f \<and> map_of (created_dhs s) (unat (fm_dh (fmetas s i))) = Some x)"
  using assms
proof (induction "is" arbitrary: s A)
  case Nil
  then show ?case
    by (intro exI [of _ "created_files s"] exI [of _ "created_fhs s"] exI [of _ "fobj s"] exI [of _ "fobj_next s"] exI [of _ "dobj s"]) simp
next
  case (Cons i "is")
  let ?m = "fmetas s i" and ?key = "\<lambda>i. file_key (fmetas s i)"
  have i: "i < 100000" "fm_crc ?m = crc32 s (body_FileMeta ?m)" "i \<notin> A" "i \<notin> set is" "distinct is"
    using Cons.prems(1-3) by (auto simp: file_sound_def)
  have ni: "map_of (created_fhs s) i = None" using indexedD(1) [OF Cons.prems(5), of i] i(3) by simp
  show ?case
  proof (cases "fm_used ?m")
    case False
    let ?s = "s\<lparr>free_fhs := free_fhs s @ [i]\<rparr>"
    have e: "{j \<in> set (i # is). fm_used (fmetas s j)} = {j \<in> set is. fm_used (fmetas s j)}" using False by auto
    have "\<exists>cf ch fo nx ob. init_files is ?s = (True, ?s\<lparr>free_fhs := free_fhs ?s @ filter (\<lambda>i. \<not> fm_used (fmetas ?s i)) is,
        created_files := cf, created_fhs := ch, fobj := fo, fobj_next := nx, dobj := ob\<rparr>)
      \<and> indexed (\<lambda>i. file_key (fmetas ?s i)) (A \<union> {i \<in> set is. fm_used (fmetas ?s i)}) ch cf
      \<and> (\<forall>i f. map_of ch i = Some f \<longrightarrow> f < nx \<and> fo f = File_new i) \<and> (\<forall>j. j \<notin> set is \<longrightarrow> map_of ch j = map_of (created_fhs ?s) j)
      \<and> (\<forall>x. d_meta (ob x) = d_meta (dobj ?s x) \<and> d_childs (ob x) = d_childs (dobj ?s x))
      \<and> (\<forall>x i f. map_of (d_items (ob x)) i = Some f \<longleftrightarrow> map_of (d_items (dobj ?s x)) i = Some f
          \<or> i \<in> set is \<and> map_of ch i = Some f \<and> map_of (created_dhs ?s) (unat (fm_dh (fmetas ?s i))) = Some x)"
      by (rule Cons.IH) (use Cons.prems i e in auto)
    then obtain cf ch fo nx ob where r: "init_files is ?s = (True, ?s\<lparr>free_fhs := free_fhs ?s @ filter (\<lambda>i. \<not> fm_used (fmetas ?s i)) is,
        created_files := cf, created_fhs := ch, fobj := fo, fobj_next := nx, dobj := ob\<rparr>)"
      "indexed ?key (A \<union> {i \<in> set is. fm_used (fmetas s i)}) ch cf"
      "\<forall>i f. map_of ch i = Some f \<longrightarrow> f < nx \<and> fo f = File_new i" "\<forall>j. j \<notin> set is \<longrightarrow> map_of ch j = map_of (created_fhs s) j"
      "\<forall>x. d_meta (ob x) = d_meta (dobj s x) \<and> d_childs (ob x) = d_childs (dobj s x)"
      "\<forall>x i f. map_of (d_items (ob x)) i = Some f \<longleftrightarrow> map_of (d_items (dobj s x)) i = Some f
          \<or> i \<in> set is \<and> map_of ch i = Some f \<and> map_of (created_dhs s) (unat (fm_dh (fmetas s i))) = Some x"
      by auto
    have "map_of ch i = None" using indexedD(1) [OF r(2), of i] i(3,4) by simp
    then have "\<forall>x j f. map_of (d_items (ob x)) j = Some f \<longleftrightarrow> map_of (d_items (dobj s x)) j = Some f
          \<or> j \<in> set (i # is) \<and> map_of ch j = Some f \<and> map_of (created_dhs s) (unat (fm_dh (fmetas s j))) = Some x"
      using r(6) by auto
    moreover have "init_files (i # is) s = (True, s\<lparr>free_fhs := free_fhs s @ filter (\<lambda>i. \<not> fm_used (fmetas s i)) (i # is),
        created_files := cf, created_fhs := ch, fobj := fo, fobj_next := nx, dobj := ob\<rparr>)"
      using r(1) False i(2) by (simp add: Let_def AddFile2FreeNolock_def)
    ultimately show ?thesis using r(2-5) unfolding e by (intro exI conjI) auto
  next
    case True
    let ?f = "fobj_next s"
    have h: "\<not> fm_is_temp ?m" "cstr (fm_file_name ?m) \<noteq> []" "fm_fh ?m = word_of_nat i" "\<not> 0 < s32 (fm_child_fh ?m)"
      using Cons.prems(1) True by (simp_all add: file_sound_def)
    obtain d where d: "map_of (created_dhs s) (unat (fm_dh ?m)) = Some d" using Cons.prems(1) True by auto
    let ?s1 = "s\<lparr>fobj := (fobj s)(?f := File_new i), fobj_next := Suc ?f\<rparr>"
    let ?s2 = "?s1\<lparr>created_files := amap_put (?key i) ?f (created_files s), created_fhs := amap_put i ?f (created_fhs s)\<rparr>"
    let ?s = "upd_dir d (\<lambda>x. x\<lparr>d_items := amap_put i ?f (d_items x)\<rparr>) ?s2"
    have acc: "File_fh ?s1 ?f = i" "(File_dh ?s1 ?f, File_file_name ?s1 ?f) = ?key i" "File_fh ?s2 ?f = i"
      using h(3) i(1) unat_handle [of i] by (simp_all add: obj_acc_defs File_new_def file_key_def)
    have a1: "AddFileNoLock ?f ?s1 = ?s2" unfolding AddFileNoLock_def acc by simp
    have a2: "snd (AddChildFile d ?f ?s2) = ?s"
      using Cons.prems(7) d unfolding AddChildFile_def acc by simp
    have st: "init_files (i # is) s = init_files is ?s"
      using True i(2) h a1 a2 d by (simp add: Let_def new_file_def GetCreatedDirectory_dh_def)
    have nk: "?key i \<notin> ?key ` A" using Cons.prems(4) i(3) True by (auto simp: inj_on_def)
    have e: "A \<union> {j \<in> set (i # is). fm_used (fmetas s j)} = insert i A \<union> {j \<in> set is. fm_used (fmetas s j)}" using True by auto
    have v: "fmetas ?s = fmetas s" "created_fhs ?s = amap_put i ?f (created_fhs s)" "created_files ?s = amap_put (?key i) ?f (created_files s)"
      "fobj_next ?s = Suc ?f" "fobj ?s = (fobj s)(?f := File_new i)" "created_dhs ?s = created_dhs s" "free_fhs ?s = free_fhs s" "crc32 ?s = crc32 s"
      "\<And>x. d_meta (dobj ?s x) = d_meta (dobj s x)" "\<And>x. d_childs (dobj ?s x) = d_childs (dobj s x)"
      "\<And>x j. map_of (d_items (dobj ?s x)) j = (if x = d \<and> j = i then Some ?f else map_of (d_items (dobj s x)) j)"
      by (auto simp: upd_dir_def)
    have "\<exists>cf ch fo nx ob. init_files is ?s = (True, ?s\<lparr>free_fhs := free_fhs ?s @ filter (\<lambda>i. \<not> fm_used (fmetas ?s i)) is,
        created_files := cf, created_fhs := ch, fobj := fo, fobj_next := nx, dobj := ob\<rparr>)
      \<and> indexed (\<lambda>i. file_key (fmetas ?s i)) (insert i A \<union> {i \<in> set is. fm_used (fmetas ?s i)}) ch cf
      \<and> (\<forall>i f. map_of ch i = Some f \<longrightarrow> f < nx \<and> fo f = File_new i) \<and> (\<forall>j. j \<notin> set is \<longrightarrow> map_of ch j = map_of (created_fhs ?s) j)
      \<and> (\<forall>x. d_meta (ob x) = d_meta (dobj ?s x) \<and> d_childs (ob x) = d_childs (dobj ?s x))
      \<and> (\<forall>x i f. map_of (d_items (ob x)) i = Some f \<longleftrightarrow> map_of (d_items (dobj ?s x)) i = Some f
          \<or> i \<in> set is \<and> map_of ch i = Some f \<and> map_of (created_dhs ?s) (unat (fm_dh (fmetas ?s i))) = Some x)"
    proof (rule Cons.IH)
      show "indexed (\<lambda>i. file_key (fmetas ?s i)) (insert i A) (created_fhs ?s) (created_files ?s)"
        using indexed_put [OF Cons.prems(5) i(3) nk] unfolding v by simp
      show "inj_on (\<lambda>i. file_key (fmetas ?s i)) (insert i A \<union> {i \<in> set is. fm_used (fmetas ?s i)})"
        using Cons.prems(4) unfolding e v by simp
      show "\<forall>j f. map_of (created_fhs ?s) j = Some f \<longrightarrow> f < fobj_next ?s \<and> fobj ?s f = File_new j"
        using Cons.prems(6) unfolding v by (auto simp: less_Suc_eq)
      show "\<forall>k x. map_of (created_dhs ?s) k = Some x \<longrightarrow> (\<forall>j \<in> set is. map_of (d_items (dobj ?s x)) j = None)"
        using Cons.prems(7) i(4) unfolding v by auto
      show "\<forall>j \<in> set is. j < 100000 \<and> file_sound (crc32 ?s) j (fmetas ?s j)
          \<and> (fm_used (fmetas ?s j) \<longrightarrow> map_of (created_dhs ?s) (unat (fm_dh (fmetas ?s j))) \<noteq> None)"
        using Cons.prems(1) unfolding v by simp
    qed (use Cons.prems(3) i in auto)
    then obtain cf ch fo nx ob where r: "init_files is ?s = (True, ?s\<lparr>free_fhs := free_fhs s @ filter (\<lambda>i. \<not> fm_used (fmetas s i)) is,
        created_files := cf, created_fhs := ch, fobj := fo, fobj_next := nx, dobj := ob\<rparr>)"
      "indexed ?key (insert i A \<union> {i \<in> set is. fm_used (fmetas s i)}) ch cf"
      "\<forall>i f. map_of ch i = Some f \<longrightarrow> f < nx \<and> fo f = File_new i" "\<forall>j. j \<notin> set is \<longrightarrow> map_of ch j = map_of (amap_put i ?f (created_fhs s)) j"
      "\<forall>x. d_meta (ob x) = d_meta (dobj s x) \<and> d_childs (ob x) = d_childs (dobj s x)"
      "\<forall>x i f. map_of (d_items (ob x)) i = Some f \<longleftrightarrow> map_of (d_items (dobj ?s x)) i = Some f
          \<or> i \<in> set is \<and> map_of ch i = Some f \<and> map_of (created_dhs s) (unat (fm_dh (fmetas s i))) = Some x"
      unfolding v by blast
    have ci: "map_of ch i = Some ?f" using r(4) i(4) by simp
    have "map_of (d_items (dobj s d)) i = None" using Cons.prems(7) d by simp
    then have it: "map_of (d_items (ob x)) j = Some f \<longleftrightarrow> map_of (d_items (dobj s x)) j = Some f
        \<or> j \<in> set (i # is) \<and> map_of ch j = Some f \<and> map_of (created_dhs s) (unat (fm_dh (fmetas s j))) = Some x" for x j f
      using r(6) ci d i(4) unfolding v by (cases "j = i"; cases "x = d") auto
    have r1: "init_files (i # is) s = (True, s\<lparr>free_fhs := free_fhs s @ filter (\<lambda>i. \<not> fm_used (fmetas s i)) (i # is),
        created_files := cf, created_fhs := ch, fobj := fo, fobj_next := nx, dobj := ob\<rparr>)"
      unfolding st r(1) using True by (simp add: upd_dir_def)
    have "\<forall>j. j \<notin> set (i # is) \<longrightarrow> map_of ch j = map_of (created_fhs s) j" using r(4) by simp
    then show ?thesis using r1 r(2,3,5) it unfolding e by blast
  qed
qed


section \<open>File blocks\<close>

definition used_fbs :: "(nat \<Rightarrow> FileBlockMeta) \<Rightarrow> nat set" where
  "used_fbs bm = {i. i < 133554 \<and> fb_used (bm i)}"

definition fb_ids :: "FileBlockMeta \<Rightarrow> u32 list" where
  "fb_ids m = take (unat (fb_used_block_num m)) (fb_block_id m)"

definition fb_key :: "FileBlockMeta \<Rightarrow> nat \<times> nat" where
  "fb_key m = (unat (fb_fh m), unat (fb_file_cut m))"

definition fb_sound :: "(u8 list \<Rightarrow> u32) \<Rightarrow> FileBlockMeta \<Rightarrow> bool" where
  "fb_sound c m \<longleftrightarrow> fb_crc m = c (body_FileBlockMeta m) \<and> length (fb_block_id m) = 1000 \<and> unat (fb_used_block_num m) \<le> 1000
     \<and> (if fb_used m then \<not> fb_is_temp m else fb_used_block_num m = 0)"

definition fbs_sound :: "(u8 list \<Rightarrow> u32) \<Rightarrow> u32 \<Rightarrow> (nat \<Rightarrow> FileMeta) \<Rightarrow> (nat \<Rightarrow> FileBlockMeta) \<Rightarrow> bool" where
  "fbs_sound c n fm bm \<longleftrightarrow> (\<forall>i < 133554. fb_sound c (bm i)) \<and> inj_on (\<lambda>i. fb_key (bm i)) (used_fbs bm)
     \<and> (\<forall>i \<in> used_fbs bm. unat (fb_fh (bm i)) \<in> used_files fm \<and> distinct (fb_ids (bm i)) \<and> (\<forall>b \<in> set (fb_ids (bm i)). b < n))
     \<and> (\<forall>i \<in> used_fbs bm. \<forall>j \<in> used_fbs bm. i \<noteq> j \<longrightarrow> set (fb_ids (bm i)) \<inter> set (fb_ids (bm j)) = {})"

lemma claim_blocks_loads:
  assumes "\<forall>i \<in> set is. i < 1000" and "distinct (map ((!) (fb_block_id (bmetas s fb))) is)"
    and "(!) (fb_block_id (bmetas s fb)) ` set is \<subseteq> set (block_id_pool (block_handle s))" and "distinct (block_id_pool (block_handle s))"
  shows "\<exists>p. claim_blocks fb is s = Some (True, s\<lparr>block_handle := (block_handle s)\<lparr>block_id_pool := p\<rparr>\<rparr>) \<and> distinct p
    \<and> set p = set (block_id_pool (block_handle s)) - (!) (fb_block_id (bmetas s fb)) ` set is"
  using assms
proof (induction "is" arbitrary: s)
  case Nil
  then show ?case by (intro exI [of _ "block_id_pool (block_handle s)"]) simp
next
  case (Cons i "is")
  let ?h = "block_handle s" and ?b = "fb_block_id (bmetas s fb) ! i"
  let ?s = "s\<lparr>block_handle := ?h\<lparr>block_id_pool := remove1 ?b (block_id_pool ?h)\<rparr>\<rparr>"
  have "unat (word_of_nat i :: u32) = i" using Cons.prems(1) by (simp add: unsigned_of_nat take_bit_nat_eq_self)
  then have g: "get_block_id s fb (word_of_nat i) = Some ?b"
    using Cons.prems(1) by (simp add: get_block_id_def word_less_nat_alt)
  have st: "claim_blocks fb (i # is) s = claim_blocks fb is ?s"
    using g Cons.prems(3) by (simp add: GetSpecificBlockId_def)
  have "\<exists>p. claim_blocks fb is ?s = Some (True, ?s\<lparr>block_handle := (block_handle ?s)\<lparr>block_id_pool := p\<rparr>\<rparr>) \<and> distinct p
    \<and> set p = set (block_id_pool (block_handle ?s)) - (!) (fb_block_id (bmetas ?s fb)) ` set is"
  proof (rule Cons.IH)
    have "?b \<notin> (!) (fb_block_id (bmetas s fb)) ` set is" using Cons.prems(2) by simp
    then show "(!) (fb_block_id (bmetas ?s fb)) ` set is \<subseteq> set (block_id_pool (block_handle ?s))"
      using Cons.prems(3,4) by (simp add: set_remove1_eq) blast
  qed (use Cons.prems in simp_all)
  then show ?case unfolding st using Cons.prems(4) by (auto simp: set_remove1_eq)
qed

lemma fb_ids_nth:
  assumes "fb_sound c m"
  shows "map ((!) (fb_block_id m)) [0..<unat (fb_used_block_num m)] = fb_ids m"
    "(!) (fb_block_id m) ` {0..<unat (fb_used_block_num m)} = set (fb_ids m)"
proof -
  show e: "map ((!) (fb_block_id m)) [0..<unat (fb_used_block_num m)] = fb_ids m"
    using assms by (intro nth_equalityI) (auto simp: fb_ids_def fb_sound_def)
  show "(!) (fb_block_id m) ` {0..<unat (fb_used_block_num m)} = set (fb_ids m)"
    unfolding e [symmetric] by simp
qed

lemma init_fbs_loads:
  assumes "\<forall>i \<in> set is. fb_sound (crc32 s) (bmetas s i)
      \<and> (fb_used (bmetas s i) \<longrightarrow> map_of (created_fhs s) (unat (fb_fh (bmetas s i))) \<noteq> None
           \<and> distinct (fb_ids (bmetas s i)) \<and> set (fb_ids (bmetas s i)) \<subseteq> set (block_id_pool (block_handle s)))"
    and "distinct is" and "distinct (block_id_pool (block_handle s))"
    and "inj_on (\<lambda>i. fb_key (bmetas s i)) {i \<in> set is. fb_used (bmetas s i)}"
    and "\<forall>i \<in> set is. \<forall>j \<in> set is. fb_used (bmetas s i) \<longrightarrow> fb_used (bmetas s j) \<longrightarrow> i \<noteq> j
      \<longrightarrow> set (fb_ids (bmetas s i)) \<inter> set (fb_ids (bmetas s j)) = {}"
    and "made_for (\<lambda>f. f_meta (fobj s f)) (created_fhs s)" and "\<forall>i f. map_of (created_fhs s) i = Some f \<longrightarrow> distinct (map fst (f_items (fobj s f)))"
    and "\<forall>i \<in> set is. \<forall>f. fb_used (bmetas s i) \<longrightarrow> map_of (created_fhs s) (unat (fb_fh (bmetas s i))) = Some f
      \<longrightarrow> map_of (f_items (fobj s f)) (unat (fb_file_cut (bmetas s i))) = None"
  shows "\<exists>p fo. init_fbs is s = Some (True, s\<lparr>free_fbhs := free_fbhs s @ filter (\<lambda>i. \<not> fb_used (bmetas s i)) is,
      block_handle := (block_handle s)\<lparr>block_id_pool := p\<rparr>, fobj := fo\<rparr>)
    \<and> distinct p \<and> set p = set (block_id_pool (block_handle s)) - (\<Union>i \<in> {i \<in> set is. fb_used (bmetas s i)}. set (fb_ids (bmetas s i)))
    \<and> (\<forall>f. f_meta (fo f) = f_meta (fobj s f)) \<and> (\<forall>i f. map_of (created_fhs s) i = Some f \<longrightarrow> distinct (map fst (f_items (fo f))))
    \<and> (\<forall>f c b. map_of (f_items (fo f)) c = Some b \<longleftrightarrow> map_of (f_items (fobj s f)) c = Some b
        \<or> b \<in> set is \<and> fb_used (bmetas s b) \<and> unat (fb_file_cut (bmetas s b)) = c \<and> map_of (created_fhs s) (unat (fb_fh (bmetas s b))) = Some f)"
  using assms
proof (induction "is" arbitrary: s)
  case Nil
  then show ?case by (intro exI [of _ "block_id_pool (block_handle s)"] exI [of _ "fobj s"]) simp
next
  case (Cons i "is")
  let ?m = "bmetas s i"
  have so: "fb_sound (crc32 s) ?m" using Cons.prems(1) by simp
  then have i: "fb_crc ?m = crc32 s (body_FileBlockMeta ?m)" "i \<notin> set is" "distinct is" using Cons.prems(2) by (auto simp: fb_sound_def)
  show ?case
  proof (cases "fb_used ?m")
    case False
    let ?s = "s\<lparr>free_fbhs := free_fbhs s @ [i]\<rparr>"
    have e: "{j \<in> set (i # is). fb_used (bmetas s j)} = {j \<in> set is. fb_used (bmetas s j)}" using False by auto
    have "\<exists>p fo. init_fbs is ?s = Some (True, ?s\<lparr>free_fbhs := free_fbhs ?s @ filter (\<lambda>i. \<not> fb_used (bmetas ?s i)) is,
      block_handle := (block_handle ?s)\<lparr>block_id_pool := p\<rparr>, fobj := fo\<rparr>)
    \<and> distinct p \<and> set p = set (block_id_pool (block_handle ?s)) - (\<Union>i \<in> {i \<in> set is. fb_used (bmetas ?s i)}. set (fb_ids (bmetas ?s i)))
    \<and> (\<forall>f. f_meta (fo f) = f_meta (fobj ?s f)) \<and> (\<forall>i f. map_of (created_fhs ?s) i = Some f \<longrightarrow> distinct (map fst (f_items (fo f))))
    \<and> (\<forall>f c b. map_of (f_items (fo f)) c = Some b \<longleftrightarrow> map_of (f_items (fobj ?s f)) c = Some b
        \<or> b \<in> set is \<and> fb_used (bmetas ?s b) \<and> unat (fb_file_cut (bmetas ?s b)) = c \<and> map_of (created_fhs ?s) (unat (fb_fh (bmetas ?s b))) = Some f)"
      by (rule Cons.IH) (use Cons.prems i e in auto)
    then obtain p fo where r: "init_fbs is ?s = Some (True, ?s\<lparr>free_fbhs := free_fbhs ?s @ filter (\<lambda>i. \<not> fb_used (bmetas ?s i)) is,
      block_handle := (block_handle ?s)\<lparr>block_id_pool := p\<rparr>, fobj := fo\<rparr>)" "distinct p"
      "set p = set (block_id_pool (block_handle s)) - (\<Union>i \<in> {i \<in> set is. fb_used (bmetas s i)}. set (fb_ids (bmetas s i)))"
      "(\<forall>f. f_meta (fo f) = f_meta (fobj s f)) \<and> (\<forall>i f. map_of (created_fhs s) i = Some f \<longrightarrow> distinct (map fst (f_items (fo f))))"
      "\<forall>f c b. map_of (f_items (fo f)) c = Some b \<longleftrightarrow> map_of (f_items (fobj s f)) c = Some b
        \<or> b \<in> set is \<and> fb_used (bmetas s b) \<and> unat (fb_file_cut (bmetas s b)) = c \<and> map_of (created_fhs s) (unat (fb_fh (bmetas s b))) = Some f"
      by auto
    have "init_fbs (i # is) s = Some (True, s\<lparr>free_fbhs := free_fbhs s @ filter (\<lambda>i. \<not> fb_used (bmetas s i)) (i # is),
      block_handle := (block_handle s)\<lparr>block_id_pool := p\<rparr>, fobj := fo\<rparr>)"
      using r(1) False i(1) by (simp add: Let_def)
    moreover have "map_of (f_items (fo f)) c = Some b \<longleftrightarrow> map_of (f_items (fobj s f)) c = Some b
        \<or> b \<in> set (i # is) \<and> fb_used (bmetas s b) \<and> unat (fb_file_cut (bmetas s b)) = c \<and> map_of (created_fhs s) (unat (fb_fh (bmetas s b))) = Some f" for f c b
      using r(5) False by auto
    ultimately show ?thesis using r(2-4) unfolding e by blast
  next
    case True
    obtain f where f: "map_of (created_fhs s) (unat (fb_fh ?m)) = Some f" using Cons.prems(1) True by auto
    let ?c = "unat (fb_file_cut ?m)" and ?n = "unat (fb_used_block_num ?m)"
    have n: "?n \<le> 1000" "\<not> fb_is_temp ?m" "distinct (fb_ids ?m)" "set (fb_ids ?m) \<subseteq> set (block_id_pool (block_handle s))"
      using Cons.prems(1) True by (auto simp: fb_sound_def)
    note ids = fb_ids_nth [OF so]
    obtain p1 where p1: "claim_blocks i [0..<?n] s = Some (True, s\<lparr>block_handle := (block_handle s)\<lparr>block_id_pool := p1\<rparr>\<rparr>)"
      "distinct p1" "set p1 = set (block_id_pool (block_handle s)) - set (fb_ids ?m)"
      using claim_blocks_loads [of "[0..<?n]" s i] n Cons.prems(3) ids by auto
    let ?s1 = "s\<lparr>block_handle := (block_handle s)\<lparr>block_id_pool := p1\<rparr>\<rparr>"
    let ?s = "upd_file f (\<lambda>x. x\<lparr>f_items := amap_put ?c i (f_items x)\<rparr>) ?s1"
    have nc: "map_of (f_items (fobj s f)) ?c = None" using Cons.prems(8) True f by auto
    have a: "snd (AddFileBlockNoLock f i ?s1) = ?s" using nc by (simp add: AddFileBlockNoLock_def Let_def)
    have st: "init_fbs (i # is) s = init_fbs is ?s"
      using True i(1) n(2) f p1(1) a by (simp add: Let_def GetCreatedFile_fh_def)
    have v: "bmetas ?s = bmetas s" "created_fhs ?s = created_fhs s" "crc32 ?s = crc32 s" "free_fbhs ?s = free_fbhs s"
      "block_id_pool (block_handle ?s) = p1" "\<And>g. f_meta (fobj ?s g) = f_meta (fobj s g)"
      "\<And>g c. map_of (f_items (fobj ?s g)) c = (if g = f \<and> c = ?c then Some i else map_of (f_items (fobj s g)) c)"
      "\<And>g. distinct (map fst (f_items (fobj s g))) \<Longrightarrow> distinct (map fst (f_items (fobj ?s g)))"
      by (auto simp: upd_file_def)
    have other: "map_of (f_items (fobj ?s g)) (unat (fb_file_cut (bmetas s j))) = None"
      if "j \<in> set is" "fb_used (bmetas s j)" "map_of (created_fhs s) (unat (fb_fh (bmetas s j))) = Some g" for j g
    proof -
      have "i \<noteq> j" using that(1) i(2) by blast
      then have k: "fb_key (bmetas s j) \<noteq> fb_key ?m" using Cons.prems(4) that True by (auto simp: inj_on_def)
      have "map_of (f_items (fobj s g)) (unat (fb_file_cut (bmetas s j))) = None" using Cons.prems(8) that by simp
      moreover have "\<not> (g = f \<and> unat (fb_file_cut (bmetas s j)) = ?c)"
      proof
        assume gf: "g = f \<and> unat (fb_file_cut (bmetas s j)) = ?c"
        have "f_meta (fobj s f) = unat (fb_fh ?m)" "f_meta (fobj s g) = unat (fb_fh (bmetas s j))"
          using Cons.prems(6) f that(3) unfolding made_for_def by blast+
        then show False using gf k by (simp add: fb_key_def)
      qed
      ultimately show ?thesis unfolding v by simp
    qed
    have dj: "set (fb_ids (bmetas s j)) \<inter> set (fb_ids ?m) = {}" if "j \<in> set is" "fb_used (bmetas s j)" for j
      using Cons.prems(5) that True i(2) by (metis list.set_intros(1,2))
    have "\<exists>p fo. init_fbs is ?s = Some (True, ?s\<lparr>free_fbhs := free_fbhs ?s @ filter (\<lambda>i. \<not> fb_used (bmetas ?s i)) is,
      block_handle := (block_handle ?s)\<lparr>block_id_pool := p\<rparr>, fobj := fo\<rparr>)
    \<and> distinct p \<and> set p = set (block_id_pool (block_handle ?s)) - (\<Union>i \<in> {i \<in> set is. fb_used (bmetas ?s i)}. set (fb_ids (bmetas ?s i)))
    \<and> (\<forall>f. f_meta (fo f) = f_meta (fobj ?s f)) \<and> (\<forall>i f. map_of (created_fhs ?s) i = Some f \<longrightarrow> distinct (map fst (f_items (fo f))))
    \<and> (\<forall>f c b. map_of (f_items (fo f)) c = Some b \<longleftrightarrow> map_of (f_items (fobj ?s f)) c = Some b
        \<or> b \<in> set is \<and> fb_used (bmetas ?s b) \<and> unat (fb_file_cut (bmetas ?s b)) = c \<and> map_of (created_fhs ?s) (unat (fb_fh (bmetas ?s b))) = Some f)"
    proof (rule Cons.IH)
      show "\<forall>j \<in> set is. fb_sound (crc32 ?s) (bmetas ?s j)
        \<and> (fb_used (bmetas ?s j) \<longrightarrow> map_of (created_fhs ?s) (unat (fb_fh (bmetas ?s j))) \<noteq> None
           \<and> distinct (fb_ids (bmetas ?s j)) \<and> set (fb_ids (bmetas ?s j)) \<subseteq> set (block_id_pool (block_handle ?s)))"
        using Cons.prems(1) dj p1(3) unfolding v by (auto; blast)
      show "made_for (\<lambda>f. f_meta (fobj ?s f)) (created_fhs ?s)" using Cons.prems(6) unfolding v .
      show "\<forall>i f. map_of (created_fhs ?s) i = Some f \<longrightarrow> distinct (map fst (f_items (fobj ?s f)))" using Cons.prems(7) v(2,8) by simp
      show "\<forall>j \<in> set is. \<forall>g. fb_used (bmetas ?s j) \<longrightarrow> map_of (created_fhs ?s) (unat (fb_fh (bmetas ?s j))) = Some g
        \<longrightarrow> map_of (f_items (fobj ?s g)) (unat (fb_file_cut (bmetas ?s j))) = None"
        using other unfolding v(1,2) by blast
      show "inj_on (\<lambda>i. fb_key (bmetas ?s i)) {i \<in> set is. fb_used (bmetas ?s i)}"
        using Cons.prems(4) unfolding v by (rule inj_on_subset) auto
      show "\<forall>i \<in> set is. \<forall>j \<in> set is. fb_used (bmetas ?s i) \<longrightarrow> fb_used (bmetas ?s j) \<longrightarrow> i \<noteq> j
        \<longrightarrow> set (fb_ids (bmetas ?s i)) \<inter> set (fb_ids (bmetas ?s j)) = {}" using Cons.prems(5) unfolding v by simp
    qed (use i p1(2) in \<open>simp_all add: upd_file_def\<close>)
    then obtain p fo where r: "init_fbs is ?s = Some (True, ?s\<lparr>free_fbhs := free_fbhs s @ filter (\<lambda>i. \<not> fb_used (bmetas s i)) is,
        block_handle := (block_handle ?s)\<lparr>block_id_pool := p\<rparr>, fobj := fo\<rparr>)" "distinct p"
      "set p = set p1 - (\<Union>i \<in> {i \<in> set is. fb_used (bmetas s i)}. set (fb_ids (bmetas s i)))"
      "(\<forall>f. f_meta (fo f) = f_meta (fobj s f)) \<and> (\<forall>i f. map_of (created_fhs s) i = Some f \<longrightarrow> distinct (map fst (f_items (fo f))))"
      "\<forall>f c b. map_of (f_items (fo f)) c = Some b \<longleftrightarrow> map_of (f_items (fobj ?s f)) c = Some b
        \<or> b \<in> set is \<and> fb_used (bmetas s b) \<and> unat (fb_file_cut (bmetas s b)) = c \<and> map_of (created_fhs s) (unat (fb_fh (bmetas s b))) = Some f"
      unfolding v by blast
    have e: "{j \<in> set (i # is). fb_used (bmetas s j)} = insert i {j \<in> set is. fb_used (bmetas s j)}" using True by auto
    have "set p = set (block_id_pool (block_handle s)) - (\<Union>i \<in> {j \<in> set (i # is). fb_used (bmetas s j)}. set (fb_ids (bmetas s i)))"
      unfolding e using r(3) p1(3) by auto
    moreover have "map_of (f_items (fo g)) c = Some b \<longleftrightarrow> map_of (f_items (fobj s g)) c = Some b
        \<or> b \<in> set (i # is) \<and> fb_used (bmetas s b) \<and> unat (fb_file_cut (bmetas s b)) = c \<and> map_of (created_fhs s) (unat (fb_fh (bmetas s b))) = Some g" for g c b
    proof -
      have "map_of (f_items (fobj ?s g)) c = Some b \<longleftrightarrow> map_of (f_items (fobj s g)) c = Some b \<or> g = f \<and> c = ?c \<and> b = i"
        using nc unfolding v by auto
      then show ?thesis using r(5) True f by auto
    qed
    moreover have "init_fbs (i # is) s = Some (True, s\<lparr>free_fbhs := free_fbhs s @ filter (\<lambda>i. \<not> fb_used (bmetas s i)) (i # is),
      block_handle := (block_handle s)\<lparr>block_id_pool := p\<rparr>, fobj := fo\<rparr>)"
      unfolding st r(1) using True by (simp add: upd_file_def)
    ultimately show ?thesis using r(2,4) by (intro exI [of _ p] exI [of _ fo]) simp
  qed
qed


section \<open>The tables the metadata describes\<close>

abbreviation dir_name_of :: "fs \<Rightarrow> nat \<Rightarrow> string" where
  "dir_name_of s i \<equiv> meta_dir_name (dmetas s i)"

text \<open>What a directory contains: the files that name it, and the directories it is the parent of.\<close>

definition dir_filled :: "fs \<Rightarrow> nat \<Rightarrow> nat \<Rightarrow> bool" where
  "dir_filled s i d \<longleftrightarrow>
     (\<forall>k f. map_of (d_items (dobj s d)) k = Some f \<longleftrightarrow> map_of (created_fhs s) k = Some f \<and> unat (fm_dh (fmetas s k)) = i)
   \<and> (\<forall>k c. map_of (d_childs (dobj s d)) k = Some c \<longleftrightarrow> map_of (created_dhs s) k = Some c
        \<and> \<not> IsMountPoint (dir_name_of s k) \<and> GetDirName (dir_name_of s k) = dir_name_of s i)"

definition file_filled :: "fs \<Rightarrow> nat \<Rightarrow> nat \<Rightarrow> bool" where
  "file_filled s i f \<longleftrightarrow> distinct (map fst (f_items (fobj s f)))
     \<and> (\<forall>c b. map_of (f_items (fobj s f)) c = Some b \<longleftrightarrow> b \<in> used_fbs (bmetas s) \<and> fb_key (bmetas s b) = (i, c))"

lemma file_filled_cong: "fobj t f = fobj s f \<Longrightarrow> bmetas t = bmetas s \<Longrightarrow> file_filled t i f = file_filled s i f"
  by (simp only: file_filled_def)

definition tables_ok :: "fs \<Rightarrow> bool" where
  "tables_ok s \<longleftrightarrow>
     indexed (dir_name_of s) (used_dirs (dmetas s)) (created_dhs s) (created_dirs s)
   \<and> made_for (\<lambda>d. d_meta (dobj s d)) (created_dhs s)
   \<and> indexed (\<lambda>i. file_key (fmetas s i)) (used_files (fmetas s)) (created_fhs s) (created_files s)
   \<and> made_for (\<lambda>f. f_meta (fobj s f)) (created_fhs s)
   \<and> (\<forall>i d. map_of (created_dhs s) i = Some d \<longrightarrow> d < dobj_next s \<and> dir_filled s i d)
   \<and> (\<forall>i f. map_of (created_fhs s) i = Some f \<longrightarrow> f < fobj_next s \<and> file_filled s i f)"

definition metas_sound :: "u32 \<Rightarrow> fs \<Rightarrow> bool" where
  "metas_sound n s \<longleftrightarrow> dirs_sound (crc32 s) (dmetas s) \<and> files_sound (crc32 s) (dmetas s) (fmetas s)
     \<and> fbs_sound (crc32 s) n (fmetas s) (bmetas s)"

text \<open>The state a mount leaves: free lists and block pool hold what the metadata does not use.\<close>

definition free_rest :: "fs \<Rightarrow> bool" where
  "free_rest s \<longleftrightarrow> free_dhs s = filter (\<lambda>i. \<not> dm_used (dmetas s i)) [0..<100000]
     \<and> free_fhs s = filter (\<lambda>i. \<not> fm_used (fmetas s i)) [0..<100000]
     \<and> free_fbhs s = filter (\<lambda>i. \<not> fb_used (bmetas s i)) [0..<133554]
     \<and> distinct (block_id_pool (block_handle s))
     \<and> set (block_id_pool (block_handle s)) = {b. b < max_block_num (block_handle s)} - (\<Union>i \<in> used_fbs (bmetas s). set (fb_ids (bmetas s i)))"

lemma used_upt:
  "{i \<in> set [0..<100000]. dm_used (dm i)} = used_dirs dm" "{i \<in> set [0..<100000]. fm_used (fm i)} = used_files fm"
  "{i \<in> set [0..<133554]. fb_used (bm i)} = used_fbs bm"
  by (auto simp: used_dirs_def used_files_def used_fbs_def)

lemma DirHandle_InitializeMeta_loads:
  assumes n: "unat (sb_max_file_num (super_meta s)) = 100000" and so: "dirs_sound (crc32 s) (dmetas s)"
    and e: "created_dhs s = []" "created_dirs s = []"
  shows "\<exists>cd ch ob nx. DirHandle_InitializeMeta s = (True, s\<lparr>free_dhs := free_dhs s @ filter (\<lambda>i. \<not> dm_used (dmetas s i)) [0..<100000],
      created_dirs := cd, created_dhs := ch, dobj := ob, dobj_next := nx\<rparr>)
    \<and> indexed (dir_name_of s) (used_dirs (dmetas s)) ch cd \<and> made_for (\<lambda>d. d_meta (ob d)) ch
    \<and> (\<forall>i d. map_of ch i = Some d \<longrightarrow> d < nx \<and> d_items (ob d) = []
        \<and> (\<forall>k c. map_of (d_childs (ob d)) k = Some c \<longleftrightarrow> map_of ch k = Some c
            \<and> \<not> IsMountPoint (dir_name_of s k) \<and> GetDirName (dir_name_of s k) = dir_name_of s i))"
proof -
  have "\<exists>cd ch ob nx. init_dirs [0..<100000] s = (True, s\<lparr>free_dhs := free_dhs s @ filter (\<lambda>i. \<not> dm_used (dmetas s i)) [0..<100000],
      created_dirs := cd, created_dhs := ch, dobj := ob, dobj_next := nx\<rparr>)
    \<and> indexed (dir_name_of s) ({} \<union> {i \<in> set [0..<100000]. dm_used (dmetas s i)}) ch cd
    \<and> (\<forall>i d. map_of ch i = Some d \<longrightarrow> d < nx \<and> ob d = Directory_new i)"
    using so e unfolding dirs_sound_def
    by (intro init_dirs_loads) (auto simp: used_dirs_def)
  then obtain cd ch ob nx where r: "init_dirs [0..<100000] s = (True, s\<lparr>free_dhs := free_dhs s @ filter (\<lambda>i. \<not> dm_used (dmetas s i)) [0..<100000],
      created_dirs := cd, created_dhs := ch, dobj := ob, dobj_next := nx\<rparr>)"
    "indexed (dir_name_of s) (used_dirs (dmetas s)) ch cd" "\<forall>i d. map_of ch i = Some d \<longrightarrow> d < nx \<and> ob d = Directory_new i"
    unfolding used_upt by auto
  let ?s = "s\<lparr>free_dhs := free_dhs s @ filter (\<lambda>i. \<not> dm_used (dmetas s i)) [0..<100000],
      created_dirs := cd, created_dhs := ch, dobj := ob, dobj_next := nx\<rparr>"
  have mf: "made_for (\<lambda>d. d_meta (ob d)) ch" using r(3) by (auto simp: made_for_def Directory_new_def)
  note D = indexedD [OF r(2)]
  have obj: "d_meta (dobj ?s d) = i \<and> i \<in> used_dirs (dmetas s) \<and> Dir_dh ?s d = i \<and> Dir_dir_name ?s d = dir_name_of s i" if "map_of ch i = Some d" for i d
  proof -
    have i: "i \<in> used_dirs (dmetas s)" using D(1) [of i] that by simp
    then have "unat (dm_dh (dmetas s i)) = i" using so unat_handle [of i] by (simp add: dirs_sound_def used_dirs_def)
    then show ?thesis using i r(3) that by (simp add: Dir_dh_def Dir_dir_name_def Directory_new_def)
  qed
  have ds: "\<exists>i. map_of ch i = Some d" if "d \<in> set (map snd cd)" for d
  proof -
    from that obtain m where "(m, d) \<in> set cd" by auto
    then have "map_of cd m = Some d" using D(4) by simp
    then show ?thesis using D(3) by blast
  qed
  have par: "parent_of ?s d = (if IsMountPoint (dir_name_of s i) then None else map_of cd (GetDirName (dir_name_of s i)))"
    if "map_of ch i = Some d" for i d
    using obj [OF that] by (simp add: parent_of_def)
  have "\<exists>ob2. link_dirs (map snd cd) ?s = (True, ?s\<lparr>dobj := ob2\<rparr>)
    \<and> (\<forall>x. d_meta (ob2 x) = d_meta (dobj ?s x) \<and> d_items (ob2 x) = d_items (dobj ?s x))
    \<and> (\<forall>x k c. map_of (d_childs (ob2 x)) k = Some c \<longleftrightarrow>
        map_of (d_childs (dobj ?s x)) k = Some c \<or> c \<in> set (map snd cd) \<and> k = Dir_dh ?s c \<and> parent_of ?s c = Some x)"
  proof (rule link_dirs_loads)
    have "IsMountPoint (Dir_dir_name ?s d) \<or> (dir_path (GetDirName (Dir_dir_name ?s d))
      \<and> length (GetDirName (Dir_dir_name ?s d)) < 768 \<and> parent_of ?s d \<noteq> None)" if "d \<in> set (map snd cd)" for d
    proof -
      from ds [OF that] obtain i where i: "map_of ch i = Some d" by blast
      then have "i \<in> used_dirs (dmetas s)" using obj by blast
      then have "IsMountPoint (dir_name_of s i) \<or> dir_path (GetDirName (dir_name_of s i)) \<and> length (GetDirName (dir_name_of s i)) < 768
          \<and> (\<exists>j \<in> used_dirs (dmetas s). dir_name_of s j = GetDirName (dir_name_of s i))"
        using so unfolding dirs_sound_def by blast
      then consider (root) "IsMountPoint (dir_name_of s i)" | (sub) j where "dir_path (GetDirName (dir_name_of s i))"
        "length (GetDirName (dir_name_of s i)) < 768" "j \<in> used_dirs (dmetas s)" "dir_name_of s j = GetDirName (dir_name_of s i)" by blast
      then show ?thesis
      proof cases
        case root
        then show ?thesis using obj [OF i] by simp
      next
        case (sub j)
        from D(1) [of j] sub(3) obtain x where "map_of ch j = Some x" by blast
        from D(2) [OF this] have "map_of cd (GetDirName (dir_name_of s i)) = Some x" using sub(4) by simp
        then show ?thesis using sub(1,2) par [OF i] obj [OF i] by (cases "IsMountPoint (dir_name_of s i)") simp_all
      qed
    qed
    then show "\<forall>d \<in> set (map snd cd). IsMountPoint (Dir_dir_name ?s d) \<or> (dir_path (GetDirName (Dir_dir_name ?s d))
      \<and> length (GetDirName (Dir_dir_name ?s d)) < 768 \<and> parent_of ?s d \<noteq> None)" by blast
    have "inj_on (Dir_dh ?s) (set (map snd cd))"
    proof (rule inj_onI)
      fix x y assume xy: "x \<in> set (map snd cd)" "y \<in> set (map snd cd)" "Dir_dh ?s x = Dir_dh ?s y"
      obtain i j where "map_of ch i = Some x" "map_of ch j = Some y" using ds xy by metis
      then show "x = y" using obj xy(3) by force
    qed
    then show "distinct (map (Dir_dh ?s) (map snd cd))" using indexed_distinct [OF r(2) mf] by (simp only: distinct_map simp_thms)
    show "\<forall>n x. map_of (created_dirs ?s) n = Some x \<longrightarrow> (\<forall>d \<in> set (map snd cd). map_of (d_childs (dobj ?s x)) (Dir_dh ?s d) = None)"
    proof (intro allI impI ballI)
      fix n x d
      assume "map_of (created_dirs ?s) n = Some x"
      then obtain i where "map_of ch i = Some x" using D(3) [of n x] by auto
      then show "map_of (d_childs (dobj ?s x)) (Dir_dh ?s d) = None" using r(3) by (simp add: Directory_new_def)
    qed
  qed
  then obtain ob2 where l: "link_dirs (map snd cd) ?s = (True, ?s\<lparr>dobj := ob2\<rparr>)"
    "\<forall>x. d_meta (ob2 x) = d_meta (ob x) \<and> d_items (ob2 x) = d_items (ob x)"
    "\<forall>x k c. map_of (d_childs (ob2 x)) k = Some c \<longleftrightarrow>
        map_of (d_childs (ob x)) k = Some c \<or> c \<in> set (map snd cd) \<and> k = Dir_dh ?s c \<and> parent_of ?s c = Some x" by auto
  have "map_of (d_childs (ob2 d)) k = Some c \<longleftrightarrow> map_of ch k = Some c
      \<and> \<not> IsMountPoint (dir_name_of s k) \<and> GetDirName (dir_name_of s k) = dir_name_of s i" if d: "map_of ch i = Some d" for i d k c
  proof -
    have z: "map_of (d_childs (ob d)) k = None" using r(3) d by (simp add: Directory_new_def)
    have "c \<in> set (map snd cd) \<and> k = Dir_dh ?s c \<longleftrightarrow> map_of ch k = Some c"
    proof
      assume c: "c \<in> set (map snd cd) \<and> k = Dir_dh ?s c"
      then obtain j where "map_of ch j = Some c" using ds by blast
      then show "map_of ch k = Some c" using obj c by force
    next
      assume c: "map_of ch k = Some c"
      then have "(dir_name_of s k, c) \<in> set cd" using D(2) [OF c] map_of_SomeD by force
      then show "c \<in> set (map snd cd) \<and> k = Dir_dh ?s c" using obj [OF c] by force
    qed
    moreover have "parent_of ?s c = Some d \<longleftrightarrow> \<not> IsMountPoint (dir_name_of s k) \<and> GetDirName (dir_name_of s k) = dir_name_of s i"
      if c: "map_of ch k = Some c"
    proof -
      have "map_of cd m = Some d \<longleftrightarrow> m = dir_name_of s i" for m
        using indexed_lookup [OF r(2) mf, of m d] d obj [OF d] by auto
      then show ?thesis unfolding par [OF c] by auto
    qed
    ultimately show ?thesis using l(3) z by auto
  qed
  moreover have "made_for (\<lambda>d. d_meta (ob2 d)) ch" using mf l(2) by (simp add: made_for_def)
  moreover have "d < nx \<and> d_items (ob2 d) = []" if "map_of ch i = Some d" for i d using l(2) r(3) that by (simp add: Directory_new_def)
  moreover have "DirHandle_InitializeMeta s = (True, ?s\<lparr>dobj := ob2\<rparr>)"
    using r(1) l(1) n by (simp add: DirHandle_InitializeMeta_def)
  ultimately show ?thesis using r(2)
    by (intro exI [of _ cd] exI [of _ ch] exI [of _ ob2] exI [of _ nx]) simp
qed


lemma FileHandle_InitializeMeta_loads:
  assumes n: "unat (sb_max_file_num (super_meta s)) = 100000" and so: "files_sound (crc32 s) (dmetas s) (fmetas s)"
    and e: "created_fhs s = []" "created_files s = []" and d: "\<forall>i \<in> used_dirs (dmetas s). map_of (created_dhs s) i \<noteq> None"
    and di: "\<forall>j x. map_of (created_dhs s) j = Some x \<longrightarrow> d_items (dobj s x) = []"
  shows "\<exists>cf fh fo fn ob. FileHandle_InitializeMeta s = (True, s\<lparr>free_fhs := free_fhs s @ filter (\<lambda>i. \<not> fm_used (fmetas s i)) [0..<100000],
      created_files := cf, created_fhs := fh, fobj := fo, fobj_next := fn, dobj := ob\<rparr>)
    \<and> indexed (\<lambda>i. file_key (fmetas s i)) (used_files (fmetas s)) fh cf
    \<and> (\<forall>i f. map_of fh i = Some f \<longrightarrow> f < fn \<and> fo f = File_new i)
    \<and> (\<forall>x. d_meta (ob x) = d_meta (dobj s x) \<and> d_childs (ob x) = d_childs (dobj s x))
    \<and> (\<forall>x i f. map_of (d_items (ob x)) i = Some f \<longleftrightarrow> map_of (d_items (dobj s x)) i = Some f
        \<or> i < 100000 \<and> map_of fh i = Some f \<and> map_of (created_dhs s) (unat (fm_dh (fmetas s i))) = Some x)"
proof -
  let ?is = "[0..<100000]" and ?key = "\<lambda>i. file_key (fmetas s i)"
  have 1: "\<forall>i \<in> set ?is. i < 100000 \<and> file_sound (crc32 s) i (fmetas s i)
      \<and> (fm_used (fmetas s i) \<longrightarrow> map_of (created_dhs s) (unat (fm_dh (fmetas s i))) \<noteq> None)"
  proof
    fix i assume "i \<in> set ?is"
    then have i: "i < 100000" by simp
    then have "unat (fm_dh (fmetas s i)) \<in> used_dirs (dmetas s)" if "fm_used (fmetas s i)"
      using so that by (simp add: files_sound_def used_files_def)
    then show "i < 100000 \<and> file_sound (crc32 s) i (fmetas s i)
        \<and> (fm_used (fmetas s i) \<longrightarrow> map_of (created_dhs s) (unat (fm_dh (fmetas s i))) \<noteq> None)"
      using i so d by (simp add: files_sound_def)
  qed
  have 2: "inj_on ?key ({} \<union> {i \<in> set ?is. fm_used (fmetas s i)})"
    unfolding used_upt using so by (simp add: files_sound_def)
  have 3: "indexed ?key {} (created_fhs s) (created_files s)" unfolding e by simp
  have 4: "\<forall>i f. map_of (created_fhs s) i = Some f \<longrightarrow> f < fobj_next s \<and> fobj s f = File_new i" unfolding e by simp
  have 5: "\<forall>j x. map_of (created_dhs s) j = Some x \<longrightarrow> (\<forall>i \<in> set ?is. map_of (d_items (dobj s x)) i = None)"
  proof (intro allI impI ballI)
    fix j x i assume "map_of (created_dhs s) j = Some x"
    then have "d_items (dobj s x) = []" using di by blast
    then show "map_of (d_items (dobj s x)) i = None" by simp
  qed
  from init_files_loads [OF 1 distinct_upt _ 2 3 4 5] show ?thesis
    unfolding used_upt FileHandle_InitializeMeta_def n by (simp only: Int_empty_right simp_thms Un_empty_left set_upt atLeastLessThan_iff le0) blast
qed

lemma FileBlockHandle_InitializeMeta_loads:
  assumes n: "unat (sb_max_file_block_num (super_meta s)) = 133554" and so: "fbs_sound (crc32 s) m (fmetas s) (bmetas s)"
    and p: "distinct (block_id_pool (block_handle s))" "set (block_id_pool (block_handle s)) = {i. i < m}"
    and f: "\<forall>i \<in> used_files (fmetas s). map_of (created_fhs s) i \<noteq> None" and mf: "made_for (\<lambda>f. f_meta (fobj s f)) (created_fhs s)"
    and fi: "\<forall>j x. map_of (created_fhs s) j = Some x \<longrightarrow> f_items (fobj s x) = []"
  shows "\<exists>p fo. FileBlockHandle_InitializeMeta s = Some (True, s\<lparr>free_fbhs := free_fbhs s @ filter (\<lambda>i. \<not> fb_used (bmetas s i)) [0..<133554],
      block_handle := (block_handle s)\<lparr>block_id_pool := p\<rparr>, fobj := fo\<rparr>)
    \<and> distinct p \<and> set p = {i. i < m} - (\<Union>i \<in> used_fbs (bmetas s). set (fb_ids (bmetas s i)))
    \<and> (\<forall>f. f_meta (fo f) = f_meta (fobj s f)) \<and> (\<forall>i f. map_of (created_fhs s) i = Some f \<longrightarrow> file_filled (s\<lparr>fobj := fo\<rparr>) i f)"
proof -
  let ?is = "[0..<133554]" and ?m = "\<lambda>i. bmetas s i"
  have us: "i \<in> used_fbs (bmetas s)" if "i \<in> set ?is" "fb_used (bmetas s i)" for i using that by (simp add: used_fbs_def)
  have 1: "\<forall>i \<in> set ?is. fb_sound (crc32 s) (bmetas s i)
      \<and> (fb_used (bmetas s i) \<longrightarrow> map_of (created_fhs s) (unat (fb_fh (bmetas s i))) \<noteq> None
           \<and> distinct (fb_ids (bmetas s i)) \<and> set (fb_ids (bmetas s i)) \<subseteq> set (block_id_pool (block_handle s)))"
  proof (intro ballI conjI impI)
    fix i assume i: "i \<in> set ?is"
    then show "fb_sound (crc32 s) (bmetas s i)" using so by (simp add: fbs_sound_def)
    assume "fb_used (bmetas s i)"
    note u = us [OF i this]
    show "map_of (created_fhs s) (unat (fb_fh (bmetas s i))) \<noteq> None" "distinct (fb_ids (bmetas s i))"
      using so u f unfolding fbs_sound_def by blast+
    show "set (fb_ids (bmetas s i)) \<subseteq> set (block_id_pool (block_handle s))" unfolding p(2) using so u by (auto simp: fbs_sound_def)
  qed
  have 2: "inj_on (\<lambda>i. fb_key (bmetas s i)) {i \<in> set ?is. fb_used (bmetas s i)}" unfolding used_upt using so by (simp add: fbs_sound_def)
  have 3: "\<forall>i \<in> set ?is. \<forall>j \<in> set ?is. fb_used (bmetas s i) \<longrightarrow> fb_used (bmetas s j) \<longrightarrow> i \<noteq> j
      \<longrightarrow> set (fb_ids (bmetas s i)) \<inter> set (fb_ids (bmetas s j)) = {}"
    using so us unfolding fbs_sound_def by blast
  have 4: "\<forall>i f. map_of (created_fhs s) i = Some f \<longrightarrow> distinct (map fst (f_items (fobj s f)))"
  proof (intro allI impI)
    fix i f assume "map_of (created_fhs s) i = Some f"
    then have "f_items (fobj s f) = []" using fi by blast
    then show "distinct (map fst (f_items (fobj s f)))" by simp
  qed
  have 5: "\<forall>i \<in> set ?is. \<forall>f. fb_used (bmetas s i) \<longrightarrow> map_of (created_fhs s) (unat (fb_fh (bmetas s i))) = Some f
      \<longrightarrow> map_of (f_items (fobj s f)) (unat (fb_file_cut (bmetas s i))) = None"
  proof (intro ballI allI impI)
    fix i f assume "map_of (created_fhs s) (unat (fb_fh (bmetas s i))) = Some f"
    then have "f_items (fobj s f) = []" using fi by blast
    then show "map_of (f_items (fobj s f)) (unat (fb_file_cut (bmetas s i))) = None" by simp
  qed
  from init_fbs_loads [OF 1 distinct_upt p(1) 2 3 mf 4 5] obtain q fo where
    r: "init_fbs ?is s = Some (True, s\<lparr>free_fbhs := free_fbhs s @ filter (\<lambda>i. \<not> fb_used (bmetas s i)) ?is,
      block_handle := (block_handle s)\<lparr>block_id_pool := q\<rparr>, fobj := fo\<rparr>)" "distinct q"
    "set q = {i. i < m} - (\<Union>i \<in> used_fbs (bmetas s). set (fb_ids (bmetas s i)))"
    "\<forall>f. f_meta (fo f) = f_meta (fobj s f)" "\<forall>i f. map_of (created_fhs s) i = Some f \<longrightarrow> distinct (map fst (f_items (fo f)))"
    "\<forall>f c b. map_of (f_items (fo f)) c = Some b \<longleftrightarrow> map_of (f_items (fobj s f)) c = Some b
        \<or> b \<in> set ?is \<and> fb_used (bmetas s b) \<and> unat (fb_file_cut (bmetas s b)) = c \<and> map_of (created_fhs s) (unat (fb_fh (bmetas s b))) = Some f"
    unfolding used_upt p(2) by blast
  have "file_filled (s\<lparr>fobj := fo\<rparr>) i g" if g: "map_of (created_fhs s) i = Some g" for i g
  proof -
    have k: "map_of (created_fhs s) k = Some g \<longleftrightarrow> k = i" for k using g mf by (auto simp: made_for_def)
    have e: "map_of (f_items (fobj s g)) c = None" for c using fi g by (metis map_of.simps(1))
    have b: "b \<in> set ?is \<and> fb_used (bmetas s b) \<longleftrightarrow> b \<in> used_fbs (bmetas s)" for b by (simp add: used_fbs_def)
    have "map_of (f_items (fo g)) c = Some b \<longleftrightarrow> b \<in> used_fbs (bmetas s) \<and> fb_key (bmetas s b) = (i, c)" for c b
      using r(6) e [of c] k b [of b] by (auto simp: fb_key_def)
    then show ?thesis using r(5) g by (simp add: file_filled_def)
  qed
  then show ?thesis using r(1-4) unfolding FileBlockHandle_InitializeMeta_def n by blast
qed

text \<open>Everything the loops of the mount leave alone.\<close>

definition tables_only :: "fs \<Rightarrow> fs \<Rightarrow> bool" where
  "tables_only s t \<longleftrightarrow> crc32 t = crc32 s \<and> dev t = dev s \<and> kern t = kern s \<and> super_meta t = super_meta s \<and> dmetas t = dmetas s
     \<and> fmetas t = fmetas s \<and> bmetas t = bmetas s \<and> fd_handle t = fd_handle s \<and> open_files t = open_files s \<and> open_dirs t = open_dirs s
     \<and> parent_files t = parent_files s \<and> now t = now s \<and> behind t = behind s"

lemma FileSystem_InitializeMeta_loads:
  assumes e: "empty_tables s" and fm: "formatted s" "SuperBlock_InitializeMeta s = (True, s)"
    and so: "metas_sound (ucast (sb_curr_block_num (super_meta s))) s"
  shows "\<exists>t. FileSystem_InitializeMeta s = Some (True, t) \<and> tables_only s t \<and> tables_ok t \<and> free_rest t
    \<and> max_block_num (block_handle t) = ucast (sb_curr_block_num (super_meta s))"
proof -
  let ?n = "ucast (sb_curr_block_num (super_meta s)) :: u32"
  obtain h where h: "BlockHandle_InitializeMeta (sb_curr_block_num (super_meta s)) BlockHandle_new = (True, h)"
    by (simp add: BlockHandle_InitializeMeta_def Let_def)
  have b0: "block_inv BlockHandle_new" by (simp add: BlockHandle_new_def block_inv_def)
  have hp: "max_block_num h = ?n" "distinct (block_id_pool h)" "set (block_id_pool h) = {i. i < ?n}"
    using BlockHandle_InitializeMeta_pool [OF h] BlockHandle_InitializeMeta_inv [OF b0 _ h]
    by (simp_all add: BlockHandle_new_def block_inv_def)
  have n: "unat (sb_max_file_num (super_meta s)) = 100000" "unat (sb_max_file_block_num (super_meta s)) = 133554"
    using formatted_fields [OF fm(1)] by simp_all
  have ds: "dirs_sound (crc32 s) (dmetas s)" and fls: "files_sound (crc32 s) (dmetas s) (fmetas s)"
    and bs: "fbs_sound (crc32 s) ?n (fmetas s) (bmetas s)" using so by (simp_all add: metas_sound_def)
  note e' = e [unfolded empty_tables_def]
  have bh0: "block_handle s = BlockHandle_new" using e' by simp
  let ?s1 = "s\<lparr>block_handle := h\<rparr>"
  obtain cd ch ob nx where d: "DirHandle_InitializeMeta ?s1 = (True, ?s1\<lparr>free_dhs := filter (\<lambda>i. \<not> dm_used (dmetas s i)) [0..<100000],
      created_dirs := cd, created_dhs := ch, dobj := ob, dobj_next := nx\<rparr>)"
    "indexed (dir_name_of s) (used_dirs (dmetas s)) ch cd" "made_for (\<lambda>d. d_meta (ob d)) ch"
    "\<forall>i d. map_of ch i = Some d \<longrightarrow> d < nx \<and> d_items (ob d) = []
        \<and> (\<forall>k c. map_of (d_childs (ob d)) k = Some c \<longleftrightarrow> map_of ch k = Some c
            \<and> \<not> IsMountPoint (dir_name_of s k) \<and> GetDirName (dir_name_of s k) = dir_name_of s i)"
    using DirHandle_InitializeMeta_loads [of ?s1] n(1) ds e' by auto
  let ?s2 = "?s1\<lparr>free_dhs := filter (\<lambda>i. \<not> dm_used (dmetas s i)) [0..<100000],
      created_dirs := cd, created_dhs := ch, dobj := ob, dobj_next := nx\<rparr>"
  have dch: "map_of ch i \<noteq> None \<longleftrightarrow> i \<in> used_dirs (dmetas s)" for i by (rule indexedD(1) [OF d(2)])
  have s2: "super_meta ?s2 = super_meta s" "crc32 ?s2 = crc32 s" "dmetas ?s2 = dmetas s" "fmetas ?s2 = fmetas s" "created_fhs ?s2 = []"
    "created_files ?s2 = []" "created_dhs ?s2 = ch" "dobj ?s2 = ob" "free_fhs ?s2 = []" using e' by simp_all
  have "\<forall>j x. map_of ch j = Some x \<longrightarrow> d_items (ob x) = []" "\<forall>i \<in> used_dirs (dmetas s). map_of ch i \<noteq> None" using d(4) dch by blast+
  from FileHandle_InitializeMeta_loads [of ?s2, unfolded s2, OF n(1) fls refl refl this(2,1)] obtain cf fh fo fn ob2 where
    f: "FileHandle_InitializeMeta ?s2 = (True, ?s2\<lparr>free_fhs := filter (\<lambda>i. \<not> fm_used (fmetas s i)) [0..<100000],
      created_files := cf, created_fhs := fh, fobj := fo, fobj_next := fn, dobj := ob2\<rparr>)"
    "indexed (\<lambda>i. file_key (fmetas s i)) (used_files (fmetas s)) fh cf" "\<forall>i f. map_of fh i = Some f \<longrightarrow> f < fn \<and> fo f = File_new i"
    "\<forall>x. d_meta (ob2 x) = d_meta (ob x) \<and> d_childs (ob2 x) = d_childs (ob x)"
    "\<forall>x i f. map_of (d_items (ob2 x)) i = Some f \<longleftrightarrow> map_of (d_items (ob x)) i = Some f
        \<or> i < 100000 \<and> map_of fh i = Some f \<and> map_of ch (unat (fm_dh (fmetas s i))) = Some x"
    unfolding append_Nil by blast
  let ?s3 = "?s2\<lparr>free_fhs := filter (\<lambda>i. \<not> fm_used (fmetas s i)) [0..<100000],
      created_files := cf, created_fhs := fh, fobj := fo, fobj_next := fn, dobj := ob2\<rparr>"
  have fch: "map_of fh i \<noteq> None \<longleftrightarrow> i \<in> used_files (fmetas s)" for i by (rule indexedD(1) [OF f(2)])
  have fn: "f_meta (fo f) = i \<and> f_items (fo f) = []" if "map_of fh i = Some f" for i f using f(3) that by (simp add: File_new_def)
  have mf: "made_for (\<lambda>x. f_meta (fo x)) fh" using fn by (simp add: made_for_def)
  have s3: "super_meta ?s3 = super_meta s" "crc32 ?s3 = crc32 s" "fmetas ?s3 = fmetas s" "bmetas ?s3 = bmetas s" "created_fhs ?s3 = fh"
    "block_handle ?s3 = h" "fobj ?s3 = fo" "free_fbhs ?s3 = []" using e' by simp_all
  have "\<forall>j x. map_of fh j = Some x \<longrightarrow> f_items (fo x) = []" "\<forall>i \<in> used_files (fmetas s). map_of fh i \<noteq> None" using fn fch by blast+
  from FileBlockHandle_InitializeMeta_loads [of ?s3, unfolded s3, OF n(2) bs hp(2,3) this(2) mf this(1)] obtain p fo2 where
    b: "FileBlockHandle_InitializeMeta ?s3 = Some (True, ?s3\<lparr>free_fbhs := filter (\<lambda>i. \<not> fb_used (bmetas s i)) [0..<133554],
      block_handle := h\<lparr>block_id_pool := p\<rparr>, fobj := fo2\<rparr>)"
    "distinct p" "set p = {i. i < ?n} - (\<Union>i \<in> used_fbs (bmetas s). set (fb_ids (bmetas s i)))"
    "\<forall>f. f_meta (fo2 f) = f_meta (fo f)" "\<forall>i f. map_of fh i = Some f \<longrightarrow> file_filled (?s3\<lparr>fobj := fo2\<rparr>) i f"
    unfolding append_Nil by blast
  let ?t = "?s3\<lparr>free_fbhs := filter (\<lambda>i. \<not> fb_used (bmetas s i)) [0..<133554], block_handle := h\<lparr>block_id_pool := p\<rparr>, fobj := fo2\<rparr>"
  have r: "FileSystem_InitializeMeta s = Some (True, ?t)"
    by (simp only: FileSystem_InitializeMeta_def fm(2) bh0 h d(1) f(1) b(1) prod.case bool.case)
  have to: "tables_only s ?t" by (simp add: tables_only_def)
  have df: "dir_filled ?t i x" if x: "map_of ch i = Some x" for i x
  proof -
    have "map_of ch k = Some x \<longleftrightarrow> k = i" for k
      using x d(3) by (auto simp: made_for_def)
    moreover have "k < 100000" if "map_of fh k = Some g" for k g using fch [of k] that by (simp add: used_files_def)
    ultimately show ?thesis using f(4,5) d(4) x by (auto simp: dir_filled_def)
  qed
  have ff: "file_filled ?t i g" if "map_of fh i = Some g" for i g
  proof -
    have "file_filled ?t i g = file_filled (?s3\<lparr>fobj := fo2\<rparr>) i g" by (rule file_filled_cong) simp_all
    then show ?thesis using b(5) that by blast
  qed
  have "tables_ok ?t"
    using d(2-4) f(2-4) mf b(4) df ff by (simp add: tables_ok_def made_for_def)
  moreover have "free_rest ?t" using b(2,3) hp(1) by (simp add: free_rest_def)
  ultimately show ?thesis using r to hp(1) by (intro exI [of _ ?t]) simp
qed

end
