(* ===== verification/Remount.thy ===== *)
theory Remount
  imports Loader File_Spec
begin

text \<open>
  The life of a file system across mounts. \<open>durable\<close> is the agreement of tables, metadata and disk
  that lets the next mount find everything again; \<open>creat\<close>, \<open>open\<close> and \<open>pwrite\<close> keep it, and a mount
  of a durable state brings back every directory and file under its path, with its contents.
\<close>

section \<open>Durable states\<close>

text \<open>
  Writing data updates the times of a file in memory only, so the disk may hold older ones, with the
  checksum that belongs to them.
\<close>

definition but_times :: "FileMeta \<Rightarrow> FileMeta" where
  "but_times m = m\<lparr>fm_crc := 0, fm_mtime := 0, fm_ctime := 0\<rparr>"

definition file_saved :: "fs \<Rightarrow> nat \<Rightarrow> bool" where
  "file_saved s i \<longleftrightarrow> (\<exists>m. disk_read (k_disk (kern s)) (102404096 + 256 * i) 256 = enc_FileMeta m
     \<and> but_times m = but_times (fmetas s i) \<and> fm_crc m = crc32 s (body_FileMeta m))"

definition durable :: "fs \<Rightarrow> bool" where
  "durable s \<longleftrightarrow> synced_but {0..<100000} {} {} s \<and> (\<forall>i < 100000. file_saved s i)
     \<and> wf_metas (super_meta s) (dmetas s) (fmetas s) (bmetas s) \<and> metas_sound (max_block_num (block_handle s)) s
     \<and> (\<forall>i \<ge> 133554. \<not> fb_used (bmetas s i))
     \<and> tables_ok s \<and> super_meta s = format_super s \<and> max_block_num (block_handle s) = ucast (sb_curr_block_num (super_meta s))
     \<and> (\<forall>i f. map_of (created_fhs s) i = Some f \<longrightarrow> file_wf s f)"

lemma durableD:
  assumes "durable s"
  shows "synced_but {0..<100000} {} {} s" "i < 100000 \<Longrightarrow> file_saved s i" "wf_metas (super_meta s) (dmetas s) (fmetas s) (bmetas s)"
    "metas_sound (max_block_num (block_handle s)) s" "133554 \<le> i \<Longrightarrow> \<not> fb_used (bmetas s i)" "tables_ok s"
    "super_meta s = format_super s" "max_block_num (block_handle s) = ucast (sb_curr_block_num (super_meta s))"
    "map_of (created_fhs s) j = Some f \<Longrightarrow> file_wf s f"
  using assms unfolding durable_def by blast+

lemma but_times_fields:
  assumes "but_times m = but_times m'"
  shows "fm_fh m = fm_fh m'" "fm_size m = fm_size m'" "fm_dh m = fm_dh m'" "fm_child_fh m = fm_child_fh m'" "fm_used m = fm_used m'"
    "fm_is_temp m = fm_is_temp m'" "fm_file_name m = fm_file_name m'" "fm_pad m = fm_pad m'"
proof -
  show "fm_fh m = fm_fh m'" using arg_cong [OF assms, of fm_fh] by (simp add: but_times_def)
  show "fm_size m = fm_size m'" using arg_cong [OF assms, of fm_size] by (simp add: but_times_def)
  show "fm_dh m = fm_dh m'" using arg_cong [OF assms, of fm_dh] by (simp add: but_times_def)
  show "fm_child_fh m = fm_child_fh m'" using arg_cong [OF assms, of fm_child_fh] by (simp add: but_times_def)
  show "fm_used m = fm_used m'" using arg_cong [OF assms, of fm_used] by (simp add: but_times_def)
  show "fm_is_temp m = fm_is_temp m'" using arg_cong [OF assms, of fm_is_temp] by (simp add: but_times_def)
  show "fm_file_name m = fm_file_name m'" using arg_cong [OF assms, of fm_file_name] by (simp add: but_times_def)
  show "fm_pad m = fm_pad m'" using arg_cong [OF assms, of fm_pad] by (simp add: but_times_def)
qed

lemma but_times_same:
  assumes "but_times m = but_times m'"
  shows "file_key m = file_key m'" "wf_FileMeta m = wf_FileMeta m'"
    "file_sound c i m' \<Longrightarrow> fm_crc m = c (body_FileMeta m) \<Longrightarrow> file_sound c i m"
  using but_times_fields [OF assms] by (auto simp: file_key_def meta_file_name_def wf_FileMeta_def file_sound_def)

lemma files_sound_but_times:
  assumes "files_sound c dm fm" "\<forall>i < 100000. but_times (fm' i) = but_times (fm i) \<and> fm_crc (fm' i) = c (body_FileMeta (fm' i))"
  shows "files_sound c dm fm'" "used_files fm' = used_files fm"
proof -
  have b: "but_times (fm' i) = but_times (fm i)" if "i < 100000" for i using assms(2) that by blast
  have us: "fm_used (fm' i) = fm_used (fm i)" if "i < 100000" for i by (rule but_times_fields(5) [OF b [OF that]])
  show u: "used_files fm' = used_files fm" using us by (auto simp: used_files_def)
  have lt: "i < 100000" if "i \<in> used_files fm" for i using that by (simp add: used_files_def)
  have k: "file_key (fm' i) = file_key (fm i)" "fm_dh (fm' i) = fm_dh (fm i)" if "i \<in> used_files fm" for i
    using but_times_same(1) [OF b [OF lt [OF that]]] but_times_fields(3) [OF b [OF lt [OF that]]] by auto
  have "file_sound c i (fm' i)" if "i < 100000" for i
    using but_times_same(3) [OF b [OF that]] assms that by (simp add: files_sound_def)
  moreover have "inj_on (\<lambda>i. file_key (fm' i)) (used_files fm)"
    using assms(1) k(1) by (simp add: files_sound_def inj_on_def)
  moreover have "\<forall>i \<in> used_files fm. unat (fm_dh (fm' i)) \<in> used_dirs dm" using assms(1) k(2) by (simp add: files_sound_def)
  ultimately show "files_sound c dm fm'" by (simp add: files_sound_def u)
qed

lemma used_cong:
  assumes "\<forall>i < 100000. dm' i = dm i" "\<forall>i < 133554. bm' i = bm i"
  shows "used_dirs dm' = used_dirs dm" "used_fbs bm' = used_fbs bm" "dirs_sound c dm \<Longrightarrow> dirs_sound c dm'"
proof -
  show u: "used_dirs dm' = used_dirs dm" and "used_fbs bm' = used_fbs bm" using assms by (auto simp: used_dirs_def used_fbs_def)
  have e: "dm' i = dm i" if "i \<in> used_dirs dm" for i using assms(1) that by (simp add: used_dirs_def)
  show "dirs_sound c dm'" if d: "dirs_sound c dm"
    unfolding dirs_sound_def u
  proof (intro conjI)
    show "\<forall>i < 100000. dm_crc (dm' i) = c (body_DirMeta (dm' i))
        \<and> (dm_used (dm' i) \<longrightarrow> cstr (dm_dir_name (dm' i)) \<noteq> [] \<and> dm_dh (dm' i) = word_of_nat i)"
      using d assms(1) by (simp add: dirs_sound_def)
    show "inj_on (\<lambda>i. meta_dir_name (dm' i)) (used_dirs dm)"
      using d e by (simp add: dirs_sound_def inj_on_def)
    show "\<forall>i \<in> used_dirs dm. IsMountPoint (meta_dir_name (dm' i))
          \<or> dir_path (GetDirName (meta_dir_name (dm' i))) \<and> length (GetDirName (meta_dir_name (dm' i))) < 768
            \<and> (\<exists>j \<in> used_dirs dm. meta_dir_name (dm' j) = GetDirName (meta_dir_name (dm' i)))"
      using d e by (simp add: dirs_sound_def cong: bex_cong)
  qed
qed

section \<open>Mounting a durable state\<close>

lemma blocks_exclusive_loaded:
  assumes fr: "free_rest u" and so: "fbs_sound c (max_block_num (block_handle u)) fm (bmetas u)"
    and z: "\<forall>i \<ge> 133554. bmetas u i = FileBlockMeta_zero"
  shows "blocks_exclusive u"
proof -
  let ?n = "max_block_num (block_handle u)"
  have s: "fb_sound c (bmetas u i)" if "i < 133554" for i using so that by (simp add: fbs_sound_def)
  have zero: "\<not> fb_used FileBlockMeta_zero" "fb_used_block_num FileBlockMeta_zero = 0" "length (fb_block_id FileBlockMeta_zero) = 1000"
    by (simp_all add: FileBlockMeta_zero_def)
  have us: "fb_used (bmetas u i) \<longleftrightarrow> i \<in> used_fbs (bmetas u)" for i
    using z zero(1) by (cases "i < 133554") (simp_all add: used_fbs_def)
  have ow: "fb_owned u i = (if i \<in> used_fbs (bmetas u) then fb_ids (bmetas u i) else [])" for i
    unfolding us [symmetric] by (simp add: fb_owned_def fb_ids_def)
  have "wf_bmetas u" unfolding wf_bmetas_def
  proof
    fix i
    show "length (fb_block_id (bmetas u i)) = 1000 \<and> unat (fb_used_block_num (bmetas u i)) \<le> 1000"
      using s [of i] z zero by (cases "i < 133554") (simp_all add: fb_sound_def)
  qed
  moreover have "block_inv (block_handle u)" using fr by (auto simp: free_rest_def block_inv_def)
  moreover have "\<forall>i. distinct (fb_owned u i)" "\<forall>i. \<forall>b \<in> set (fb_owned u i). b < ?n"
    using so by (auto simp: ow fbs_sound_def)
  moreover have "set (fb_owned u i) \<inter> set (fb_owned u j) = {}" if "i \<noteq> j" for i j
  proof (cases "i \<in> used_fbs (bmetas u) \<and> j \<in> used_fbs (bmetas u)")
    case True
    then have "set (fb_ids (bmetas u i)) \<inter> set (fb_ids (bmetas u j)) = {}" using so that unfolding fbs_sound_def by blast
    then show ?thesis using True by (simp add: ow)
  qed (auto simp: ow)
  moreover have "set (fb_owned u i) \<inter> set (block_id_pool (block_handle u)) = {}" for i
    using fr by (auto simp: ow free_rest_def)
  moreover have "\<forall>i \<in> set (free_fbhs u). \<not> fb_used (bmetas u i) \<and> fb_used_block_num (bmetas u i) = 0"
    using fr s by (auto simp: free_rest_def fb_sound_def)
  moreover have "distinct (free_fbhs u)" using fr by (simp add: free_rest_def)
  ultimately show ?thesis unfolding blocks_exclusive_def by blast
qed

lemma durable_image:
  assumes "durable s"
  shows "\<exists>fm. disk_image (k_disk (kern s)) (super_meta s) (dmetas s) fm (bmetas s)
     \<and> wf_metas (super_meta s) (dmetas s) fm (bmetas s)
     \<and> (\<forall>i < 100000. but_times (fm i) = but_times (fmetas s i) \<and> fm_crc (fm i) = crc32 s (body_FileMeta (fm i)))"
proof -
  have "\<forall>i. \<exists>m. i < 100000 \<longrightarrow> disk_read (k_disk (kern s)) (102404096 + 256 * i) 256 = enc_FileMeta m
     \<and> but_times m = but_times (fmetas s i) \<and> fm_crc m = crc32 s (body_FileMeta m)"
    using durableD(2) [OF assms] unfolding file_saved_def by blast
  from choice [OF this] obtain fm where fm: "\<forall>i < 100000. disk_read (k_disk (kern s)) (102404096 + 256 * i) 256 = enc_FileMeta (fm i)
     \<and> but_times (fm i) = but_times (fmetas s i) \<and> fm_crc (fm i) = crc32 s (body_FileMeta (fm i))" by blast
  have "wf_FileMeta (fm i)" if "i < 100000" for i
    using fm durableD(3) [OF assms] that but_times_same(2) [of "fm i" "fmetas s i"] by (simp add: wf_metas_def)
  then have "wf_metas (super_meta s) (dmetas s) fm (bmetas s)" using durableD(3) [OF assms] by (simp add: wf_metas_def)
  moreover have "disk_image (k_disk (kern s)) (super_meta s) (dmetas s) fm (bmetas s)"
    using durableD(1) [OF assms] fm by (simp add: disk_image_def synced_but_def dir_synced_def fb_synced_def)
  ultimately show ?thesis using fm by blast
qed

text \<open>The same struct is found under the same name in both states.\<close>

lemma indexed_transfer:
  assumes "indexed key A ids names" "made_for meta ids" "indexed key' A ids' names'" "made_for meta' ids'" "\<forall>i \<in> A. key' i = key i"
  shows "map_of names k = None \<Longrightarrow> map_of names' k = None"
    "map_of names k = Some x \<Longrightarrow> \<exists>y. map_of names' k = Some y \<and> meta' y = meta x \<and> map_of ids (meta x) = Some x \<and> map_of ids' (meta x) = Some y"
proof -
  note D = indexedD [OF assms(1)] and D' = indexedD [OF assms(3)]
  show "map_of names' k = None" if "map_of names k = None"
  proof (cases "map_of names' k")
    case (Some y)
    from D'(3) [OF this] obtain i where i: "i \<in> A" "key' i = k" by blast
    then obtain x where "map_of ids i = Some x" using D(1) by blast
    from D(2) [OF this] i assms(5) that show ?thesis by simp
  qed
  assume "map_of names k = Some x"
  then have x: "map_of ids (meta x) = Some x" "key (meta x) = k" using indexed_lookup [OF assms(1,2)] by blast+
  then have a: "meta x \<in> A" using D(1) [of "meta x"] by simp
  then obtain y where y: "map_of ids' (meta x) = Some y" using D'(1) [of "meta x"] by blast
  then have "meta' y = meta x" using assms(4) by (simp add: made_for_def)
  then show "\<exists>y. map_of names' k = Some y \<and> meta' y = meta x \<and> map_of ids (meta x) = Some x \<and> map_of ids' (meta x) = Some y"
    using D'(2) [OF y] y x a assms(5) by auto
qed

text \<open>Two states that describe the same directories, files and blocks, but for the times of files.\<close>

definition same_metas :: "fs \<Rightarrow> fs \<Rightarrow> bool" where
  "same_metas s u \<longleftrightarrow> (\<forall>i < 100000. dmetas u i = dmetas s i \<and> but_times (fmetas u i) = but_times (fmetas s i))
     \<and> (\<forall>i < 133554. bmetas u i = bmetas s i)"

lemma same_metas_used:
  assumes "same_metas s u"
  shows "used_dirs (dmetas u) = used_dirs (dmetas s)" "used_files (fmetas u) = used_files (fmetas s)"
    "used_fbs (bmetas u) = used_fbs (bmetas s)"
    "\<forall>i \<in> used_dirs (dmetas s). dir_name_of u i = dir_name_of s i"
    "\<forall>i \<in> used_files (fmetas s). file_key (fmetas u i) = file_key (fmetas s i)"
proof -
  have d: "dmetas u i = dmetas s i" and f: "but_times (fmetas u i) = but_times (fmetas s i)" if "i < 100000" for i
    using assms that by (simp_all add: same_metas_def)
  show "used_dirs (dmetas u) = used_dirs (dmetas s)" "used_fbs (bmetas u) = used_fbs (bmetas s)"
    "\<forall>i \<in> used_dirs (dmetas s). dir_name_of u i = dir_name_of s i"
    using assms by (auto simp: used_dirs_def used_fbs_def same_metas_def)
  show "used_files (fmetas u) = used_files (fmetas s)" using but_times_fields(5) [OF f] by (auto simp: used_files_def)
  show "\<forall>i \<in> used_files (fmetas s). file_key (fmetas u i) = file_key (fmetas s i)"
    using but_times_same(1) [OF f] by (auto simp: used_files_def)
qed

lemma same_map_single: "map_of xs = map_of [(k, v)] \<Longrightarrow> distinct (map fst xs) \<Longrightarrow> xs = [(k, v)]"
proof -
  assume a: "map_of xs = map_of [(k, v)]" "distinct (map fst xs)"
  have "set xs = {(k, v)}" using a by (auto simp: map_of_eq_Some_iff [OF a(2), symmetric] split: if_splits)
  moreover have "distinct xs" using a(2) by (simp add: distinct_map)
  ultimately show "xs = [(k, v)]" by (cases xs) (auto simp: subset_singleton_iff)
qed

lemma remount_items:
  assumes su: "same_metas s u" and t: "tables_ok s" "tables_ok u"
    and f: "map_of (created_fhs s) i = Some f" and g: "map_of (created_fhs u) i = Some g" and w: "file_wf s f"
  shows "f_items (fobj u g) = f_items (fobj s f)" "File_file_size u g = File_file_size s f" "File_fh u g = File_fh s f"
    "file_ids u g = file_ids s f" "file_wf u g" "\<forall>(c, b) \<in> set (f_items (fobj s f)). b < 133554"
proof -
  have ff: "file_filled s i f" "file_filled u i g" using t f g unfolding tables_ok_def by blast+
  have u3: "used_fbs (bmetas u) = used_fbs (bmetas s)" by (rule same_metas_used(3) [OF su])
  have b: "bmetas u b = bmetas s b" if "b \<in> used_fbs (bmetas s)" for b using su that by (simp add: same_metas_def used_fbs_def)
  have "map_of (f_items (fobj u g)) c = Some b \<longleftrightarrow> map_of (f_items (fobj s f)) c = Some b" for c b
    using ff b unfolding file_filled_def u3 by auto
  then have m: "map_of (f_items (fobj u g)) = map_of (f_items (fobj s f))" by (metis option.exhaust ext)
  have dst: "distinct (map fst (f_items (fobj u g)))" using ff(2) by (simp add: file_filled_def)
  from w show it: "f_items (fobj u g) = f_items (fobj s f)"
  proof (cases rule: file_wf_cases)
    case empty
    then show ?thesis using m by (simp add: map_of_eq_empty_iff)
  next
    case (one fb)
    then show ?thesis using m dst same_map_single [of "f_items (fobj u g)" 0 fb] by simp
  qed
  have mt: "f_meta (fobj s f) = i" "f_meta (fobj u g) = i" using t f g unfolding tables_ok_def made_for_def by blast+
  have "indexed (\<lambda>i. file_key (fmetas s i)) (used_files (fmetas s)) (created_fhs s) (created_files s)" using t(1) by (simp add: tables_ok_def)
  from indexedD(1) [OF this, of i] f have "i < 100000" by (simp add: used_files_def)
  then have bt: "but_times (fmetas u i) = but_times (fmetas s i)" using su by (simp add: same_metas_def)
  show sz: "File_file_size u g = File_file_size s f" "File_fh u g = File_fh s f"
    using but_times_fields(1,2) [OF bt] mt by (simp_all add: File_file_size_def File_fh_def)
  have us: "c \<in> used_fbs (bmetas s)" if "(k, c) \<in> set (f_items (fobj s f))" for k c
    using ff(1) that by (auto simp: file_filled_def)
  then show "\<forall>(c, b) \<in> set (f_items (fobj s f)). b < 133554" by (auto simp: used_fbs_def)
  have ow: "fb_owned u c = fb_owned s c \<and> fb_used (bmetas u c) = fb_used (bmetas s c)" if "(k, c) \<in> set (f_items (fobj s f))" for k c
    using b [OF us [OF that]] by (simp add: fb_owned_def)
  then show "file_ids u g = file_ids s f" unfolding file_ids_def it by (auto intro!: arg_cong [of _ _ concat] map_cong)
  show "file_wf u g" using w ow unfolding file_wf_def it sz by (auto split: list.splits)
qed

lemma mount_durable:
  assumes du: "durable s" and ok: "fs_ok s" and op: "opens env (''/dev/'' @ nm) (dev_size (dev s))" and nm: "dev_name (dev s) = ''/dev/'' @ nm"
    and root: "map_of (created_dirs s) ''/'' \<noteq> None" and bef: "\<forall>b \<in> set before. uuid_of (''/dev/'' @ b) s \<noteq> format_uuid"
  shows "\<exists>u. MountFileSystem env (before @ nm # after) (Some format_uuid) s = Some (0, u) \<and> durable u \<and> fs_ok u \<and> free_rest u
     \<and> k_disk (kern u) = k_disk (kern s) \<and> super_meta u = super_meta s \<and> dev_size (dev u) = dev_size (dev s)
     \<and> dev_name (dev u) = dev_name (dev s)
     \<and> open_files u = [] \<and> fd_handle u = FdHandle_new
     \<and> same_metas s u"
proof -
  let ?sz = "dev_size (dev s)" and ?sm = "super_meta s"
  have fmt: "formatted s" and io: "io_ok s" and dok: "data_ok s" using ok by (simp_all add: fs_ok_def)
  have sz: "675282944 \<le> unat ?sz" using dok formatted_fields(4) [OF fmt] by (simp add: data_ok_def)
  have sm: "?sm = (SuperBlock_layout ?sz)\<lparr>sb_crc := crc32 s (body_SuperBlockMeta (SuperBlock_layout ?sz))\<rparr>"
    using durableD(7) [OF du] unfolding format_super_def .
  have mx: "max_block_num (block_handle s) = ucast (sb_curr_block_num ?sm)" by (rule durableD(8) [OF du])
  have sound: "metas_sound (ucast (sb_curr_block_num ?sm)) s" using durableD(4) [OF du] mx by simp
  obtain fm where fm: "disk_image (k_disk (kern s)) ?sm (dmetas s) fm (bmetas s)" "wf_metas ?sm (dmetas s) fm (bmetas s)"
    "\<forall>i < 100000. but_times (fm i) = but_times (fmetas s i) \<and> fm_crc (fm i) = crc32 s (body_FileMeta (fm i))"
    using durable_image [OF du] by blast
  let ?t0 = "FileSystem_Initialize s"
  have cur: "disk_of (''/dev/'' @ nm) s = k_disk (kern s)" using disk_of_current [of s] nm by simp
  have "dec_SuperBlockMeta (disk_read (k_disk (kern s)) 0 4096) = ?sm" using fm(1,2) by (simp add: disk_image_def wf_metas_def)
  moreover have "cstr (sb_uuid ?sm) = format_uuid" unfolding sm by (simp add: format_uuid_read)
  ultimately have here: "uuid_of (''/dev/'' @ nm) ?t0 = format_uuid" unfolding Initialize_uuid unfolding uuid_of_def cur by simp
  have bf: "\<forall>b \<in> set before. uuid_of (''/dev/'' @ b) ?t0 \<noteq> format_uuid" using bef unfolding Initialize_uuid .
  have sz4: "4096 \<le> unat ?sz" using sz by simp
  have b0: "benign (k_script (kern ?t0))" using io by (simp add: io_ok_def FileSystem_Initialize_env)
  obtain ds d k0 where tg: "OpenTarget env format_uuid (before @ nm # after) ?t0 = (True, ?t0\<lparr>disks := ds, dev := d, kern := k0\<rparr>)"
    and d: "dev_ok d" "dev_ok d" "dev_size d = ?sz" "dev_name d = ''/dev/'' @ nm"
    and k0: "k_disk k0 = k_disk (kern s)" "k_disk k0 = k_disk (kern s)" "benign (k_script k0)"
    using OpenTarget_finds [OF op sz4 b0 here bf, of after] unfolding FileSystem_Initialize_env cur by blast
  let ?t2 = "?t0\<lparr>disks := ds, dev := d, kern := k0\<rparr>"
  have i2: "crc32 ?t2 = crc32 s" "kern ?t2 = k0" "dev ?t2 = d" "open_files ?t2 = []" "fd_handle ?t2 = FdHandle_new"
    by (simp_all add: FileSystem_Initialize_env)
  have io2: "io_ok ?t2" "675282944 \<le> unat (dev_size (dev ?t2))" using d(2,3) k0(3) sz by (simp_all add: io_ok_def)
  have sm2: "?sm = (SuperBlock_layout ?sz)\<lparr>sb_crc := crc32 ?t2 (body_SuperBlockMeta (SuperBlock_layout ?sz))\<rparr>" using sm i2(1) by simp
  have im2: "disk_image (k_disk (kern ?t2)) ?sm (dmetas s) fm (bmetas s)" unfolding i2 k0(2) by (rule fm(1))
  from ShmManager_Initialize_image [OF im2 fm(2) io2 sm2] obtain k dm' fm' bm' where
    m: "ShmManager_Initialize ?t2 = (True, ?t2\<lparr>kern := k, super_meta := ?sm, dmetas := dm', fmetas := fm', bmetas := bm'\<rparr>)"
      "k_disk k = k_disk (kern s)" "benign (k_script k)" "\<forall>i < 100000. dm' i = dmetas s i \<and> fm' i = fm i"
      "\<forall>i. bm' i = (if i < 133554 then bmetas s i else FileBlockMeta_zero)"
    using k0(2) i2(2) by auto
  let ?t3 = "?t2\<lparr>kern := k, super_meta := ?sm, dmetas := dm', fmetas := fm', bmetas := bm'\<rparr>"
  have e3: "empty_tables ?t3" by (simp add: FileSystem_Initialize_def empty_tables_def)
  have f3: "formatted ?t3" using sm d(3) by (auto simp: formatted_def)
  have v3: "SuperBlock_InitializeMeta ?t3 = (True, ?t3)" by (simp add: SuperBlock_InitializeMeta_def sm FileSystem_Initialize_def use_device_def)
  have bt: "\<forall>i < 100000. but_times (fm' i) = but_times (fmetas s i) \<and> fm_crc (fm' i) = crc32 s (body_FileMeta (fm' i))"
    using m(4) fm(3) by simp
  have dm: "\<forall>i < 100000. dm' i = dmetas s i" and bm: "\<forall>i < 133554. bm' i = bmetas s i" using m(4,5) by simp_all
  note uc = used_cong [OF dm bm]
  have fls: "files_sound (crc32 s) (dmetas s) fm'" "used_files fm' = used_files (fmetas s)"
    using files_sound_but_times [OF _ bt, of "dmetas s"] sound by (simp_all add: metas_sound_def)
  have so3: "metas_sound (ucast (sb_curr_block_num ?sm)) ?t3"
  proof -
    have "files_sound (crc32 s) dm' fm'" using fls(1) uc(1) by (simp add: files_sound_def)
    moreover have "fbs_sound (crc32 s) (ucast (sb_curr_block_num ?sm)) fm' bm'"
      using sound bm uc(2) fls(2) by (auto simp: metas_sound_def fbs_sound_def used_fbs_def inj_on_def)
    ultimately show ?thesis using sound uc(3) i2(1) by (simp add: metas_sound_def)
  qed
  from FileSystem_InitializeMeta_loads [OF e3 f3 v3] so3 obtain u where
    u: "FileSystem_InitializeMeta ?t3 = Some (True, u)" "tables_only ?t3 u" "tables_ok u" "free_rest u"
      "max_block_num (block_handle u) = ucast (sb_curr_block_num ?sm)" by auto
  note us = u(2) [unfolded tables_only_def]
  have uf: "crc32 u = crc32 s" "dev u = d" "kern u = k" "super_meta u = ?sm" "dmetas u = dm'" "fmetas u = fm'" "bmetas u = bm'"
    "fd_handle u = FdHandle_new" "open_files u = []"
    using us i2 by simp_all
  have rt: "map_of (created_dirs u) ''/'' \<noteq> None"
  proof -
    have si: "indexed (dir_name_of s) (used_dirs (dmetas s)) (created_dhs s) (created_dirs s)"
      using durableD(6) [OF du] by (simp add: tables_ok_def)
    obtain x where "map_of (created_dirs s) ''/'' = Some x" using root by auto
    from indexedD(3) [OF si this] indexedD(1) [OF si] obtain i where i: "i \<in> used_dirs (dmetas s)" "dir_name_of s i = ''/''" by auto
    have iu: "indexed (dir_name_of u) (used_dirs (dmetas u)) (created_dhs u) (created_dirs u)" using u(3) by (simp add: tables_ok_def)
    have "i \<in> used_dirs (dmetas u)" "dir_name_of u i = ''/''" using i uc(1) dm uf(5) by (simp_all add: used_dirs_def)
    then show ?thesis using indexedD(1,2) [OF iu, of i] by auto
  qed
  then have "MakeMountPoint ''/'' u = Some (0, u)"
    using GetCreatedDirectory_path [of "''/''" u] by (auto simp: MakeMountPoint_def dir_path_def)
  then have mt: "MountFileSystem env (before @ nm # after) (Some format_uuid) s = Some (0, u)"
    using tg m(1) u(1) by (simp add: MountFileSystem_def)
  have z: "\<forall>i \<ge> 133554. bmetas u i = FileBlockMeta_zero" using m(5) uf(7) by simp
  have su: "metas_sound (max_block_num (block_handle u)) u" using so3 u(5) uf i2(1) by (simp add: metas_sound_def)
  have "blocks_exclusive u"
    using blocks_exclusive_loaded [where c = "crc32 u" and fm = "fmetas u", OF u(4) _ z] su by (simp add: metas_sound_def)
  moreover have "formatted u" "io_ok u" using f3 io2 m(3) d(2) uf by (simp_all add: formatted_def io_ok_def)
  moreover have "data_ok u" using dok mx d(3) u(5) uf by (simp add: data_ok_def)
  ultimately have "fs_ok u" by (simp add: fs_ok_def)
  moreover have "durable u"
  proof -
    have im: "disk_image (k_disk k) ?sm dm' fm' bm'" using fm(1) m(2) dm bm m(4) by (simp add: disk_image_def)
    have "synced_but {} {} {} u" using im uf meta_synced_image [of u] by simp
    then have sy: "synced_but {0..<100000} {} {} u" by (rule synced_but_mono) auto
    have sv: "file_saved u i" if "i < 100000" for i
      using im that bt uf by (auto simp: file_saved_def disk_image_def intro!: exI [of _ "fm' i"])
    have wf: "wf_metas ?sm dm' fm' bm'" using fm(2) dm bm m(4) by (simp add: wf_metas_def)
    have "super_meta u = format_super u" unfolding format_super_def uf d(3) by (rule sm)
    moreover have "\<forall>i \<ge> 133554. \<not> fb_used (bmetas u i)" using z by (simp add: FileBlockMeta_zero_def)
    moreover have "file_wf u g" if g: "map_of (created_fhs u) i = Some g" for i g
    proof -
      have sm: "same_metas s u" using dm bm bt uf by (simp add: same_metas_def)
      have iu: "indexed (\<lambda>i. file_key (fmetas u i)) (used_files (fmetas u)) (created_fhs u) (created_files u)" using u(3) by (simp add: tables_ok_def)
      have si: "indexed (\<lambda>i. file_key (fmetas s i)) (used_files (fmetas s)) (created_fhs s) (created_files s)"
        using durableD(6) [OF du] by (simp add: tables_ok_def)
      have "i \<in> used_files (fmetas s)" using indexedD(1) [OF iu, of i] g same_metas_used(2) [OF sm] by simp
      then obtain f where f: "map_of (created_fhs s) i = Some f" using indexedD(1) [OF si, of i] by blast
      show ?thesis by (rule remount_items(5) [OF sm durableD(6) [OF du] u(3) f g durableD(9) [OF du f]])
    qed
    ultimately show ?thesis using sy sv wf su u(3,5) unfolding durable_def uf by blast
  qed
  moreover have "same_metas s u" using dm bm bt uf by (simp add: same_metas_def)
  ultimately show ?thesis using mt u(4) uf m(2) d(3,4) nm by (intro exI [of _ u]) simp
qed



section \<open>Every path leads to the same file\<close>

lemma Dir_dh_durable:
  assumes "metas_sound n s" "tables_ok s" "map_of (created_dhs s) (d_meta (dobj s d)) = Some d"
  shows "Dir_dh s d = d_meta (dobj s d)"
proof -
  let ?i = "d_meta (dobj s d)"
  have "indexed (dir_name_of s) (used_dirs (dmetas s)) (created_dhs s) (created_dirs s)" using assms(2) by (simp add: tables_ok_def)
  from indexedD(1) [OF this, of ?i] assms(3) have i: "?i < 100000" "dm_used (dmetas s ?i)" by (auto simp: used_dirs_def)
  then have "dm_dh (dmetas s ?i) = word_of_nat ?i" using assms(1) by (simp add: metas_sound_def dirs_sound_def)
  then show ?thesis using unat_handle [OF i(1)] by (simp add: Dir_dh_def)
qed

text \<open>Names and directory handles are found again in the tables.\<close>

lemma remount_dir_name:
  assumes du: "durable s" "durable u" and su: "same_metas s u"
  shows "map_of (created_dirs s) p = None \<Longrightarrow> map_of (created_dirs u) p = None"
    "map_of (created_dirs s) p = Some d \<Longrightarrow> \<exists>d'. map_of (created_dirs u) p = Some d' \<and> Dir_dh u d' = Dir_dh s d"
proof -
  note t = durableD(6) [OF du(1)] durableD(6) [OF du(2)] and m = durableD(4) [OF du(1)] durableD(4) [OF du(2)]
  have ix: "indexed (dir_name_of s) (used_dirs (dmetas s)) (created_dhs s) (created_dirs s)" "made_for (\<lambda>d. d_meta (dobj s d)) (created_dhs s)"
    "indexed (dir_name_of u) (used_dirs (dmetas s)) (created_dhs u) (created_dirs u)" "made_for (\<lambda>d. d_meta (dobj u d)) (created_dhs u)"
    using t same_metas_used(1) [OF su] by (simp_all add: tables_ok_def)
  note tr = indexed_transfer [OF ix same_metas_used(4) [OF su]]
  show "map_of (created_dirs u) p = None" if "map_of (created_dirs s) p = None" by (rule tr(1) [OF that])
  assume "map_of (created_dirs s) p = Some d"
  from tr(2) [OF this] obtain d' where d': "map_of (created_dirs u) p = Some d'" "d_meta (dobj u d') = d_meta (dobj s d)"
    "map_of (created_dhs s) (d_meta (dobj s d)) = Some d" "map_of (created_dhs u) (d_meta (dobj s d)) = Some d'" by blast
  have "Dir_dh u d' = d_meta (dobj u d')" using Dir_dh_durable [OF m(2) t(2)] d' by simp
  then have "Dir_dh u d' = Dir_dh s d" using Dir_dh_durable [OF m(1) t(1) d'(3)] d'(2) by simp
  then show "\<exists>d'. map_of (created_dirs u) p = Some d' \<and> Dir_dh u d' = Dir_dh s d" using d'(1) by blast
qed

lemma remount_file_name:
  assumes du: "durable s" "durable u" and su: "same_metas s u"
  shows "map_of (created_files s) k = None \<Longrightarrow> map_of (created_files u) k = None"
    "map_of (created_files s) k = Some f
      \<Longrightarrow> \<exists>g i. map_of (created_files u) k = Some g \<and> map_of (created_fhs s) i = Some f \<and> map_of (created_fhs u) i = Some g"
proof -
  note t = durableD(6) [OF du(1)] durableD(6) [OF du(2)]
  have ix: "indexed (\<lambda>i. file_key (fmetas s i)) (used_files (fmetas s)) (created_fhs s) (created_files s)" "made_for (\<lambda>f. f_meta (fobj s f)) (created_fhs s)"
    "indexed (\<lambda>i. file_key (fmetas u i)) (used_files (fmetas s)) (created_fhs u) (created_files u)" "made_for (\<lambda>f. f_meta (fobj u f)) (created_fhs u)"
    using t same_metas_used(2) [OF su] by (simp_all add: tables_ok_def)
  note tr = indexed_transfer [OF ix same_metas_used(5) [OF su]]
  show "map_of (created_files u) k = None" if "map_of (created_files s) k = None" by (rule tr(1) [OF that])
  show "\<exists>g i. map_of (created_files u) k = Some g \<and> map_of (created_fhs s) i = Some f \<and> map_of (created_fhs u) i = Some g"
    if "map_of (created_files s) k = Some f" using tr(2) [OF that] by blast
qed

text \<open>So every path leads to the same directory or file as before.\<close>

lemma remount_dir:
  assumes du: "durable s" "durable u" and su: "same_metas s u"
  shows "fst (GetCreatedDirectory p s) = None \<Longrightarrow> fst (GetCreatedDirectory p u) = None"
    "fst (GetCreatedDirectory p s) = Some d \<Longrightarrow> \<exists>d'. GetCreatedDirectory p u = (Some d', u) \<and> GetCreatedDirectory p s = (Some d, s) \<and> Dir_dh u d' = Dir_dh s d"
proof -
  note tr = remount_dir_name [OF du su]
  show "fst (GetCreatedDirectory p u) = None" if "fst (GetCreatedDirectory p s) = None"
    using that tr(1) by (auto simp: GetCreatedDirectory_def DirHandle_TransformPath_def split: if_splits)
  assume a: "fst (GetCreatedDirectory p s) = Some d"
  define n where "n = (if ends_with_slash p then p else p @ ''/'')"
  have n: "DirHandle_TransformPath p v = (Some n, v)" for v
    using a by (auto simp: GetCreatedDirectory_def DirHandle_TransformPath_def n_def Let_def split: if_splits)
  then have d: "map_of (created_dirs s) n = Some d" using a by (simp add: GetCreatedDirectory_def)
  show "\<exists>d'. GetCreatedDirectory p u = (Some d', u) \<and> GetCreatedDirectory p s = (Some d, s) \<and> Dir_dh u d' = Dir_dh s d"
    using tr(2) [OF d] n d by (auto simp: GetCreatedDirectory_def)
qed

lemma remount_file:
  assumes du: "durable s" "durable u" and su: "same_metas s u"
  shows "fst (GetCreatedFile p s) = None \<Longrightarrow> fst (GetCreatedFile p u) = None"
    "fst (GetCreatedFile p s) = Some f \<Longrightarrow> \<exists>g i. GetCreatedFile p u = (Some g, u) \<and> map_of (created_fhs s) i = Some f \<and> map_of (created_fhs u) i = Some g"
proof -
  note tr = remount_file_name [OF du su] and D = remount_dir [OF du su]
  have tp: "(\<exists>d n. \<forall>v. FileHandle_TransformPath p v = (Some (d, n), v)) \<or> (\<forall>v. fst (FileHandle_TransformPath p v) = None)"
    by (auto simp: FileHandle_TransformPath_def Let_def split: if_splits)
  show "fst (GetCreatedFile p u) = None" if a: "fst (GetCreatedFile p s) = None"
  proof (cases "\<exists>d n. \<forall>v. FileHandle_TransformPath p v = (Some (d, n), v)")
    case True
    then obtain d n where n: "\<forall>v. FileHandle_TransformPath p v = (Some (d, n), v)" by blast
    show ?thesis
    proof (cases "fst (GetCreatedDirectory d s)")
      case None
      from D(1) [OF this] show ?thesis
        using n by (cases "GetCreatedDirectory d u") (auto simp: GetCreatedFile_def)
    next
      case (Some x)
      from D(2) [OF this] obtain x' where x': "GetCreatedDirectory d u = (Some x', u)" "GetCreatedDirectory d s = (Some x, s)" "Dir_dh u x' = Dir_dh s x" by blast
      then have "map_of (created_files s) (Dir_dh s x, n) = None"
        using a n by (simp add: GetCreatedFile_def GetCreatedFile_key_def split: option.splits)
      from tr(1) [OF this] show ?thesis using n x' by (simp add: GetCreatedFile_def GetCreatedFile_key_def)
    qed
  next
    case False
    then have "fst (FileHandle_TransformPath p u) = None" using tp by blast
    then show ?thesis by (auto simp: GetCreatedFile_def split: prod.splits option.splits)
  qed
  assume a: "fst (GetCreatedFile p s) = Some f"
  then have "fst (FileHandle_TransformPath p s) \<noteq> None" by (auto simp: GetCreatedFile_def split: prod.splits option.splits)
  then have "\<exists>d n. \<forall>v. FileHandle_TransformPath p v = (Some (d, n), v)" using tp by auto
  then obtain d n where n: "\<forall>v. FileHandle_TransformPath p v = (Some (d, n), v)" by blast
  then have "fst (GetCreatedDirectory d s) \<noteq> None" using a by (auto simp: GetCreatedFile_def split: prod.splits option.splits)
  then obtain x where "fst (GetCreatedDirectory d s) = Some x" by blast
  from D(2) [OF this] obtain x' where x': "GetCreatedDirectory d u = (Some x', u)" "GetCreatedDirectory d s = (Some x, s)" "Dir_dh u x' = Dir_dh s x" by blast
  then have "map_of (created_files s) (Dir_dh s x, n) = Some f"
    using a n by (simp add: GetCreatedFile_def GetCreatedFile_key_def split: option.splits)
  from tr(2) [OF this] show "\<exists>g i. GetCreatedFile p u = (Some g, u) \<and> map_of (created_fhs s) i = Some f \<and> map_of (created_fhs u) i = Some g"
    using n x' by (auto simp: GetCreatedFile_def GetCreatedFile_key_def)
qed

lemma remount_content:
  assumes du: "durable s" "durable u" and su: "same_metas s u" and fu: "fs_ok u" "free_rest u"
    and d: "k_disk (kern u) = k_disk (kern s)" "super_meta u = super_meta s"
    and f: "map_of (created_fhs s) i = Some f" and g: "map_of (created_fhs u) i = Some g"
  shows "ready u g" "file_content u g = file_content s f"
proof -
  note I = remount_items [OF su durableD(6) [OF du(1)] durableD(6) [OF du(2)] f g durableD(9) [OF du(1) f]]
  have iu: "indexed (\<lambda>i. file_key (fmetas u i)) (used_files (fmetas u)) (created_fhs u) (created_files u)"
    and mu: "made_for (\<lambda>f. f_meta (fobj u f)) (created_fhs u)" using durableD(6) [OF du(2)] by (simp_all add: tables_ok_def)
  from indexedD(1) [OF iu, of i] g have i: "i < 100000" "fm_used (fmetas u i)" by (auto simp: used_files_def)
  have "f_meta (fobj u g) = i" using mu g by (simp add: made_for_def)
  moreover have "fm_fh (fmetas u i) = word_of_nat i"
    using durableD(4) [OF du(2)] i by (simp add: metas_sound_def files_sound_def file_sound_def)
  ultimately have "File_fh u g = i" using unat_handle [OF i(1)] by (simp add: File_fh_def)
  moreover have "fbs_in_range u g" using fu(2) I(1,6) by (auto simp: fbs_in_range_def free_rest_def)
  ultimately show "ready u g" using fu(1) I(5) i(1) by (simp add: ready_def)
  have "file_byte u g j = file_byte s f j" for j using I(4) d by (simp add: file_byte_def file_pos_def)
  then show "file_content u g = file_content s f" by (simp add: file_content_def I(2))
qed

end
