(* ===== verification/Durable_Create.thy ===== *)
theory Durable_Create
  imports Remount
begin

text \<open>
  Writing back a struct keeps what is saved of the others, and \<open>creat\<close> keeps a state durable.
\<close>

section \<open>Write-back and durability\<close>

definition file_crcs_ok :: "nat set \<Rightarrow> fs \<Rightarrow> bool" where
  "file_crcs_ok F s \<longleftrightarrow> (\<forall>i < 100000. i \<notin> F \<longrightarrow> fm_crc (fmetas s i) = crc32 s (body_FileMeta (fmetas s i)))"

lemma File_WriteMeta_fh_saved:
  assumes fm: "formatted s" "fh < 100000" "File_WriteMeta_fh fh s = (True, t)"
    and sv: "\<forall>i < 100000. i \<noteq> fh \<longrightarrow> file_saved s i" and c: "file_crcs_ok {fh} s" and i: "i < 100000"
  shows "file_saved t i" "file_crcs_ok {} t"
proof -
  let ?a = "fh - fh mod 16" and ?c = "file_crc fh s"
  obtain k where t: "t = ?c\<lparr>kern := k\<rparr>"
    and "k_disk k = disk_write (k_disk (kern s)) (102404096 + 256 * ?a) (file_page ?c ?a)"
    using File_WriteMeta_fh_disk [OF fm] by blast
  then have d: "k_disk k = disk_write (k_disk (kern s)) (102404096 + 256 * ?a)
      (concat (map (\<lambda>i. enc_FileMeta (fmetas ?c i)) [?a..<?a + 16]))"
    by (simp add: file_page_def layout_consts)
  have o: "fmetas ?c j = fmetas s j" if "j \<noteq> fh" for j using that by (simp add: file_crc_def upd_fmeta_def)
  have cr: "fm_crc (fmetas ?c j) = crc32 s (body_FileMeta (fmetas ?c j))" if "j < 100000" for j
    using c that by (cases "j = fh") (simp_all add: file_crcs_ok_def file_crc_def upd_fmeta_def body_FileMeta_def)
  have tc: "crc32 t = crc32 s" "fmetas t = fmetas ?c" "kern t = k" by (simp_all add: t file_crc_def upd_fmeta_def)
  show "file_crcs_ok {} t" using cr by (simp add: file_crcs_ok_def tc)
  show "file_saved t i"
  proof (cases "i div 16 = fh div 16")
    case True
    from files.page_same [OF d this] cr [OF i] show ?thesis by (auto simp: file_saved_def tc)
  next
    case False
    then have "i \<noteq> fh" by auto
    then show ?thesis using files.page_other [OF d False] sv i o by (simp add: file_saved_def tc)
  qed
qed

lemma FileBlock_WriteMeta_saved:
  assumes fm: "formatted s" "fb < 133554" and w: "FileBlock_WriteMeta fb s = (True, t)" and sv: "file_saved s i" and i: "i < 100000"
  shows "file_saved t i"
proof -
  let ?c = "upd_bmeta fb (\<lambda>m. m\<lparr>fb_crc := crc32 s (body_FileBlockMeta (bmetas s fb))\<rparr>) s"
  obtain k where t: "t = ?c\<lparr>kern := k\<rparr>"
    and d: "k_disk k = disk_write (k_disk (kern s)) (128004096 + 4096 * (fb - fb mod 1))
      (concat (map (\<lambda>i. enc_FileBlockMeta (bmetas ?c i)) [fb - fb mod 1..<fb - fb mod 1 + 1]))"
    using FileBlock_WriteMeta_disk [OF fm w] by blast
  have "disk_read (k_disk k) (102404096 + 256 * i) 256 = disk_read (k_disk (kern s)) (102404096 + 256 * i) 256"
    using fbs.page_outside [OF d fm(2), of "102404096 + 256 * i" 256] i by simp
  then show ?thesis using sv by (simp add: file_saved_def t upd_bmeta_def)
qed

text \<open>What durability is about, and an operation that leaves it all alone.\<close>

lemma synced_mono_F: "synced_but F D B s \<Longrightarrow> F \<subseteq> F' \<Longrightarrow> synced_but F' D B s"
  by (erule synced_but_mono) auto

lemma file_saved_cong:
  assumes "fmetas t i = fmetas s i" "crc32 t = crc32 s" "\<And>p. p < 675282944 \<Longrightarrow> k_disk (kern t) p = k_disk (kern s) p" "i < 100000"
  shows "file_saved t i = file_saved s i"
proof -
  have "disk_read (k_disk (kern t)) (102404096 + 256 * i) 256 = disk_read (k_disk (kern s)) (102404096 + 256 * i) 256"
    using assms(3,4) by (intro nth_equalityI) (auto simp: disk_read_def)
  then show ?thesis using assms(1,2) by (simp add: file_saved_def)
qed

lemma durable_cong:
  assumes du: "durable s" and n: "names_same s t"
    and o: "fmetas t = fmetas s" "bmetas t = bmetas s" "super_meta t = super_meta s" "dev t = dev s"
      "max_block_num (block_handle t) = max_block_num (block_handle s)"
      "\<forall>f. f_meta (fobj t f) = f_meta (fobj s f) \<and> f_items (fobj t f) = f_items (fobj s f)"
    and d: "\<And>p. p < 675282944 \<Longrightarrow> k_disk (kern t) p = k_disk (kern s) p"
  shows "durable t"
proof -
  note D = durableD [OF du] and N = n [unfolded names_same_def]
  have rd: "disk_read (k_disk (kern t)) p l = disk_read (k_disk (kern s)) p l" if "p + l \<le> 675282944" for p l
    using d that by (intro nth_equalityI) (auto simp: disk_read_def)
  have "dir_synced t i = dir_synced s i" if "i < 100000" for i
    using rd that N by (simp add: dir_synced_def)
  moreover have "fb_synced t i = fb_synced s i" if "i < 133554" for i
    using rd that o by (simp add: fb_synced_def)
  moreover have "disk_read (k_disk (kern t)) 0 4096 = disk_read (k_disk (kern s)) 0 4096" by (rule rd) simp
  ultimately have sy: "synced_but {0..<100000} {} {} t" using D(1) o by (simp add: synced_but_def)
  have sv: "file_saved t i" if "i < 100000" for i using file_saved_cong [of t i s] o N d that D(2) by simp
  have ms: "metas_sound (max_block_num (block_handle t)) t" using D(4) o N by (simp add: metas_sound_def)
  have "file_wf t f = file_wf s f" for f
    using o by (simp add: file_wf_def fb_owned_def File_file_size_def split: list.splits)
  then have wf: "file_wf t f" if "map_of (created_fhs t) i = Some f" for i f using D(9) that N by simp
  have "tables_ok t = tables_ok s" using o N by (simp add: tables_ok_def dir_filled_def file_filled_def)
  then have tb: "tables_ok t" using D(6) by simp
  have "super_meta t = format_super t" using D(7) o N by (simp add: format_super_def)
  then show ?thesis using sy sv ms wf tb D(3,5,8) o N unfolding durable_def by simp
qed


section \<open>creat keeps a state durable\<close>

lemma durable_dir:
  assumes du: "durable s" and d: "map_of (created_dirs s) p = Some x"
  shows "map_of (created_dhs s) (Dir_dh s x) = Some x" "Dir_dh s x = d_meta (dobj s x)" "Dir_dh s x \<in> used_dirs (dmetas s)"
    "dir_filled s (Dir_dh s x) x" "map_of (created_dhs s) i = Some x \<longleftrightarrow> i = Dir_dh s x"
proof -
  have ix: "indexed (dir_name_of s) (used_dirs (dmetas s)) (created_dhs s) (created_dirs s)" "made_for (\<lambda>d. d_meta (dobj s d)) (created_dhs s)"
    using durableD(6) [OF du] by (simp_all add: tables_ok_def)
  have 1: "map_of (created_dhs s) (d_meta (dobj s x)) = Some x" using indexed_lookup [OF ix] d by blast
  show 2: "Dir_dh s x = d_meta (dobj s x)" by (rule Dir_dh_durable [OF durableD(4,6) [OF du] 1])
  show 3: "map_of (created_dhs s) (Dir_dh s x) = Some x" using 1 2 by simp
  show "Dir_dh s x \<in> used_dirs (dmetas s)" using indexedD(1) [OF ix(1), of "Dir_dh s x"] 3 by simp
  show "dir_filled s (Dir_dh s x) x" using durableD(6) [OF du] 3 unfolding tables_ok_def by blast
  have "d_meta (dobj s x) = i" if "map_of (created_dhs s) i = Some x" using ix(2) that unfolding made_for_def by blast
  then show "map_of (created_dhs s) i = Some x \<longleftrightarrow> i = Dir_dh s x" using 3 unfolding 2 by blast
qed

lemma durable_file:
  assumes du: "durable s" and f: "map_of (created_fhs s) i = Some f"
  shows "i \<in> used_files (fmetas s)" "f_meta (fobj s f) = i" "f < fobj_next s" "file_filled s i f" "File_fh s f = i"
    "map_of (created_fhs s) j = Some f \<longleftrightarrow> j = i"
proof -
  have ix: "indexed (\<lambda>i. file_key (fmetas s i)) (used_files (fmetas s)) (created_fhs s) (created_files s)"
    "made_for (\<lambda>f. f_meta (fobj s f)) (created_fhs s)" "\<forall>i f. map_of (created_fhs s) i = Some f \<longrightarrow> f < fobj_next s \<and> file_filled s i f"
    using durableD(6) [OF du] by (simp_all add: tables_ok_def)
  show u: "i \<in> used_files (fmetas s)" using indexedD(1) [OF ix(1), of i] f by simp
  show m: "f_meta (fobj s f) = i" using ix(2) f by (simp add: made_for_def)
  show "f < fobj_next s" "file_filled s i f" using ix(3) f by blast+
  have "fm_fh (fmetas s i) = word_of_nat i" "i < 100000"
    using durableD(4) [OF du] u by (simp_all add: metas_sound_def files_sound_def file_sound_def used_files_def)
  then show "File_fh s f = i" using m unat_handle [of i] by (simp add: File_fh_def)
  have "f_meta (fobj s f) = j" if "map_of (created_fhs s) j = Some f" using ix(2) that unfolding made_for_def by blast
  then show "map_of (created_fhs s) j = Some f \<longleftrightarrow> j = i" using f m by blast
qed

lemma file_filled_items:
  assumes "file_filled s i f" "(c, b) \<in> set (f_items (fobj s f))"
  shows "b \<in> used_fbs (bmetas s) \<and> fb_key (bmetas s b) = (i, c)"
proof -
  have "map_of (f_items (fobj s f)) c = Some b" using assms by (simp add: file_filled_def)
  then show ?thesis using assms(1) unfolding file_filled_def by blast
qed

lemma create_durable:
  assumes du: "durable s" and fmt: "formatted s" and dir: "map_of (created_dirs s) d = Some dir"
    and new: "map_of (created_files s) (Dir_dh s dir, n) = None" and n: "plain_name n" "length n < 64"
    and fh: "spare_file s fh"
    and w: "File_WriteMeta_fh fh (with_file s fh (Dir_dh s dir) n) = (True, v)"
    and t: "t = set_errno 0 (AddFileToDirectory dir (fobj_next s) v)"
  shows "durable t" "map_of (created_fhs t) fh = Some (fobj_next s)"
proof -
  let ?f = "fobj_next s" and ?dh = "Dir_dh s dir"
  let ?u = "with_file s fh ?dh n"
  note D = durableD [OF du] and dd = durable_dir [OF du dir]
  have lt: "fh < 100000" and un: "\<not> fm_used (fmetas s fh)" using fh by (simp_all add: spare_file_def)
  have nul: "NUL \<notin> set n" and ne: "n \<noteq> []" using n(1) by (simp_all add: plain_name_def)
  have dh: "?dh < 2 ^ 64" using dd(3) by (simp add: used_dirs_def)
  obtain k where v: "v = (file_crc fh ?u)\<lparr>kern := k\<rparr>"
    using File_WriteMeta_fh_disk [OF _ lt w] fmt by (auto simp: formatted_def with_file_def)
  have fmu: "formatted ?u" using fmt by (simp add: formatted_def with_file_def)
  note vw = with_file_view [OF fh n(2) nul dh]
  have key: "file_key (fmetas v fh) = (?dh, n)"
    using vw(2,3,5) by (simp add: v file_crc_def upd_fmeta_def obj_acc_defs file_key_def meta_file_name_def File_new_def)
  have vf: "fm_used (fmetas v fh)" "\<not> fm_is_temp (fmetas v fh)" "fm_fh (fmetas v fh) = word_of_nat fh" "fm_child_fh (fmetas v fh) = fm_child_fh (fmetas s fh)"
    "cstr (fm_file_name (fmetas v fh)) = n" "fm_size (fmetas v fh) = 0" "unat (fm_dh (fmetas v fh)) = ?dh" "wf_FileMeta (fmetas v fh)"
    using fh key cstr_memcpy_cstr [of n 64] n(2) nul D(3) lt
    by (simp_all add: v file_crc_def upd_fmeta_def with_file_def named_file_def spare_file_def file_key_def wf_FileMeta_def wf_metas_def memcpy_cstr_def)
  have vo: "fmetas v i = fmetas s i" if "i \<noteq> fh" for i using that by (simp add: v file_crc_def upd_fmeta_def with_file_def)
  have accv: "File_fh v ?f = fh" "(File_dh v ?f, File_file_name v ?f) = (?dh, n)"
    using vf(3) unat_handle [OF lt] key by (simp_all add: v file_crc_def upd_fmeta_def obj_acc_defs with_file_def File_new_def file_key_def)
  have ix: "indexed (\<lambda>i. file_key (fmetas s i)) (used_files (fmetas s)) (created_fhs s) (created_files s)"
    using D(6) by (simp add: tables_ok_def)
  have nu: "fh \<notin> used_files (fmetas s)" using un by (simp add: used_files_def)
  have nfh: "map_of (created_fhs s) fh = None" using indexedD(1) [OF ix, of fh] nu by simp
  have dn: "map_of (d_items (dobj s dir)) fh = None"
    using dd(4) nfh by (cases "map_of (d_items (dobj s dir)) fh") (simp_all add: dir_filled_def)
  let ?x = "upd_dir dir (\<lambda>x. x\<lparr>d_items := amap_put fh ?f (d_items x)\<rparr>) v"
  have "snd (AddChildFile dir ?f v) = ?x"
    using dn unfolding AddChildFile_def accv by (simp add: v file_crc_def upd_fmeta_def with_file_def)
  moreover have "AddFileNoLock ?f ?x = ?x\<lparr>created_fhs := amap_put fh ?f (created_fhs s), created_files := amap_put (?dh, n) ?f (created_files s)\<rparr>"
    using accv unfolding AddFileNoLock_def
    by (simp add: upd_dir_def obj_acc_defs) (simp add: v file_crc_def upd_fmeta_def with_file_def)
  ultimately have te: "t = set_errno 0 (?x\<lparr>created_fhs := amap_put fh ?f (created_fhs s), created_files := amap_put (?dh, n) ?f (created_files s)\<rparr>)"
    unfolding t AddFileToDirectory_def by simp
  have T: "created_fhs t = amap_put fh ?f (created_fhs s)" "created_files t = amap_put (?dh, n) ?f (created_files s)"
    "created_dirs t = created_dirs s" "created_dhs t = created_dhs s" "dmetas t = dmetas s" "bmetas t = bmetas s" "fmetas t = fmetas v"
    "fobj t = (fobj s)(?f := File_new fh)" "fobj_next t = Suc ?f" "dobj_next t = dobj_next s" "crc32 t = crc32 s" "super_meta t = super_meta s"
    "dev t = dev s" "block_handle t = block_handle s" "k_disk (kern t) = k_disk k"
    "dobj t = (dobj s)(dir := (dobj s dir)\<lparr>d_items := amap_put fh ?f (d_items (dobj s dir))\<rparr>)"
    unfolding te by (simp_all add: set_errno_def upd_dir_def v file_crc_def upd_fmeta_def with_file_def)
  show "map_of (created_fhs t) fh = Some ?f" by (simp add: T)
  have V: "crc32 v = crc32 s" "kern v = k" "dmetas v = dmetas s" "bmetas v = bmetas s" "super_meta v = super_meta s"
    by (simp_all add: v file_crc_def upd_fmeta_def with_file_def)
  have sy: "synced_but {0..<100000} {} {} t"
  proof -
    have "synced_but {0..<100000} {} {} ?u" using D(1) by (simp add: synced_but_def synced_defs with_file_def)
    from synced_mono_F [OF File_WriteMeta_fh_synced(1) [OF fmu lt w this]] have "synced_but {0..<100000} {} {} v" by blast
    then show ?thesis using T V by (simp add: synced_but_def synced_defs)
  qed
  have cr: "file_sound (crc32 s) i (fmetas s i)" if "i < 100000" for i
    using D(4) that by (simp add: metas_sound_def files_sound_def)
  have sv: "file_saved v i \<and> file_crcs_ok {} v" if "i < 100000" for i
  proof -
    have "file_saved ?u j = file_saved s j" if "j \<noteq> fh" for j using that by (simp add: file_saved_def with_file_def)
    then have "\<forall>j < 100000. j \<noteq> fh \<longrightarrow> file_saved ?u j" using D(2) by simp
    moreover have "file_crcs_ok {fh} ?u" using cr by (simp add: file_crcs_ok_def file_sound_def with_file_def)
    ultimately show ?thesis using File_WriteMeta_fh_saved [OF fmu lt w _ _ that] by blast
  qed
  have svt: "file_saved t i" if "i < 100000" for i using sv [OF that] T V by (simp add: file_saved_def)
  have us: "used_files (fmetas t) = insert fh (used_files (fmetas s))"
    using vo vf(1) lt unfolding T used_files_def by (auto; metis)
  have fk: "file_key (fmetas t i) = file_key (fmetas s i)" if "i \<in> used_files (fmetas s)" for i
    using vo [of i] that nu by (metis T(7))
  have nk: "(?dh, n) \<notin> (\<lambda>i. file_key (fmetas s i)) ` used_files (fmetas s)"
  proof
    assume "(?dh, n) \<in> (\<lambda>i. file_key (fmetas s i)) ` used_files (fmetas s)"
    then obtain i where i: "i \<in> used_files (fmetas s)" "file_key (fmetas s i) = (?dh, n)" by auto
    then obtain g where "map_of (created_fhs s) i = Some g" using indexedD(1) [OF ix, of i] by blast
    from indexedD(2) [OF ix this] i(2) new show False by simp
  qed
  have fso: "file_sound (crc32 s) i (fmetas t i)" if i: "i < 100000" for i
  proof (cases "i = fh")
    case True
    have "fm_crc (fmetas v fh) = crc32 s (body_FileMeta (fmetas v fh))" using sv [OF lt] lt V by (simp add: file_crcs_ok_def)
    then show ?thesis using True vf cr [OF lt] ne T(7) by (simp add: file_sound_def)
  qed (use cr [OF i] vo T(7) in simp)
  have ms: "metas_sound (max_block_num (block_handle t)) t"
  proof -
    have "inj_on (\<lambda>i. file_key (fmetas t i)) (insert fh (used_files (fmetas s)))"
    proof (rule inj_on_insert [THEN iffD2], intro conjI)
      show "inj_on (\<lambda>i. file_key (fmetas t i)) (used_files (fmetas s))"
        using D(4) fk by (simp add: metas_sound_def files_sound_def inj_on_def)
      have "(\<lambda>i. file_key (fmetas t i)) ` (used_files (fmetas s)) = (\<lambda>i. file_key (fmetas s i)) ` used_files (fmetas s)"
        using fk by (rule image_cong [OF refl])
      then show "file_key (fmetas t fh) \<notin> (\<lambda>i. file_key (fmetas t i)) ` (used_files (fmetas s) - {fh})"
        using nk key T(7) by auto
    qed
    moreover have "unat (fm_dh (fmetas t i)) \<in> used_dirs (dmetas s)" if "i \<in> insert fh (used_files (fmetas s))" for i
      using that D(4) vf(7) dd(3) fk T(7) by (cases "i = fh") (auto simp: metas_sound_def files_sound_def file_key_def)
    ultimately have "files_sound (crc32 t) (dmetas t) (fmetas t)" using fso us T by (simp add: files_sound_def)
    moreover have "fbs_sound (crc32 t) (max_block_num (block_handle t)) (fmetas t) (bmetas t)"
      using D(4) us T by (auto simp: metas_sound_def fbs_sound_def)
    ultimately show ?thesis using D(4) T by (simp add: metas_sound_def)
  qed
  have tb: "tables_ok t"
  proof -
    have old: "fobj t g = fobj s g" if "map_of (created_fhs s) i = Some g" for i g
      using durable_file(3) [OF du that] T(8) by simp
    have "indexed (\<lambda>i. file_key (fmetas t i)) (used_files (fmetas s)) (created_fhs s) (created_files s)"
      using ix fk by (rule indexed_cong)
    moreover have "file_key (fmetas t fh) \<notin> (\<lambda>i. file_key (fmetas t i)) ` used_files (fmetas s)"
      using nk key fk T(7) by auto
    ultimately have 1: "indexed (\<lambda>i. file_key (fmetas t i)) (used_files (fmetas t)) (created_fhs t) (created_files t)"
      using indexed_put [of "\<lambda>i. file_key (fmetas t i)" "used_files (fmetas s)" "created_fhs s" "created_files s" fh ?f] nu us T(1,2,7) key by simp
    have 2: "made_for (\<lambda>f. f_meta (fobj t f)) (created_fhs t)"
      using D(6) old durable_file(2) [OF du] T(1,8) by (auto simp: made_for_def File_new_def split: if_splits)
    have 3: "made_for (\<lambda>d. d_meta (dobj t d)) (created_dhs t)" using D(6) T(4,16) by (simp add: tables_ok_def made_for_def)
    have 4: "dir_filled t i x" if x: "map_of (created_dhs s) i = Some x" for i x
    proof -
      have df: "dir_filled s i x" using D(6) x unfolding tables_ok_def by blast
      have xd: "x = dir \<longleftrightarrow> i = ?dh" using dd(1) dd(5) [of i] x by auto
      have ch: "d_childs (dobj t x) = d_childs (dobj s x)" by (simp add: T)
      have it: "map_of (d_items (dobj t x)) j = (if x = dir \<and> j = fh then Some ?f else map_of (d_items (dobj s x)) j)" for j
        by (simp add: T)
      have "map_of (d_items (dobj t x)) j = Some g \<longleftrightarrow> map_of (created_fhs t) j = Some g \<and> unat (fm_dh (fmetas t j)) = i" for j g
      proof (cases "j = fh")
        case True
        have "map_of (d_items (dobj s x)) fh \<noteq> Some g" using df nfh by (simp add: dir_filled_def)
        then show ?thesis using True it xd vf(7) T(1,7) by auto
      next
        case False
        then have "fmetas t j = fmetas s j" using vo T(7) by simp
        then show ?thesis using False it df T(1) by (simp add: dir_filled_def)
      qed
      then show ?thesis using df ch T(3-5) by (simp add: dir_filled_def)
    qed
    have 5: "g < fobj_next t \<and> file_filled t i g" if g: "map_of (created_fhs t) i = Some g" for i g
    proof (cases "i = fh")
      case True
      have "fb_key (bmetas s b) \<noteq> (fh, c)" if "b \<in> used_fbs (bmetas s)" for b c
        using D(4) that nu by (auto simp: metas_sound_def fbs_sound_def fb_key_def)
      then show ?thesis using g True T by (auto simp: file_filled_def File_new_def)
    next
      case False
      then have gs: "map_of (created_fhs s) i = Some g" using g T(1) by simp
      show ?thesis using durable_file(3,4) [OF du gs] file_filled_cong [OF old [OF gs], of i] T(6,9) by simp
    qed
    show ?thesis using D(6) 1 2 3 4 5 T(3-5,10) unfolding tables_ok_def by simp
  qed
  have wf: "wf_metas (super_meta t) (dmetas t) (fmetas t) (bmetas t)"
    using D(3) vf(8) vo T by (auto simp: wf_metas_def; metis)
  have fw: "file_wf t g" if g: "map_of (created_fhs t) i = Some g" for i g
  proof (cases "i = fh")
    case True
    then show ?thesis using g vf(6) T by (simp add: file_wf_def File_new_def File_file_size_def)
  next
    case False
    then have gs: "map_of (created_fhs s) i = Some g" using g T(1) by simp
    have "fobj t g = fobj s g" "f_meta (fobj s g) = i" using durable_file(2,3) [OF du gs] T(8) by simp_all
    then have "file_wf t g = file_wf s g"
      using vo [OF False] T(6,7) by (simp add: file_wf_def fb_owned_def File_file_size_def split: list.splits)
    then show ?thesis using D(9) [OF gs] by simp
  qed
  have "super_meta t = format_super t" using D(7) T by (simp add: format_super_def)
  then show "durable t" using sy svt wf ms tb fw D(5,8) T unfolding durable_def by simp
qed

end
