(* ===== verification/Durable_Write.thy ===== *)
theory Durable_Write
  imports Durable_Create
begin

text \<open>
  \<open>ExtendFile\<close>, with the file blocks it takes and links, and \<open>pwrite\<close> keep a state durable.
\<close>

section \<open>Growing a file keeps a state durable\<close>

lemma ucast_handle: "i < 100000 \<Longrightarrow> unat (ucast (word_of_nat i :: u64) :: u32) = i"
  by (simp add: unsigned_ucast_eq unsigned_of_nat take_bit_nat_eq_self)

text \<open>The steps of a successful \<open>ExtendFile\<close>, in the order of the code.\<close>

lemma ExtendFile_steps:
  assumes "blocks_exclusive s" "file_wf s f" "File_file_size s f < off" "off \<le> kBlockFsMaxUDiskSize" "ExtendFile f off s = Some (0, t)"
  shows "\<exists>fb (ids :: u32 list) s4 s5 bm bh fr. s4 = s\<lparr>bmetas := bm, block_handle := bh, free_fbhs := fr\<rparr>
     \<and> (\<forall>i. i \<noteq> fb \<longrightarrow> bm i = bmetas s i) \<and> (ids = [] \<longrightarrow> bm = bmetas s \<and> File_file_size s f \<noteq> 0) \<and> fb_used (bm fb)
     \<and> (if File_file_size s f = 0
        then \<not> fb_used (bmetas s fb) \<and> fb \<in> set (free_fbhs s) \<and> fb_file_cut (bm fb) = 0
          \<and> fb_fh (bm fb) = ucast (fm_fh (File_meta s f)) \<and> fb_is_temp (bm fb) = fm_is_temp (File_meta s f)
        else map_of (f_items (fobj s f)) (length (f_items (fobj s f)) - 1) = Some fb \<and> fb_file_cut (bm fb) = fb_file_cut (bmetas s fb)
          \<and> fb_fh (bm fb) = fb_fh (bmetas s fb) \<and> fb_is_temp (bm fb) = fb_is_temp (bmetas s fb))
     \<and> fb_pad (bm fb) = fb_pad (bmetas s fb)
     \<and> (if ids = [] then (True, s4) else FileBlock_WriteMeta fb s4) = (True, s5)
     \<and> File_WriteMeta f (File_set_file_size f off
          (if ids \<noteq> [] \<and> File_file_size s f = 0 then snd (AddFileBlockNoLock f fb s5) else s5)) = (True, t)"
  using assms(1) file_wf_items_used [OF assms(2)] assms(5)
proof (cases rule: ExtendFile_cases)
  case (filled fb ids s4)
  have nz: "File_file_size s f \<noteq> 0" if "ids = []"
  proof
    assume z: "File_file_size s f = 0"
    have "0 < ceil_blocks (unat off)" using assms(3) z by (intro ceil_blocks_pos) (auto simp: word_less_nat_alt)
    then show False using that z filled(5) unat_num_blocks_needed [OF _ assms(4), of 0] assms(3) by auto
  qed
  obtain bm bh fr where s4: "s4 = s\<lparr>bmetas := bm, block_handle := bh, free_fbhs := fr\<rparr>" using filled(22) by blast
  then have bm: "bmetas s4 = bm" by simp
  obtain s5 where 5: "(if ids = [] then (True, s4) else FileBlock_WriteMeta fb s4) = (True, s5)"
    using filled(10) by (auto simp: extend_persist_def Let_def split: prod.splits if_splits)
  then have 6: "File_WriteMeta f (File_set_file_size f off
          (if ids \<noteq> [] \<and> File_file_size s f = 0 then snd (AddFileBlockNoLock f fb s5) else s5)) = (True, t)"
    using filled(10) by (auto simp: extend_persist_def Let_def split: prod.splits if_splits)
  have A: "\<forall>i. i \<noteq> fb \<longrightarrow> bm i = bmetas s i" "ids = [] \<longrightarrow> bm = bmetas s \<and> File_file_size s f \<noteq> 0" "fb_used (bm fb)" "fb_pad (bm fb) = fb_pad (bmetas s fb)"
      using filled(6,9,16,21) nz bm by simp_all
  have B: "if File_file_size s f = 0
        then \<not> fb_used (bmetas s fb) \<and> fb \<in> set (free_fbhs s) \<and> fb_file_cut (bm fb) = 0
          \<and> fb_fh (bm fb) = ucast (fm_fh (File_meta s f)) \<and> fb_is_temp (bm fb) = fm_is_temp (File_meta s f)
        else map_of (f_items (fobj s f)) (length (f_items (fobj s f)) - 1) = Some fb \<and> fb_file_cut (bm fb) = fb_file_cut (bmetas s fb)
          \<and> fb_fh (bm fb) = fb_fh (bmetas s fb) \<and> fb_is_temp (bm fb) = fb_is_temp (bmetas s fb)"
      using filled(7,8,18,19,20) bm by simp
  show ?thesis
    by (rule exI [of _ fb], rule exI [of _ ids], rule exI [of _ s4], rule exI [of _ s5], rule exI [of _ bm], rule exI [of _ bh], rule exI [of _ fr])
      (intro conjI s4 A B 5 6)
qed simp

text \<open>
  What it changes: the size of one file struct, one file block, which joins the file if the file was
  empty, and the file's table of them.
\<close>

definition grown :: "fs \<Rightarrow> fs \<Rightarrow> nat \<Rightarrow> nat \<Rightarrow> u64 \<Rightarrow> nat \<Rightarrow> bool" where
  "grown s t i f off fb \<longleftrightarrow> names_same s t \<and> super_meta t = super_meta s \<and> dev t = dev s \<and> fb < 133554
     \<and> fmetas t = (fmetas s)(i := (fmetas s i)\<lparr>fm_size := off, fm_crc := fm_crc (fmetas t i)\<rparr>)
     \<and> (\<forall>g. f_meta (fobj t g) = f_meta (fobj s g)) \<and> (\<forall>g. g \<noteq> f \<longrightarrow> fobj t g = fobj s g)
     \<and> (\<forall>b. b \<noteq> fb \<longrightarrow> bmetas t b = bmetas s b) \<and> fb_used (bmetas t fb) \<and> \<not> fb_is_temp (bmetas t fb)
     \<and> fb_pad (bmetas t fb) = fb_pad (bmetas s fb) \<and> fb_crc (bmetas t fb) = crc32 s (body_FileBlockMeta (bmetas t fb))
     \<and> (if File_file_size s f = 0
        then fb \<notin> used_fbs (bmetas s) \<and> fb_key (bmetas t fb) = (i, 0) \<and> f_items (fobj s f) = [] \<and> f_items (fobj t f) = [(0, fb)]
        else fb \<in> used_fbs (bmetas s) \<and> fb_key (bmetas t fb) = fb_key (bmetas s fb) \<and> fst (fb_key (bmetas s fb)) = i
          \<and> f_items (fobj t f) = f_items (fobj s f))"

lemma write_block_saved:
  assumes fm4: "formatted s4" and fb: "fb < 133554" and w: "(if ids = [] then (True, s4) else FileBlock_WriteMeta fb s4) = (True, s5)"
    and sy: "synced_but {0..<100000} {} (if ids = [] then {} else {fb}) s4" and sv: "\<forall>j < 100000. file_saved s4 j"
    and c: "ids = [] \<Longrightarrow> fb_crc (bmetas s4 fb) = crc32 s4 (body_FileBlockMeta (bmetas s4 fb))"
  shows "synced_but {0..<100000} {} {} s5" "\<forall>j < 100000. file_saved s5 j"
    "\<exists>c k. s5 = s4\<lparr>bmetas := (bmetas s4)(fb := (bmetas s4 fb)\<lparr>fb_crc := c\<rparr>), kern := k\<rparr>"
    "fb_crc (bmetas s5 fb) = crc32 s4 (body_FileBlockMeta (bmetas s5 fb))"
proof -
  have "synced_but {0..<100000} {} {} s5 \<and> (\<forall>j < 100000. file_saved s5 j)
      \<and> (\<exists>c k. s5 = s4\<lparr>bmetas := (bmetas s4)(fb := (bmetas s4 fb)\<lparr>fb_crc := c\<rparr>), kern := k\<rparr>)
      \<and> fb_crc (bmetas s5 fb) = crc32 s4 (body_FileBlockMeta (bmetas s5 fb))"
  proof (cases "ids = []")
    case True
    have "s4 = s4\<lparr>bmetas := (bmetas s4)(fb := (bmetas s4 fb)\<lparr>fb_crc := fb_crc (bmetas s4 fb)\<rparr>), kern := kern s4\<rparr>" by simp
    then show ?thesis using True w sy sv c by (simp, metis)
  next
    case False
    then have w: "FileBlock_WriteMeta fb s4 = (True, s5)" using w by simp
    obtain k where k: "s5 = (upd_bmeta fb (\<lambda>m. m\<lparr>fb_crc := crc32 s4 (body_FileBlockMeta (bmetas s4 fb))\<rparr>) s4)\<lparr>kern := k\<rparr>"
      using FileBlock_WriteMeta_disk [OF fm4 fb w] by blast
    then have "s5 = s4\<lparr>bmetas := (bmetas s4)(fb := (bmetas s4 fb)\<lparr>fb_crc := crc32 s4 (body_FileBlockMeta (bmetas s4 fb))\<rparr>), kern := k\<rparr>"
      by (simp add: upd_bmeta_def)
    moreover from this have "fb_crc (bmetas s5 fb) = crc32 s4 (body_FileBlockMeta (bmetas s5 fb))" by (simp add: body_FileBlockMeta_def)
    moreover have "synced_but {0..<100000} {} {} s5" using FileBlock_WriteMeta_synced [OF fm4 fb w sy] False by simp
    moreover have "\<forall>j < 100000. file_saved s5 j" using FileBlock_WriteMeta_saved [OF fm4 fb w] sv by blast
    ultimately show ?thesis by blast
  qed
  then show "synced_but {0..<100000} {} {} s5" "\<forall>j < 100000. file_saved s5 j"
    "\<exists>c k. s5 = s4\<lparr>bmetas := (bmetas s4)(fb := (bmetas s4 fb)\<lparr>fb_crc := c\<rparr>), kern := k\<rparr>"
    "fb_crc (bmetas s5 fb) = crc32 s4 (body_FileBlockMeta (bmetas s5 fb))" by blast+
qed

lemma resize_saved:
  assumes fm: "formatted s" and w: "File_WriteMeta_fh i s = (True, t)" and i: "i < 100000"
    and sy: "synced_but {0..<100000} {} {} s" and sv: "\<forall>j < 100000. j \<noteq> i \<longrightarrow> file_saved s j" and c: "file_crcs_ok {i} s"
  shows "synced_but {0..<100000} {} {} t" "\<forall>j < 100000. file_saved t j" "file_crcs_ok {} t"
  using synced_mono_F [OF File_WriteMeta_fh_synced(1) [OF fm i w sy]] File_WriteMeta_fh_saved [OF fm i w sv c] i by blast+

lemma ExtendFile_grown:
  assumes du: "durable s" and r: "ready s f" and f: "map_of (created_fhs s) i = Some f"
    and lt: "File_file_size s f < off" "off \<le> kBlockFsMaxUDiskSize" and e: "ExtendFile f off s = Some (0, t)"
  shows "\<exists>fb. grown s t i f off fb \<and> synced_but {0..<100000} {} {} t \<and> (\<forall>j < 100000. file_saved t j) \<and> file_crcs_ok {} t"
proof -
  have ex: "blocks_exclusive s" and fmt: "formatted s" and wfl: "file_wf s f" and rg: "fbs_in_range s f"
    using r by (simp_all add: ready_def fs_ok_def)
  note D = durableD [OF du] and F = durable_file [OF du f]
  have i: "i < 100000" "fm_used (fmetas s i)" using F(1) by (simp_all add: used_files_def)
  have fso: "file_sound (crc32 s) j (fmetas s j)" if "j < 100000" for j using D(4) that by (simp add: metas_sound_def files_sound_def)
  obtain fb s4 s5 bm bh fr and ids :: "u32 list" where st: "s4 = s\<lparr>bmetas := bm, block_handle := bh, free_fbhs := fr\<rparr>"
    "\<forall>i. i \<noteq> fb \<longrightarrow> bm i = bmetas s i" "ids = [] \<longrightarrow> bm = bmetas s \<and> File_file_size s f \<noteq> 0" "fb_used (bm fb)"
    "if File_file_size s f = 0
        then \<not> fb_used (bmetas s fb) \<and> fb \<in> set (free_fbhs s) \<and> fb_file_cut (bm fb) = 0
          \<and> fb_fh (bm fb) = ucast (fm_fh (File_meta s f)) \<and> fb_is_temp (bm fb) = fm_is_temp (File_meta s f)
        else map_of (f_items (fobj s f)) (length (f_items (fobj s f)) - 1) = Some fb \<and> fb_file_cut (bm fb) = fb_file_cut (bmetas s fb)
          \<and> fb_fh (bm fb) = fb_fh (bmetas s fb) \<and> fb_is_temp (bm fb) = fb_is_temp (bmetas s fb)"
    "fb_pad (bm fb) = fb_pad (bmetas s fb)"
    "(if ids = [] then (True, s4) else FileBlock_WriteMeta fb s4) = (True, s5)"
    "File_WriteMeta f (File_set_file_size f off
          (if ids \<noteq> [] \<and> File_file_size s f = 0 then snd (AddFileBlockNoLock f fb s5) else s5)) = (True, t)"
    using ExtendFile_steps [OF ex wfl lt e] by blast
  let ?nw = "File_file_size s f = 0"
  have fbr: "fb < 133554" using st(5) rg by (auto simp: fbs_in_range_def split: if_splits dest!: map_of_SomeD)
  have k4: "kern s4 = kern s" "fmetas s4 = fmetas s" "dmetas s4 = dmetas s" "bmetas s4 = bm" "super_meta s4 = super_meta s" "crc32 s4 = crc32 s"
    "dev s4 = dev s" using st(1) by simp_all
  have fm4: "formatted s4" using fmt k4 by (simp add: formatted_def)
  have sy4: "synced_but {0..<100000} {} (if ids = [] then {} else {fb}) s4"
    using D(1) st(2,3) k4 by (auto simp: synced_but_def synced_defs)
  have sv4: "\<forall>j < 100000. file_saved s4 j" using D(2) k4 by (simp add: file_saved_def)
  have "fb_crc (bmetas s4 fb) = crc32 s4 (body_FileBlockMeta (bmetas s4 fb))" if "ids = []"
    using D(4) fbr st(3) k4 that by (simp add: metas_sound_def fbs_sound_def fb_sound_def)
  note s5 = write_block_saved [OF fm4 fbr st(7) sy4 sv4 this]
  obtain c k5 where e5: "s5 = s4\<lparr>bmetas := bm(fb := (bm fb)\<lparr>fb_crc := c\<rparr>), kern := k5\<rparr>" using s5(3) k4 by auto
  define s5' where "s5' = (if ids \<noteq> [] \<and> ?nw then snd (AddFileBlockNoLock f fb s5) else s5)"
  define s6 where "s6 = File_set_file_size f off s5'"
  have it0: "f_items (fobj s f) = []" if ?nw using wfl that by (cases rule: file_wf_cases) simp_all
  have a5: "s5' = s5\<lparr>fobj := fobj s5'\<rparr>" "f_meta (fobj s5' g) = f_meta (fobj s g)" "g \<noteq> f \<Longrightarrow> fobj s5' g = fobj s g"
    "f_items (fobj s5' f) = (if ?nw then [(0, fb)] else f_items (fobj s f))" for g
  proof -
    have "unat (fb_file_cut (bmetas s5 fb)) = 0" if ?nw using that st(5) e5 by simp
    moreover have "fobj s5 = fobj s" by (simp add: e5 st(1))
    ultimately show "s5' = s5\<lparr>fobj := fobj s5'\<rparr>" "f_meta (fobj s5' g) = f_meta (fobj s g)" "g \<noteq> f \<Longrightarrow> fobj s5' g = fobj s g"
      "f_items (fobj s5' f) = (if ?nw then [(0, fb)] else f_items (fobj s f))" for g
      using it0 st(3) by (auto simp: s5'_def AddFileBlockNoLock_def upd_file_def Let_def)
  qed
  have n5: "names_same s s5'" "fmetas s5' = fmetas s" "super_meta s5' = super_meta s" "dev s5' = dev s" "bmetas s5' = bmetas s5" "kern s5' = kern s5"
    "crc32 s5' = crc32 s" "dmetas s5' = dmetas s5"
    unfolding names_same_def by (subst a5(1), simp add: e5 st(1))+
  have fmf: "f_meta (fobj s5' f) = i" using a5(2) F(2) by simp
  have s6: "s6 = s5'\<lparr>fmetas := (fmetas s)(i := (fmetas s i)\<lparr>fm_size := off\<rparr>)\<rparr>"
    using fmf n5(2) by (simp add: s6_def File_set_file_size_def upd_fmeta_def)
  have fh6: "File_fh s6 f = i" using F(2,5) fmf by (simp add: s6 File_fh_def)
  have w6: "File_WriteMeta_fh i s6 = (True, t)" using st(8) fh6 by (simp add: File_WriteMeta_def s6_def s5'_def)
  have fm6: "formatted s6" using fmt n5 by (simp add: formatted_def s6)
  obtain k where t: "t = (file_crc i s6)\<lparr>kern := k\<rparr>" using File_WriteMeta_fh_disk [OF fm6 i(1) w6] by blast
  have T: "names_same s t" "super_meta t = super_meta s" "dev t = dev s" "bmetas t = bmetas s5" "fobj t = fobj s5'"
    "fmetas t = (fmetas s)(i := (fmetas s i)\<lparr>fm_size := off, fm_crc := fm_crc (fmetas t i)\<rparr>)"
    using n5 by (simp_all add: names_same_def t file_crc_def upd_fmeta_def s6)
  have sy6: "synced_but {0..<100000} {} {} s6" using s5(1) n5 by (simp add: s6 synced_but_def synced_defs e5 st(1))
  have "file_saved s6 l = file_saved s5 l" if "l \<noteq> i" for l using that n5 by (simp add: file_saved_def s6 e5 st(1))
  then have sv6: "\<forall>l < 100000. l \<noteq> i \<longrightarrow> file_saved s6 l" using s5(2) by simp
  have cr6: "file_crcs_ok {i} s6" using fso n5(7) by (simp add: file_crcs_ok_def file_sound_def s6)
  have bf: "fb_used (bmetas t fb)" "fb_pad (bmetas t fb) = fb_pad (bmetas s fb)" "fb_file_cut (bmetas t fb) = fb_file_cut (bm fb)"
    "fb_fh (bmetas t fb) = fb_fh (bm fb)" "fb_is_temp (bmetas t fb) = fb_is_temp (bm fb)"
    "fb_crc (bmetas t fb) = crc32 s (body_FileBlockMeta (bmetas t fb))" "\<And>b. b \<noteq> fb \<Longrightarrow> bmetas t b = bmetas s b"
    using st(2,4,6) T(4) s5(4) k4 e5 by simp_all
  have nw: "fb \<notin> used_fbs (bmetas s) \<and> fb_key (bmetas t fb) = (i, 0) \<and> \<not> fb_is_temp (bmetas t fb)" if ?nw
    using st(5) that bf F(2) ucast_handle [OF i(1)] fso [OF i(1)] i(2) by (simp add: used_fbs_def fb_key_def file_sound_def)
  have od: "fb \<in> used_fbs (bmetas s) \<and> fst (fb_key (bmetas s fb)) = i \<and> fb_key (bmetas t fb) = fb_key (bmetas s fb) \<and> \<not> fb_is_temp (bmetas t fb)"
    if "\<not> ?nw"
  proof -
    have "(length (f_items (fobj s f)) - 1, fb) \<in> set (f_items (fobj s f))" using st(5) that by (simp add: map_of_SomeD)
    from file_filled_items [OF F(4) this] have u: "fb \<in> used_fbs (bmetas s)" "fst (fb_key (bmetas s fb)) = i" by simp_all
    then have "\<not> fb_is_temp (bmetas s fb)" using D(4) by (simp add: metas_sound_def fbs_sound_def fb_sound_def used_fbs_def)
    then show ?thesis using u st(5) that bf by (simp add: fb_key_def)
  qed
  have "grown s t i f off fb"
    unfolding grown_def using T a5(2,3,4) bf fbr nw od it0 by auto
  then show ?thesis using resize_saved [OF fm6 w6 i(1) sy6 sv6 cr6] by blast
qed

lemma grown_files:
  assumes g: "grown s t i f off fb" and crc: "file_crcs_ok {} t" and so: "\<forall>j < 100000. file_sound (crc32 s) j (fmetas s j)" and u: "fm_used (fmetas s i)"
  shows "used_files (fmetas t) = used_files (fmetas s)" "file_key (fmetas t j) = file_key (fmetas s j)" "fm_dh (fmetas t j) = fm_dh (fmetas s j)"
    "j < 100000 \<Longrightarrow> file_sound (crc32 s) j (fmetas t j)"
proof -
  have T: "fmetas t = (fmetas s)(i := (fmetas s i)\<lparr>fm_size := off, fm_crc := fm_crc (fmetas t i)\<rparr>)" "crc32 t = crc32 s"
    using g by (simp_all add: grown_def names_same_def)
  have e: "fm_used (fmetas t j) = fm_used (fmetas s j)" for j by (subst T(1)) simp
  show "used_files (fmetas t) = used_files (fmetas s)" unfolding used_files_def e ..
  show "file_key (fmetas t j) = file_key (fmetas s j)" "fm_dh (fmetas t j) = fm_dh (fmetas s j)"
    by (subst T(1), simp add: file_key_def meta_file_name_def)+
  assume j: "j < 100000"
  have "fm_crc (fmetas t j) = crc32 s (body_FileMeta (fmetas t j))" using crc j T(2) by (simp add: file_crcs_ok_def)
  moreover have "fm_fh (fmetas t j) = fm_fh (fmetas s j)" "fm_child_fh (fmetas t j) = fm_child_fh (fmetas s j)" "fm_is_temp (fmetas t j) = fm_is_temp (fmetas s j)"
    "fm_file_name (fmetas t j) = fm_file_name (fmetas s j)"
    by (subst T(1), simp)+
  moreover have "fm_size (fmetas t j) = fm_size (fmetas s j)" if "\<not> fm_used (fmetas s j)" using u that by (subst T(1)) auto
  ultimately show "file_sound (crc32 s) j (fmetas t j)" using so j e [of j] by (simp add: file_sound_def)
qed

text \<open>File block keys after growing: the new block, if any, gets a key that was not taken.\<close>

lemma grown_fbs:
  assumes g: "grown s t i f off fb" and ff: "file_filled s i f"
  shows "used_fbs (bmetas t) = insert fb (used_fbs (bmetas s))" "b \<in> used_fbs (bmetas s) \<Longrightarrow> fb_key (bmetas t b) = fb_key (bmetas s b)"
    "fst (fb_key (bmetas t fb)) = i"
    "File_file_size s f = 0 \<Longrightarrow> b \<in> used_fbs (bmetas s) \<Longrightarrow> fst (fb_key (bmetas s b)) \<noteq> i"
    "inj_on (\<lambda>b. fb_key (bmetas s b)) (used_fbs (bmetas s)) \<Longrightarrow> inj_on (\<lambda>b. fb_key (bmetas t b)) (used_fbs (bmetas t))"
proof -
  let ?nw = "File_file_size s f = 0"
  note G = g [unfolded grown_def]
  have bo: "\<And>b. b \<noteq> fb \<Longrightarrow> bmetas t b = bmetas s b" "fb_used (bmetas t fb)" "fb < 133554" using G by blast+
  have nw: "fb \<notin> used_fbs (bmetas s)" "fb_key (bmetas t fb) = (i, 0)" "f_items (fobj s f) = []" if ?nw using G that by simp_all
  have od: "fb \<in> used_fbs (bmetas s)" "fb_key (bmetas t fb) = fb_key (bmetas s fb)" "fst (fb_key (bmetas s fb)) = i" if "\<not> ?nw" using G that by simp_all
  show us: "used_fbs (bmetas t) = insert fb (used_fbs (bmetas s))" using bo unfolding used_fbs_def by (auto; metis)
  show nok: "fst (fb_key (bmetas s b)) \<noteq> i" if ?nw "b \<in> used_fbs (bmetas s)" for b
    using ff nw(3) [OF that(1)] that(2) by (cases "fb_key (bmetas s b)") (auto simp: file_filled_def)
  show keyo: "fb_key (bmetas t b) = fb_key (bmetas s b)" if "b \<in> used_fbs (bmetas s)" for b
    using nw(1) od(2) bo(1) that by (cases "b = fb"; cases ?nw) auto
  show kf: "fst (fb_key (bmetas t fb)) = i" using nw(2) od(2,3) by (cases ?nw) simp_all
  assume inj: "inj_on (\<lambda>b. fb_key (bmetas s b)) (used_fbs (bmetas s))"
  show "inj_on (\<lambda>b. fb_key (bmetas t b)) (used_fbs (bmetas t))"
  proof (cases ?nw)
    case True
    have "fb_key (bmetas t fb) \<noteq> fb_key (bmetas t b)" if "b \<in> used_fbs (bmetas s)" for b
      using nok [OF True that] keyo [OF that] kf by auto
    moreover have "inj_on (\<lambda>b. fb_key (bmetas t b)) (used_fbs (bmetas s))" using inj keyo by (simp add: inj_on_def)
    ultimately show ?thesis unfolding us by auto
  next
    case False
    then have "used_fbs (bmetas t) = used_fbs (bmetas s)" using us od(1) by auto
    then show ?thesis using inj keyo by (simp add: inj_on_def)
  qed
qed

lemma grown_filled:
  assumes g: "grown s t i f off fb" and du: "durable s" and f: "map_of (created_fhs s) i = Some f" and h: "map_of (created_fhs s) j = Some h"
  shows "file_filled t j h"
proof -
  let ?nw = "File_file_size s f = 0"
  note G = g [unfolded grown_def] and B = grown_fbs [OF g durable_file(4) [OF du f]]
  show ?thesis
  proof (cases "h = f")
    case True
    then have j: "j = i" using durable_file(6) [OF du f] h by simp
    show ?thesis
    proof (cases ?nw)
      case nw: True
      have n: "fb_key (bmetas t fb) = (i, 0)" "f_items (fobj t f) = [(0, fb)]" "fb \<notin> used_fbs (bmetas s)" using G nw by simp_all
      have "map_of (f_items (fobj t f)) x = Some b \<longleftrightarrow> b \<in> used_fbs (bmetas t) \<and> fb_key (bmetas t b) = (i, x)" for x b
      proof (cases "b \<in> used_fbs (bmetas s)")
        case True
        then have "fb_key (bmetas t b) \<noteq> (i, x)" "b \<noteq> fb" using B(2,4) nw n(3) by (metis fst_conv)+
        then show ?thesis using n(2) by auto
      qed (use n B(1) in auto)
      then show ?thesis unfolding True j file_filled_def using n(2) by simp
    next
      case False
      then have o: "fb \<in> used_fbs (bmetas s)" "f_items (fobj t f) = f_items (fobj s f)" using G by simp_all
      then have "used_fbs (bmetas t) = used_fbs (bmetas s)" using B(1) by auto
      then show ?thesis unfolding True j using durable_file(4) [OF du f] o(2) B(2) by (auto simp: file_filled_def)
    qed
  next
    case False
    then have "fobj t h = fobj s h" "j \<noteq> i" using G h f by auto
    moreover from this(2) have "b \<in> used_fbs (bmetas t) \<and> fb_key (bmetas t b) = (j, x) \<longleftrightarrow> b \<in> used_fbs (bmetas s) \<and> fb_key (bmetas s b) = (j, x)" for b x
      using B(1) B(2) [of b] B(3) by auto
    ultimately show ?thesis using durable_file(4) [OF du h] unfolding file_filled_def by simp
  qed
qed

lemma grown_fbs_sound:
  assumes g: "grown s t i f off fb" and du: "durable s" and f: "map_of (created_fhs s) i = Some f" and ext: "blocks_exclusive t"
    and uf: "used_files (fmetas t) = used_files (fmetas s)" and m: "m = max_block_num (block_handle t)"
  shows "fbs_sound (crc32 s) m (fmetas t) (bmetas t)"
  unfolding fbs_sound_def uf
proof (intro conjI)
  note G = g [unfolded grown_def] and B = grown_fbs [OF g durable_file(4) [OF du f]] and D = durableD [OF du]
  have own: "fb_ids (bmetas t b) = fb_owned t b" if "b \<in> used_fbs (bmetas t)" for b
    using that by (simp add: fb_ids_def fb_owned_def used_fbs_def)
  have "fb_sound (crc32 s) (bmetas t b)" if "b < 133554" for b
  proof (cases "b = fb")
    case True
    have "length (fb_block_id (bmetas t fb)) = 1000" "unat (fb_used_block_num (bmetas t fb)) \<le> 1000"
      using ext by (simp_all add: blocks_exclusive_def wf_bmetas_def)
    then show ?thesis using True G by (simp add: fb_sound_def)
  next
    case False
    then show ?thesis using D(4) that G by (simp add: metas_sound_def fbs_sound_def)
  qed
  then show "\<forall>b < 133554. fb_sound (crc32 s) (bmetas t b)" by blast
  show "inj_on (\<lambda>b. fb_key (bmetas t b)) (used_fbs (bmetas t))" using B(5) D(4) by (simp add: metas_sound_def fbs_sound_def)
  have "unat (fb_fh (bmetas t b)) \<in> used_files (fmetas s)" if b: "b \<in> used_fbs (bmetas t)" for b
  proof (cases "b = fb")
    case True
    then show ?thesis using B(3) durable_file(1) [OF du f] by (simp add: fb_key_def)
  next
    case False
    then have "b \<in> used_fbs (bmetas s)" "bmetas t b = bmetas s b" using b B(1) G by auto
    then show ?thesis using D(4) by (simp add: metas_sound_def fbs_sound_def)
  qed
  then show "\<forall>b \<in> used_fbs (bmetas t). unat (fb_fh (bmetas t b)) \<in> used_files (fmetas s) \<and> distinct (fb_ids (bmetas t b))
      \<and> (\<forall>x \<in> set (fb_ids (bmetas t b)). x < m)"
    using ext own unfolding m by (simp add: blocks_exclusive_def)
  show "\<forall>b \<in> used_fbs (bmetas t). \<forall>b' \<in> used_fbs (bmetas t). b \<noteq> b' \<longrightarrow> set (fb_ids (bmetas t b)) \<inter> set (fb_ids (bmetas t b')) = {}"
    using ext own by (simp add: blocks_exclusive_def)
qed

text \<open>The other files keep their shape.\<close>

lemma grown_others_wf:
  assumes g: "grown s t i f off fb" and du: "durable s" and f: "map_of (created_fhs s) i = Some f"
    and h: "map_of (created_fhs s) j = Some h" "h \<noteq> f"
  shows "file_wf t h"
proof -
  note G = g [unfolded grown_def]
  have o: "fobj t h = fobj s h" "j \<noteq> i" "\<And>b. b \<noteq> fb \<Longrightarrow> bmetas t b = bmetas s b" using G h f by auto
  have "bmetas t b = bmetas s b" if "(x, b) \<in> set (f_items (fobj s h))" for x b
  proof (rule o(3))
    show "b \<noteq> fb" using file_filled_items [OF durable_file(4) [OF du h(1)] that] G o(2) by (cases "File_file_size s f = 0") auto
  qed
  moreover have "fmetas t j = fmetas s j" using G o(2) by (metis fun_upd_other)
  then have "File_file_size t h = File_file_size s h" using o(1) durable_file(2) [OF du h(1)] by (simp add: File_file_size_def)
  ultimately have "file_wf t h = file_wf s h" using o(1) by (simp add: file_wf_def fb_owned_def split: list.splits)
  then show ?thesis using durableD(9) [OF du h(1)] by simp
qed

lemma ExtendFile_durable_state:
  assumes du: "durable s" and r: "ready s f" and f: "map_of (created_fhs s) i = Some f"
    and lt: "File_file_size s f < off" "off \<le> kBlockFsMaxUDiskSize" and e: "ExtendFile f off s = Some (0, t)"
  shows "durable t" "names_same s t" "j \<noteq> i \<Longrightarrow> fmetas t j = fmetas s j" "f_meta (fobj t g) = f_meta (fobj s g)"
proof -
  have ex: "blocks_exclusive s" and fmt: "formatted s" and wfl: "file_wf s f" and rg: "fbs_in_range s f" and fh: "File_fh s f < 100000"
    using r by (simp_all add: ready_def fs_ok_def)
  note D = durableD [OF du] and F = durable_file [OF du f]
  have so: "\<forall>j < 100000. file_sound (crc32 s) j (fmetas s j)" and fl: "files_sound (crc32 s) (dmetas s) (fmetas s)"
    using D(4) by (simp_all add: metas_sound_def files_sound_def)
  obtain fb where g: "grown s t i f off fb" and sy: "synced_but {0..<100000} {} {} t" and sv: "\<forall>j < 100000. file_saved t j" and cr: "file_crcs_ok {} t"
    using ExtendFile_grown [OF assms] by blast
  note G = g [unfolded grown_def]
  show nsm: "names_same s t" using G by blast
  show "j \<noteq> i \<Longrightarrow> fmetas t j = fmetas s j" "f_meta (fobj t g) = f_meta (fobj s g)" using G by (metis fun_upd_other)+
  note N = nsm [unfolded names_same_def]
  have iu: "fm_used (fmetas s i)" using F(1) by (simp add: used_files_def)
  note U = grown_files [OF g cr so iu]
  have ext: "blocks_exclusive t" by (rule ExtendFile_exclusive [OF ex file_wf_items_used [OF wfl] e])
  have mx: "max_block_num (block_handle t) = max_block_num (block_handle s)"
    using ExtendFile_data [OF fmt fh rg e] by (simp add: data_same_def)
  note bs = grown_fbs_sound [OF g du f ext U(1) refl]
  have ms: "metas_sound (max_block_num (block_handle t)) t"
  proof -
    have "files_sound (crc32 s) (dmetas s) (fmetas t)"
      unfolding files_sound_def U(1)
    proof (intro conjI)
      show "\<forall>j < 100000. file_sound (crc32 s) j (fmetas t j)" using U(4) by blast
    qed (use fl U(2,3) in \<open>simp_all add: files_sound_def\<close>)
    then show ?thesis using bs D(4) N by (simp add: metas_sound_def)
  qed
  have tb: "tables_ok t"
  proof -
    have ix: "indexed (\<lambda>i. file_key (fmetas s i)) (used_files (fmetas s)) (created_fhs s) (created_files s)" using D(6) by (simp add: tables_ok_def)
    have "indexed (\<lambda>i. file_key (fmetas t i)) (used_files (fmetas s)) (created_fhs s) (created_files s)"
      by (rule indexed_cong [OF ix]) (rule U(2))
    moreover have "made_for (\<lambda>f. f_meta (fobj t f)) (created_fhs s)" using D(6) G by (simp add: tables_ok_def made_for_def)
    moreover have "dir_filled t j x = dir_filled s j x" for j x using N U(3) by (simp add: dir_filled_def)
    ultimately show ?thesis using D(6) grown_filled [OF g du f] N U(1) unfolding tables_ok_def by simp
  qed
  have wf: "wf_metas (super_meta t) (dmetas t) (fmetas t) (bmetas t)"
  proof -
    have "wf_FileBlockMeta (bmetas t b)" if "b < 133554" for b
    proof -
      have "length (fb_block_id (bmetas t b)) = 1000" using bs that by (simp add: fbs_sound_def fb_sound_def)
      moreover have "fb_pad (bmetas t b) = fb_pad (bmetas s b)" using G by (cases "b = fb") simp_all
      ultimately show ?thesis using D(3) that by (simp add: wf_FileBlockMeta_def wf_metas_def)
    qed
    moreover have "wf_FileMeta (fmetas t j)" if "j < 100000" for j
    proof -
      have T: "fmetas t = (fmetas s)(i := (fmetas s i)\<lparr>fm_size := off, fm_crc := fm_crc (fmetas t i)\<rparr>)" using G by blast
      have "fm_file_name (fmetas t j) = fm_file_name (fmetas s j)" "fm_pad (fmetas t j) = fm_pad (fmetas s j)" by (subst T, simp)+
      then show ?thesis using D(3) that by (simp add: wf_metas_def wf_FileMeta_def)
    qed
    ultimately show ?thesis using D(3) G N by (simp add: wf_metas_def)
  qed
  have fw: "file_wf t h" if "map_of (created_fhs t) j = Some h" for j h
    using ExtendFile_extends(1) [OF ex wfl lt e] grown_others_wf [OF g du f, of j h] that N by (cases "h = f") simp_all
  have "super_meta t = format_super t" using D(7) G N by (simp add: format_super_def)
  moreover have "\<not> fb_used (bmetas t b)" if "133554 \<le> b" for b using D(5) [OF that] G that by (cases "b = fb") auto
  ultimately show "durable t" using sy sv wf ms tb fw D(8) mx G unfolding durable_def by simp
qed

section \<open>Writing keeps a state durable\<close>

text \<open>New times in memory, with their checksum, do not matter to the next mount.\<close>

lemma times_durable:
  assumes du: "durable s" and bt: "\<And>j. but_times (fm j) = but_times (fmetas s j)"
    and cr: "\<And>j. j < 100000 \<Longrightarrow> fm_crc (fm j) = crc32 s (body_FileMeta (fm j))"
  shows "durable (s\<lparr>fmetas := fm\<rparr>)" (is "durable ?t")
proof -
  note D = durableD [OF du] and E = but_times_fields [OF bt] and K = but_times_same(1) [OF bt]
  have fl: "files_sound (crc32 s) (dmetas s) fm" "used_files fm = used_files (fmetas s)"
    using files_sound_but_times [of "crc32 s" "dmetas s" "fmetas s" fm] D(4) bt cr by (simp_all add: metas_sound_def)
  have "metas_sound (max_block_num (block_handle ?t)) ?t"
    using D(4) fl by (simp add: metas_sound_def fbs_sound_def)
  moreover have "synced_but {0..<100000} {} {} ?t" using D(1) by (simp add: synced_but_def synced_defs)
  moreover have "\<forall>j < 100000. file_saved ?t j" using D(2) bt by (simp add: file_saved_def)
  moreover have "wf_metas (super_meta ?t) (dmetas ?t) (fmetas ?t) (bmetas ?t)"
    using D(3) but_times_same(2) [OF bt] by (simp add: wf_metas_def)
  moreover have "tables_ok ?t"
  proof -
    have "dir_filled ?t j x = dir_filled s j x" "file_filled ?t j x = file_filled s j x" for j x
      using E(3) by (simp_all add: dir_filled_def file_filled_def)
    then show ?thesis using D(6) K fl(2) by (simp add: tables_ok_def)
  qed
  moreover have "super_meta ?t = format_super ?t" using D(7) by (simp add: format_super_def)
  moreover have "file_wf ?t f = file_wf s f" for f
    using E(2) by (simp add: file_wf_def fb_owned_def File_file_size_def split: list.splits)
  ultimately show ?thesis using D(5,8,9) unfolding durable_def by simp
qed

lemma File_UpdateTimeStamp_durable:
  assumes "durable s"
  shows "durable (File_UpdateTimeStamp f n s)" "names_same s (File_UpdateTimeStamp f n s)"
proof -
  let ?i = "f_meta (fobj s f)"
  let ?m = "(fmetas s ?i)\<lparr>fm_mtime := n, fm_ctime := n\<rparr>"
  let ?fm = "(fmetas s)(?i := ?m\<lparr>fm_crc := crc32 s (body_FileMeta ?m)\<rparr>)"
  have e: "File_UpdateTimeStamp f n s = s\<lparr>fmetas := ?fm\<rparr>"
    by (simp add: File_UpdateTimeStamp_def file_crc_def upd_fmeta_def Let_def)
  show "names_same s (File_UpdateTimeStamp f n s)" by (simp add: e names_same_def)
  have "fm_crc (?fm j) = crc32 s (body_FileMeta (?fm j))" if "j < 100000" for j
    using durableD(4) [OF assms] that by (simp add: metas_sound_def files_sound_def file_sound_def body_FileMeta_def)
  moreover have "but_times (?fm j) = but_times (fmetas s j)" for j by (simp add: but_times_def)
  ultimately show "durable (File_UpdateTimeStamp f n s)" unfolding e by (intro times_durable [OF assms])
qed

lemma names_same_trans: "names_same s t \<Longrightarrow> names_same t u \<Longrightarrow> names_same s u"
  by (simp add: names_same_def)

lemma pwrite_durable:
  assumes du: "durable s" and r: "ready s f" and f: "map_of (created_fhs s) i = Some f"
    and sz: "sz \<noteq> 0" and len: "length buf = unat sz" and mx: "unat off + unat sz \<le> unat kBlockFsMaxUDiskSize"
    and w: "OpenFile_pwrite fd f buf sz off s = Some (int (unat sz), t)"
  shows "durable t" "names_same s t" "j \<noteq> i \<Longrightarrow> fmetas t j = fmetas s j" "f_meta (fobj t g) = f_meta (fobj s g)"
proof -
  have mx': "unat off + unat sz \<le> 140737488355328" using mx by (simp add: layout_consts)
  have sum: "unat (off + sz) = unat off + unat sz" using mx' by (simp add: unat_word_ariths)
  have le: "off + sz \<le> kBlockFsMaxUDiskSize" using mx sum by (simp add: word_le_nat_alt)
  have "0 < unat sz" using sz by (simp add: unat_gt_0)
  then have pos: "0 < int (unat sz)" by (simp only: of_nat_0_less_iff)
  obtain r1 s1 where g: "(if File_file_size s f < off + sz then ftruncate f (off + sz) s else Some (0, s)) = Some (r1, s1)" "\<not> r1 < 0"
    and w2: "WriteData False fd f sz off buf (if now s1 mod 2 = 0 then File_UpdateTimeStamp f (now s1) s1 else s1) = Some (int (unat sz), t)"
    using w sz pos by (auto simp: OpenFile_pwrite_def Let_def split: bind_splits if_splits)
  have "durable s1 \<and> names_same s s1 \<and> fs_ok s1 \<and> file_wf s1 f \<and> unat off + unat sz \<le> unat (File_file_size s1 f)
      \<and> (\<forall>j. j \<noteq> i \<longrightarrow> fmetas s1 j = fmetas s j) \<and> (\<forall>g. f_meta (fobj s1 g) = f_meta (fobj s g))"
  proof (cases "File_file_size s f < off + sz")
    case True
    have it: "items_used s f" "blocks_exclusive s" using r file_wf_items_used by (simp_all add: ready_def fs_ok_def)
    have e0: "ExtendFile f (off + sz) s = Some (r1, s1)" using g True by (simp add: ftruncate_def)
    then have "r1 = 0" using ExtendFile_ret [OF it(2,1) e0] g(2) by auto
    then have e: "ftruncate f (off + sz) s = Some (0, s1)" "ExtendFile f (off + sz) s = Some (0, s1)"
      using e0 True by (simp_all add: ftruncate_def)
    show ?thesis
      using ExtendFile_durable_state [OF du r f True le e(2)] ready_grow [OF r True le e(1)] sum by simp
  next
    case False
    then show ?thesis using g du r sum by (simp add: names_same_def ready_def word_less_nat_alt)
  qed
  then have s1: "durable s1" "names_same s s1" "fs_ok s1" "file_wf s1 f" "unat off + unat sz \<le> unat (File_file_size s1 f)"
    "\<forall>j. j \<noteq> i \<longrightarrow> fmetas s1 j = fmetas s j" "\<forall>g. f_meta (fobj s1 g) = f_meta (fobj s g)" by blast+
  define s2 where "s2 = (if now s1 mod 2 = 0 then File_UpdateTimeStamp f (now s1) s1 else s1)"
  have s2: "durable s2" "names_same s1 s2"
    using File_UpdateTimeStamp_durable [OF s1(1)] s1(1) by (simp_all add: s2_def names_same_def)
  have fi: "f_meta (fobj s f) = i" by (rule durable_file(2) [OF du f])
  have m2: "fmetas s2 j = fmetas s j" if "j \<noteq> i" for j
    using s1(6,7) that fi by (simp add: s2_def File_UpdateTimeStamp_def file_crc_def upd_fmeta_def Let_def)
  have f2: "f_meta (fobj s2 g) = f_meta (fobj s g)" for g
    using s1(7) by (simp add: s2_def File_UpdateTimeStamp_def file_crc_def upd_fmeta_def Let_def)
  have sf: "same_file s1 s2 f" "kern s2 = kern s1"
    using same_file_time by (auto simp: s2_def same_file_def)
  have ok2: "fs_ok s2" "file_wf s2 f" "unat off + unat sz \<le> unat (File_file_size s2 f)"
    using same_file_fs_ok [OF sf(1)] same_file_wf [OF sf(1)] s1 sf by (auto simp: fs_ok_def io_ok_def same_file_def)
  obtain k where k: "t = add_append_pos fd (int (unat sz)) (s2\<lparr>kern := k\<rparr>)"
    "\<forall>p. p \<notin> file_pos s2 (file_ids s2 f) ` {unat off..<unat off + unat sz} \<longrightarrow> k_disk k p = k_disk (kern s2) p"
    using WriteData_ok [OF ok2(1,2) sz ok2(3) len, of fd] w2 unfolding s2_def [symmetric] by auto
  have "k_disk k p = k_disk (kern s2) p" if p: "p < 675282944" for p
  proof -
    have "formatted s2" using ok2(1) by (simp add: fs_ok_def)
    then have "675282944 \<le> file_pos s2 (file_ids s2 f) j" for j using formatted_fields(4) by (simp add: file_pos_def)
    then have "p \<noteq> file_pos s2 (file_ids s2 f) j" for j using p not_le by metis
    then show ?thesis using k(2) by blast
  qed
  moreover have n: "names_same s2 t" by (simp add: k(1) names_same_def add_append_pos_def)
  ultimately show "durable t" by (intro durable_cong [OF s2(1) n]) (simp_all add: k(1) add_append_pos_def)
  show "names_same s t" using s1(2) s2(2) n names_same_trans by blast
  show "j \<noteq> i \<Longrightarrow> fmetas t j = fmetas s j" "f_meta (fobj t g) = f_meta (fobj s g)"
    using m2 f2 by (simp_all add: k(1) add_append_pos_def)
qed

end
