(* ===== verification/Name_Tree.thy ===== *)
theory Name_Tree
  imports Durable_Write
begin

text \<open>
  The file system as its users see it: names, each with the bytes of a file. \<open>live\<close> is the state of
  a mounted file system between calls; each call is shown to keep it, and to change the bytes that
  belong to the names in the obvious way.
\<close>

section \<open>Names and contents\<close>

text \<open>The file with a name in a directory, and the contents of all files.\<close>

definition file_at :: "fs \<Rightarrow> string \<times> string \<Rightarrow> nat option" where
  "file_at s k = (case map_of (created_dirs s) (fst k) of None \<Rightarrow> None | Some x \<Rightarrow> map_of (created_files s) (Dir_dh s x, snd k))"

definition tree_of :: "fs \<Rightarrow> string \<times> string \<Rightarrow> u8 list option" where
  "tree_of s k = map_option (file_content s) (file_at s k)"

definition live :: "fs \<Rightarrow> bool" where
  "live s \<longleftrightarrow> durable s \<and> fs_ok s \<and> map_of (created_dirs s) ''/'' \<noteq> None
     \<and> distinct (free_fhs s) \<and> (\<forall>i \<in> set (free_fhs s). i < 100000 \<and> \<not> fm_used (fmetas s i)) \<and> (\<forall>b \<in> set (free_fbhs s). b < 133554)
     \<and> distinct (free_fd_pool (fd_handle s))
     \<and> (\<forall>fd \<in> set (free_fd_pool (fd_handle s)). 0 \<le> fd \<and> map_of (open_files s) fd = None)"

lemma liveD:
  assumes "live s"
  shows "durable s" "fs_ok s" "map_of (created_dirs s) ''/'' \<noteq> None" "distinct (free_fhs s)"
    "i \<in> set (free_fhs s) \<Longrightarrow> i < 100000 \<and> \<not> fm_used (fmetas s i)" "b \<in> set (free_fbhs s) \<Longrightarrow> b < 133554"
    "distinct (free_fd_pool (fd_handle s))" "fd \<in> set (free_fd_pool (fd_handle s)) \<Longrightarrow> 0 \<le> fd \<and> map_of (open_files s) fd = None"
  using assms unfolding live_def by blast+

lemma durable_dirs:
  assumes "durable s"
  shows "indexed (dir_name_of s) (used_dirs (dmetas s)) (created_dhs s) (created_dirs s)" "made_for (\<lambda>d. d_meta (dobj s d)) (created_dhs s)"
    "indexed (\<lambda>i. file_key (fmetas s i)) (used_files (fmetas s)) (created_fhs s) (created_files s)"
    "made_for (\<lambda>f. f_meta (fobj s f)) (created_fhs s)"
  using durableD(6) [OF assms] by (simp_all add: tables_ok_def)

lemma file_at_created:
  assumes "durable s" "file_at s k = Some f"
  shows "\<exists>i. map_of (created_fhs s) i = Some f"
  using assms(2) indexed_lookup [OF durable_dirs(3,4) [OF assms(1)]] by (auto simp: file_at_def split: option.splits)

text \<open>A directory handle belongs to one directory, with one name.\<close>

lemma dir_dh_inj:
  assumes du: "durable s" and x: "map_of (created_dirs s) p = Some x" and y: "map_of (created_dirs s) q = Some y" and e: "Dir_dh s x = Dir_dh s y"
  shows "p = q" "x = y"
proof -
  show xy: "x = y" using durable_dir(1) [OF du x] durable_dir(1) [OF du y] unfolding e by simp
  show "p = q"
    using iffD1 [OF indexed_lookup [OF durable_dirs(1,2) [OF du]] x] iffD1 [OF indexed_lookup [OF durable_dirs(1,2) [OF du]] y] xy by simp
qed

lemma file_at_inj:
  assumes du: "durable s" and k: "file_at s k = Some f" "file_at s k' = Some f"
  shows "k = k'"
proof -
  obtain x x' where x: "map_of (created_dirs s) (fst k) = Some x" "map_of (created_files s) (Dir_dh s x, snd k) = Some f"
    and x': "map_of (created_dirs s) (fst k') = Some x'" "map_of (created_files s) (Dir_dh s x', snd k') = Some f"
    using k by (auto simp: file_at_def split: option.splits)
  have "(Dir_dh s x, snd k) = (Dir_dh s x', snd k')"
    using iffD1 [OF indexed_lookup [OF durable_dirs(3,4) [OF du]] x(2)] iffD1 [OF indexed_lookup [OF durable_dirs(3,4) [OF du]] x'(2)] by simp
  then have e: "Dir_dh s x = Dir_dh s x'" and n: "snd k = snd k'" by simp_all
  show ?thesis using dir_dh_inj(1) [OF du x(1) x'(1) e] n by (simp add: prod_eq_iff)
qed

lemma live_ready:
  assumes "live s" "map_of (created_fhs s) i = Some f"
  shows "ready s f"
proof -
  note L = liveD [OF assms(1)] and F = durable_file [OF liveD(1) [OF assms(1)] assms(2)]
  have "b < 133554" if "(c, b) \<in> set (f_items (fobj s f))" for c b
    using file_filled_items [OF F(4) that] by (simp add: used_fbs_def)
  then have "fbs_in_range s f" using L(6) by (auto simp: fbs_in_range_def)
  then show ?thesis using L(2) F(1,5) durableD(9) [OF L(1) assms(2)] by (simp add: ready_def used_files_def)
qed

lemma live_spare: "live s \<Longrightarrow> i \<in> set (free_fhs s) \<Longrightarrow> spare_file s i"
  using liveD(1) [of s] liveD(5) [of s i] durableD(4) [of s] by (auto simp: spare_file_def metas_sound_def files_sound_def file_sound_def)

text \<open>Different files have different blocks.\<close>

lemma created_apart:
  assumes du: "durable s" and f: "map_of (created_fhs s) i = Some f" and g: "map_of (created_fhs s) j = Some g" and n: "f \<noteq> g"
  shows "apart s f g"
proof -
  have "i \<noteq> j" using f g n by auto
  then have "snd ` set (f_items (fobj s f)) \<inter> snd ` set (f_items (fobj s g)) = {}"
    using file_filled_items [OF durable_file(4) [OF du f]] file_filled_items [OF durable_file(4) [OF du g]] by fastforce
  then show ?thesis using n by (simp add: apart_def)
qed

text \<open>Calls that neither write data nor move blocks leave the contents alone.\<close>

lemma file_content_cong:
  assumes "formatted s" "f_items (fobj t g) = f_items (fobj s f)" "File_file_size t g = File_file_size s f" "bmetas t = bmetas s"
    "super_meta t = super_meta s" "\<forall>p \<ge> 675282944. k_disk (kern t) p = k_disk (kern s) p"
  shows "file_content t g = file_content s f"
proof -
  have "file_ids t g = file_ids s f" unfolding file_ids_def fb_owned_def assms(2,4) ..
  moreover have "675282944 \<le> file_pos s ids j" for ids j using formatted_fields(4) [OF assms(1)] by (simp add: file_pos_def)
  ultimately have "file_byte t g j = file_byte s f j" for j using assms(5,6) by (simp add: file_byte_def file_pos_def)
  then show ?thesis using assms(3) by (simp add: file_content_def)
qed

lemma names_same_file_at: "names_same s t \<Longrightarrow> file_at t = file_at s"
  by (intro ext) (simp add: names_same_def file_at_def Dir_dh_def split: option.split)

lemma file_at_path:
  assumes "dir_path d" "length d < 768" "plain_name n" "length n < 64"
  shows "file_at s (d, n) = Some f \<Longrightarrow> GetCreatedFile (d @ n) s = (Some f, s)"
  using GetCreatedFile_path [OF assms] by (auto simp: file_at_def split: option.splits)

section \<open>creat\<close>

lemma creat_step:
  assumes L: "live s" and p: "dir_path d" "length d < 768" "plain_name n" "length n < 64"
    and dir: "map_of (created_dirs s) d = Some x" and new: "file_at s (d, n) = None" and fr: "free_fhs s = i # rest"
  shows "\<exists>t f. FileSystem_CreateFile (d @ n) s = (0, t) \<and> live t \<and> file_at t = (file_at s)((d, n) \<mapsto> f)
     \<and> tree_of t = (tree_of s)((d, n) \<mapsto> []) \<and> created_dirs t = created_dirs s \<and> open_files t = open_files s \<and> dev t = dev s"
proof -
  let ?f = "fobj_next s" and ?dh = "Dir_dh s x"
  note D = liveD [OF L]
  have fmt: "formatted s" and dv: "675282944 \<le> unat (dev_size (dev s))"
    using D(2) formatted_fields(4) [of s] by (simp_all add: fs_ok_def data_ok_def)
  have sp: "spare_file s i" using live_spare [OF L] fr by simp
  have nm: "NUL \<notin> set n" using p(3) by (simp add: plain_name_def)
  have nf: "map_of (created_files s) (?dh, n) = None" using new dir by (simp add: file_at_def)
  have tp: "FileHandle_TransformPath (d @ n) s = (Some (d, n), s)" by (rule FileHandle_TransformPath_path [OF p(1,3,4)])
  have gd: "GetCreatedDirectory d s = (Some x, s)" using GetCreatedDirectory_path [OF p(1,2)] dir by simp
  have nc: "\<not> amap_contains (?dh, n) (created_files s)" using nf by simp
  obtain t v where t: "CreateFile (d @ n) False s = (Some ?f, t)" "created_files t = amap_put (?dh, n) ?f (created_files s)"
    "File_file_size t ?f = 0" "fobj t ?f = File_new i"
    "created_dirs t = created_dirs s" "dmetas t = dmetas s" "\<forall>y. d_meta (dobj t y) = d_meta (dobj s y)"
    "\<forall>g < ?f. fobj t g = fobj s g" "\<forall>j. j \<noteq> i \<longrightarrow> fmetas t j = fmetas s j" "free_fhs t = rest" "open_files t = open_files s"
    "fd_handle t = fd_handle s" "blocks_same s t" "fs_ok t"
    "File_WriteMeta_fh i (with_file s i ?dh n) = (True, v)" "t = set_errno 0 (AddFileToDirectory x ?f v)"
    using CreateFile_some [OF D(2) dv tp gd nc fr sp p(4) nm] by blast
  note du = create_durable [OF D(1) fmt dir nf p(3,4) sp t(15,16)]
  have ni: "i \<notin> set rest" "distinct rest" using D(4) fr by simp_all
  have "j < 100000 \<and> \<not> fm_used (fmetas t j)" if "j \<in> set rest" for j
    using D(5) [of j] that fr ni(1) t(9) by auto
  then have lv: "live t" using du(1) t(5,10-14) D(3,6-8) ni(2) by (simp add: live_def blocks_same_def)
  have dh: "Dir_dh t y = Dir_dh s y" for y using t(6,7) by (simp add: Dir_dh_def)
  have fa: "file_at t = (file_at s)((d, n) \<mapsto> ?f)"
  proof
    fix k
    show "file_at t k = ((file_at s)((d, n) \<mapsto> ?f)) k"
    proof (cases "map_of (created_dirs s) (fst k)")
      case None
      then show ?thesis using dir by (auto simp: file_at_def t(5))
    next
      case (Some y)
      have "k = (d, n)" if "Dir_dh s y = ?dh" "snd k = n"
        using dir_dh_inj(1) [OF D(1) Some dir that(1)] that(2) by (simp add: prod_eq_iff)
      then have "(Dir_dh s y, snd k) = (?dh, n) \<longleftrightarrow> k = (d, n)" using Some dir by auto
      moreover have "file_at t k = map_of (amap_put (?dh, n) ?f (created_files s)) (Dir_dh s y, snd k)"
        using Some by (simp add: file_at_def t(2,5) dh)
      moreover have "file_at s k = map_of (created_files s) (Dir_dh s y, snd k)" using Some by (simp add: file_at_def)
      ultimately show ?thesis unfolding amap_put_lookup fun_upd_apply by (simp only: eq_commute [of k])
    qed
  qed
  have old: "file_content t g = file_content s g" if k: "file_at s k = Some g" for k g
  proof -
    obtain j where j: "map_of (created_fhs s) j = Some g" using file_at_created [OF D(1) k] by blast
    note F = durable_file(1-3) [OF D(1) j]
    have "j \<noteq> i" using sp F(1) by (auto simp: spare_file_def used_files_def)
    then have "fobj t g = fobj s g" "fmetas t j = fmetas s j" using F(3) t(8,9) by simp_all
    then show ?thesis
      using fmt F(2) t(13) by (intro file_content_cong) (simp_all add: blocks_same_def File_file_size_def)
  qed
  have "tree_of t k = ((tree_of s)((d, n) \<mapsto> [])) k" for k
    using old [of k] t(3) by (cases "k = (d, n)"; cases "file_at s k") (simp_all add: tree_of_def fa file_content_def)
  then have "tree_of t = (tree_of s)((d, n) \<mapsto> [])" by (rule ext)
  moreover have "FileSystem_CreateFile (d @ n) s = (0, t)" using t(1) by (simp add: FileSystem_CreateFile_def)
  ultimately show ?thesis using lv fa t(5,11,13) by (intro exI [of _ t] exI [of _ ?f]) (simp add: blocks_same_def)
qed

text \<open>With no file handle left, \<open>creat\<close> fails.\<close>

lemma creat_full:
  assumes "dir_path d" "length d < 768" "plain_name n" "length n < 64" "map_of (created_dirs s) d = Some x"
    "file_at s (d, n) = None" "free_fhs s = []"
  shows "\<exists>t. FileSystem_CreateFile (d @ n) s = (- 1, t)"
proof -
  have "\<not> amap_contains (Dir_dh s x, n) (created_files s)" using assms(5,6) by (simp add: file_at_def)
  then show ?thesis
    using FileHandle_TransformPath_path [OF assms(1,3,4)] GetCreatedDirectory_path [OF assms(1,2)] assms(5,7)
    by (auto simp: FileSystem_CreateFile_def CreateFile_def NewFile_def NewFreeFileNolock_def new_free_file_def split: prod.splits)
qed

section \<open>open\<close>

lemma no_dir_at_path:
  assumes "plain_name n" "length (d @ n) < 767" "map_of (created_dirs s) (d @ n @ ''/'') = None"
  shows "GetCreatedDirectory (d @ n) s = (None, s)"
proof -
  have "\<not> ends_with_slash (d @ n)"
    using last_plain_name [OF assms(1)] assms(1) by (simp add: ends_with_slash_def plain_name_def)
  then show ?thesis using assms(2,3) by (simp add: GetCreatedDirectory_def DirHandle_TransformPath_def layout_consts)
qed

lemma open_step:
  assumes L: "live s" and p: "dir_path d" "length d < 768" "plain_name n" "length n < 64"
    and nd: "length (d @ n) < 767" "map_of (created_dirs s) (d @ n @ ''/'') = None"
    and f: "file_at s (d, n) = Some f" and fd: "free_fd_pool (fd_handle s) = fd # rest"
  shows "\<exists>t. FileHandle_open (d @ n) O_RDWR s = Some (fd, t) \<and> live t \<and> file_at t = file_at s \<and> tree_of t = tree_of s
     \<and> created_dirs t = created_dirs s \<and> open_files t = amap_put fd \<lparr>of_file = f, of_append_pos = 0\<rparr> (open_files s) \<and> dev t = dev s"
proof -
  note D = liveD [OF L]
  obtain i where i: "map_of (created_fhs s) i = Some f" using file_at_created [OF D(1) f] by blast
  note ds = no_dir_at_path [OF p(3) nd]
  obtain t where t: "FileHandle_open (d @ n) O_RDWR s = Some (fd, t)" "ready t f" "blocks_same s t" "fmetas t = fmetas s"
    "\<forall>g. f_items (fobj t g) = f_items (fobj s g)" "\<forall>g. f_meta (fobj t g) = f_meta (fobj s g)" "k_disk (kern t) = k_disk (kern s)"
    "names_same s t" "open_files t = amap_put fd \<lparr>of_file = f, of_append_pos = 0\<rparr> (open_files s)"
    "fd_handle t = (fd_handle s)\<lparr>free_fd_pool := rest\<rparr>"
    using open_existing [OF ds file_at_path [OF p f] fd live_ready [OF L i]] by blast
  note N = t(8) [unfolded names_same_def] and B = t(3) [unfolded blocks_same_def]
  have du: "durable t" by (rule durable_cong [OF D(1) t(8,4)]) (use B t(5-7) in simp_all)
  have fdn: "x \<noteq> fd" if "x \<in> set rest" for x using that D(7) fd by auto
  then have "live t" using du t(2,4,9,10) B N D(3-8) fd by (simp add: live_def ready_def)
  moreover note fa = names_same_file_at [OF t(8)]
  moreover have "file_content t g = file_content s g" for g
    using D(2) t(4-7) B by (intro file_content_cong) (simp_all add: File_file_size_def fs_ok_def)
  then have "file_content t = file_content s" by (rule ext)
  then have "tree_of t = tree_of s" by (intro ext) (simp add: tree_of_def fa)
  ultimately show ?thesis using t(1,9) N B by (intro exI [of _ t]) simp
qed

lemma open_full:
  assumes L: "live s" and p: "dir_path d" "length d < 768" "plain_name n" "length n < 64"
    and nd: "length (d @ n) < 767" "map_of (created_dirs s) (d @ n @ ''/'') = None"
    and f: "file_at s (d, n) = Some f" and fd: "free_fd_pool (fd_handle s) = []"
  shows "\<exists>t. FileHandle_open (d @ n) O_RDWR s = Some (- 1, t)"
proof -
  note ds = no_dir_at_path [OF p(3) nd]
  have "open_file (d @ n) O_RDWR s = Some (Some f, s)"
    by (simp add: open_file_def IsNeedCreateTempFile_def VerifyOpenExistFileFlag_def ds file_at_path [OF p f])
  moreover have "fs_get_fd s = (- 1, set_errno EMFILE s)" by (simp add: fs_get_fd_def get_fd_def fd set_errno_def)
  ultimately show ?thesis by (simp add: FileHandle_open_def Let_def)
qed
section \<open>pwrite\<close>

lemma map_of_open_refs: "map_of (open_refs s) fd = map_option of_file (map_of (open_files s) fd)"
proof -
  have "map_of (map (\<lambda>(fd, x). (fd, of_file x)) m) fd = map_option of_file (map_of m fd)" for m by (induction m) auto
  then show ?thesis by (simp add: open_refs_def)
qed

lemma tree_of_write:
  assumes du: "durable s" and k: "file_at s k = Some f" and fa: "file_at t = file_at s"
    and c: "file_content t f = bs" and o: "\<And>k' g. file_at s k' = Some g \<Longrightarrow> g \<noteq> f \<Longrightarrow> file_content t g = file_content s g"
  shows "tree_of t = (tree_of s)(k \<mapsto> bs)"
proof
  fix k'
  show "tree_of t k' = ((tree_of s)(k \<mapsto> bs)) k'"
  proof (cases "k' = k")
    case True
    then show ?thesis using k c by (simp add: tree_of_def fa)
  next
    case False
    have "g \<noteq> f" if "file_at s k' = Some g" for g using file_at_inj [OF du _ k] that False by blast
    then show ?thesis using False o [of k'] by (cases "file_at s k'") (simp_all add: tree_of_def fa)
  qed
qed

lemma pwrite_step:
  assumes L: "live s" and x: "map_of (open_files s) fd = Some x" and k: "file_at s k = Some (of_file x)"
    and buf: "buf \<noteq> []" "unat off \<le> length (file_content s (of_file x))" "unat off + length buf \<le> unat kBlockFsMaxUDiskSize"
  shows "\<exists>r t. PwriteFile fd buf (word_of_nat (length buf)) off s = Some (r, t)
     \<and> (r = - 1 \<and> \<not> can_grow s (of_file x) (unat off + length buf)
       \<or> r = int (length buf) \<and> live t \<and> file_at t = file_at s \<and> created_dirs t = created_dirs s \<and> open_refs t = open_refs s \<and> dev t = dev s
         \<and> tree_of t = (tree_of s)(k \<mapsto> spec_write (unat off) buf (file_content s (of_file x))))"
proof -
  let ?f = "of_file x" and ?sz = "word_of_nat (length buf) :: u64"
  note D = liveD [OF L]
  obtain i where i: "map_of (created_fhs s) i = Some ?f" using file_at_created [OF D(1) k] by blast
  have r: "ready s ?f" by (rule live_ready [OF L i])
  have "length buf < 2 ^ 64" using buf(3) by (simp add: layout_consts)
  then have sz: "unat ?sz = length buf" by (simp add: unsigned_of_nat take_bit_nat_eq_self)
  have nz: "?sz \<noteq> 0" using sz buf(1) by (metis length_0_conv unat_0)
  have mx: "unat off + unat ?sz \<le> unat kBlockFsMaxUDiskSize" using buf(3) sz by simp
  have of: "unat off \<le> unat (File_file_size s ?f)" using buf(2) by simp
  obtain rr t where w: "PwriteFile fd buf ?sz off s = Some (rr, t)" and
    c: "rr = - 1 \<or> rr = int (length buf) \<and> ready t ?f \<and> file_content t ?f = spec_write (unat off) buf (file_content s ?f)"
    using write_refines [OF r buf(1) of buf(3) x refl] by blast
  have w': "OpenFile_pwrite fd ?f buf ?sz off s = Some (rr, t)" using w x by (simp add: PwriteFile_def GetOpenFile_some)
  from pwrite_file [OF r nz sz [symmetric] mx, of fd] w'
  have why: "\<not> can_grow s ?f (unat off + length buf)" if "rr = - 1" using that sz by auto
  show ?thesis
  proof (cases "rr = - 1")
    case True
    then show ?thesis using w why by blast
  next
    case False
    then have a: "rr = int (length buf)" "ready t ?f" "file_content t ?f = spec_write (unat off) buf (file_content s ?f)" using c by simp_all
    have w2: "OpenFile_pwrite fd ?f buf ?sz off s = Some (int (unat ?sz), t)" using w' a(1) sz by simp
    note P = pwrite_durable [OF D(1) r i nz sz [symmetric] mx w2]
    note N = P(2) [unfolded names_same_def]
    have fl: "open_refs t = open_refs s" "fd_handle t = fd_handle s"
      using OpenFile_pwrite_link [OF w'] by (simp_all add: fd_link_def)
    have "map_of (open_files t) fd' = None \<longleftrightarrow> map_of (open_files s) fd' = None" for fd'
      using arg_cong [OF fl(1), of "\<lambda>m. map_of m fd'"] by (auto simp: map_of_open_refs)
    moreover have "j \<noteq> i" if "j \<in> set (free_fhs s)" for j
      using durable_file(1) [OF D(1) i] D(5) [OF that] by (auto simp: used_files_def)
    moreover have "fs_ok t" "\<forall>b \<in> set (free_fbhs t). b < 133554" using a(2) by (simp_all add: ready_def fbs_in_range_def)
    ultimately have lv: "live t" using P(1,3) N fl(2) D(3-5,7,8) by (simp add: live_def)
    note fa = names_same_file_at [OF P(2)]
    have "file_content t g = file_content s g" if g: "file_at s k' = Some g" "g \<noteq> ?f" for k' g
    proof -
      obtain j where j: "map_of (created_fhs s) j = Some g" using file_at_created [OF D(1) g(1)] by blast
      have ap: "apart s ?f g" using created_apart [OF D(1) i j] g(2) by blast
      have wg: "file_wf s g" by (rule durableD(9) [OF D(1) j])
      note O = pwrite_others [OF r nz sz [symmetric] mx wg ap w2]
      have "f_meta (fobj s g) = j" "j \<noteq> i" using durable_file(2) [OF D(1) j] i j g(2) by auto
      then have fs: "File_file_size t g = File_file_size s g" using P(3,4) by (simp add: File_file_size_def)
      have "unat (File_file_size s g) \<le> length (file_ids s g) * 4194304"
      proof (cases "File_file_size s g = 0")
        case False
        then show ?thesis using file_wf_slots [OF _ wg] D(2) by (simp add: fs_ok_def)
      qed simp
      then have "file_byte t g m = file_byte s g m" if "m < unat (File_file_size s g)" for m using O(2) that by simp
      then show ?thesis by (simp add: file_content_def fs)
    qed
    then have "tree_of t = (tree_of s)(k \<mapsto> spec_write (unat off) buf (file_content s ?f))"
      by (intro tree_of_write [OF D(1) k fa a(3)])
    then show ?thesis using w a(1) lv fa N fl(1) by blast
  qed
qed
section \<open>pread\<close>

lemma live_append_pos:
  assumes L: "live s" and k: "k_disk k = k_disk (kern s)" "benign (k_script k)" and t: "t = add_append_pos fd n (s\<lparr>kern := k\<rparr>)"
  shows "live t \<and> file_at t = file_at s \<and> tree_of t = tree_of s \<and> created_dirs t = created_dirs s \<and> open_refs t = open_refs s \<and> dev t = dev s"
proof -
  note D = liveD [OF L]
  have nm: "names_same s t" by (simp add: t names_same_def add_append_pos_def)
  have o: "fmetas t = fmetas s" "bmetas t = bmetas s" "super_meta t = super_meta s" "dev t = dev s" "fobj t = fobj s" "kern t = k"
    "block_handle t = block_handle s" "free_fbhs t = free_fbhs s" "free_fhs t = free_fhs s" "fd_handle t = fd_handle s"
    "created_dirs t = created_dirs s" "created_files t = created_files s" "\<And>x. Dir_dh t x = Dir_dh s x" "\<And>x. File_file_size t x = File_file_size s x"
    by (simp_all add: t add_append_pos_def Dir_dh_def File_file_size_def)
  have du: "durable t" by (rule durable_cong [OF D(1) nm]) (simp_all add: o k(1))
  have ok: "fs_ok t" by (rule fs_ok_cong [OF D(2)]) (use o k(2) D(2) in \<open>simp_all add: fs_ok_def io_ok_def\<close>)
  have "map_of (open_files t) fd' = None \<longleftrightarrow> map_of (open_files s) fd' = None" for fd' by (simp add: t map_of_add_append_pos)
  then have "live t" using du ok D(3-8) o by (simp add: live_def)
  moreover note fa = names_same_file_at [OF nm]
  moreover have "file_content t g = file_content s g" for g
    using D(2) by (intro file_content_cong) (simp_all add: o k(1) fs_ok_def)
  then have "file_content t = file_content s" by (rule ext)
  then have "tree_of t = tree_of s" by (intro ext) (simp add: tree_of_def fa)
  moreover have "open_refs t = open_refs s" by (simp add: t add_append_pos_def open_refs_def case_prod_unfold)
  ultimately show ?thesis using o by simp
qed

lemma pread_step:
  assumes L: "live s" and x: "map_of (open_files s) fd = Some x" and k: "file_at s k = Some (of_file x)" and le: "unat off + unat n < 2 ^ 64"
  shows "\<exists>r buf t. PreadFile fd n off (replicate (unat n) 0) s = Some ((r, buf), t)
     \<and> take (nat r) buf = spec_read (unat off) (unat n) (file_content s (of_file x))
     \<and> live t \<and> file_at t = file_at s \<and> tree_of t = tree_of s \<and> created_dirs t = created_dirs s \<and> open_refs t = open_refs s \<and> dev t = dev s"
proof -
  let ?f = "of_file x"
  obtain i where i: "map_of (created_fhs s) i = Some ?f" using file_at_created [OF liveD(1) [OF L] k] by blast
  have r: "ready s ?f" by (rule live_ready [OF L i])
  obtain r' buf t where p: "PreadFile fd n off (replicate (unat n) 0) s = Some ((r', buf), t)"
    "take (nat r') buf = spec_read (unat off) (unat n) (file_content s ?f)" using read_refines [OF r le x refl] by blast
  have o: "OpenFile_pread fd ?f n off (replicate (unat n) 0) s = Some ((r', buf), t)" using p(1) x by (simp add: PreadFile_def GetOpenFile_some)
  have "t = s \<or> (\<exists>m k. t = add_append_pos fd m (s\<lparr>kern := k\<rparr>) \<and> k_disk k = k_disk (kern s) \<and> benign (k_script k))"
  proof (cases "n = 0 \<or> File_file_size s ?f \<le> off")
    case True
    then show ?thesis using o by (auto simp: OpenFile_pread_def)
  next
    case False
    then have lt: "n \<noteq> 0" "off < File_file_size s ?f" by auto
    have ok: "fs_ok s" "file_wf s ?f" using r by (simp_all add: ready_def)
    from pread_file [OF ok lt le _ refl, of "replicate (unat n) 0" fd] o show ?thesis by auto
  qed
  then show ?thesis using p L live_append_pos [OF L] by blast
qed

section \<open>Mounting again\<close>

lemma remount_step:
  assumes L: "live s" and op: "opens env (''/dev/'' @ nm) (dev_size (dev s))" and nm: "dev_name (dev s) = ''/dev/'' @ nm"
  shows "\<exists>t. MountFileSystem env (nm # names) (Some format_uuid) s = Some (0, t) \<and> live t \<and> tree_of t = tree_of s
     \<and> dom (map_of (created_dirs t)) = dom (map_of (created_dirs s)) \<and> open_refs t = [] \<and> dev_size (dev t) = dev_size (dev s)
     \<and> dev_name (dev t) = dev_name (dev s)"
proof -
  note D = liveD [OF L]
  obtain t where t: "MountFileSystem env (nm # names) (Some format_uuid) s = Some (0, t)" "durable t" "fs_ok t" "free_rest t"
    "k_disk (kern t) = k_disk (kern s)" "super_meta t = super_meta s" "dev_size (dev t) = dev_size (dev s)" "open_files t = []"
    "fd_handle t = FdHandle_new" "same_metas s t" "dev_name (dev t) = dev_name (dev s)"
    using mount_durable [OF D(1,2) op nm D(3), of "[]" names] by auto
  note dn = remount_dir_name [OF D(1) t(2,10)] and fn = remount_file_name [OF D(1) t(2,10)]
  have dm: "map_of (created_dirs t) p = None \<longleftrightarrow> map_of (created_dirs s) p = None" for p using dn [of p] by fastforce
  have fr: "free_fhs t = filter (\<lambda>i. \<not> fm_used (fmetas t i)) [0..<100000]" "free_fbhs t = filter (\<lambda>i. \<not> fb_used (bmetas t i)) [0..<133554]"
    using t(4) by (simp_all only: free_rest_def)
  have "distinct (free_fhs t)" "\<And>i. i \<in> set (free_fhs t) \<Longrightarrow> i < 100000 \<and> \<not> fm_used (fmetas t i)" "\<And>b. b \<in> set (free_fbhs t) \<Longrightarrow> b < 133554"
    unfolding fr by simp_all
  moreover have "distinct (free_fd_pool (fd_handle t))" "\<And>fd. fd \<in> set (free_fd_pool (fd_handle t)) \<Longrightarrow> 0 \<le> fd"
    using fd_inv_new unfolding t(9) fd_inv_def by auto
  ultimately have "live t" using t(2,3,8) D(3) dm by (simp add: live_def)
  moreover have "tree_of t k = tree_of s k" for k
  proof (cases "map_of (created_dirs s) (fst k)")
    case None
    then show ?thesis using dm [of "fst k"] by (simp add: tree_of_def file_at_def)
  next
    case (Some x)
    then obtain x' where x': "map_of (created_dirs t) (fst k) = Some x'" "Dir_dh t x' = Dir_dh s x" using dn(2) by blast
    show ?thesis
    proof (cases "map_of (created_files s) (Dir_dh s x, snd k)")
      case None
      then show ?thesis using Some x' fn(1) by (simp add: tree_of_def file_at_def)
    next
      case (Some f)
      from fn(2) [OF this] obtain g i where g: "map_of (created_files t) (Dir_dh s x, snd k) = Some g"
        "map_of (created_fhs s) i = Some f" "map_of (created_fhs t) i = Some g" by blast
      have "file_content t g = file_content s f" by (rule remount_content(2) [OF D(1) t(2,10,3-6) g(2,3)])
      then show ?thesis using Some g(1) x' \<open>map_of (created_dirs s) (fst k) = Some x\<close> by (simp add: tree_of_def file_at_def)
    qed
  qed
  moreover have "dom (map_of (created_dirs t)) = dom (map_of (created_dirs s))" using dm by (auto simp: dom_def)
  ultimately show ?thesis using t(1,7,8,11) by (intro exI [of _ t]) (simp add: open_refs_def fun_eq_iff)
qed

end
