(* ===== verification/Sessions.thy ===== *)
theory Sessions
  imports Name_Tree
begin

text \<open>
  Sessions: what was created and written before the file system is mounted again is found after it.
\<close>

section \<open>A device just formatted\<close>

lemma fresh_durable:
  assumes sy: "meta_synced u" and ok: "fs_ok u" and sm: "super_meta u = format_super u" and sz: "max_block_num (block_handle u) = ucast (sb_curr_block_num (super_meta u))"
    and d: "dmetas u = dmetas (dir_crc 0 (with_dir s0 0 ''/''))" "crc32 s0 = crc32 u" "\<forall>i < 100000. dmetas s0 i = format_dmeta (crc32 u) i"
    and fm: "\<forall>i < 100000. fmetas u i = format_fmeta (crc32 u) i"
    and bm: "\<forall>i. bmetas u i = (if i < 133554 then format_bmeta (crc32 u) i else FileBlockMeta_zero)"
    and cd: "created_dirs u = [(''/'', x)]" "created_dhs u = [(0, x)]" "dobj u x = Directory_new 0" "x < dobj_next u"
    and cf: "created_files u = []" "created_fhs u = []"
  shows "durable u"
proof -
  have d0: "dm_used (dmetas u 0)" "cstr (dm_dir_name (dmetas u 0)) = ''/''" "dm_dh (dmetas u 0) = word_of_nat 0"
    "dm_crc (dmetas u 0) = crc32 u (body_DirMeta (dmetas u 0))" "dir_name_of u 0 = ''/''" "wf_DirMeta (dmetas u 0)"
    using cstr_memcpy_cstr [of "''/''" 768 "behind s0"] meta_dir_name_memcpy [of "''/''", where m = "dmetas s0 0" and b = "behind s0"] d(2,3) wf_format(1)
    by (simp_all add: d(1) dir_crc_def upd_dmeta_def with_dir_def named_dir_def body_DirMeta_def meta_dir_name_def wf_DirMeta_def memcpy_cstr_def)
  have di: "dmetas u i = format_dmeta (crc32 u) i" if "0 < i" "i < 100000" for i
    using that d by (simp add: dir_crc_def upd_dmeta_def with_dir_def)
  have ud: "used_dirs (dmetas u) = {0}"
    using d0(1) di format_unused(1) by (auto simp: used_dirs_def) (metis gr0I)
  have uf: "used_files (fmetas u) = {}" using fm format_unused(2) by (auto simp: used_files_def)
  have ub: "used_fbs (bmetas u) = {}" using bm format_unused(3) by (auto simp: used_fbs_def)
  have "dirs_sound (crc32 u) (dmetas u)"
    unfolding dirs_sound_def ud
  proof (intro conjI allI impI)
    fix i :: nat assume i: "i < 100000"
    show "dm_crc (dmetas u i) = crc32 u (body_DirMeta (dmetas u i))" using d0(4) di [OF _ i] format_crc(1) by (cases "i = 0") simp_all
    assume "dm_used (dmetas u i)"
    then have "i = 0" using ud i by (auto simp: used_dirs_def)
    then show "cstr (dm_dir_name (dmetas u i)) \<noteq> []" "dm_dh (dmetas u i) = word_of_nat i" using d0(2,3) by simp_all
  qed (use d0(5) in \<open>simp_all add: IsMountPoint_def\<close>)
  moreover have "files_sound (crc32 u) (dmetas u) (fmetas u)"
    using fm format_crc(2) format_unused(2) unfolding files_sound_def uf
    by (simp add: file_sound_def) (simp add: format_fmeta_def FileMeta_zero_def Let_def)
  moreover have "fbs_sound (crc32 u) m (fmetas u) (bmetas u)" for m
    using bm format_crc(3) format_unused(3) unfolding fbs_sound_def ub
    by (simp add: fb_sound_def) (simp add: format_bmeta_def FileBlockMeta_zero_def Let_def)
  ultimately have ms: "metas_sound (max_block_num (block_handle u)) u" by (simp add: metas_sound_def)
  have sv: "file_saved u i" if "i < 100000" for i
    using sy that fm format_crc(2) by (auto simp: file_saved_def synced_but_def file_synced_def)
  have wf: "wf_metas (super_meta u) (dmetas u) (fmetas u) (bmetas u)"
  proof -
    have "wf_SuperBlockMeta (super_meta u)" using wf_SuperBlock_layout unfolding sm format_super_def by (simp add: wf_SuperBlockMeta_def)
    moreover have "wf_DirMeta (dmetas u i)" if "i < 100000" for i using d0(6) di [OF _ that] wf_format(1) by (cases "i = 0") simp_all
    ultimately show ?thesis using fm bm wf_format by (simp add: wf_metas_def)
  qed
  have tb: "tables_ok u"
    using cd cf d0(5) unfolding tables_ok_def ud uf
    by (auto simp: indexed_def made_for_def dir_filled_def Directory_new_def IsMountPoint_def)
  have "\<not> fb_used (bmetas u i)" if "133554 \<le> i" for i using bm that by (simp add: FileBlockMeta_zero_def)
  then show ?thesis using synced_mono_F [OF sy, of "{0..<100000}"] sv wf ms tb sm sz cf unfolding durable_def by simp
qed

section \<open>Sessions\<close>

text \<open>The calls of a program, with the mount it may do at any time, and what they return.\<close>

datatype fs_call =
    Creat string string
  | Open string string
  | Pwrite int u64 "u8 list"
  | Pread int u64 u64
  | Remount

datatype outcome = Ret int | Bytes "u8 list"

fun code_call :: "blk_env \<Rightarrow> string list \<Rightarrow> fs_call \<Rightarrow> fs \<Rightarrow> (outcome \<times> fs) option" where
  "code_call env names (Creat d n) s = (let (r, t) = FileSystem_CreateFile (d @ n) s in Some (Ret r, t))"
| "code_call env names (Open d n) s = do { (r, t) \<leftarrow> FileHandle_open (d @ n) O_RDWR s; Some (Ret r, t) }"
| "code_call env names (Pwrite fd off buf) s = do { (r, t) \<leftarrow> PwriteFile fd buf (word_of_nat (length buf)) off s; Some (Ret r, t) }"
| "code_call env names (Pread fd off n) s = do {
     ((r, buf), t) \<leftarrow> PreadFile fd n off (replicate (unat n) 0) s;
     Some (Bytes (take (nat r) buf), t) }"
| "code_call env names Remount s = do { (r, t) \<leftarrow> MountFileSystem env names (Some format_uuid) s; Some (Ret r, t) }"

text \<open>
  The specification: a map from names to bytes, and the names behind the descriptors in use. \<open>legal\<close>
  says which calls it covers, \<open>promised\<close> what they return, and \<open>advance\<close> what they do.
\<close>

type_synonym spec = "(string \<times> string \<Rightarrow> u8 list option) \<times> (int \<Rightarrow> (string \<times> string) option)"

definition good_name :: "string set \<Rightarrow> string \<Rightarrow> string \<Rightarrow> bool" where
  "good_name D d n \<longleftrightarrow> d \<in> D \<and> dir_path d \<and> plain_name n \<and> length n < 64 \<and> length (d @ n) < 767 \<and> d @ n @ ''/'' \<notin> D"

fun legal :: "string set \<Rightarrow> fs_call \<Rightarrow> spec \<Rightarrow> bool" where
  "legal D (Creat d n) (m, h) \<longleftrightarrow> good_name D d n \<and> m (d, n) = None"
| "legal D (Open d n) (m, h) \<longleftrightarrow> good_name D d n \<and> m (d, n) \<noteq> None"
| "legal D (Pwrite fd off buf) (m, h) \<longleftrightarrow> h fd \<noteq> None \<and> buf \<noteq> [] \<and> unat off \<le> length (the (m (the (h fd))))
     \<and> unat off + length buf \<le> unat kBlockFsMaxUDiskSize"
| "legal D (Pread fd off n) (m, h) \<longleftrightarrow> h fd \<noteq> None \<and> unat off + unat n < 2 ^ 64"
| "legal D Remount (m, h) \<longleftrightarrow> True"

fun promised :: "fs_call \<Rightarrow> outcome \<Rightarrow> spec \<Rightarrow> bool" where
  "promised (Creat d n) x (m, h) \<longleftrightarrow> x = Ret 0"
| "promised (Open d n) x (m, h) \<longleftrightarrow> (\<exists>fd \<ge> 0. x = Ret fd \<and> h fd = None)"
| "promised (Pwrite fd off buf) x (m, h) \<longleftrightarrow> x = Ret (int (length buf))"
| "promised (Pread fd off n) x (m, h) \<longleftrightarrow> x = Bytes (spec_read (unat off) (unat n) (the (m (the (h fd)))))"
| "promised Remount x (m, h) \<longleftrightarrow> x = Ret 0"

fun advance :: "fs_call \<Rightarrow> outcome \<Rightarrow> spec \<Rightarrow> spec" where
  "advance (Creat d n) x (m, h) = (m((d, n) \<mapsto> []), h)"
| "advance (Open d n) x (m, h) = (m, case x of Ret fd \<Rightarrow> h(fd \<mapsto> (d, n)) | Bytes _ \<Rightarrow> h)"
| "advance (Pwrite fd off buf) x (m, h) = (let k = the (h fd) in (m(k \<mapsto> spec_write (unat off) buf (the (m k))), h))"
| "advance (Pread fd off n) x (m, h) = (m, h)"
| "advance Remount x (m, h) = (m, \<lambda>_. None)"

text \<open>A call fails for lack of handles, descriptors or room only.\<close>

fun exhausted :: "fs_call \<Rightarrow> fs \<Rightarrow> bool" where
  "exhausted (Creat d n) s \<longleftrightarrow> free_fhs s = []"
| "exhausted (Open d n) s \<longleftrightarrow> free_fd_pool (fd_handle s) = []"
| "exhausted (Pwrite fd off buf) s \<longleftrightarrow> \<not> can_grow s (of_file (the (map_of (open_files s) fd))) (unat off + length buf)"
| "exhausted (Pread fd off n) s \<longleftrightarrow> False"
| "exhausted Remount s \<longleftrightarrow> False"

text \<open>The state of the code behind a state of the specification.\<close>

definition dirs_of :: "fs \<Rightarrow> string set" where
  "dirs_of s = dom (map_of (created_dirs s))"

definition represents :: "fs \<Rightarrow> spec \<Rightarrow> bool" where
  "represents s a \<longleftrightarrow> live s \<and> tree_of s = fst a
     \<and> (\<forall>fd. map_of (open_refs s) fd = (case snd a fd of None \<Rightarrow> None | Some k \<Rightarrow> file_at s k))
     \<and> (\<forall>fd k. snd a fd = Some k \<longrightarrow> file_at s k \<noteq> None)"

inductive session :: "blk_env \<Rightarrow> string list \<Rightarrow> fs \<times> spec \<Rightarrow> fs \<times> spec \<Rightarrow> bool" for env names where
  session_call: "legal (dirs_of s) c a \<Longrightarrow> code_call env names c s = Some (x, t) \<Longrightarrow> x \<noteq> Ret (- 1)
     \<Longrightarrow> session env names (s, a) (t, advance c x a)"

inductive_cases session_cases: "session env names (s, a) (t, b)"

section \<open>The code refines the specification\<close>

lemma representsD:
  assumes "represents s (m, h)"
  shows "live s" "tree_of s = m" "map_of (open_refs s) fd = (case h fd of None \<Rightarrow> None | Some k \<Rightarrow> file_at s k)"
    "h fd = Some k \<Longrightarrow> file_at s k \<noteq> None" "m k = map_option (file_content s) (file_at s k)"
proof -
  show r: "live s" "tree_of s = m" "map_of (open_refs s) fd = (case h fd of None \<Rightarrow> None | Some k \<Rightarrow> file_at s k)"
    "h fd = Some k \<Longrightarrow> file_at s k \<noteq> None"
    using assms unfolding represents_def fst_conv snd_conv by blast+
  show "m k = map_option (file_content s) (file_at s k)" unfolding r(2) [symmetric] by (simp add: tree_of_def)
qed

lemma represents_handle:
  assumes R: "represents s (m, h)" and k: "h fd = Some k"
  shows "\<exists>x. map_of (open_files s) fd = Some x \<and> file_at s k = Some (of_file x) \<and> m k = Some (file_content s (of_file x))"
proof -
  obtain f where f: "file_at s k = Some f" using representsD(4) [OF R k] by auto
  then have "map_of (open_refs s) fd = Some f" using representsD(3) [OF R, of fd] k by simp
  then show ?thesis using f representsD(5) [OF R, of k] by (auto simp: map_of_open_refs)
qed

text \<open>Calls that keep the names and the descriptors.\<close>

lemma represents_keep:
  assumes R: "represents s (m, h)" and t: "live t" "file_at t = file_at s" "open_refs t = open_refs s" "tree_of t = m'"
  shows "represents t (m', h)"
  using assms unfolding represents_def fst_conv snd_conv t(2) by simp

lemma good_nameD:
  assumes "good_name (dirs_of s) d n"
  shows "dir_path d" "length d < 768" "plain_name n" "length n < 64" "length (d @ n) < 767" "map_of (created_dirs s) (d @ n @ ''/'') = None"
    "\<exists>x. map_of (created_dirs s) d = Some x"
  using assms by (auto simp: good_name_def dirs_of_def dom_def)

lemma creat_refines:
  assumes R: "represents s (m, h)" and l: "legal (dirs_of s) (Creat d n) (m, h)"
  shows "\<exists>x t. code_call env names (Creat d n) s = Some (x, t) \<and>
     (x = Ret (- 1) \<and> exhausted (Creat d n) s \<or> promised (Creat d n) x (m, h) \<and> represents t (advance (Creat d n) x (m, h))
        \<and> dirs_of t = dirs_of s \<and> dev_size (dev t) = dev_size (dev s) \<and> dev_name (dev t) = dev_name (dev s))"
proof -
  have g: "good_name (dirs_of s) d n" and "m (d, n) = None" using l by simp_all
  note G = good_nameD [OF g]
  obtain dir where dir: "map_of (created_dirs s) d = Some dir" using G(7) by blast
  have new: "file_at s (d, n) = None" using representsD(5) [OF R, of "(d, n)"] \<open>m (d, n) = None\<close> by simp
  show ?thesis
  proof (cases "free_fhs s")
    case Nil
    then show ?thesis using creat_full [OF G(1-4) dir new] by auto
  next
    case (Cons i rest)
    from creat_step [OF representsD(1) [OF R] G(1-4) dir new Cons] obtain t f where
      t: "FileSystem_CreateFile (d @ n) s = (0, t)" "live t" "file_at t = (file_at s)((d, n) \<mapsto> f)"
        "tree_of t = (tree_of s)((d, n) \<mapsto> [])" "created_dirs t = created_dirs s" "open_files t = open_files s" "dev t = dev s" by blast
    have "file_at t k = file_at s k" if "h fd = Some k" for fd k
    proof -
      have "k \<noteq> (d, n)" using representsD(4) [OF R that] new by auto
      then show ?thesis by (simp add: t(3))
    qed
    then have "represents t (m((d, n) \<mapsto> []), h)"
      using t(2,4,6) R by (auto simp: represents_def map_of_open_refs split: option.split)
    then show ?thesis using t(1,5,7) by (auto simp: dirs_of_def)
  qed
qed

lemma open_refines:
  assumes R: "represents s (m, h)" and l: "legal (dirs_of s) (Open d n) (m, h)"
  shows "\<exists>x t. code_call env names (Open d n) s = Some (x, t) \<and>
     (x = Ret (- 1) \<and> exhausted (Open d n) s \<or> promised (Open d n) x (m, h) \<and> represents t (advance (Open d n) x (m, h))
        \<and> dirs_of t = dirs_of s \<and> dev_size (dev t) = dev_size (dev s) \<and> dev_name (dev t) = dev_name (dev s))"
proof -
  have g: "good_name (dirs_of s) d n" and "m (d, n) \<noteq> None" using l by simp_all
  note G = good_nameD [OF g] and L = representsD(1) [OF R]
  obtain f where f: "file_at s (d, n) = Some f" using representsD(5) [OF R, of "(d, n)"] \<open>m (d, n) \<noteq> None\<close> by auto
  show ?thesis
  proof (cases "free_fd_pool (fd_handle s)")
    case Nil
    then show ?thesis using open_full [OF L G(1-6) f] by auto
  next
    case (Cons fd rest)
    from open_step [OF L G(1-6) f Cons] obtain t where
      t: "FileHandle_open (d @ n) O_RDWR s = Some (fd, t)" "live t" "file_at t = file_at s" "tree_of t = tree_of s"
        "created_dirs t = created_dirs s" "open_files t = amap_put fd \<lparr>of_file = f, of_append_pos = 0\<rparr> (open_files s)" "dev t = dev s" by blast
    have fd: "0 \<le> fd" "map_of (open_files s) fd = None" using liveD(8) [OF L, of fd] Cons by simp_all
    have hf: "h fd = None"
    proof (cases "h fd")
      case (Some k)
      then show ?thesis using represents_handle [OF R Some] fd(2) by auto
    qed
    have "represents t (m, h(fd \<mapsto> (d, n)))"
      using t(2,4,6) R f unfolding represents_def t(3) by (simp add: map_of_open_refs)
    then show ?thesis using t(1,5,7) fd(1) hf by (auto simp: dirs_of_def)
  qed
qed

lemma pwrite_refines:
  assumes R: "represents s (m, h)" and l: "legal (dirs_of s) (Pwrite fd off buf) (m, h)"
  shows "\<exists>x t. code_call env names (Pwrite fd off buf) s = Some (x, t) \<and>
     (x = Ret (- 1) \<and> exhausted (Pwrite fd off buf) s \<or> promised (Pwrite fd off buf) x (m, h)
        \<and> represents t (advance (Pwrite fd off buf) x (m, h)) \<and> dirs_of t = dirs_of s \<and> dev_size (dev t) = dev_size (dev s) \<and> dev_name (dev t) = dev_name (dev s))"
proof -
  obtain k where k: "h fd = Some k" using l by auto
  obtain x where x: "map_of (open_files s) fd = Some x" "file_at s k = Some (of_file x)" "m k = Some (file_content s (of_file x))"
    using represents_handle [OF R k] by blast
  have b: "buf \<noteq> []" "unat off \<le> length (file_content s (of_file x))" "unat off + length buf \<le> unat kBlockFsMaxUDiskSize"
    using l k x(3) by simp_all
  from pwrite_step [OF representsD(1) [OF R] x(1,2) b] obtain r t where
    w: "PwriteFile fd buf (word_of_nat (length buf)) off s = Some (r, t)" and
    c: "r = - 1 \<and> \<not> can_grow s (of_file x) (unat off + length buf)
       \<or> r = int (length buf) \<and> live t \<and> file_at t = file_at s \<and> created_dirs t = created_dirs s \<and> open_refs t = open_refs s \<and> dev t = dev s
         \<and> tree_of t = (tree_of s)(k \<mapsto> spec_write (unat off) buf (file_content s (of_file x)))" by blast
  from c show ?thesis
  proof
    assume "r = - 1 \<and> \<not> can_grow s (of_file x) (unat off + length buf)"
    then show ?thesis using w x(1) by auto
  next
    assume a: "r = int (length buf) \<and> live t \<and> file_at t = file_at s \<and> created_dirs t = created_dirs s \<and> open_refs t = open_refs s \<and> dev t = dev s
         \<and> tree_of t = (tree_of s)(k \<mapsto> spec_write (unat off) buf (file_content s (of_file x)))"
    then have "represents t (m(k \<mapsto> spec_write (unat off) buf (file_content s (of_file x))), h)"
      using represents_keep [OF R] representsD(2) [OF R] by simp
    then show ?thesis using a w k x(3) by (simp add: dirs_of_def Let_def)
  qed
qed

lemma pread_refines:
  assumes R: "represents s (m, h)" and l: "legal (dirs_of s) (Pread fd off n) (m, h)"
  shows "\<exists>x t. code_call env names (Pread fd off n) s = Some (x, t) \<and> promised (Pread fd off n) x (m, h)
     \<and> represents t (advance (Pread fd off n) x (m, h)) \<and> dirs_of t = dirs_of s \<and> dev_size (dev t) = dev_size (dev s) \<and> dev_name (dev t) = dev_name (dev s)"
proof -
  obtain k where k: "h fd = Some k" using l by auto
  obtain x where x: "map_of (open_files s) fd = Some x" "file_at s k = Some (of_file x)" "m k = Some (file_content s (of_file x))"
    using represents_handle [OF R k] by blast
  have "unat off + unat n < 2 ^ 64" using l by simp
  from pread_step [OF representsD(1) [OF R] x(1,2) this] obtain r buf t where
    t: "PreadFile fd n off (replicate (unat n) 0) s = Some ((r, buf), t)" "take (nat r) buf = spec_read (unat off) (unat n) (file_content s (of_file x))"
      "live t" "file_at t = file_at s" "tree_of t = tree_of s" "created_dirs t = created_dirs s" "open_refs t = open_refs s" "dev t = dev s" by blast
  have "represents t (m, h)" using represents_keep [OF R t(3,4,7)] t(5) representsD(2) [OF R] by simp
  then show ?thesis using t(1,2,6,8) k x(3) by (simp add: dirs_of_def)
qed

lemma remount_refines:
  assumes R: "represents s (m, h)" and op: "opens env (''/dev/'' @ nm) (dev_size (dev s))" "dev_name (dev s) = ''/dev/'' @ nm"
  shows "\<exists>x t. code_call env (nm # names) Remount s = Some (x, t) \<and> promised Remount x (m, h)
     \<and> represents t (advance Remount x (m, h)) \<and> dirs_of t = dirs_of s \<and> dev_size (dev t) = dev_size (dev s) \<and> dev_name (dev t) = dev_name (dev s)"
proof -
  from remount_step [OF representsD(1) [OF R] op, of names] obtain t where
    t: "MountFileSystem env (nm # names) (Some format_uuid) s = Some (0, t)" "live t" "tree_of t = tree_of s"
      "dom (map_of (created_dirs t)) = dom (map_of (created_dirs s))" "open_refs t = []" "dev_size (dev t) = dev_size (dev s)"
      "dev_name (dev t) = dev_name (dev s)" by blast
  have "represents t (m, \<lambda>_. None)" using t(2,3,5) representsD(2) [OF R] by (simp add: represents_def)
  then show ?thesis using t(1,4,6,7) by (simp add: dirs_of_def)
qed

lemma call_refines:
  assumes R: "represents s a" and l: "legal (dirs_of s) c a" and op: "opens env (''/dev/'' @ nm) (dev_size (dev s))" "dev_name (dev s) = ''/dev/'' @ nm"
  shows "\<exists>x t. code_call env (nm # names) c s = Some (x, t) \<and>
     (x = Ret (- 1) \<and> exhausted c s \<or> promised c x a \<and> represents t (advance c x a) \<and> dirs_of t = dirs_of s \<and> dev_size (dev t) = dev_size (dev s) \<and> dev_name (dev t) = dev_name (dev s))"
proof -
  obtain m h where a: "a = (m, h)" by (cases a)
  note R = R [unfolded a] and l = l [unfolded a]
  show ?thesis
  proof (cases c)
    case (Creat d n)
    show ?thesis unfolding a Creat by (rule creat_refines [OF R l [unfolded Creat]])
  next
    case (Open d n)
    show ?thesis unfolding a Open by (rule open_refines [OF R l [unfolded Open]])
  next
    case (Pwrite fd off buf)
    show ?thesis unfolding a Pwrite by (rule pwrite_refines [OF R l [unfolded Pwrite]])
  next
    case (Pread fd off n)
    show ?thesis unfolding a Pread using pread_refines [OF R l [unfolded Pread]] by blast
  next
    case Remount
    show ?thesis unfolding a Remount using remount_refines [OF R op] by blast
  qed
qed

text \<open>Along a session.\<close>

lemma session_represents:
  assumes "rtranclp (session env (nm # names)) x y" and "represents (fst x) (snd x)" and "opens env (''/dev/'' @ nm) (dev_size (dev (fst x)))"
    and "dev_name (dev (fst x)) = ''/dev/'' @ nm"
  shows "represents (fst y) (snd y) \<and> dirs_of (fst y) = dirs_of (fst x) \<and> dev_size (dev (fst y)) = dev_size (dev (fst x))
     \<and> dev_name (dev (fst y)) = dev_name (dev (fst x))"
  using assms(1)
proof (induction rule: rtranclp_induct)
  case base
  show ?case using assms(2) by simp
next
  case (step y z)
  obtain s a where y: "y = (s, a)" by (cases y)
  from step.hyps(2) [unfolded y] obtain c r t where c: "legal (dirs_of s) c a" "code_call env (nm # names) c s = Some (r, t)" "r \<noteq> Ret (- 1)"
    and z: "z = (t, advance c r a)" by (cases rule: session.cases) auto
  have "opens env (''/dev/'' @ nm) (dev_size (dev s))" "dev_name (dev s) = ''/dev/'' @ nm" using step.IH assms(3,4) y by simp_all
  from call_refines [OF _ c(1) this, of names] step.IH c(2,3) show ?case by (auto simp: y z)
qed

lemma fresh_mount:
  assumes op: "opens env (''/dev/'' @ nm) sz" "675282944 \<le> unat sz" "unat sz < 420109877248" and b: "benign (k_script (kern s))"
  shows "\<exists>t u. FileSystem_Format env (''/dev/'' @ nm) s = (True, t)
     \<and> MountFileSystem env (nm # names) (Some format_uuid) t = Some (0, u)
     \<and> represents u (\<lambda>_. None, \<lambda>_. None) \<and> dirs_of u = {''/''} \<and> dev_size (dev u) = sz
     \<and> dev_name (dev u) = ''/dev/'' @ nm"
proof -
  obtain t u s0 where t: "FileSystem_Format env (''/dev/'' @ nm) s = (True, t)" "MountFileSystem env (nm # names) (Some format_uuid) t = Some (0, u)"
    "created_dirs u = [(''/'', dobj_next t)]" "Dir_dh u (dobj_next t) = 0" "created_dhs u = [(0, dobj_next t)]"
    "dobj u (dobj_next t) = Directory_new 0" "created_files u = []" "created_fhs u = []" "open_files u = []" "fd_handle u = FdHandle_new"
    "free_fhs u = [0..<100000]" "free_fbhs u = [0..<133554]" "\<forall>i < 100000. fmetas u i = format_fmeta (crc32 s) i" "dev_size (dev u) = sz"
    "fs_ok u" "meta_synced u" "dobj_next u = Suc (dobj_next t)"
    "dmetas u = dmetas (dir_crc 0 (with_dir s0 0 ''/''))" "crc32 s0 = crc32 s" "\<forall>i < 100000. dmetas s0 i = format_dmeta (crc32 s) i"
    "\<forall>i. bmetas u i = (if i < 133554 then format_bmeta (crc32 s) i else FileBlockMeta_zero)" "crc32 u = crc32 s"
    "super_meta u = (SuperBlock_layout sz)\<lparr>sb_crc := crc32 s (body_SuperBlockMeta (SuperBlock_layout sz))\<rparr>"
    "max_block_num (block_handle u) = ucast (sb_curr_block_num (super_meta u))" "dev_name (dev u) = ''/dev/'' @ nm"
    using mount_fresh [OF assms, of "[]" names] by auto
  have sm: "super_meta u = format_super u" using t(14,22,23) by (simp add: format_super_def)
  have "durable u"
  proof (rule fresh_durable [OF t(16,15) sm t(24,18)])
    show "dobj_next t < dobj_next u" unfolding t(17) by (rule lessI)
  qed (use t(3,5-8,13,19-22) in simp_all)
  moreover have "distinct (free_fd_pool (fd_handle u))" "\<And>fd. fd \<in> set (free_fd_pool (fd_handle u)) \<Longrightarrow> 0 \<le> fd"
    using fd_inv_new unfolding t(10) fd_inv_def by auto
  moreover have "i < 100000 \<and> \<not> fm_used (fmetas u i)" if "i \<in> set (free_fhs u)" for i
    using that t(13) format_unused(2) unfolding t(11) by simp
  moreover have "b < 133554" if "b \<in> set (free_fbhs u)" for b using that unfolding t(12) by simp
  moreover have "distinct (free_fhs u)" unfolding t(11) by simp
  ultimately have "live u" using t(3,9,15) by (simp add: live_def)
  moreover have "tree_of u = (\<lambda>_. None)" by (intro ext) (simp add: tree_of_def file_at_def t(3,7))
  ultimately have "represents u (\<lambda>_. None, \<lambda>_. None)" using t(9) by (simp add: represents_def map_of_open_refs)
  then show ?thesis using t(1,2,14,25) by (intro exI [of _ t] exI [of _ u]) (simp add: dirs_of_def t(3))
qed

section \<open>What holds across mounts\<close>

text \<open>
  C1. The file system refines its specification, a map from names to bytes. On a new device that is
  formatted and mounted, let a program make any sequence of \<open>creat\<close> (of new names), \<open>open\<close>, \<open>pwrite\<close>
  (of at least one byte, starting at or before the end of the file) and \<open>pread\<close>
  calls on files of the mount point (\<open>legal\<close>), and mount the device, which is the first one
  listed, again whenever it likes. The files then
  have exactly the contents that the specification gives them, and the next call is defined: it
  returns what the specification promises (the bytes last written, also after a mount), or it fails
  with -1 because handles, descriptors or room are used up. A mount or a read never fails.
\<close>

theorem file_system_refines:
  assumes "opens env (''/dev/'' @ nm) sz" and "675282944 \<le> unat sz" and "unat sz < 420109877248" and "benign (k_script (kern s))"
  shows "\<exists>t u. FileSystem_Format env (''/dev/'' @ nm) s = (True, t)
     \<and> MountFileSystem env (nm # names) (Some format_uuid) t = Some (0, u)
     \<and> (\<forall>v a. rtranclp (session env (nm # names)) (u, (\<lambda>_. None, \<lambda>_. None)) (v, a) \<longrightarrow>
          tree_of v = fst a
        \<and> (\<forall>c. legal {''/''} c a \<longrightarrow> (\<exists>x w. code_call env (nm # names) c v = Some (x, w)
              \<and> (promised c x a \<and> tree_of w = fst (advance c x a) \<or> x = Ret (- 1) \<and> exhausted c v))))"
proof -
  obtain t u where t: "FileSystem_Format env (''/dev/'' @ nm) s = (True, t)"
    "MountFileSystem env (nm # names) (Some format_uuid) t = Some (0, u)"
    "represents u (\<lambda>_. None, \<lambda>_. None)" "dirs_of u = {''/''}" "dev_size (dev u) = sz" "dev_name (dev u) = ''/dev/'' @ nm"
    using fresh_mount [OF assms] by blast
  have "represents v a \<and> dirs_of v = {''/''} \<and> dev_size (dev v) = sz \<and> dev_name (dev v) = ''/dev/'' @ nm"
    if "rtranclp (session env (nm # names)) (u, (\<lambda>_. None, \<lambda>_. None)) (v, a)" for v a
    using session_represents [OF that] t(3-6) assms(1) by simp
  then have R: "represents v a" "dirs_of v = {''/''}" "opens env (''/dev/'' @ nm) (dev_size (dev v))" "dev_name (dev v) = ''/dev/'' @ nm"
    if "rtranclp (session env (nm # names)) (u, (\<lambda>_. None, \<lambda>_. None)) (v, a)" for v a
    using that assms(1) by simp_all
  have "\<exists>x w. code_call env (nm # names) c v = Some (x, w) \<and> (promised c x a \<and> tree_of w = fst (advance c x a) \<or> x = Ret (- 1) \<and> exhausted c v)"
    if r: "rtranclp (session env (nm # names)) (u, (\<lambda>_. None, \<lambda>_. None)) (v, a)" and l: "legal {''/''} c a" for v a c
  proof -
    have "legal (dirs_of v) c a" using l R(2) [OF r] by simp
    from call_refines [OF R(1) [OF r] this R(3,4) [OF r], of names] show ?thesis by (auto simp: represents_def)
  qed
  moreover have "tree_of v = fst a" if "rtranclp (session env (nm # names)) (u, (\<lambda>_. None, \<lambda>_. None)) (v, a)" for v a
    using R(1) [OF that] by (simp add: represents_def)
  ultimately show ?thesis using t(1,2) by blast
qed

text \<open>
  C2. Mounting again: when memory, tables and disk agree on the metadata (\<open>durable\<close>, which holds
  after the first mount and is kept by \<open>creat\<close>, \<open>open\<close>, \<open>pwrite\<close> and \<open>pread\<close>), a mount succeeds,
  whatever devices with other uuids are listed before the one that is mounted, and
  finds every directory and every file under its path, in any directory, with the bytes it had; a
  path that led nowhere still leads nowhere, and the new state agrees with the disk again.
\<close>

theorem remount_keeps:
  assumes "durable s" and "fs_ok s" and "opens env (''/dev/'' @ nm) (dev_size (dev s))" and "dev_name (dev s) = ''/dev/'' @ nm"
    and "map_of (created_dirs s) ''/'' \<noteq> None" and "\<forall>b \<in> set before. uuid_of (''/dev/'' @ b) s \<noteq> format_uuid"
  shows "\<exists>u. MountFileSystem env (before @ nm # after) (Some format_uuid) s = Some (0, u) \<and> durable u \<and> fs_ok u
     \<and> (\<forall>p. fst (GetCreatedDirectory p u) = None \<longleftrightarrow> fst (GetCreatedDirectory p s) = None)
     \<and> (\<forall>p. case fst (GetCreatedFile p s) of
              None \<Rightarrow> fst (GetCreatedFile p u) = None
            | Some f \<Rightarrow> \<exists>g. GetCreatedFile p u = (Some g, u) \<and> ready u g \<and> file_content u g = file_content s f)"
proof -
  obtain u where u: "MountFileSystem env (before @ nm # after) (Some format_uuid) s = Some (0, u)" "durable u" "fs_ok u" "free_rest u"
    "k_disk (kern u) = k_disk (kern s)" "super_meta u = super_meta s" "same_metas s u"
    using mount_durable [OF assms, of after] by blast
  note D = remount_dir [OF assms(1) u(2,7)] and F = remount_file [OF assms(1) u(2,7)]
  have "fst (GetCreatedDirectory p u) = None \<longleftrightarrow> fst (GetCreatedDirectory p s) = None" for p
    using D(1) [of p] D(2) [of p] by (cases "fst (GetCreatedDirectory p s)") (force+)
  moreover have "\<exists>g. GetCreatedFile p u = (Some g, u) \<and> ready u g \<and> file_content u g = file_content s f"
    if "fst (GetCreatedFile p s) = Some f" for p f
    using F(2) [OF that] remount_content [OF assms(1) u(2,7,3-6)] by blast
  ultimately show ?thesis using u(1-3) F(1) by (intro exI [of _ u]) (auto split: option.split)
qed

end
