(* ===== verification/Demo_Sessions.thy ===== *)
theory Demo_Sessions
  imports Sessions Demo_Device
begin

text \<open>The properties of sessions applied to the device of \<open>Demo_Device\<close>.\<close>

theorem file_system_refines_witness:
  "\<exists>u x w. tree_of u = (\<lambda>_. None) \<and> code_call demo_env [''vdb''] (Creat ''/'' ''a'') u = Some (x, w)
     \<and> (x = Ret 0 \<and> tree_of w (''/'', ''a'') = Some [] \<or> x = Ret (- 1) \<and> free_fhs u = [])"
proof -
  obtain u where u: "\<And>v a. rtranclp (session demo_env [''vdb'']) (u, (\<lambda>_. None, \<lambda>_. None)) (v, a) \<Longrightarrow>
          tree_of v = fst a
        \<and> (\<forall>c. legal {''/''} c a \<longrightarrow> (\<exists>x w. code_call demo_env [''vdb''] c v = Some (x, w)
              \<and> (promised c x a \<and> tree_of w = fst (advance c x a) \<or> x = Ret (- 1) \<and> exhausted c v)))"
    using file_system_refines [OF demo_opens demo_size demo_start_benign, of "[]"] by blast
  have l: "legal {''/''} (Creat ''/'' ''a'') (\<lambda>_. None, \<lambda>_. None)" by (simp add: good_name_def dir_path_def plain_name_def)
  show ?thesis using u [OF rtranclp.rtrancl_refl] l by fastforce
qed

theorem remount_keeps_witness:
  "\<exists>s u. MountFileSystem demo_env [''vdb''] (Some format_uuid) s = Some (0, u) \<and> durable u"
proof -
  obtain t u where u: "represents u (\<lambda>_. None, \<lambda>_. None)" "dev_size (dev u) = 1073741824" "dev_name (dev u) = ''/dev/'' @ ''vdb''"
    using fresh_mount [OF demo_opens demo_size demo_start_benign, of "[]"] by blast
  have op: "opens demo_env (''/dev/'' @ ''vdb'') (dev_size (dev u))" using demo_opens u(2) by simp
  have l: "live u" using u(1) by (simp add: represents_def)
  from remount_keeps [OF liveD(1,2) [OF l] op u(3) liveD(3) [OF l], of "[]" "[]"] show ?thesis by auto
qed

end
