(* ===== verification/Host_Files.thy ===== *)
theory Host_Files
  imports Config_Load
begin

text \<open>
  What the command line tools do with the host: text conversions, and the loop that copies a range of
  a device to a file, which \<open>tool/block_fs_tool.cc\<close> and \<open>tool/block_fs_extract_device.cc\<close> share line by
  line. The locale \<open>device_reader\<close> is what the loop relies on; it is interpreted for the device of the
  file system and for a raw descriptor.
\<close>

section \<open>Text\<close>

text \<open>\<open>atol\<close>; \<open>None\<close> when the number does not fit, which is undefined.\<close>

definition atol :: "string \<Rightarrow> int option" where
  "atol str =
     (let s = dropWhile isspace (takeWhile (\<lambda>c. c \<noteq> NUL) str);
          (neg, s) = (case s of [] \<Rightarrow> (False, [])
             | c # cs \<Rightarrow> if c = CHR ''-'' then (True, cs) else if c = CHR ''+'' then (False, cs) else (False, s));
          v = digits_val (takeWhile isdigit s); r = (if neg then - v else v)
      in if - (2 ^ 63) \<le> r \<and> r < 2 ^ 63 then Some r else None)"

function StringSplit :: "string \<Rightarrow> string \<Rightarrow> string list" where
  "StringSplit s delim =
     (if delim = [] \<or> s = [] then []
      else case find_sub delim s of
             None \<Rightarrow> [s]
           | Some p \<Rightarrow> take p s # StringSplit (drop (p + length delim) s) delim)"
  by pat_completeness auto
termination
  by (relation "measure (\<lambda>(s, d). length s)") auto

declare StringSplit.simps [simp del]

section \<open>A file of the host\<close>

text \<open>
  The destination of a copy is the map of its bytes. What the calls of the host return is the record
  \<open>host\<close>: \<open>pwrite\<close> of \<open>n\<close> bytes at an offset writes as many of them as its result says.
\<close>

record host =
  h_open :: bool
  h_fallocate :: "int \<Rightarrow> bool"
  h_pwrite :: "int \<Rightarrow> nat \<Rightarrow> int"
  h_fsync :: bool

definition host_pwrite :: "host \<Rightarrow> (int \<Rightarrow> u8) \<Rightarrow> int \<Rightarrow> u8 list \<Rightarrow> int \<times> (int \<Rightarrow> u8)" where
  "host_pwrite h dst off bs =
     (let r = h_pwrite h off (length bs)
      in (r, \<lambda>i. if off \<le> i \<and> i < off + r \<and> i < off + int (length bs) then bs ! nat (i - off) else dst i))"

text \<open>A host whose file system takes every write.\<close>

definition host_ok :: "host \<Rightarrow> bool" where
  "host_ok h \<longleftrightarrow> h_open h \<and> (\<forall>n > 0. h_fallocate h n) \<and> h_fsync h \<and> (\<forall>off n. h_pwrite h off n = int n)"

definition kExportBufferSize :: int where
  "kExportBufferSize = 16384"

text \<open>
  The loop. A read returns a count and the bytes it got, which lie in a buffer of zeros; offsets and
  sizes are \<open>int64_t\<close>. The bytes go to the same offset of the file that they have on the device.
\<close>

function export_loop ::
  "(int \<Rightarrow> int \<Rightarrow> 's \<Rightarrow> (int \<times> u8 list) \<times> 's) \<Rightarrow> host \<Rightarrow> int \<Rightarrow> int \<Rightarrow> (int \<Rightarrow> u8) \<Rightarrow> 's \<Rightarrow> bool \<times> (int \<Rightarrow> u8) \<times> 's" where
  "export_loop rd h sz off dst s =
     (if 0 < sz then
        (if kExportBufferSize \<le> sz then
           (case rd kExportBufferSize off s of
              ((ret, bs), s) \<Rightarrow>
                (if ret \<noteq> kExportBufferSize then (False, dst, s)
                 else case host_pwrite h dst off (fit (nat kExportBufferSize) 0 bs) of
                   (ret, dst) \<Rightarrow>
                     (if ret \<noteq> kExportBufferSize then (False, dst, s)
                      else export_loop rd h (sz - kExportBufferSize) (off + kExportBufferSize) dst s)))
         else
           (case rd sz off s of
              ((ret, bs), s) \<Rightarrow>
                (if ret \<noteq> sz then (False, dst, s)
                 else case host_pwrite h dst off (fit (nat sz) 0 bs) of
                   (ret, dst) \<Rightarrow>
                     (if ret \<noteq> sz then (False, dst, s)
                      else (h_fsync h, dst, s)))))
      else (True, dst, s))"
  by pat_completeness auto
termination
  by (relation "measure (\<lambda>(rd, h, sz, off, dst, s). nat sz)") (auto simp: kExportBufferSize_def)

declare export_loop.simps [simp del]

section \<open>What the loop relies on\<close>

locale device_reader =
  fixes rd :: "int \<Rightarrow> int \<Rightarrow> 's \<Rightarrow> (int \<times> u8 list) \<times> 's" and healthy :: "'s \<Rightarrow> bool" and room :: "'s \<Rightarrow> int"
    and content :: "'s \<Rightarrow> int \<Rightarrow> u8"
  assumes read: "healthy s \<Longrightarrow> 0 < n \<Longrightarrow> 0 \<le> off \<Longrightarrow> off + n \<le> room s \<Longrightarrow>
      \<exists>s'. rd n off s = ((n, map (\<lambda>i. content s (off + int i)) [0..<nat n]), s') \<and> healthy s' \<and> room s' = room s \<and> content s' = content s"
begin

lemma export_copies:
  assumes "healthy s" "host_ok h" "0 \<le> off" "0 \<le> sz" "off + sz \<le> room s"
  shows "\<exists>s'. export_loop rd h sz off dst s = (True, \<lambda>i. if off \<le> i \<and> i < off + sz then content s i else dst i, s') \<and> healthy s'"
  using assms
proof (induction "nat sz" arbitrary: sz off dst s rule: less_induct)
  case less
  have wr: "host_pwrite h dst off (fit (nat n) 0 (map (\<lambda>i. content s (off + int i)) [0..<nat n]))
      = (n, \<lambda>i. if off \<le> i \<and> i < off + n then content s i else dst i)" if "0 < n" for n
    using less.prems(2) that by (auto simp: host_pwrite_def host_ok_def fit_def fun_eq_iff Let_def)
  show ?case
  proof (cases "0 < sz")
    case False
    then show ?thesis using less.prems by (subst export_loop.simps) (auto simp: fun_eq_iff)
  next
    case pos: True
    show ?thesis
    proof (cases "kExportBufferSize \<le> sz")
      case True
      let ?K = kExportBufferSize and ?dst = "\<lambda>i. if off \<le> i \<and> i < off + kExportBufferSize then content s i else dst i"
      have k: "0 < ?K" by (simp add: kExportBufferSize_def)
      obtain s1 where s1: "rd ?K off s = ((?K, map (\<lambda>i. content s (off + int i)) [0..<nat ?K]), s1)" "healthy s1" "room s1 = room s" "content s1 = content s"
        using read [OF less.prems(1) k less.prems(3)] True less.prems(5) by auto
      have st: "export_loop rd h sz off dst s = export_loop rd h (sz - ?K) (off + ?K) ?dst s1"
        using pos True s1(1) wr [OF k] by (subst export_loop.simps) simp
      from less.hyps [of "sz - ?K" s1 "off + ?K" ?dst] obtain s2 where
        s2: "export_loop rd h (sz - ?K) (off + ?K) ?dst s1
            = (True, \<lambda>i. if off + ?K \<le> i \<and> i < off + ?K + (sz - ?K) then content s1 i else ?dst i, s2)" "healthy s2"
        using True k s1(2,3) less.prems by auto
      have "(\<lambda>i. if off + ?K \<le> i \<and> i < off + ?K + (sz - ?K) then content s1 i else ?dst i) = (\<lambda>i. if off \<le> i \<and> i < off + sz then content s i else dst i)"
        using True k s1(4) by (auto simp: fun_eq_iff)
      then show ?thesis using st s2 by simp
    next
      case False
      obtain s1 where s1: "rd sz off s = ((sz, map (\<lambda>i. content s (off + int i)) [0..<nat sz]), s1)" "healthy s1"
        using read [OF less.prems(1) pos less.prems(3,5)] by auto
      then show ?thesis using pos False wr [OF pos] less.prems(2) by (subst export_loop.simps) (simp add: host_ok_def)
    qed
  qed
qed

end

end
