(* ===== verification/Tools.thy ===== *)
theory Tools
  imports Host_Files
begin

text \<open>
  The command line tools (\<open>tool/block_fs_tool.cc\<close>, \<open>tool/block_fs_extract_device.cc\<close>,
  \<open>tool/block_fs_mount.cc\<close>): their options, as \<open>getopt_long\<close> delivers them one after the other with
  their arguments, and the calls they make. \<open>Inl\<close> is a call of \<open>exit\<close>. Help texts and log lines are
  output only; \<open>None\<close> is undefined behaviour.
\<close>

section \<open>block_fs_tool\<close>

datatype ToolType = BLOCKFS_NONE | BLOCKFS_FORMAT | BLOCKFS_DUMP | BLOCKFS_BLK | BLOCKFS_FILE_META

record BlockFsTool =
  tool_type :: ToolType
  dump_arg :: string
  dev_name :: string
  blk_info :: string
  file_name :: string

definition BlockFsTool_new :: BlockFsTool where
  "BlockFsTool_new = \<lparr>tool_type = BLOCKFS_NONE, dump_arg = [], dev_name = [], blk_info = [], file_name = []\<rparr>"

fun ParseOption :: "int \<Rightarrow> (char \<times> string) list \<Rightarrow> BlockFsTool \<Rightarrow> int + BlockFsTool" where
  "ParseOption argc [] t = (if tool_type t = BLOCKFS_NONE then Inl 1 else Inr t)"
| "ParseOption argc ((c, optarg) # opts) t =
     (if c = CHR ''d'' then
        (if argc < 4 then Inl 1
         else if optarg = [] then Inl 1
         else ParseOption argc opts (t\<lparr>dev_name := optarg\<rparr>))
      else if c = CHR ''f'' then
        (if tool_type t \<noteq> BLOCKFS_NONE then Inl 1
         else ParseOption argc opts (t\<lparr>tool_type := BLOCKFS_FORMAT\<rparr>))
      else if c = CHR ''p'' then
        (if argc < 5 then Inl 1
         else if tool_type t \<noteq> BLOCKFS_NONE then Inl 1
         else ParseOption argc opts (t\<lparr>tool_type := BLOCKFS_DUMP, dump_arg := optarg\<rparr>))
      else if c = CHR ''b'' then
        (if argc < 5 then Inl 1
         else if tool_type t \<noteq> BLOCKFS_NONE then Inl 1
         else ParseOption argc opts (t\<lparr>tool_type := BLOCKFS_BLK, blk_info := optarg\<rparr>))
      else if c = CHR ''m'' then
        (if argc < 5 then Inl 1
         else if tool_type t \<noteq> BLOCKFS_NONE then Inl 1
         else ParseOption argc opts (t\<lparr>tool_type := BLOCKFS_FILE_META, file_name := optarg\<rparr>))
      else Inl 0)"

text \<open>\<open>PreadCache\<close> takes the \<open>int64_t\<close> size and offset as unsigned numbers.\<close>

definition tool_read :: "int \<Rightarrow> int \<Rightarrow> fs \<Rightarrow> (int \<times> u8 list) \<times> fs" where
  "tool_read n off s = fs_PreadCache (word_of_int n) (word_of_int off) s"

text \<open>\<open>info[0]\<close> and \<open>info[1]\<close> are not checked to exist.\<close>

definition ExportBlkDeviceContents :: "host \<Rightarrow> string \<Rightarrow> (int \<Rightarrow> u8) \<Rightarrow> fs \<Rightarrow> (bool \<times> (int \<Rightarrow> u8) \<times> fs) option" where
  "ExportBlkDeviceContents h info dst s =
     (case StringSplit info '':'' of
        a # b # _ \<Rightarrow> do {
          export_offset \<leftarrow> atol a;
          export_size \<leftarrow> atol b;
          Some (if \<not> h_open h then (False, dst, s)
                else if \<not> h_fallocate h export_size then (False, dst, s)
                else export_loop tool_read h export_size export_offset dst s)
        }
      | _ \<Rightarrow> None)"

text \<open>Printing the metadata of a file reads the last character of the name first.\<close>

definition DumpFileMeta :: "string \<Rightarrow> fs \<Rightarrow> fs option" where
  "DumpFileMeta path s =
     (if path = [] then None
      else if last path = SLASH then Some s
      else Some (snd (GetCreatedFile path s)))"

definition DoBlockFsTool :: "blk_env \<Rightarrow> host \<Rightarrow> BlockFsTool \<Rightarrow> (int \<Rightarrow> u8) \<Rightarrow> fs \<Rightarrow> (bool \<times> (int \<Rightarrow> u8) \<times> fs) option" where
  "DoBlockFsTool env h t dst s =
     (if tool_type t = BLOCKFS_FORMAT then
        (let (ok, s) = FileSystem_Format env (dev_name t) s in Some (ok, dst, s))
      else do {
        (ok, s) \<leftarrow> FileSystem_Check env (dev_name t) s;
        if \<not> ok then Some (False, dst, s)
        else case tool_type t of
               BLOCKFS_DUMP \<Rightarrow> Some (True, dst, s)
             | BLOCKFS_BLK \<Rightarrow> ExportBlkDeviceContents h (blk_info t) dst s
             | BLOCKFS_FILE_META \<Rightarrow> do { s \<leftarrow> DumpFileMeta (file_name t) s; Some (True, dst, s) }
             | _ \<Rightarrow> Some (False, dst, s)
      })"

definition block_fs_tool_main ::
  "blk_env \<Rightarrow> host \<Rightarrow> int \<Rightarrow> (char \<times> string) list \<Rightarrow> (int \<Rightarrow> u8) \<Rightarrow> fs \<Rightarrow> (int \<times> (int \<Rightarrow> u8) \<times> fs) option" where
  "block_fs_tool_main env h argc opts dst s =
     (case ParseOption argc opts BlockFsTool_new of
        Inl code \<Rightarrow> Some (code, dst, s)
      | Inr t \<Rightarrow> do { (ok, dst, s) \<leftarrow> DoBlockFsTool env h t dst s; Some (if ok then 0 else - 1, dst, s) })"

section \<open>block_fs_extract_device\<close>

text \<open>A single \<open>pread\<close> on the raw descriptor, over the kernel of \<open>Block_Device\<close>.\<close>

definition raw_read :: "int \<Rightarrow> int \<Rightarrow> int \<times> kernel \<Rightarrow> (int \<times> u8 list) \<times> int \<times> kernel" where
  "raw_read n off = (\<lambda>(fd, k).
     if off < 0 then ((- 1, []), fd, k_error EINVAL k)
     else case sys_xfer fd (nat n) (nat off) k of
            (None, k) \<Rightarrow> ((- 1, []), fd, k)
          | (Some r, k) \<Rightarrow> ((int r, disk_read (k_disk k) (nat off) r), fd, k))"

definition ExportBlkDevice ::
  "(string \<Rightarrow> int) \<Rightarrow> host \<Rightarrow> string \<Rightarrow> int \<Rightarrow> int \<Rightarrow> (int \<Rightarrow> u8) \<Rightarrow> kernel \<Rightarrow> bool \<times> (int \<Rightarrow> u8) \<times> kernel" where
  "ExportBlkDevice open_dev h dv offset sz dst k =
     (let fd = open_dev dv
      in if fd < 0 then (False, dst, k)
         else if \<not> h_open h then (False, dst, k)
         else if \<not> h_fallocate h sz then (False, dst, k)
         else let (ok, dst, fd, k) = export_loop raw_read h sz offset dst (fd, k) in (ok, dst, k))"

record extract_args =
  x_dev :: "string option"
  x_name :: "string option"
  x_offset :: int
  x_length :: int

text \<open>The numbers go through \<open>atoi\<close>, whose result is an \<open>int\<close>.\<close>

fun extract_options :: "(char \<times> string) list \<Rightarrow> extract_args \<Rightarrow> (int + extract_args) option" where
  "extract_options [] a = Some (Inr a)"
| "extract_options ((c, optarg) # opts) a =
     (if c = CHR ''c'' then extract_options opts a
      else if c = CHR ''d'' then extract_options opts (a\<lparr>x_dev := Some optarg\<rparr>)
      else if c = CHR ''n'' then extract_options opts (a\<lparr>x_name := Some optarg\<rparr>)
      else if c = CHR ''o'' then do { v \<leftarrow> atoi optarg; extract_options opts (a\<lparr>x_offset := v\<rparr>) }
      else if c = CHR ''l'' then do { v \<leftarrow> atoi optarg; extract_options opts (a\<lparr>x_length := v\<rparr>) }
      else Some (Inl 0))"

definition extract_main ::
  "(string \<Rightarrow> int) \<Rightarrow> host \<Rightarrow> (char \<times> string) list \<Rightarrow> (int \<Rightarrow> u8) \<Rightarrow> kernel \<Rightarrow> (int \<times> (int \<Rightarrow> u8) \<times> kernel) option" where
  "extract_main open_dev h opts dst k = do {
     r \<leftarrow> extract_options opts \<lparr>x_dev = None, x_name = None, x_offset = 0, x_length = 0\<rparr>;
     case r of
       Inl code \<Rightarrow> Some (code, dst, k)
     | Inr a \<Rightarrow>
         (case (x_dev a, x_name a) of
            (Some d, Some n) \<Rightarrow>
              (if x_length a = 0 then Some (0, dst, k)
               else let (ok, dst, k) = ExportBlkDevice open_dev h d (x_offset a) (x_length a) dst k
                    in Some (if ok then 0 else - 1, dst, k))
          | _ \<Rightarrow> Some (0, dst, k))
   }"

section \<open>block_fs_mount\<close>

record mount_args =
  m_config :: string
  m_device :: string
  m_mountpoint :: string

fun mount_options :: "(char \<times> string) list \<Rightarrow> mount_args \<Rightarrow> int + mount_args" where
  "mount_options [] a = Inr a"
| "mount_options ((c, optarg) # opts) a =
     (if c = CHR ''c'' then mount_options opts (a\<lparr>m_config := optarg\<rparr>)
      else if c = CHR ''d'' then mount_options opts (a\<lparr>m_device := optarg\<rparr>)
      else if c = CHR ''m'' then mount_options opts (a\<lparr>m_mountpoint := optarg\<rparr>)
      else Inl 0)"

text \<open>The name of the log file: \<open>stamp\<close> is \<open>name\<close> with the time, as \<open>strftime\<close> formats it.\<close>

definition LogPreInit_filename :: "string \<Rightarrow> string \<Rightarrow> string option" where
  "LogPreInit_filename stamp dirname =
     (if dirname = [] then None
      else Some ((if last dirname \<noteq> SLASH then dirname @ ''/'' else dirname) @ stamp @ ''.log''))"

text \<open>The arguments of libfuse; the mount point is a C string.\<close>

definition FuseLoop_argv :: "bfs_config_info \<Rightarrow> string list" where
  "FuseLoop_argv info = [''BFS:test'', ''-d'', ''-f'', takeWhile (\<lambda>c. c \<noteq> NUL) (ci_fuse_mount_point info),
     ''-oallow_other'', ''-odefault_permissions'', ''-orw'', ''-oauto_unmount'']"

text \<open>What \<open>fuse_main\<close> is called with, if it is called: it needs root.\<close>

definition block_fs_fuse_mount :: "bool \<Rightarrow> bfs_config_info \<Rightarrow> string list option" where
  "block_fs_fuse_mount root info = (if \<not> root then None else Some (FuseLoop_argv info))"

text \<open>
  The result is the exit status and the call of libfuse. \<open>log_open\<close> says which log files can be
  opened. The device option must be given, but the device that is mounted is the one whose super block
  has the uuid of the configuration.
\<close>

definition block_fs_mount_main ::
  "blk_env \<Rightarrow> string list \<Rightarrow> bool \<Rightarrow> (string \<Rightarrow> string option) \<Rightarrow> (string \<Rightarrow> bool) \<Rightarrow> string \<Rightarrow> bool \<Rightarrow> (char \<times> string) list
     \<Rightarrow> bfs_config_info \<Rightarrow> LogLevel \<Rightarrow> fs \<Rightarrow> ((int \<times> string list option) \<times> fs) option" where
  "block_fs_mount_main env names logger_ok files log_open stamp root opts config min_level s =
     (case mount_options opts \<lparr>m_config = ''/data/blockfs/conf/bfs.cnf'', m_device = [], m_mountpoint = []\<rparr> of
        Inl code \<Rightarrow> Some ((code, None), s)
      | Inr a \<Rightarrow>
          (if m_device a = [] \<or> m_mountpoint a = [] then Some ((1, None), s)
           else do {
             ((r, config, min_level), s) \<leftarrow> MountFileSystem_path env names logger_ok files (m_config a) config min_level s;
             if r < 0 then Some ((- 1, None), s)
             else do {
               log_file \<leftarrow> LogPreInit_filename stamp (ci_log_path config);
               if \<not> log_open log_file then Some ((1, None), s)
               else Some ((0, block_fs_fuse_mount root (config\<lparr>ci_fuse_mount_point := m_mountpoint a\<rparr>)), s)
             }
           }))"

section \<open>Copying a range\<close>

interpretation pread_cache: device_reader tool_read io_ok "\<lambda>s. int (unat (dev_size (dev s)))" "\<lambda>s i. k_disk (kern s) (nat i)"
proof
  fix s and n off :: int
  assume a: "io_ok s" "0 < n" "0 \<le> off" "off + n \<le> int (unat (dev_size (dev s)))"
  have lt: "unat (dev_size (dev s)) < 2 ^ 63" using a(1) by (simp add: io_ok_def dev_ok_def)
  define m where "m = unat (dev_size (dev s))"
  have "off + n \<le> int m" "m < 9223372036854775808" using a(4) lt by (simp_all add: m_def)
  then have "n < 18446744073709551616" "off < 18446744073709551616" using a(2,3) by linarith+
  then have u: "unat (word_of_int n :: u64) = nat n" "unat (word_of_int off :: u64) = nat off"
    using a(2,3) by (simp_all add: unsigned_of_int take_bit_int_eq_self)
  have "nat off + nat n \<le> m" using \<open>off + n \<le> int m\<close> a(2,3) by linarith
  then have "in_dev (dev s) (unat (word_of_int off :: u64)) (unat (word_of_int n :: u64))" "0 < unat (word_of_int n :: u64)"
    unfolding u using a(2,3) by (simp_all add: in_dev_def m_def)
  from fs_PreadCache_ok [OF a(1) this] obtain k where
    k: "fs_PreadCache (word_of_int n) (word_of_int off) s = ((int (nat n), disk_read (k_disk (kern s)) (nat off) (nat n)), s\<lparr>kern := k\<rparr>)"
      "k_disk k = k_disk (kern s)" "benign (k_script k)" unfolding u by blast
  moreover have "disk_read (k_disk (kern s)) (nat off) (nat n) = map (\<lambda>i. k_disk (kern s) (nat (off + int i))) [0..<nat n]"
    using a(3) by (intro nth_equalityI) (auto simp: disk_read_def nat_add_distrib)
  ultimately show "\<exists>s'. tool_read n off s = ((n, map (\<lambda>i. k_disk (kern s) (nat (off + int i))) [0..<nat n]), s') \<and> io_ok s'
      \<and> int (unat (dev_size (dev s'))) = int (unat (dev_size (dev s))) \<and> (\<lambda>i. k_disk (kern s') (nat i)) = (\<lambda>i. k_disk (kern s) (nat i))"
    using a(1,2) by (intro exI [of _ "s\<lparr>kern := k\<rparr>"]) (simp add: tool_read_def io_ok_def)
qed

interpretation raw: device_reader raw_read "\<lambda>(fd, k). 0 \<le> fd \<and> k_script k = []" "\<lambda>_. 2 ^ 63" "\<lambda>(fd, k) i. k_disk k (nat i)"
proof
  fix s :: "int \<times> kernel" and n off :: int
  assume a: "case s of (fd, k) \<Rightarrow> 0 \<le> fd \<and> k_script k = []" "0 < n" "0 \<le> off" "off + n \<le> 2 ^ 63"
  obtain fd k where s: "s = (fd, k)" by (cases s)
  have "nat off < 2 ^ 63" using a(2-4) by (simp add: nat_less_iff)
  then have x: "sys_xfer fd (nat n) (nat off) k = (Some (nat n), k)" using a(1) by (simp add: s sys_xfer_def)
  have "disk_read (k_disk k) (nat off) (nat n) = map (\<lambda>i. k_disk k (nat (off + int i))) [0..<nat n]"
    using a(3) by (intro nth_equalityI) (auto simp: disk_read_def nat_add_distrib)
  then have "raw_read n off s = ((n, map (\<lambda>i. k_disk k (nat (off + int i))) [0..<nat n]), s)"
    using a(2,3) x by (simp add: s raw_read_def)
  then show "\<exists>s'. raw_read n off s = ((n, map (\<lambda>i. (case s of (fd, k) \<Rightarrow> \<lambda>i. k_disk k (nat i)) (off + int i)) [0..<nat n]), s')
      \<and> (case s' of (fd, k) \<Rightarrow> 0 \<le> fd \<and> k_script k = []) \<and> 2 ^ 63 = (2 ^ 63 :: int)
      \<and> (case s' of (fd, k) \<Rightarrow> \<lambda>i. k_disk k (nat i)) = (case s of (fd, k) \<Rightarrow> \<lambda>i. k_disk k (nat i))"
    using a(1) by (simp add: s)
qed

lemma find_sub_colon:
  assumes "CHR '':'' \<notin> set a"
  shows "find_sub '':'' (a @ CHR '':'' # b) = Some (length a)"
  using assms
proof (induction a)
  case Nil
  show ?case by (subst find_sub.simps) simp
next
  case (Cons c a)
  then show ?case by (subst find_sub.simps) auto
qed

lemma find_sub_no_colon: "CHR '':'' \<notin> set c \<Longrightarrow> find_sub '':'' c = None"
proof (induction c)
  case Nil
  show ?case by (subst find_sub.simps) simp
next
  case (Cons x c)
  then show ?case by (subst find_sub.simps) auto
qed

lemma StringSplit_two:
  assumes "CHR '':'' \<notin> set a" "CHR '':'' \<notin> set b" "b \<noteq> []"
  shows "StringSplit (a @ CHR '':'' # b) '':'' = [a, b]"
proof -
  have "StringSplit b '':'' = [b]" using assms(2,3) find_sub_no_colon by (simp add: StringSplit.simps)
  then show ?thesis using find_sub_colon [OF assms(1)] by (subst StringSplit.simps) simp
qed

lemma atol_to_string:
  assumes "int n < 2 ^ 63"
  shows "atol (to_string n) = Some (int n)" "CHR '':'' \<notin> set (to_string n)"
proof -
  have d: "takeWhile (\<lambda>c. c \<noteq> NUL) (to_string n) = to_string n" "takeWhile isdigit (to_string n) = to_string n"
    "dropWhile isspace (to_string n) = to_string n"
    using to_string_digits [of n] isdigit_other by (auto simp: list_all_iff takeWhile_eq_all_conv dropWhile_eq_self_iff)
  obtain c cs where c: "to_string n = c # cs" "isdigit c" using to_string_digits [of n] by (cases "to_string n") auto
  have "takeWhile (\<lambda>c. c \<noteq> NUL) (c # cs) = c # cs" "takeWhile isdigit (c # cs) = c # cs" "dropWhile isspace (c # cs) = c # cs"
    "digits_val (c # cs) = int n"
    using d digits_val_to_string [of n] unfolding c(1) by blast+
  then show "atol (to_string n) = Some (int n)"
    using assms isdigit_other [OF c(2)] unfolding atol_def c(1) by (simp add: Let_def del: takeWhile_eq_all_conv takeWhile.simps dropWhile.simps)
  show "CHR '':'' \<notin> set (to_string n)" using to_string_digits(1) [of n] by (auto simp: list_all_iff isdigit_def)
qed

text \<open>
  C37. Exporting a range with \<open>block_fs_tool -d device -b offset:size\<close>: on a device that passes the
  check of the metadata and a host that takes the writes, the tool exits with 0, and the bytes of the
  range, and no others, are in the file, at the offsets they have on the device.
\<close>

theorem tool_exports:
  assumes "FileSystem_Check env dv s = Some (True, u)" and "io_ok u" and "host_ok h" and "dv \<noteq> []" and "5 \<le> argc"
    and "0 < n" and "off + n \<le> unat (dev_size (dev u))"
  shows "\<exists>v. block_fs_tool_main env h argc [(CHR ''d'', dv), (CHR ''b'', to_string off @ CHR '':'' # to_string n)] dst s
      = Some (0, \<lambda>i. if int off \<le> i \<and> i < int off + int n then k_disk (kern u) (nat i) else dst i, v)"
proof -
  have lt: "unat (dev_size (dev u)) < 2 ^ 63" using assms(2) by (simp add: io_ok_def dev_ok_def)
  then have "off < 9223372036854775808" "n < 9223372036854775808" using assms(7) by simp_all
  then have lt: "int off < 2 ^ 63" "int n < 2 ^ 63" by simp_all
  have sp: "StringSplit (to_string off @ CHR '':'' # to_string n) '':'' = [to_string off, to_string n]"
    using StringSplit_two atol_to_string(2) [OF lt(1)] atol_to_string(2) [OF lt(2)] to_string_digits(2) by blast
  have h: "h_open h" "h_fallocate h (int n)" using assms(3,6) by (simp_all add: host_ok_def)
  have "int off + int n \<le> int (unat (dev_size (dev u)))" using assms(7) by linarith
  from pread_cache.export_copies [OF assms(2,3) _ _ this, of dst] obtain v where
    "export_loop tool_read h (int n) (int off) dst u
      = (True, \<lambda>i. if int off \<le> i \<and> i < int off + int n then k_disk (kern u) (nat i) else dst i, v)" by auto
  then have "ExportBlkDeviceContents h (to_string off @ CHR '':'' # to_string n) dst u
      = Some (True, \<lambda>i. if int off \<le> i \<and> i < int off + int n then k_disk (kern u) (nat i) else dst i, v)"
    using h atol_to_string(1) [OF lt(1)] atol_to_string(1) [OF lt(2)] by (simp add: ExportBlkDeviceContents_def sp)
  then show ?thesis
    using assms(1,4,5) by (simp add: block_fs_tool_main_def BlockFsTool_new_def DoBlockFsTool_def)
qed

text \<open>The tool for raw devices does the same, as long as every \<open>pread\<close> is complete.\<close>

lemma extract_copies:
  assumes "0 \<le> open_dev dv" "k_script k = []" "host_ok h" "0 \<le> off" "0 < n" "off + n \<le> 2 ^ 63"
  shows "\<exists>k'. ExportBlkDevice open_dev h dv off n dst k = (True, \<lambda>i. if off \<le> i \<and> i < off + n then k_disk k (nat i) else dst i, k')"
proof -
  from raw.export_copies [of "(open_dev dv, k)" h off n dst] assms obtain fd k' where
    "export_loop raw_read h n off dst (open_dev dv, k) = (True, \<lambda>i. if off \<le> i \<and> i < off + n then k_disk k (nat i) else dst i, fd, k')" by auto
  then show ?thesis using assms(1,3,5) by (simp add: ExportBlkDevice_def host_ok_def)
qed

text \<open>The device given to the mount tool makes no difference.\<close>

lemma mount_ignores_device:
  assumes "d1 \<noteq> []" "d2 \<noteq> []"
  shows "block_fs_mount_main env names logger_ok files log_open stamp root [(CHR ''c'', c), (CHR ''d'', d1), (CHR ''m'', m)] config min_level s
    = block_fs_mount_main env names logger_ok files log_open stamp root [(CHR ''c'', c), (CHR ''d'', d2), (CHR ''m'', m)] config min_level s"
  using assms by (simp add: block_fs_mount_main_def cong: if_cong)

end
