(* ===== verification/Format_Data.thy ===== *)
theory Format_Data
  imports Persistence
begin

text \<open>
  Writing zeros over the data area (\<open>FormatFSData\<close> of \<open>file_system.cc\<close>). The loop need not end
  for an arbitrary super block, and \<open>None\<close> also stands for a write of more bytes than the buffer
  has.
\<close>

definition zero_buffer_len :: u64 where
  "zero_buffer_len = 4 * 1024 * 1024"

partial_function (option) zero_loop :: "u64 \<Rightarrow> u64 \<Rightarrow> fs \<Rightarrow> (bool \<times> fs) option" where
  "zero_loop zero_data_len zero_data_offset s =
     (let device_size = sb_device_size (super_meta s);
          zero_data_len = (if device_size < zero_data_offset + zero_buffer_len
            then device_size - zero_data_offset else zero_data_len)
      in if zero_buffer_len < zero_data_len then None
         else let (ret, s) = fs_PwriteDirect (replicate (unat zero_data_len) 0) zero_data_offset s;
                  zero_data_offset = zero_data_offset + zero_data_len
              in if ret \<noteq> int (unat zero_data_len) then Some (False, s)
                 else if zero_data_offset = device_size then Some (True, s)
                 else zero_loop zero_data_len zero_data_offset s)"

definition FormatFSData :: "fs \<Rightarrow> (bool \<times> fs) option" where
  "FormatFSData s = zero_loop zero_buffer_len (sb_block_data_start_offset (super_meta s)) s"

text \<open>A disk with zeros in a range.\<close>

definition zeroed :: "(nat \<Rightarrow> u8) \<Rightarrow> nat \<Rightarrow> nat \<Rightarrow> nat \<Rightarrow> u8" where
  "zeroed d a b = (\<lambda>i. if a \<le> i \<and> i < b then 0 else d i)"

lemma disk_write_zeros: "disk_write d off (replicate n 0) = zeroed d off (off + n)"
  by (auto simp: disk_write_def zeroed_def fun_eq_iff)

lemma zeroed_zeroed: "a \<le> b \<Longrightarrow> b \<le> c \<Longrightarrow> zeroed (zeroed d a b) b c = zeroed d a c"
  by (auto simp: zeroed_def fun_eq_iff)

text \<open>One turn of the loop: the bytes it writes, inside the device.\<close>

lemma zero_step:
  assumes "io_ok s" and "n \<noteq> 0" and "n \<le> zero_buffer_len" and "unat off + unat n \<le> unat (dev_size (dev s))"
  obtains k where "fs_PwriteDirect (replicate (unat n) 0) off s = (int (unat n), s\<lparr>kern := k\<rparr>)"
    "k_disk k = zeroed (k_disk (kern s)) (unat off) (unat off + unat n)" "io_ok (s\<lparr>kern := k\<rparr>)" "unat (off + n) = unat off + unat n"
proof -
  have "0 < unat n" using assms(2) by (simp add: unat_gt_0)
  then have "in_dev (dev s) (unat off) (length (replicate (unat n) (0::u8)))" "replicate (unat n) (0::u8) \<noteq> []"
    using assms(4) by (simp_all add: in_dev_def)
  from fs_PwriteDirect_ok [OF assms(1) this] obtain k where
    k: "fs_PwriteDirect (replicate (unat n) 0) off s = (int (unat n), s\<lparr>kern := k\<rparr>)"
      "k_disk k = disk_write (k_disk (kern s)) (unat off) (replicate (unat n) 0)" "benign (k_script k)" by auto
  have "unat off + unat n < 2 ^ 64" using assms(4) unsigned_less [where ?'a = nat, of "dev_size (dev s)"] by simp
  then have "unat (off + n) = unat off + unat n" by (simp add: unat_word_ariths)
  then show ?thesis using that k assms(1) by (simp add: io_ok_def disk_write_zeros)
qed

lemma zero_loop_zeroes:
  assumes "io_ok s" and "sb_device_size (super_meta s) = dev_size (dev s)" and "unat off < unat (dev_size (dev s))"
  shows "\<exists>k. zero_loop zero_buffer_len off s = Some (True, s\<lparr>kern := k\<rparr>)
     \<and> k_disk k = zeroed (k_disk (kern s)) (unat off) (unat (dev_size (dev s))) \<and> io_ok (s\<lparr>kern := k\<rparr>)"
  using assms
proof (induction "unat (dev_size (dev s)) - unat off" arbitrary: off s rule: less_induct)
  case less
  let ?z = "dev_size (dev s)"
  have Z: "unat ?z < 2 ^ 63" using less.prems(1) by (simp add: io_ok_def dev_ok_def)
  have B: "unat zero_buffer_len = 4194304" "zero_buffer_len \<noteq> 0" by (simp_all add: zero_buffer_len_def)
  have s: "unat (off + zero_buffer_len) = unat off + 4194304"
    using Z less.prems(3) B by (simp add: unat_word_ariths)
  show ?case
  proof (cases "unat ?z < unat off + 4194304")
    case True
    define n where "n = ?z - off"
    have n: "unat n = unat ?z - unat off" using less.prems(3) by (simp add: n_def unat_sub word_le_nat_alt)
    have "n \<noteq> 0" "n \<le> zero_buffer_len" "unat off + unat n \<le> unat ?z"
      using n less.prems(3) True B by (auto simp: word_le_nat_alt simp flip: unat_eq_0)
    from zero_step [OF less.prems(1) this] obtain k where
      k: "fs_PwriteDirect (replicate (unat n) 0) off s = (int (unat n), s\<lparr>kern := k\<rparr>)"
        "k_disk k = zeroed (k_disk (kern s)) (unat off) (unat off + unat n)" "io_ok (s\<lparr>kern := k\<rparr>)" by metis
    have "?z < off + zero_buffer_len" "\<not> zero_buffer_len < n" "off + n = ?z"
      using True s \<open>n \<le> zero_buffer_len\<close> by (simp_all add: word_less_nat_alt word_le_nat_alt n_def)
    then have "zero_loop zero_buffer_len off s = Some (True, s\<lparr>kern := k\<rparr>)"
      using k(1) less.prems(2) by (subst zero_loop.simps) (simp add: n_def Let_def)
    then show ?thesis using k(2,3) n less.prems(3) by (intro exI [of _ k]) simp
  next
    case False
    have "zero_buffer_len \<noteq> 0" "zero_buffer_len \<le> zero_buffer_len" "unat off + unat zero_buffer_len \<le> unat ?z"
      using False B by simp_all
    from zero_step [OF less.prems(1) this] obtain k where
      k: "fs_PwriteDirect (replicate (unat zero_buffer_len) 0) off s = (int (unat zero_buffer_len), s\<lparr>kern := k\<rparr>)"
        "k_disk k = zeroed (k_disk (kern s)) (unat off) (unat off + unat zero_buffer_len)" "io_ok (s\<lparr>kern := k\<rparr>)" by metis
    have ge: "\<not> ?z < off + zero_buffer_len" using False s by (simp add: word_less_nat_alt)
    let ?s = "s\<lparr>kern := k\<rparr>" and ?off = "off + zero_buffer_len"
    have st: "zero_loop zero_buffer_len off s = (if ?off = ?z then Some (True, ?s) else zero_loop zero_buffer_len ?off ?s)"
      using k(1) ge less.prems(2) by (subst zero_loop.simps) (simp add: Let_def)
    show ?thesis
    proof (cases "?off = ?z")
      case True
      then have "unat ?z = unat off + unat zero_buffer_len" using s B by metis
      then show ?thesis using st True k(2,3) by (intro exI [of _ k]) simp
    next
      case F: False
      have lt: "unat ?off < unat (dev_size (dev ?s))" using F ge by (simp add: word_less_nat_alt word_unat_eq_iff)
      have "unat (dev_size (dev ?s)) - unat ?off < unat ?z - unat off" using s less.prems(3) by (simp add: diff_less_mono2)
      from less.hyps [OF this k(3) _ lt] less.prems(2) obtain k2 where
        "zero_loop zero_buffer_len ?off ?s = Some (True, s\<lparr>kern := k2\<rparr>)"
        "k_disk k2 = zeroed (k_disk k) (unat ?off) (unat ?z)" "io_ok (s\<lparr>kern := k2\<rparr>)" by auto
      then show ?thesis using st F k(2) s B lt by (intro exI [of _ k2]) (simp add: zeroed_zeroed)
    qed
  qed
qed

text \<open>
  C38. \<open>FormatFSData\<close> on a formatted device that reports no error: the loop ends, every byte of the
  data area up to the end of the device is zero, also where the device does not end with a whole
  block, and nothing below the data area has changed.
\<close>

theorem FormatFSData_zeroes:
  assumes "formatted s" and "io_ok s" and "675282944 < unat (dev_size (dev s))"
  shows "\<exists>k. FormatFSData s = Some (True, s\<lparr>kern := k\<rparr>)
     \<and> k_disk k = (\<lambda>i. if 675282944 \<le> i \<and> i < unat (dev_size (dev s)) then 0 else k_disk (kern s) i)"
proof -
  have "sb_device_size (super_meta s) = dev_size (dev s)" using assms(1) by (auto simp: formatted_def)
  moreover have "unat (675282944 :: u64) < unat (dev_size (dev s))" using assms(3) by simp
  ultimately show ?thesis
    using zero_loop_zeroes [OF assms(2), of 675282944] formatted_fields(4) [OF assms(1)]
    by (auto simp: FormatFSData_def zeroed_def)
qed

end
