(* ===== verification/Demo_Tools.thy ===== *)
theory Demo_Tools
  imports Tools Format_Data Demo_Device
begin

text \<open>The properties of the tools and of \<open>FormatFSData\<close> applied to the device of \<open>Demo_Device\<close>.\<close>

definition demo_host :: host where
  "demo_host = \<lparr>h_open = True, h_fallocate = (\<lambda>_. True), h_pwrite = (\<lambda>_ n. int n), h_fsync = True\<rparr>"

theorem tool_exports_witness:
  "\<exists>s f v. block_fs_tool_main demo_env demo_host 5 [(CHR ''d'', ''/dev/vdb''), (CHR ''b'', ''4096:16385'')] (\<lambda>_. 7) s = Some (0, f, v)
     \<and> f 4095 = 7 \<and> f 20481 = 7"
proof -
  obtain t u where u: "FileSystem_Check demo_env (''/dev/'' @ ''vdb'') t = Some (True, u)" "io_ok u" "dev_size (dev u) = 1073741824"
    using Format_Check_fresh [OF demo_opens demo_size(1) demo_start_benign] by blast
  have h: "host_ok demo_host" by (simp add: host_ok_def demo_host_def)
  have n: "to_string 4096 @ CHR '':'' # to_string 16385 = ''4096:16385''" by (simp add: to_string.simps char_of_def bit_0)
  have "4096 + 16385 \<le> unat (dev_size (dev u))" using u(3) by simp
  from tool_exports [OF u(1,2) h _ _ _ this, of 5 "\<lambda>_. 7", unfolded n] show ?thesis by fastforce
qed

theorem FormatFSData_zeroes_witness:
  "\<exists>s k. FormatFSData s = Some (True, s\<lparr>kern := k\<rparr>) \<and> k_disk k 675282944 = 0 \<and> k_disk k 1073741823 = 0"
proof -
  obtain u where u: "formatted u" "io_ok u" "dev_size (dev u) = 1073741824"
    using Format_Check_fresh [OF demo_opens demo_size(1) demo_start_benign] by blast
  have "675282944 < unat (dev_size (dev u))" using u(3) by simp
  from FormatFSData_zeroes [OF u(1,2) this] show ?thesis using u(3) by fastforce
qed

end
