(* ===== verification/Spec2Isabelle.thy ===== *)
theory Spec2Isabelle
  imports Demo_Calls File_Spec Config_Comment Demo_Config Demo_Sessions Demo_Tools
begin

text \<open>
  BlockFS is a user-space file system for one process. A block device is divided into a super
  block, three arrays of metadata structs (directories, files, file blocks) and data blocks of
  4 MiB; all metadata is mapped into memory at mount and written back struct by struct, page by
  page. This development models the library under \<open>src/lib\<close> and proves what its calls do.

  \<^bold>\<open>Parts and theories.\<close> The C++ classes correspond to the theories as follows; every definition
  has the name of the function it models, with the class as prefix where the name alone would be
  ambiguous.

  \<^item> \<open>BFS_Prelude\<close>: names of the integer types, error numbers and open flags, association lists for
    \<open>std::unordered_map\<close> (\<open>amap\<close>), little-endian byte strings, fixed-width fields.
  \<^item> \<open>Meta_Defines\<close> (\<open>meta_defines.h\<close>): the layout constants and the four packed structs as records
    with their byte images \<open>enc_\<close>, \<open>dec_\<close> and the part a checksum covers, \<open>body_\<close>.
  \<^item> \<open>Comm_Utils\<close> (\<open>comm_utils.h\<close>): rounding and path splitting.
  \<^item> \<open>Pools\<close> (\<open>fd_handle.h\<close>, \<open>block_handle.h\<close>, \<open>block_handle.cc\<close>): the pools of descriptors and of
    block ids. The locale \<open>id_pool\<close> is the contract of a pool; it is interpreted for descriptors,
    for blocks, and in \<open>File_Block\<close> for file blocks.
  \<^item> \<open>Block_Device\<close> (\<open>device.cc\<close>): system calls, the retry loop \<open>wrapFull\<close>, cached and direct I/O.
  \<^item> \<open>Struct_Array\<close>: a metadata region as an array of packed structs written page by page. The locale
    \<open>struct_array\<close> is its contract, interpreted for the three regions.
  \<^item> \<open>FS_State\<close> (\<open>file_system.h\<close> and the members of all handle classes): the record \<open>fs\<close>, the
    state of everything reachable from the \<open>FileSystem\<close> singleton.
  \<^item> \<open>Super_Block\<close> (\<open>super_block.cc\<close>), \<open>File_Block\<close> (\<open>file_block.cc\<close>, \<open>file_block_handle.cc\<close>),
    \<open>Directory_Ops\<close> and \<open>Dir_Handle\<close> (\<open>directory.cc\<close>, \<open>dir_handle.cc\<close>), \<open>File_Ops\<close>, \<open>File_IO\<close> and
    \<open>File_Handle\<close> (\<open>file.cc\<close>, \<open>file_handle.cc\<close>): the operations of these classes.
  \<^item> \<open>Mount\<close> (the \<open>FormatAllMeta\<close> and \<open>InitializeMeta\<close> methods, \<open>shm_manager.cc\<close>) and
    \<open>File_System\<close> (\<open>file_system.cc\<close>): formatting, mounting, and the public calls. \<open>Format_Data\<close> is
    \<open>FormatFSData\<close>, the zeroing of the data area.
  \<^item> \<open>Fuse_Ops\<close> (\<open>bfs_fuse.cc\<close>): the FUSE handlers on top of the public calls.
  \<^item> \<open>Config_Parser\<close> (\<open>config_parser.cc\<close>): the INI store of the tools, sections and items with their
    comments, parsing and printing. \<open>Config_Text\<close> holds the text lemmas and the well-formed
    configurations; \<open>Config_Store\<close> states the locale \<open>key_value\<close>, the contract of a store under keys,
    and interprets it for \<open>amap\<close> and for a configuration with its getters and setters;
    \<open>Config_Comment\<close> is about the comments behind section titles.
  \<^item> \<open>Logging\<close> (\<open>logging.cc\<close>, \<open>logging.h\<close>): the log levels, and a \<open>LOG\<close> statement with its buffer.
  \<^item> \<open>Config_Load\<close> (\<open>config_load.cc\<close>, the mount by configuration path of \<open>file_system.cc\<close>): a
    configuration file as the mount sees it; \<open>Demo_Config\<close> is a concrete one.
  \<^item> \<open>Host_Files\<close> and \<open>Tools\<close> (\<open>tool/block_fs_tool.cc\<close>, \<open>tool/block_fs_extract_device.cc\<close>,
    \<open>tool/block_fs_mount.cc\<close>): the command line tools, from their options to the exit status. The
    locale \<open>device_reader\<close> is what their copy loop relies on; it is interpreted for \<open>PreadCache\<close> of the
    mounted device and for \<open>pread\<close> on a raw descriptor.

  \<^bold>\<open>State and effects.\<close> An operation takes the state last and returns its result with the new
  state. A pointer to a struct of the metadata area is an index; objects that several maps share
  are named by addresses in an object store. Undefined behaviour, a null dereference or an index
  out of an array, is \<open>None\<close>; a failure the code reports is a value of the result, with \<open>errno\<close> in
  the kernel record. Integers have the width of the source, so sums and differences wrap; handle
  numbers are natural numbers below 100000 and cannot overflow. Every block device has a
  content of its own (\<open>disk_of\<close>); \<open>k_disk\<close> is that of the device \<open>device_\<close> names, and opening another
  device exchanges it (\<open>use_device\<close>); different names are different devices. The device executes a script of
  outcomes (complete, short, interrupted, failed), so a statement for every state holds for every
  behaviour of the device. \<open>crc32\<close>, the clock, the list of block devices and the bytes that lie
  behind a string in memory are parameters. The build defines \<open>NDEBUG\<close>, so an \<open>assert\<close> has no
  effect. A critical section is one step: the calls of different threads interleave as whole calls.

  \<^bold>\<open>What is proved.\<close>

  \<^item> Pools: free and used identifiers partition the range, for every sequence of calls.
  \<^item> Layout and formats: the regions do not overlap, and the super block a format writes is the one in
    memory and verifies (\<open>Super_Block\<close>); the byte images of the structs decode to what was encoded
    (\<open>Meta_Defines\<close>), which the theorems about mounting use.
  \<^item> Growing a file (\<open>File_Extend\<close>, \<open>Data_Area\<close>): no undefined behaviour, one owner per block, exactly
    the new size and its blocks, no byte of the data area touched.
  \<^item> Contents (\<open>File_IO\<close>, \<open>File_Spec\<close>): \<open>pread\<close> and \<open>pwrite\<close> are, byte by byte, what they should be;
    files are isolated from each other; a sequence of calls that leaves no hole refines the same
    sequence on a list, until a write has to grow the file and cannot (\<open>out_of_room\<close>).
  \<^item> Persistence (\<open>Persistence\<close>): \<open>meta_synced\<close> is the agreement of metadata area and memory;
    growing keeps it, a mount reads it back, a formatted device passes a check and comes up empty, damage is refused.
  \<^item> Finding the device (\<open>Open_Target\<close>): the search opens the first listed device whose super block has
    the uuid, passes over the others whatever they answer, and writes to no disk; \<open>mount_needs_uuid\<close>
    is the failing case, \<open>Format_then_Mount\<close>, \<open>remount_keeps\<close> and \<open>config_mount\<close> the succeeding one.
  \<^item> Names (\<open>Namespace\<close>, \<open>Create_File\<close>, \<open>Removal\<close>, \<open>Directories\<close>): \<open>creat\<close>, \<open>unlink\<close>, \<open>mkdir\<close>,
    \<open>rmdir\<close>, \<open>readdir\<close> and the file locks.
  \<^item> Descriptors (\<open>Descriptors\<close>, \<open>Reachable\<close>): the calls as the step relation \<open>fs_step\<close> and its
    invariant \<open>fds_ok\<close> (for \<open>open\<close> and \<open>dup\<close> while a descriptor is free, after the first mount of a
    process); \<open>Mounted\<close> puts the parts together, from format to a whole session.
  \<^item> Across mounts: \<open>Loader\<close> shows that the loops of a mount rebuild the tables from sound metadata
    (\<open>metas_sound\<close>, \<open>tables_ok\<close>), \<open>Remount\<close> that a mount of a \<open>durable\<close> state finds everything again,
    \<open>Durable_Create\<close> and \<open>Durable_Write\<close> that \<open>creat\<close>, \<open>open\<close> and \<open>pwrite\<close> keep a state durable.
    \<open>Name_Tree\<close> and \<open>Sessions\<close> put this together: the file system refines a map from names to
    bytes over any sequence of calls and mounts.
  \<^item> \<open>Demo_State\<close>, \<open>Demo_Device\<close>, \<open>Demo_Calls\<close>, \<open>Demo_Sessions\<close> and \<open>Demo_Tools\<close> hold a concrete device
    and file system on which the hypotheses are discharged.
  \<^item> Configuration (\<open>Config_Text\<close>, \<open>Config_Store\<close>, \<open>Config_Comment\<close>, \<open>Config_Load\<close>): when no section title
    has a comment, what is saved loads again, an edit is seen by every later read, drops the comment
    lines above the item it changes and changes no other item, also after saving and loading, and a
    mount by path uses the uuid and the log level of the file; a comment behind a section title
    loses the next item, and only that.
  \<^item> Logging and tools: a \<open>LOG\<close> statement prints its items as long as the line fits (\<open>LOG_prints\<close>), and
    is undefined when it fills the buffer or is below the minimal level (\<open>LOG_undefined\<close>); exporting a
    range copies exactly its bytes (\<open>tool_exports\<close>, \<open>extract_copies\<close>); zeroing the data area ends and
    touches nothing else (\<open>FormatFSData_zeroes\<close>).
  \<^item> Several theorems state where the code does not do what its callers may expect: a device that is
    too small (\<open>layout_regions\<close>), an exhausted descriptor pool (\<open>open_exhausted\<close>), handles that
    \<open>unlink\<close> and \<open>rmdir\<close> do not give back, errors that FUSE \<open>open\<close> hides, a device option that the
    mount tool ignores (\<open>mount_ignores_device\<close>).

  \<^bold>\<open>Bounds.\<close> No definition uses fuel. The retry loop uses up one event of the script in every
  repetition, the copy and splitting loops reduce the remaining length, the zeroing loop, which need
  not end for an arbitrary super block, is a partial function, and the loops over a
  metadata region run over the list of its indices. Statements about data are for files within the
  \<open>kBlockFsMaxUDiskSize\<close> bytes the layout supports, and those about mounting for devices that have
  room for the metadata (675282944 bytes) and whose block ids fit the array of 100000 block locks
  (below about 420 GB): beyond it the code leaves the array.

  \<^bold>\<open>Not modelled.\<close> The \<open>Dump\<close> functions only print. The \<open>LOG\<close> statements inside the modelled functions are
  left out; one below the minimal level is undefined behaviour (\<open>LOG_undefined\<close>), which the other
  theorems do not count. The shared memory mapping of
  \<open>ShmManager\<close> and the FUSE session loop are operating system and libfuse calls; of the loop the
  arguments are modelled. The handlers on libfuse buffers (\<open>read_buf\<close>, \<open>write_buf\<close>) are compiled out,
  those for \<open>init\<close> and \<open>destroy\<close> only log and free, and \<open>ForceRemoveAllFiles\<close>, which nothing calls, locks
  a mutex twice. The accessors of the configuration parser and the log operators for doubles and
  floats, and the formatting of the time, are left to the standard library. In the tools, \<open>getopt\<close>
  is the list of options it delivers, help texts are not modelled, and \<open>daemonize\<close>, whose call is
  commented out, is made of process calls. The token bucket, a copy of the one in folly that the file
  system does not use, computes with doubles and is outside this development.
\<close>

section \<open>Reading and writing files\<close>

text \<open>
  C3. Refinement: a sequence of \<open>pwrite\<close> and \<open>pread\<close> calls through one descriptor, in which every
  non-empty write starts at or before the end of the file (\<open>calls_ok\<close>), behaves like the
  same sequence on a list of bytes. Every read returns what the list operation returns, every write
  its length, and at the end the device holds the list. The only other outcome is \<open>out_of_room\<close>: the
  calls before some write did exactly what the list does, that write would have to grow the file,
  the device cannot grow it (\<open>can_grow\<close> is false there), and this write returns -1.
\<close>

theorem session_refines:
  assumes "ready s f" and "calls_ok cs (unat (File_file_size s f))" and "map_of (open_files s) fd = Some x" and "of_file x = f"
  shows "\<exists>os t. code_run fd cs s = Some (os, t)
     \<and> (os = fst (spec_run cs (file_content s f)) \<and> file_content t f = snd (spec_run cs (file_content s f)) \<and> ready t f
       \<or> out_of_room fd f cs s os)"
  by (rule code_refines [OF assms])

lemma of_file0: "of_file \<lparr>of_file = 0, of_append_pos = 0\<rparr> = 0"
  by simp

abbreviation demo_io :: "io_call list" where
  "demo_io \<equiv> [Wr 0 [1, 2], Rd 0 4, Wr 1 [9]]"

lemma demo_io_room:
  assumes "file_content demo_fs 0 = []"
  shows "\<not> out_of_room 7 0 demo_io demo_fs os"
proof
  assume "out_of_room 7 0 demo_io demo_fs os"
  then obtain k off buf t where k: "k < length demo_io" "demo_io ! k = Wr off buf"
    and r: "code_run 7 (take k demo_io) demo_fs = Some (fst (spec_run (take k demo_io) []), t)"
    and c: "file_content t 0 = snd (spec_run (take k demo_io) [])"
    and n: "length (file_content t 0) < unat off + length buf" "\<not> can_grow t 0 (unat off + length buf)"
    unfolding out_of_room_def assms by blast
  have "k = 0 \<or> k = 1 \<or> k = 2" using k(1) by auto
  then consider "k = 0" | "k = 2" using k(2) by (elim disjE) simp_all
  then show False
  proof cases
    case 1
    have "can_grow demo_fs 0 2" by (simp add: can_grow_def demo_fobj) (simp add: demo_fs_def demo_dev_def ceil_blocks_def)
    then show False using 1 k(2) r n(2) by (auto simp: numeral_2_eq_2)
  next
    case 2
    then show False using k(2) c n(1) by (auto simp: spec_write_def)
  qed
qed

theorem session_refines_witness:
  "\<exists>t. code_run 7 [Wr 0 [1, 2], Rd 0 4, Wr 1 [9]] demo_fs = Some ([Written 2, Got [1, 2], Written 1], t)
     \<and> file_content t 0 = [1, 9]"
proof -
  have o: "map_of (open_files demo_fs) 7 = Some \<lparr>of_file = 0, of_append_pos = 0\<rparr>" by (simp add: demo_fs_def)
  have c: "file_content demo_fs 0 = []" by (simp add: file_content_def demo_fobj)
  have "calls_ok demo_io (unat (File_file_size demo_fs 0))" by (simp add: layout_consts)
  from session_refines [OF demo_ready this o of_file0] demo_io_room [OF c] obtain t where
    "code_run 7 demo_io demo_fs = Some (fst (spec_run demo_io []), t)" "file_content t 0 = snd (spec_run demo_io [])"
    unfolding c by blast
  moreover have "spec_run demo_io [] = ([Written 2, Got [1, 2], Written 1], [1, 9])"
    by (simp add: spec_write_def spec_read_def)
  ultimately show ?thesis by auto
qed

text \<open>
  C4. \<open>PwriteFile\<close> on an open file: on a formatted device without I/O errors the call is
  never undefined. It fails with -1 only when the file has to grow and there is no room, and
  otherwise returns the requested length; then the file has the size of the larger of its old
  size and the end of the request, the bytes addressed are those of the buffer, every other byte
  of the old contents is unchanged, and the file system is again in a consistent state.
\<close>

theorem PwriteFile_contents:
  assumes "map_of (open_files s) fd = Some x" and "ready s (of_file x)" and "sz \<noteq> 0"
    and "length buf = unat sz" and "unat off + unat sz \<le> unat kBlockFsMaxUDiskSize"
  shows "\<exists>r t. PwriteFile fd buf sz off s = Some (r, t)
     \<and> (r = - 1 \<and> unat (File_file_size s (of_file x)) < unat off + unat sz
          \<and> \<not> can_grow s (of_file x) (unat off + unat sz)
       \<or> r = int (unat sz) \<and> fs_ok t \<and> file_wf t (of_file x)
         \<and> unat (File_file_size t (of_file x)) = max (unat (File_file_size s (of_file x))) (unat off + unat sz)
         \<and> (\<forall>i \<in> {unat off..<unat off + unat sz}. file_byte t (of_file x) i = buf ! (i - unat off))
         \<and> (\<forall>i < unat (File_file_size s (of_file x)). i \<notin> {unat off..<unat off + unat sz}
              \<longrightarrow> file_byte t (of_file x) i = file_byte s (of_file x) i))"
  using pwrite_file [OF assms(2-5), of fd]
  by (auto simp: PwriteFile_def GetOpenFile_some [OF assms(1)])

lemma demo_open: "map_of (open_files demo_fs) 7 = Some \<lparr>of_file = 0, of_append_pos = 0\<rparr>"
  by (simp add: demo_fs_def)

lemma demo_can_grow: "can_grow demo_fs 0 (unat (4194303::u64) + unat (3::u64))"
  by (simp add: can_grow_def demo_fobj) (simp add: demo_fs_def demo_dev_def ceil_blocks_def)

lemma demo_ready7: "ready demo_fs (of_file \<lparr>of_file = 0, of_append_pos = 0\<rparr>)"
  using demo_ready by simp

lemma demo_request: "(3::u64) \<noteq> 0" "length [1, 2, 3 :: u8] = unat (3::u64)"
  "unat (4194303::u64) + unat (3::u64) \<le> unat kBlockFsMaxUDiskSize"
  by (simp_all add: layout_consts)

theorem PwriteFile_contents_witness:
  "\<exists>t. PwriteFile 7 [1, 2, 3] 3 4194303 demo_fs = Some (3, t) \<and> file_byte t 0 4194304 = 2"
proof -
  obtain r t where t: "PwriteFile 7 [1, 2, 3] 3 4194303 demo_fs = Some (r, t)" "r = int (unat (3::u64))"
    "\<forall>i \<in> {unat (4194303::u64)..<unat (4194303::u64) + unat (3::u64)}. file_byte t 0 i = [1, 2, 3] ! (i - unat (4194303::u64))"
    using PwriteFile_contents [OF demo_open demo_ready7 demo_request] demo_can_grow
    unfolding OpenFile.simps by blast
  have "file_byte t 0 4194304 = 2" using bspec [OF t(3), of 4194304] by simp
  then show ?thesis using t by simp
qed

text \<open>
  Round trip through two descriptors of one file: when \<open>PwriteFile\<close> on one descriptor
  returns the length of its buffer, \<open>PreadFile\<close> of the same range on any descriptor of that file
  returns exactly the buffer.
\<close>

theorem PwriteFile_PreadFile:
  assumes "map_of (open_files s) fd = Some x" and "ready s (of_file x)" and "sz \<noteq> 0"
    and "length buf = unat sz" and "unat off + unat sz \<le> unat kBlockFsMaxUDiskSize"
    and "can_grow s (of_file x) (unat off + unat sz)"
    and "map_of (open_files s) fd2 = Some y" and "of_file y = of_file x" and "length out = unat sz"
  shows "\<exists>t u. PwriteFile fd buf sz off s = Some (int (unat sz), t)
     \<and> PreadFile fd2 sz off out t = Some ((int (unat sz), buf), u)"
  by (rule pwrite_pread [OF assms])

theorem PwriteFile_PreadFile_witness:
  "\<exists>t u. PwriteFile 7 [1, 2, 3] 3 4194303 demo_fs = Some (3, t)
     \<and> PreadFile 7 3 4194303 [0, 0, 0] t = Some ((3, [1, 2, 3]), u)"
proof -
  have g: "can_grow demo_fs (of_file \<lparr>of_file = 0, of_append_pos = 0\<rparr>) (unat (4194303::u64) + unat (3::u64))"
    using demo_can_grow by simp
  have "length [0, 0, 0 :: u8] = unat (3::u64)" by simp
  from PwriteFile_PreadFile [OF demo_open demo_ready7 demo_request g demo_open refl this] show ?thesis by simp
qed

text \<open>
  C14. \<open>PreadFile\<close> inside the file returns the bytes of the file, cut off at the end of the file,
  leaves the rest of the caller's buffer alone and changes nothing on the device.
\<close>

theorem PreadFile_contents:
  assumes "map_of (open_files s) fd = Some x" and "fs_ok s" and "file_wf s (of_file x)" and "sz \<noteq> 0"
    and "off < File_file_size s (of_file x)" and "unat off + unat sz < 2 ^ 64" and "unat sz \<le> length buf"
    and "n = min (unat sz) (unat (File_file_size s (of_file x)) - unat off)"
  shows "\<exists>t. PreadFile fd sz off buf s =
       Some ((int n, map (file_byte s (of_file x)) [unat off..<unat off + n] @ drop n buf), t)
     \<and> k_disk (kern t) = k_disk (kern s)"
  using pread_file [OF assms(2-8), of fd] GetOpenFile_some [OF assms(1)]
  by (auto simp: PreadFile_def add_append_pos_def)

theorem PreadFile_contents_witness:
  "\<exists>t. PreadFile 8 2 0 [5, 6] demo_fs1 = Some ((1, [file_byte demo_fs1 1 0, 6]), t)"
  using PreadFile_contents [OF demo1_open(2) demo1_ok(1), of 2 0 "[5, 6]" 1] demo1_file1 by auto

text \<open>
  C7. Isolation: a successful \<open>PwriteFile\<close> to one file, growing or not, changes neither the list of
  blocks nor a single byte of any block of another file.
\<close>

theorem PwriteFile_isolated:
  assumes "map_of (open_files s) fd = Some x" and "ready s (of_file x)" and "sz \<noteq> 0"
    and "length buf = unat sz" and "unat off + unat sz \<le> unat kBlockFsMaxUDiskSize"
    and "file_wf s g" and "apart s (of_file x) g"
    and "PwriteFile fd buf sz off s = Some (r, t)" and "0 \<le> r"
  shows "file_ids t g = file_ids s g
     \<and> (\<forall>i < length (file_ids s g) * 4194304. file_byte t g i = file_byte s g i)"
proof -
  have w: "OpenFile_pwrite fd (of_file x) buf sz off s = Some (r, t)"
    using assms(8) by (simp add: PwriteFile_def GetOpenFile_some [OF assms(1)])
  show ?thesis using pwrite_others [OF assms(2-7) w assms(9)] by blast
qed

theorem PwriteFile_isolated_witness:
  "\<exists>t. PwriteFile 7 [1, 2, 3] 3 0 demo_fs1 = Some (3, t) \<and> file_ids t 1 = [3]
     \<and> file_byte t 1 0 = file_byte demo_fs1 1 0"
proof -
  have req: "(3::u64) \<noteq> 0" "length [1, 2, 3 :: u8] = unat (3::u64)"
    "unat (0::u64) + unat (3::u64) \<le> unat kBlockFsMaxUDiskSize"
    by (simp_all add: layout_consts)
  obtain t where t: "OpenFile_pwrite 7 0 [1, 2, 3] 3 0 demo_fs1 = Some (3, t)"
    using pwrite_file [OF demo1_ready req, of 7] demo1_can_grow by auto
  then have w: "PwriteFile 7 [1, 2, 3] 3 0 demo_fs1 = Some (3, t)"
    by (simp add: PwriteFile_def GetOpenFile_some [OF demo1_open(1)])
  have ids: "file_ids demo_fs1 1 = [3]" by (simp add: file_ids_def demo1_items demo1_owned)
  have "ready demo_fs1 (of_file \<lparr>of_file = 0, of_append_pos = 0\<rparr>)"
    "apart demo_fs1 (of_file \<lparr>of_file = 0, of_append_pos = 0\<rparr>) 1"
    using demo1_ready demo1_apart by simp_all
  from PwriteFile_isolated [OF demo1_open(1) this(1) req demo1_file1(2) this(2) w] w ids
  show ?thesis by simp
qed

section \<open>Growing a file\<close>

text \<open>
  C8. \<open>ExtendFile\<close> is safe whatever its arguments and whatever the device does: from a state in
  which every block has one owner it never dereferences a null pointer or leaves an array, it
  returns 0 or -1, and every block still has at most one owner.
\<close>

theorem ExtendFile_safe:
  assumes "blocks_exclusive s" and "items_used s f"
  shows "\<exists>r t. ExtendFile f off s = Some (r, t) \<and> (r = 0 \<or> r = - 1) \<and> blocks_exclusive t"
  using ExtendFile_defined [OF assms(1)] ExtendFile_ret [OF assms] ExtendFile_exclusive [OF assms] by metis

theorem ExtendFile_safe_witness:
  "\<exists>r t. ExtendFile 0 4194305 demo_fs = Some (r, t) \<and> blocks_exclusive t"
  using ExtendFile_safe [OF demo_exclusive, of 0 4194305] by (auto simp: items_used_def demo_fobj)

text \<open>
  C15. Growing succeeds whenever there is room, on a device without I/O errors: the file then
  has exactly the new size and the blocks it calls for, the old blocks first and in order, so no
  byte of the file moves.
\<close>

theorem ftruncate_grows:
  assumes "ready s f" and "File_file_size s f < off" and "off \<le> kBlockFsMaxUDiskSize" and "can_grow s f (unat off)"
  shows "\<exists>t. ftruncate f off s = Some (0, t) \<and> File_file_size t f = off \<and> file_wf t f
     \<and> length (file_ids t f) = ceil_blocks (unat off) \<and> take (length (file_ids s f)) (file_ids t f) = file_ids s f"
proof -
  have r: "fs_ok s" "file_wf s f" "File_fh s f < 100000" "fbs_in_range s f" using assms(1) by (simp_all add: ready_def)
  then have fm: "formatted s" "io_ok s" "blocks_exclusive s" "data_ok s" by (simp_all add: fs_ok_def)
  have "675282944 \<le> unat (dev_size (dev s))" using fm(1,4) by (auto simp: data_ok_def formatted_fields)
  from ExtendFile_succeeds [OF fm(1-3) r(2-4) assms(2,3) this assms(4)] obtain t where
    t: "ExtendFile f off s = Some (0, t)" by blast
  then show ?thesis
    using ExtendFile_extends [OF fm(3) r(2) assms(2,3) t] assms(2) by (simp add: ftruncate_def)
qed

theorem ftruncate_grows_witness:
  "\<exists>t. ftruncate 0 4194305 demo_fs = Some (0, t) \<and> length (file_ids t 0) = 2"
proof -
  have "can_grow demo_fs 0 (unat (4194305::u64))"
    by (simp add: can_grow_def demo_fobj) (simp add: demo_fs_def demo_dev_def ceil_blocks_def)
  moreover have "File_file_size demo_fs 0 < 4194305" "4194305 \<le> kBlockFsMaxUDiskSize" by (simp_all add: demo_fobj layout_consts)
  moreover have "ceil_blocks (unat (4194305::u64)) = 2" by (simp add: ceil_blocks_def)
  ultimately show ?thesis using ftruncate_grows [OF demo_ready, of 4194305] by auto
qed

text \<open>
  C13. The block splitting of \<open>ReadData\<close> and \<open>WriteData\<close> agrees with byte-wise addressing: inside
  the file the loop ends without leaving the block table, and its segments, taken byte by byte,
  are the request in order, each byte at the device address of its file position.
\<close>

theorem split_blocks_bytewise:
  assumes "fs_ok s" and "file_wf s f" and "sz \<noteq> 0" and "unat off + unat sz \<le> unat (File_file_size s f)"
  shows "\<exists>fb bs. GetFileBlock s f 0 = Some fb
     \<and> split_blocks s fb sz (ucast (off div kBlockSize)) (off mod kBlockSize) 0 = Some bs
     \<and> concat (map (\<lambda>b. map (\<lambda>j. (unat (bd_buffer b) + j, unat (bd_dev_offset b) + j)) [0..<unat (bd_size b)]) bs)
       = map (\<lambda>i. (i, file_pos s (file_ids s f) (unat off + i))) [0..<unat sz]"
proof -
  obtain fb bs where "GetFileBlock s f 0 = Some fb"
    "split_blocks s fb sz (ucast (off div kBlockSize)) (off mod kBlockSize) 0 = Some bs"
    "segs_ok s (file_ids s f) (unat off) (unat sz) 0 bs"
    using file_split [OF assms] by metis
  then show ?thesis using segs_cover by blast
qed

theorem split_blocks_bytewise_witness:
  "\<exists>fb bs. GetFileBlock demo_fs1 1 0 = Some fb \<and> split_blocks demo_fs1 fb 1 (ucast (0 div kBlockSize)) (0 mod kBlockSize) 0 = Some bs"
  using split_blocks_bytewise [OF demo1_ok demo1_file1(2), of 1 0] demo1_file1(1) by auto

text \<open>
  C18. Giving back a file block: exactly the blocks it lists return to the pool, it owns none
  afterwards, no other file block loses or gains one, and every block still has one owner.
\<close>

theorem ReleaseAll_returns_blocks:
  assumes "blocks_exclusive s" and "fb_used (bmetas s fb)" and "ReleaseAll fb s = Some (ok, t)"
  shows "blocks_exclusive t \<and> fb_owned t fb = [] \<and> (\<forall>i. i \<noteq> fb \<longrightarrow> fb_owned t i = fb_owned s i)
     \<and> set (block_id_pool (block_handle t)) = set (fb_owned s fb) \<union> set (block_id_pool (block_handle s))"
  using ReleaseAll_blocks(1-4) [OF assms] by blast

theorem ReleaseAll_returns_blocks_witness:
  "\<exists>ok t. ReleaseAll 9 demo_fs1 = Some (ok, t) \<and> 3 \<in> set (block_id_pool (block_handle t))"
proof -
  have u: "fb_used (bmetas demo_fs1 9)" "fb_used_block_num (bmetas demo_fs1 9) = 1" by (simp_all add: demo_fs1_def)
  obtain ok t where r: "ReleaseAll 9 demo_fs1 = Some (ok, t)"
  proof -
    obtain ids where i: "used_block_ids demo_fs1 9 = Some ids" using u(2) by (simp add: used_block_ids_def)
    obtain v w where p: "fs_PutFreeBlockIdLock ids demo_fs1 = (v, w)" by (meson surj_pair)
    obtain ok z where q: "FileBlock_WriteMeta 9 (upd_bmeta 9 FileBlock_ClearMeta w) = (ok, z)" by (meson surj_pair)
    show thesis
    proof (cases ok)
      case True
      then show thesis using that [of True "PutFileBlockLock 9 z"] by (simp add: ReleaseAll_def i p q Let_def)
    next
      case False
      then show thesis using that [of False z] by (simp add: ReleaseAll_def i p q Let_def)
    qed
  qed
  then show ?thesis using ReleaseAll_returns_blocks [OF demo1_exclusive u(1) r] demo1_owned [of 9] by auto
qed

section \<open>Where a failure is not reported\<close>

text \<open>
  C33. FUSE \<open>open\<close> reports success for a path that names nothing: the handler returns 0 and
  stores the descriptor -1; only a later call on it fails.
\<close>

theorem mfs_open_hides_ENOENT:
  assumes "GetCreatedDirectory p s = (None, s)" and "GetCreatedFile p s = (None, t)"
    and "fl AND O_CREAT = 0" and "fl AND O_TMPFILE = 0" and "map_of (open_files s) (- 1) = None"
  shows "\<exists>u. mfs_open (Some p) fl s = Some ((0, Some (- 1)), u) \<and> open_files u = open_files s
     \<and> (\<exists>v. mfs_read p buf len off (Some (- 1)) u = Some ((- ENOENT, buf), v))"
proof -
  have "open_file p fl s = Some (None, set_errno ENOENT t)"
    using assms(1-4) by (simp add: open_file_def IsNeedCreateTempFile_def)
  then have "FileHandle_open p fl s = Some (- 1, set_errno ENOENT t)" by (simp add: FileHandle_open_def)
  moreover have o: "open_files (set_errno ENOENT t) = open_files s"
    using GetCreatedFile_errno [OF assms(2)] by (auto simp: set_errno_def)
  moreover have "GetOpenFile (- 1) (set_errno ENOENT t) = (None, set_errno EBADF (set_errno ENOENT t))"
    using o assms(5) by (simp add: GetOpenFile_def)
  then have "\<exists>v. mfs_read p buf len off (Some (- 1)) (set_errno ENOENT t) = Some ((- ENOENT, buf), v)"
    by (simp add: mfs_read_def fuse_fd_def fuse_close_def PreadFile_def to_int_def Let_def set_errno_def)
  ultimately show ?thesis by (simp add: mfs_open_def)
qed

theorem mfs_open_hides_ENOENT_witness:
  "\<exists>u. mfs_open (Some ''/q'') O_RDWR demo_fs = Some ((0, Some (- 1)), u)"
proof -
  have p: "dir_path ''/''" "plain_name ''q''" by (simp_all add: dir_path_def plain_name_def)
  have m: "map_of (created_dirs demo_fs) ''/q/'' = None" "map_of (created_files demo_fs) (0, ''q'') = None"
    "map_of (open_files demo_fs) (- 1) = None"
    by (simp_all add: demo_fs_def)
  have d: "GetCreatedDirectory ''/q'' demo_fs = (None, demo_fs)"
    using m(1) by (simp add: GetCreatedDirectory_def DirHandle_TransformPath_def ends_with_slash_def layout_consts)
  have f: "GetCreatedFile ''/q'' demo_fs = (None, set_errno ENOENT demo_fs)"
    using FileHandle_TransformPath_path [OF p, of demo_fs] GetCreatedDirectory_path [OF p(1), of demo_fs] demo_dobj(1) [of 0]
      demo_tables(1) m(2)
    by (simp add: GetCreatedFile_def GetCreatedFile_key_def)
  show ?thesis
    using mfs_open_hides_ENOENT [OF d f _ _ m(3), where fl = O_RDWR and buf = "[]" and len = 0 and off = 0] by auto
qed

end
